(* ===== verification/Prelude.thy ===== *)
theory Prelude
  imports Main "HOL-Library.Multiset"
begin

text \<open>
  Shared infrastructure of the development: the thrown errors of the daemon and the
  operations that may throw them (a state transformer whose result is a sum), the
  collections of rewrite rules the component theories add to, a reusable interface for
  "an invariant of a transition system", and generic facts on lists and maps.
\<close>

section \<open>Collections\<close>

named_theorems op_simps \<open>one-step rewriting of operations that may throw\<close>
named_theorems inv_intros \<open>preservation of the invariants of the components\<close>

section \<open>Operations that change a state and may throw\<close>

text \<open>
  One constructor per error the modelled code throws or lets through: a missing file
  (\<open>ENOENT\<close>), a \<open>SyntaxError\<close> of \<open>JSON.parse\<close>, a \<open>TypeError\<close> of a property access on \<open>null\<close>, and the \<open>Error\<close>s
  built in the source.
\<close>

datatype failure =
    ENOENT
  | SyntaxFailure
  | SymlinkFailure string
  | InvalidSessionId string
  | InvalidFilename string
  | InvalidSpoolId string
  | InvalidSortId
  | DuplicateEventId
  | EpochMismatch
  | ChunkSizeInvalid
  | TypeFailure

type_synonym ('s, 'a) op = "'s \<Rightarrow> (failure + 'a) \<times> 's"

definition ret :: "'a \<Rightarrow> ('s, 'a) op" where
  "ret x = (\<lambda>s. (Inr x, s))"

definition throw :: "failure \<Rightarrow> ('s, 'a) op" where
  "throw e = (\<lambda>s. (Inl e, s))"

text \<open>\<open>andThen m f\<close> is \<open>const x = await m; f(x)\<close>: an error of \<open>m\<close> leaves the rest out.\<close>

definition andThen :: "('s, 'a) op \<Rightarrow> ('a \<Rightarrow> ('s, 'b) op) \<Rightarrow> ('s, 'b) op" where
  "andThen m f = (\<lambda>s. case m s of (Inl e, t) \<Rightarrow> (Inl e, t) | (Inr x, t) \<Rightarrow> f x t)"

definition readState :: "('s \<Rightarrow> 'a) \<Rightarrow> ('s, 'a) op" where
  "readState f = (\<lambda>s. (Inr (f s), s))"

definition updateState :: "('s \<Rightarrow> 's) \<Rightarrow> ('s, unit) op" where
  "updateState f = (\<lambda>s. (Inr (), f s))"

lemma ret_apply [simp, op_simps]: "ret x s = (Inr x, s)"
  by (simp add: ret_def)

lemma throw_apply [simp, op_simps]: "throw e s = (Inl e, s)"
  by (simp add: throw_def)

lemma readState_apply [simp, op_simps]: "readState f s = (Inr (f s), s)"
  by (simp add: readState_def)

lemma updateState_apply [simp, op_simps]: "updateState f s = (Inr (), f s)"
  by (simp add: updateState_def)

lemma andThen_Inr [simp, op_simps]: "m s = (Inr x, t) \<Longrightarrow> andThen m f s = f x t"
  by (simp add: andThen_def)

lemma andThen_Inl [simp, op_simps]: "m s = (Inl e, t) \<Longrightarrow> andThen m f s = (Inl e, t)"
  by (simp add: andThen_def)

lemma andThen_cases:
  assumes "andThen m f s = (r, u)"
  obtains (thrown) e where "m s = (Inl e, u)" "r = Inl e"
  | (returned) x t where "m s = (Inr x, t)" "f x t = (r, u)"
proof (cases "m s")
  case (Pair q t)
  show ?thesis
  proof (cases q)
    case (Inl e)
    with Pair assms show ?thesis by (intro thrown [of e]) auto
  next
    case (Inr x)
    with Pair assms show ?thesis by (intro returned [of x t]) auto
  qed
qed

text \<open>
  An operation keeps a predicate on states when it does so whatever it returns and
  whether or not it throws. The rules below make such facts compose.
\<close>

definition keeps :: "('s \<Rightarrow> bool) \<Rightarrow> ('s, 'a) op \<Rightarrow> bool" where
  "keeps P m \<longleftrightarrow> (\<forall>s. P s \<longrightarrow> P (snd (m s)))"

lemma keepsI [intro]: "(\<And>s. P s \<Longrightarrow> P (snd (m s))) \<Longrightarrow> keeps P m"
  by (simp add: keeps_def)

lemma keepsD: "keeps P m \<Longrightarrow> P s \<Longrightarrow> P (snd (m s))"
  by (simp add: keeps_def)

lemma keeps_ret [inv_intros]: "keeps P (ret x)"
  by (simp add: keeps_def)

lemma keeps_throw [inv_intros]: "keeps P (throw e)"
  by (simp add: keeps_def)

lemma keeps_readState [inv_intros]: "keeps P (readState f)"
  by (simp add: keeps_def)

lemma keeps_andThen [inv_intros]:
  assumes "keeps P m" "\<And>x. keeps P (f x)"
  shows "keeps P (andThen m f)"
proof
  fix s
  assume "P s"
  show "P (snd (andThen m f s))"
  proof (cases "m s")
    case (Pair q t)
    with assms(1) \<open>P s\<close> have "P t" by (auto simp: keeps_def dest: spec [of _ s])
    with Pair assms(2) show ?thesis
      by (cases q) (auto simp: keeps_def)
  qed
qed

section \<open>Invariants of transition systems\<close>

text \<open>
  The interface every state machine of the development offers: an initial-state
  predicate, a step relation and an invariant that holds at the start and is kept by
  every step. The client's facts are proved once here.
\<close>

locale transition_system =
  fixes init :: "'s \<Rightarrow> bool"
    and step :: "'s \<Rightarrow> 's \<Rightarrow> bool"
    and invariant :: "'s \<Rightarrow> bool"
  assumes init_inv: "init s \<Longrightarrow> invariant s"
    and step_inv: "invariant s \<Longrightarrow> step s t \<Longrightarrow> invariant t"
begin

lemma steps_inv: "step\<^sup>*\<^sup>* s t \<Longrightarrow> invariant s \<Longrightarrow> invariant t"
  by (induction rule: rtranclp_induct) (auto intro: step_inv)

lemma reachable_inv: "init s \<Longrightarrow> step\<^sup>*\<^sup>* s t \<Longrightarrow> invariant t"
  by (blast intro: steps_inv init_inv)

lemma reachable_extend: "init s \<Longrightarrow> step\<^sup>*\<^sup>* s t \<Longrightarrow> step t u \<Longrightarrow> step\<^sup>*\<^sup>* s u"
  by (rule rtranclp.rtrancl_into_rtrancl)

end

section \<open>Lists and maps\<close>

lemma length_dropWhile_Cons: "length (dropWhile P xs) < length (x # xs)"
  by (simp add: less_Suc_eq_le length_dropWhile_le)

lemma dropWhile_hd: "\<not> P (hd xs) \<Longrightarrow> dropWhile P xs = xs"
  by (cases xs) auto

lemma map_upt_Suc_snoc: "map f [1..<n + 2] = map f [1..<n + 1] @ [f (n + 1)]"
  by simp

lemma distinct_snoc_iff: "distinct (xs @ [x]) \<longleftrightarrow> distinct xs \<and> x \<notin> set xs"
  by auto

lemma foldl_max_upt: "foldl max (0::nat) [1..<n + 1] = n"
  by (induction n) auto

lemma foldl_max_upt_from: "foldl max n [1..<k + 1] = max n (k::nat)"
  by (induction k) auto

lemma foldl_max_ge: "x \<in> set xs \<Longrightarrow> x \<le> foldl max (m::nat) xs"
proof (induction xs arbitrary: m)
  case (Cons y ys)
  have "k \<le> foldl max k ys" for k :: nat
    by (induction ys arbitrary: k) (auto, metis max.bounded_iff)
  with Cons show ?case by (auto, metis max.bounded_iff)
qed simp

end
