(* ===== verification/Js_Text.thy ===== *)
theory Js_Text
  imports Prelude
begin

text \<open>
  JavaScript strings and the string operations of the standard library that the source
  uses. A JavaScript string is represented by the bytes of its UTF-8 encoding (a lone
  surrogate by the three bytes of its generalised encoding), so every string the code
  can hold has a representation, \<open>TextEncoder\<close> and \<open>Buffer.from\<close> are the identity on it,
  and the \<open>length\<close> property (UTF-16 code units) is the function \<open>js_length\<close> below.
  The regular expressions of the source look at ASCII characters only; a byte above 127
  never matches one of their classes.
\<close>

section \<open>Characters\<close>

abbreviation code :: "char \<Rightarrow> nat" where "code \<equiv> of_char"

definition is_upper :: "char \<Rightarrow> bool" where
  "is_upper c \<longleftrightarrow> 65 \<le> code c \<and> code c \<le> 90"

definition is_lower :: "char \<Rightarrow> bool" where
  "is_lower c \<longleftrightarrow> 97 \<le> code c \<and> code c \<le> 122"

definition is_digit :: "char \<Rightarrow> bool" where
  "is_digit c \<longleftrightarrow> 48 \<le> code c \<and> code c \<le> 57"

definition is_alnum :: "char \<Rightarrow> bool" where
  "is_alnum c \<longleftrightarrow> is_upper c \<or> is_lower c \<or> is_digit c"

definition is_hex_lower :: "char \<Rightarrow> bool" where
  "is_hex_lower c \<longleftrightarrow> is_digit c \<or> (97 \<le> code c \<and> code c \<le> 102)"

text \<open>\<open>toLowerCase\<close> on an ASCII character sets bit 5 of an upper-case letter.\<close>

fun ascii_lower :: "char \<Rightarrow> char" where
  "ascii_lower (Char b0 b1 b2 b3 b4 b5 b6 b7) =
     (if is_upper (Char b0 b1 b2 b3 b4 b5 b6 b7)
      then Char b0 b1 b2 b3 b4 True b6 b7 else Char b0 b1 b2 b3 b4 b5 b6 b7)"

fun ascii_upper :: "char \<Rightarrow> char" where
  "ascii_upper (Char b0 b1 b2 b3 b4 b5 b6 b7) =
     (if is_lower (Char b0 b1 b2 b3 b4 b5 b6 b7)
      then Char b0 b1 b2 b3 b4 False b6 b7 else Char b0 b1 b2 b3 b4 b5 b6 b7)"

lemmas char_class_defs = is_upper_def is_lower_def is_digit_def is_alnum_def is_hex_lower_def

lemma code_ascii_lower:
  "code (ascii_lower c) = (if is_upper c then code c + 32 else code c)"
  by (cases c) (auto simp: is_upper_def of_char_def)

lemma ascii_lower_not_upper: "\<not> is_upper (ascii_lower c)"
  by (auto simp: is_upper_def code_ascii_lower)

lemma ascii_lower_id: "\<not> is_upper c \<Longrightarrow> ascii_lower c = c"
  by (cases c) auto

lemma ascii_lower_idem [simp]: "ascii_lower (ascii_lower c) = ascii_lower c"
  by (simp add: ascii_lower_id ascii_lower_not_upper)

lemma alnum_ascii_lower:
  "is_alnum c \<Longrightarrow> is_lower (ascii_lower c) \<or> is_digit (ascii_lower c)"
  by (auto simp: char_class_defs code_ascii_lower)

lemma alnum_ascii_lower_iff: "is_alnum (ascii_lower c) \<longleftrightarrow> is_alnum c"
  by (auto simp: char_class_defs code_ascii_lower)

section \<open>Lengths\<close>

text \<open>UTF-16 code units: one per encoded character, two for a four-byte one.\<close>

fun js_length :: "string \<Rightarrow> nat" where
  "js_length [] = 0"
| "js_length (c # cs) =
     (if code c < 128 then 1 else if code c < 192 then 0 else if code c < 240 then 1 else 2)
       + js_length cs"

text \<open>\<open>new TextEncoder().encode(s).byteLength\<close>\<close>

definition byte_length :: "string \<Rightarrow> nat" where
  "byte_length s = length s"

lemma js_length_append [simp]: "js_length (s @ t) = js_length s + js_length t"
  by (induction s) auto

lemma js_length_ascii: "list_all (\<lambda>c. code c < 128) s \<Longrightarrow> js_length s = length s"
  by (induction s) auto

text \<open>
  A lead byte of a four-byte character counts two units, so a string of \<open>n\<close> bytes
  never has more than \<open>2 * n\<close> units; on well-formed text it has at most \<open>n\<close>.
\<close>

lemma js_length_le: "js_length s \<le> 2 * length s"
  by (induction s) auto

section \<open>Searching, splitting, joining\<close>

fun starts_with :: "string \<Rightarrow> string \<Rightarrow> bool" where
  "starts_with s [] = True"
| "starts_with [] (p # ps) = False"
| "starts_with (c # cs) (p # ps) = (c = p \<and> starts_with cs ps)"

definition ends_with :: "string \<Rightarrow> string \<Rightarrow> bool" where
  "ends_with s p \<longleftrightarrow> length p \<le> length s \<and> drop (length s - length p) s = p"

fun includes_text :: "string \<Rightarrow> string \<Rightarrow> bool" where
  "includes_text [] p = (p = [])"
| "includes_text (c # cs) p = (starts_with (c # cs) p \<or> includes_text cs p)"

lemma starts_with_iff: "starts_with s p \<longleftrightarrow> (\<exists>r. s = p @ r)"
  by (induction s p rule: starts_with.induct) auto

lemma starts_with_append [simp]: "starts_with (p @ r) p"
  by (simp add: starts_with_iff)

lemma starts_with_drop: "starts_with s p \<Longrightarrow> s = p @ drop (length p) s"
  by (auto simp: starts_with_iff)

lemma ends_with_iff: "ends_with s p \<longleftrightarrow> (\<exists>r. s = r @ p)"
  by (auto simp: ends_with_def) (metis append_take_drop_id)

text \<open>\<open>s.split(sep)\<close> for a one-character separator, and \<open>parts.join(sep)\<close>.\<close>

fun split_on :: "char \<Rightarrow> string \<Rightarrow> string list" where
  "split_on d [] = [[]]"
| "split_on d (c # cs) =
     (if c = d then [] # split_on d cs
      else case split_on d cs of [] \<Rightarrow> [[c]] | p # ps \<Rightarrow> (c # p) # ps)"

fun join_with :: "string \<Rightarrow> string list \<Rightarrow> string" where
  "join_with sep [] = []"
| "join_with sep [p] = p"
| "join_with sep (p # q # ps) = p @ sep @ join_with sep (q # ps)"

lemma split_on_not_Nil [simp]: "split_on d s \<noteq> []"
  by (induction s) (auto split: list.splits)

lemma split_on_no_sep: "d \<notin> set s \<Longrightarrow> split_on d s = [s]"
  by (induction s) auto

lemma split_on_append_sep: "d \<notin> set p \<Longrightarrow> split_on d (p @ d # s) = p # split_on d s"
  by (induction p) auto

lemma split_on_parts: "p \<in> set (split_on d s) \<Longrightarrow> d \<notin> set p"
  by (induction s arbitrary: p) (auto split: if_splits list.splits)

lemma join_split: "join_with [d] (split_on d s) = s"
proof (induction s)
  case (Cons c cs)
  then show ?case
    by (cases "split_on d cs"; cases "tl (split_on d cs)") (auto split: list.splits)
qed simp

lemma split_append_sep: "split_on d (x @ d # s) = split_on d x @ split_on d s"
  by (induction x) (auto split: list.splits)

lemma split_join_lines: "ls \<noteq> [] \<Longrightarrow> \<forall>l \<in> set ls. d \<notin> set l \<Longrightarrow> split_on d (join_with [d] ls) = ls"
  by (induction "[d]" ls rule: join_with.induct) (auto simp: split_on_no_sep split_on_append_sep)

lemma join_with_Cons: "ps \<noteq> [] \<Longrightarrow> join_with sep (p # ps) = p @ sep @ join_with sep ps"
  by (cases ps) simp_all

lemma join_with_append: "ps \<noteq> [] \<Longrightarrow> qs \<noteq> [] \<Longrightarrow> join_with sep (ps @ qs) = join_with sep ps @ sep @ join_with sep qs"
proof (induction ps)
  case (Cons p ps)
  then show ?case by (cases "ps = []") (simp_all add: join_with_Cons)
qed simp

text \<open>Joining joined parts.\<close>

lemma join_with_concat: "\<forall>ws \<in> set wss. ws \<noteq> [] \<Longrightarrow> join_with sep (map (join_with sep) wss) = join_with sep (concat wss)"
proof (induction wss)
  case (Cons ws wss)
  then show ?case
    by (cases "wss = []") (simp_all add: join_with_Cons join_with_append)
qed simp

section \<open>Numbers as text\<close>

text \<open>Evaluation of list operations at numerals.\<close>

lemma replicate_numeral_unfold [simp]:
  "replicate (numeral k) x = x # replicate (pred_numeral k) x"
  by (simp add: numeral_eq_Suc)

definition digit_char :: "nat \<Rightarrow> char" where
  "digit_char n = ''0123456789'' ! n"

definition hex_char :: "nat \<Rightarrow> char" where
  "hex_char n = ''0123456789abcdef'' ! n"

text \<open>\<open>String(n)\<close> for a natural number.\<close>

fun nat_text :: "nat \<Rightarrow> string" where
  "nat_text n = (if n < 10 then [digit_char n] else nat_text (n div 10) @ [digit_char (n mod 10)])"

declare nat_text.simps [simp del]

definition digit_value :: "char \<Rightarrow> nat" where
  "digit_value c = code c - 48"

definition digits_value :: "string \<Rightarrow> nat" where
  "digits_value s = foldl (\<lambda>n c. 10 * n + digit_value c) 0 s"

lemma less_10_cases:
  "n < (10::nat) \<Longrightarrow> n = 0 \<or> n = 1 \<or> n = 2 \<or> n = 3 \<or> n = 4 \<or> n = 5 \<or> n = 6 \<or> n = 7 \<or> n = 8 \<or> n = 9"
  by arith

lemma code_digit_char: "n < 10 \<Longrightarrow> code (digit_char n) = 48 + n"
  by (drule less_10_cases) (auto simp: digit_char_def)

lemma is_digit_digit_char [simp]: "n < 10 \<Longrightarrow> is_digit (digit_char n)"
  by (simp add: is_digit_def code_digit_char)

lemma digit_value_digit_char [simp]: "n < 10 \<Longrightarrow> digit_value (digit_char n) = n"
  by (simp add: digit_value_def code_digit_char)

lemma digits_value_snoc [simp]: "digits_value (s @ [c]) = 10 * digits_value s + digit_value c"
  by (simp add: digits_value_def)

lemma digits_value_nat_text [simp]: "digits_value (nat_text n) = n"
proof (induction n rule: nat_text.induct)
  case (1 n)
  show ?case
  proof (cases "n < 10")
    case True
    then show ?thesis by (simp add: nat_text.simps [of n] digits_value_def)
  next
    case False
    with "1" show ?thesis by (subst nat_text.simps) (simp del: digits_value_snoc add: digits_value_snoc)
  qed
qed

lemma nat_text_digits: "list_all is_digit (nat_text n)"
proof (induction n rule: nat_text.induct)
  case (1 n)
  then show ?case by (subst nat_text.simps) (cases "n < 10", simp_all)
qed

lemma nat_text_digit_set: "c \<in> set (nat_text n) \<Longrightarrow> is_digit c"
  using nat_text_digits [of n] by (simp add: list_all_iff)

lemma nat_text_not_Nil [simp]: "nat_text n \<noteq> []"
  by (subst nat_text.simps) simp

lemma nat_text_inject [simp]: "nat_text m = nat_text n \<longleftrightarrow> m = n"
  by (metis digits_value_nat_text)

section \<open>Decoding bytes\<close>

text \<open>
  \<open>buffer.toString("utf8")\<close>: well-formed sequences stay, every maximal ill-formed one becomes
  the replacement character U+FFFD.
\<close>

definition continuation_byte :: "char \<Rightarrow> bool" where
  "continuation_byte c \<longleftrightarrow> 128 \<le> code c \<and> code c < 192"

definition replacement :: string where
  "replacement = [CHR 0xEF, CHR 0xBF, CHR 0xBD]"

text \<open>The bounds of the byte after a lead byte.\<close>

definition second_ok :: "char \<Rightarrow> char \<Rightarrow> bool" where
  "second_ok b c \<longleftrightarrow>
     (if code b = 224 then 160 else if code b = 240 then 144 else 128) \<le> code c
     \<and> code c \<le> (if code b = 237 then 159 else if code b = 244 then 143 else 191)"

function utf8_decode :: "string \<Rightarrow> string" where
  "utf8_decode [] = []"
| "utf8_decode (b # bs) =
     (if code b < 128 then b # utf8_decode bs
      else if code b < 194 \<or> 244 < code b then replacement @ utf8_decode bs
      else case bs of
        [] \<Rightarrow> replacement
      | c # cs \<Rightarrow>
          if \<not> second_ok b c then replacement @ utf8_decode (c # cs)
          else if code b < 224 then b # c # utf8_decode cs
          else (case cs of
              [] \<Rightarrow> replacement
            | d # ds \<Rightarrow>
                if \<not> continuation_byte d then replacement @ utf8_decode (d # ds)
                else if code b < 240 then b # c # d # utf8_decode ds
                else (case ds of
                    [] \<Rightarrow> replacement
                  | e # es \<Rightarrow>
                      if \<not> continuation_byte e then replacement @ utf8_decode (e # es)
                      else b # c # d # e # utf8_decode es)))"
  by pat_completeness auto
termination
  by (relation "measure length") auto

lemma utf8_decode_ascii: "list_all (\<lambda>c. code c < 128) s \<Longrightarrow> utf8_decode s = s"
  by (induction s) auto

section \<open>Positions of a byte\<close>

text \<open>\<open>indexOf\<close> and \<open>lastIndexOf\<close>, \<open>None\<close> for -1.\<close>

fun index_of :: "char \<Rightarrow> string \<Rightarrow> nat option" where
  "index_of x [] = None"
| "index_of x (c # cs) = (if c = x then Some 0 else map_option Suc (index_of x cs))"

definition last_index_of :: "char \<Rightarrow> string \<Rightarrow> nat option" where
  "last_index_of x s = map_option (\<lambda>i. length s - 1 - i) (index_of x (rev s))"

lemma index_of_None_iff: "index_of x s = None \<longleftrightarrow> x \<notin> set s"
  by (induction s) auto

lemma index_of_Some:
  "index_of x s = Some i \<Longrightarrow> i < length s \<and> s ! i = x \<and> x \<notin> set (take i s)"
proof (induction s arbitrary: i)
  case (Cons c cs)
  then show ?case by (cases i) (auto split: if_splits)
qed simp

lemma index_of_split: "index_of x s = Some i \<Longrightarrow> s = take i s @ x # drop (Suc i) s"
  using index_of_Some [of x s i] id_take_nth_drop [of i s] by auto

lemma index_of_append: "x \<notin> set p \<Longrightarrow> index_of x (p @ x # s) = Some (length p)"
  by (induction p) auto

lemma last_index_of_None_iff: "last_index_of x s = None \<longleftrightarrow> x \<notin> set s"
  by (simp add: last_index_of_def index_of_None_iff)

lemma last_index_of_Some:
  assumes "last_index_of x s = Some i"
  shows "i < length s \<and> s ! i = x \<and> x \<notin> set (drop (Suc i) s)"
proof -
  from assms obtain j where j: "index_of x (rev s) = Some j" and i: "i = length s - 1 - j"
    by (auto simp: last_index_of_def)
  from index_of_Some [OF j] have "j < length s" "rev s ! j = x" "x \<notin> set (take j (rev s))" by auto
  moreover have "take j (rev s) = rev (drop (length s - j) s)" by (rule take_rev)
  moreover have "Suc i = length s - j" using \<open>j < length s\<close> i by simp
  ultimately show ?thesis using i by (simp add: rev_nth)
qed

end
