(* ===== verification/Json.thy ===== *)
theory Json
  imports Js_Text
begin

text \<open>
  JSON values, \<open>JSON.stringify\<close> and \<open>JSON.parse\<close> of the JavaScript standard library, as
  far as the source uses them.

  A finite JavaScript number is represented by the decimal \<open>Dec m e\<close> (value \<open>m * 10 ^ e\<close>)
  that \<open>Number::toString\<close> prints for it: the shortest decimal that denotes the number,
  without trailing zeros in \<open>m\<close>. The map from numbers to their decimals is strictly
  monotone, so comparisons are comparisons of the decimals. The parser keeps every digit
  of a literal: on literals of up to 15 significant digits this is what the standard
  prescribes, beyond that the standard rounds to the nearest representable number and
  the model does not. Overflow to an infinity and underflow to zero are modelled.

  An object is the list of its entries in the order of \<open>Object.entries\<close>.
\<close>

section \<open>Values\<close>

datatype jsnum = Dec int int | Inf bool | NaN

datatype json =
    JNull
  | JBool bool
  | JNum jsnum
  | JStr string
  | JArr "json list"
  | JObj "(string \<times> json) list"

text \<open>\<open>Number.isFinite\<close>\<close>

fun is_finite :: "jsnum \<Rightarrow> bool" where
  "is_finite (Dec m e) = True"
| "is_finite _ = False"

text \<open>The comparison \<open>left <= right\<close> of finite numbers.\<close>

fun num_le :: "jsnum \<Rightarrow> jsnum \<Rightarrow> bool" where
  "num_le (Dec m e) (Dec m' e') =
     (m * 10 ^ nat (e - min e e') \<le> m' * 10 ^ nat (e' - min e e'))"
| "num_le (Inf a) (Inf b) = (a \<or> \<not> b)"
| "num_le (Inf a) (Dec m e) = a"
| "num_le (Dec m e) (Inf b) = (\<not> b)"
| "num_le _ _ = False"

text \<open>\<open>Number.isSafeInteger\<close>: an integer of magnitude at most \<open>2 ^ 53 - 1\<close>.\<close>

fun is_safe_integer :: "jsnum \<Rightarrow> bool" where
  "is_safe_integer (Dec m e) = (m = 0 \<or> (0 \<le> e \<and> e \<le> 16 \<and> \<bar>m\<bar> * 10 ^ nat e \<le> 9007199254740991))"
| "is_safe_integer _ = False"

fun int_of_num :: "jsnum \<Rightarrow> int" where
  "int_of_num (Dec m e) = m * 10 ^ nat e"
| "int_of_num _ = 0"

lemma div10_smaller:
  fixes m :: int
  assumes "m \<noteq> 0" "m mod 10 = 0"
  shows "\<bar>m div 10\<bar> < \<bar>m\<bar>"
proof -
  define k where "k = m div 10"
  have "m = 10 * k" using assms(2) by (auto simp: k_def)
  with assms(1) show ?thesis by (simp add: k_def [symmetric] abs_mult)
qed

function norm_dec :: "int \<Rightarrow> int \<Rightarrow> jsnum" where
  "norm_dec m e =
     (if m = 0 then Dec 0 0 else if m mod 10 = 0 then norm_dec (m div 10) (e + 1) else Dec m e)"
  by pat_completeness auto
termination
  by (relation "measure (\<lambda>(m, e). nat \<bar>m\<bar>)") (simp, simp add: div10_smaller)

declare norm_dec.simps [simp del]

definition num_of_int :: "int \<Rightarrow> jsnum" where
  "num_of_int i = norm_dec i 0"

text \<open>Property lookup \<open>raw.key\<close>, \<open>None\<close> for \<open>undefined\<close>.\<close>

definition field :: "string \<Rightarrow> (string \<times> json) list \<Rightarrow> json option" where
  "field k es = map_of es k"

text \<open>The names that every object has from \<open>Object.prototype\<close>.\<close>

definition prototype_keys :: "string list" where
  "prototype_keys = [''__proto__'', ''constructor'', ''hasOwnProperty'', ''isPrototypeOf'',
     ''propertyIsEnumerable'', ''toLocaleString'', ''toString'', ''valueOf'', ''__defineGetter__'',
     ''__defineSetter__'', ''__lookupGetter__'', ''__lookupSetter__'']"

text \<open>
  Property creation. A property that exists keeps its place; a new array-index key goes
  in ascending order before all other keys; any other new key goes last.
\<close>

definition is_index_key :: "string \<Rightarrow> bool" where
  "is_index_key k \<longleftrightarrow> k \<noteq> [] \<and> list_all is_digit k \<and> (k = ''0'' \<or> hd k \<noteq> CHR ''0'')
     \<and> digits_value k < 4294967295"

definition obj_put :: "(string \<times> json) list \<Rightarrow> string \<times> json \<Rightarrow> (string \<times> json) list" where
  "obj_put es kv =
     (let k = fst kv; before = (\<lambda>p. is_index_key (fst p) \<and> digits_value (fst p) < digits_value k)
      in if k \<in> fst ` set es then map (\<lambda>p. if fst p = k then kv else p) es
         else if is_index_key k then takeWhile before es @ kv # dropWhile before es
         else es @ [kv])"

section \<open>JSON.stringify\<close>

text \<open>\<open>Number::toString\<close> of ECMA-262 for radix 10, with \<open>k\<close> digits and point position \<open>n\<close>.\<close>

definition dec_text :: "int \<Rightarrow> int \<Rightarrow> string" where
  "dec_text m e =
     (if m = 0 then ''0''
      else let ds = nat_text (nat \<bar>m\<bar>); k = int (length ds); n = k + e
        in (if m < 0 then ''-'' else []) @
           (if k \<le> n \<and> n \<le> 21 then ds @ replicate (nat (n - k)) CHR ''0''
            else if 0 < n \<and> n \<le> 21 then take (nat n) ds @ ''.'' @ drop (nat n) ds
            else if -6 < n \<and> n \<le> 0 then ''0.'' @ replicate (nat (- n)) CHR ''0'' @ ds
            else (if k = 1 then ds else take 1 ds @ ''.'' @ drop 1 ds) @ ''e''
                   @ (if n - 1 < 0 then ''-'' else ''+'') @ nat_text (nat \<bar>n - 1\<bar>)))"

fun num_text :: "jsnum \<Rightarrow> string" where
  "num_text (Dec m e) = dec_text m e"
| "num_text _ = ''null''"

text \<open>
  \<open>QuoteJSONString\<close>: short escapes, \<open>\u00xx\<close> for other control characters, \<open>\udxxx\<close> for a
  lone surrogate, every other character as it is.
\<close>

definition short_escape :: "char \<Rightarrow> char option" where
  "short_escape c = map_of [(CHR 0x08, CHR ''b''), (CHR 0x09, CHR ''t''), (CHR 0x0A, CHR ''n''),
     (CHR 0x0C, CHR ''f''), (CHR 0x0D, CHR ''r''), (CHR 0x22, CHR 0x22), (CHR 0x5C, CHR 0x5C)] c"

fun escape_text :: "string \<Rightarrow> string" where
  "escape_text [] = []"
| "escape_text (c # cs) =
     (case short_escape c of
        Some x \<Rightarrow> CHR 0x5C # x # escape_text cs
      | None \<Rightarrow>
          if code c < 32
          then CHR 0x5C # ''u00'' @ [hex_char (code c div 16), hex_char (code c mod 16)]
                 @ escape_text cs
          else (case cs of
              d # e # ds \<Rightarrow>
                if code c = 237 \<and> 160 \<le> code d \<and> code d < 192
                then CHR 0x5C # ''ud'' @ [hex_char ((code d - 128) div 4),
                       hex_char ((code d mod 4) * 4 + (code e mod 64) div 16),
                       hex_char (code e mod 16)] @ escape_text ds
                else c # escape_text cs
            | _ \<Rightarrow> c # escape_text cs))"

definition quote_text :: "string \<Rightarrow> string" where
  "quote_text s = CHR 0x22 # escape_text s @ [CHR 0x22]"

fun json_text :: "json \<Rightarrow> string" where
  "json_text JNull = ''null''"
| "json_text (JBool b) = (if b then ''true'' else ''false'')"
| "json_text (JNum n) = num_text n"
| "json_text (JStr s) = quote_text s"
| "json_text (JArr xs) = ''['' @ join_with '','' (map json_text xs) @ '']''"
| "json_text (JObj es) =
     ''{'' @ join_with '','' (map (\<lambda>p. quote_text (fst p) @ '':'' @ json_text (snd p)) es) @ ''}''"

section \<open>JSON.parse\<close>

definition is_ws :: "char \<Rightarrow> bool" where
  "is_ws c \<longleftrightarrow> c = CHR 0x20 \<or> c = CHR 0x09 \<or> c = CHR 0x0A \<or> c = CHR 0x0D"

definition skip_ws :: "string \<Rightarrow> string" where
  "skip_ws s = dropWhile is_ws s"

subsection \<open>Strings\<close>

definition hex_value :: "char \<Rightarrow> nat option" where
  "hex_value c = (if is_digit c then Some (code c - 48)
     else if 97 \<le> code c \<and> code c \<le> 102 then Some (code c - 87)
     else if 65 \<le> code c \<and> code c \<le> 70 then Some (code c - 55) else None)"

fun hex4 :: "string \<Rightarrow> nat option" where
  "hex4 (a # b # c # d # s) =
     (case (hex_value a, hex_value b, hex_value c, hex_value d) of
        (Some w, Some x, Some y, Some z) \<Rightarrow> Some (4096 * w + 256 * x + 16 * y + z)
      | _ \<Rightarrow> None)"
| "hex4 _ = None"

text \<open>The encoding of a code point.\<close>

definition utf8_code :: "nat \<Rightarrow> string" where
  "utf8_code n =
     (if n < 128 then [char_of n]
      else if n < 2048 then [char_of (192 + n div 64), char_of (128 + n mod 64)]
      else if n < 65536 then
        [char_of (224 + n div 4096), char_of (128 + n div 64 mod 64), char_of (128 + n mod 64)]
      else [char_of (240 + n div 262144), char_of (128 + n div 4096 mod 64),
        char_of (128 + n div 64 mod 64), char_of (128 + n mod 64)])"

definition low_surrogate :: "string \<Rightarrow> nat option" where
  "low_surrogate s = (case s of
     b # u # r \<Rightarrow> if b = CHR 0x5C \<and> u = CHR ''u'' then
         (case hex4 r of Some l \<Rightarrow> if 56320 \<le> l \<and> l < 57344 then Some l else None | None \<Rightarrow> None)
       else None
   | _ \<Rightarrow> None)"

definition long_escape :: "char \<Rightarrow> char option" where
  "long_escape c = map_of [(CHR ''b'', CHR 0x08), (CHR ''t'', CHR 0x09), (CHR ''n'', CHR 0x0A),
     (CHR ''f'', CHR 0x0C), (CHR ''r'', CHR 0x0D), (CHR 0x22, CHR 0x22), (CHR 0x5C, CHR 0x5C),
     (CHR ''/'', CHR ''/'')] c"

abbreviation put_front :: "string \<Rightarrow> (string \<times> string) option \<Rightarrow> (string \<times> string) option" where
  "put_front p \<equiv> map_option (\<lambda>q. (p @ fst q, snd q))"

text \<open>The characters of a string literal after its opening quote, and the rest of the input.\<close>

function parse_chars :: "string \<Rightarrow> (string \<times> string) option" where
  "parse_chars [] = None"
| "parse_chars (c # cs) =
     (if c = CHR 0x22 then Some ([], cs)
      else if c = CHR 0x5C then
        (case cs of
           [] \<Rightarrow> None
         | x # xs \<Rightarrow>
             if x = CHR ''u'' then
               (case hex4 xs of
                  None \<Rightarrow> None
                | Some u \<Rightarrow>
                    if 55296 \<le> u \<and> u < 56320 then
                      (case low_surrogate (drop 4 xs) of
                         Some l \<Rightarrow> put_front (utf8_code (65536 + (u - 55296) * 1024 + (l - 56320)))
                                     (parse_chars (drop 10 xs))
                       | None \<Rightarrow> put_front (utf8_code u) (parse_chars (drop 4 xs)))
                    else put_front (utf8_code u) (parse_chars (drop 4 xs)))
             else (case long_escape x of
                 None \<Rightarrow> None
               | Some y \<Rightarrow> put_front [y] (parse_chars xs)))
      else if code c < 32 then None
      else put_front [c] (parse_chars cs))"
  by pat_completeness auto
termination
  by (relation "measure length") auto

subsection \<open>Numbers\<close>

definition digits_before :: "string \<Rightarrow> string" where
  "digits_before s = takeWhile is_digit s"

definition digits_after :: "string \<Rightarrow> string" where
  "digits_after s = dropWhile is_digit s"

text \<open>
  The number a decimal literal denotes: an infinity from \<open>2 ^ 1024 - 2 ^ 970\<close> on, zero up
  to \<open>2 ^ -1075\<close>. The first two tests on the exponent only keep the powers small.
\<close>

definition to_number :: "int \<Rightarrow> int \<Rightarrow> jsnum" where
  "to_number m e =
     (let k = int (length (nat_text (nat \<bar>m\<bar>))); limit = 2 ^ 1024 - 2 ^ 970
      in if m = 0 then Dec 0 0
         else if 310 < k + e then Inf (m < 0)
         else if k + e < -324 then Dec 0 0
         else if (if 0 \<le> e then limit \<le> \<bar>m\<bar> * 10 ^ nat e else limit * 10 ^ nat (- e) \<le> \<bar>m\<bar>)
           then Inf (m < 0)
         else if e < 0 \<and> \<bar>m\<bar> * 2 ^ 1075 \<le> 10 ^ nat (- e) then Dec 0 0
         else norm_dec m e)"

definition parse_fraction :: "string \<Rightarrow> (string \<times> string) option" where
  "parse_fraction s = (case s of
     c # cs \<Rightarrow> if c = CHR ''.'' then
         (if digits_before cs = [] then None else Some (digits_before cs, digits_after cs))
       else Some ([], s)
   | [] \<Rightarrow> Some ([], s))"

definition parse_exponent :: "string \<Rightarrow> (int \<times> string) option" where
  "parse_exponent s = (case s of
     c # cs \<Rightarrow> if c = CHR ''e'' \<or> c = CHR ''E'' then
         (let neg = starts_with cs ''-'';
              ds = (if neg \<or> starts_with cs ''+'' then drop 1 cs else cs)
          in if digits_before ds = [] then None
             else Some ((if neg then -1 else 1) * int (digits_value (digits_before ds)), digits_after ds))
       else Some (0, s)
   | [] \<Rightarrow> Some (0, s))"

definition parse_number :: "string \<Rightarrow> (json \<times> string) option" where
  "parse_number s =
     (let neg = starts_with s ''-''; t = (if neg then drop 1 s else s);
          ip = digits_before t
      in if ip = [] \<or> (1 < length ip \<and> hd ip = CHR ''0'') then None
         else case parse_fraction (digits_after t) of
           None \<Rightarrow> None
         | Some (fp, r) \<Rightarrow>
             (case parse_exponent r of
                None \<Rightarrow> None
              | Some (x, r') \<Rightarrow>
                  Some (JNum (to_number ((if neg then -1 else 1) * int (digits_value (ip @ fp)))
                           (x - int (length fp))), r')))"

subsection \<open>Values\<close>

definition parse_word :: "string \<Rightarrow> (json \<times> string) option" where
  "parse_word s =
     (if starts_with s ''null'' then Some (JNull, drop 4 s)
      else if starts_with s ''true'' then Some (JBool True, drop 4 s)
      else if starts_with s ''false'' then Some (JBool False, drop 5 s)
      else parse_number s)"

text \<open>
  A value, the elements of an array after \<open>[\<close> and the members of an object after \<open>{\<close>.
  The first argument bounds the depth of the recursion; \<open>parse_json\<close> below supplies a bound
  that is always enough (\<open>parse_fuel_enough\<close>).
\<close>

fun parse_value :: "nat \<Rightarrow> string \<Rightarrow> (json \<times> string) option"
  and parse_elements :: "nat \<Rightarrow> json list \<Rightarrow> string \<Rightarrow> (json \<times> string) option"
  and parse_members :: "nat \<Rightarrow> (string \<times> json) list \<Rightarrow> string \<Rightarrow> (json \<times> string) option" where
  "parse_value 0 s = None"
| "parse_value (Suc f) s =
     (case skip_ws s of
        [] \<Rightarrow> None
      | c # cs \<Rightarrow>
          if c = CHR 0x22 then map_option (\<lambda>q. (JStr (fst q), snd q)) (parse_chars cs)
          else if c = CHR ''['' then
            (case skip_ws cs of
               [] \<Rightarrow> None
             | d # ds \<Rightarrow> if d = CHR '']'' then Some (JArr [], ds) else parse_elements f [] (d # ds))
          else if c = CHR ''{'' then
            (case skip_ws cs of
               [] \<Rightarrow> None
             | d # ds \<Rightarrow> if d = CHR ''}'' then Some (JObj [], ds) else parse_members f [] (d # ds))
          else parse_word (c # cs))"
| "parse_elements 0 acc s = None"
| "parse_elements (Suc f) acc s =
     (case parse_value f s of
        None \<Rightarrow> None
      | Some (v, r) \<Rightarrow>
          (case skip_ws r of
             [] \<Rightarrow> None
           | d # ds \<Rightarrow> if d = CHR '','' then parse_elements f (acc @ [v]) ds
               else if d = CHR '']'' then Some (JArr (acc @ [v]), ds) else None))"
| "parse_members 0 acc s = None"
| "parse_members (Suc f) acc s =
     (case skip_ws s of
        [] \<Rightarrow> None
      | c # cs \<Rightarrow>
          if c \<noteq> CHR 0x22 then None
          else (case parse_chars cs of
              None \<Rightarrow> None
            | Some (k, r) \<Rightarrow>
                (case skip_ws r of
                   [] \<Rightarrow> None
                 | d # ds \<Rightarrow>
                     if d \<noteq> CHR '':'' then None
                     else (case parse_value f ds of
                         None \<Rightarrow> None
                       | Some (v, r') \<Rightarrow>
                           (case skip_ws r' of
                              [] \<Rightarrow> None
                            | d' # ds' \<Rightarrow> if d' = CHR '','' then parse_members f (obj_put acc (k, v)) ds'
                                else if d' = CHR ''}'' then Some (JObj (obj_put acc (k, v)), ds')
                                else None)))))"

text \<open>\<open>JSON.parse\<close>, \<open>None\<close> for the \<open>SyntaxError\<close>.\<close>

definition parse_json :: "string \<Rightarrow> json option" where
  "parse_json s = (case parse_value (2 * length s + 1) s of
     Some (v, r) \<Rightarrow> if skip_ws r = [] then Some v else None
   | None \<Rightarrow> None)"

end
