(* ===== verification/Domain.thy ===== *)
theory Domain
  imports Json
begin

text \<open>
  The data of the daemon: sessions, probe events, diagnostics (\<open>src/domain/session.ts\<close>,
  \<open>event.ts\<close>, \<open>diagnostic.ts\<close>), the canonical form of a session identifier
  (\<open>session-id.ts\<close>), and the limits, the malformed-record diagnostic and the content-derived
  identifiers of file ingestion (\<open>ingestion.ts\<close>).

  \<open>sha256\<close> is an argument: it stands for the hexadecimal SHA-256 digest of \<open>node:crypto\<close>.
  The value of \<open>randomUUID()\<close> is an argument as well.
\<close>

section \<open>Data\<close>

record session =
  session_id :: string
  createdAt :: int
  eventSchemaVersion :: nat
  evidenceEpoch :: string

datatype diagnostic_reason = INVALID_JSON | INVALID_SCHEMA | SECRET_REDACTED

record recoverable_fields =
  rec_hypothesisId :: "string option"
  rec_location :: "string option"

record diagnostic =
  diagnosticId :: string
  reason :: diagnostic_reason
  diag_message :: string
  observedAt :: int
  recoverable :: recoverable_fields
  redactedPreview :: string
  suggestedAction :: string
  diag_eventId :: "string option"

record event =
  event_id :: string
  sequence :: nat
  receivedAt :: int
  hypothesisId :: string
  location :: string
  message :: string
  data :: json
  timestamp :: jsnum

section \<open>Session identifiers\<close>

definition hex_group :: "nat \<Rightarrow> string \<Rightarrow> bool" where
  "hex_group n s \<longleftrightarrow> length s = n \<and> list_all is_hex_lower s"

text \<open>\<open>/^[0-9a-f]{8}-[0-9a-f]{4}-4[0-9a-f]{3}-[89ab][0-9a-f]{3}-[0-9a-f]{12}$/\<close>\<close>

definition isCanonicalSessionId :: "string \<Rightarrow> bool" where
  "isCanonicalSessionId s =
     (case split_on CHR ''-'' s of
        [a, b, c, d, e] \<Rightarrow>
          hex_group 8 a \<and> hex_group 4 b \<and> hex_group 4 c \<and> hd c = CHR ''4''
          \<and> hex_group 4 d \<and> hd d \<in> {CHR ''8'', CHR ''9'', CHR ''a'', CHR ''b''} \<and> hex_group 12 e
      | _ \<Rightarrow> False)"

lemma canonical_shape:
  assumes "isCanonicalSessionId s"
  obtains a b c d e where "s = a @ ''-'' @ b @ ''-'' @ c @ ''-'' @ d @ ''-'' @ e"
    "hex_group 8 a" "hex_group 4 b" "hex_group 4 c" "hex_group 4 d" "hex_group 12 e"
proof -
  from assms obtain a b c d e where s: "split_on CHR ''-'' s = [a, b, c, d, e]"
    and g: "hex_group 8 a" "hex_group 4 b" "hex_group 4 c" "hex_group 4 d" "hex_group 12 e"
    by (auto simp: isCanonicalSessionId_def split: list.splits)
  from s join_split [of "CHR ''-''" s] have "s = a @ ''-'' @ b @ ''-'' @ c @ ''-'' @ d @ ''-'' @ e"
    by simp
  with g that show thesis by blast
qed

lemma canonical_length: "isCanonicalSessionId s \<Longrightarrow> length s = 36"
  by (erule canonical_shape) (simp add: hex_group_def)

lemma canonical_chars: "isCanonicalSessionId s \<Longrightarrow> c \<in> set s \<Longrightarrow> is_hex_lower c \<or> c = CHR ''-''"
  by (erule canonical_shape) (auto simp: hex_group_def list_all_iff)

section \<open>Ingestion limits and identifiers\<close>

definition MAX_INGESTION_RECORD_BYTES :: nat where
  "MAX_INGESTION_RECORD_BYTES = 64 * 1024"

definition MAX_HYPOTHESIS_ID_LENGTH :: nat where
  "MAX_HYPOTHESIS_ID_LENGTH = 256"

definition MAX_MALFORMED_PREVIEW_BYTES :: nat where
  "MAX_MALFORMED_PREVIEW_BYTES = 256"

lemmas limit_defs = MAX_INGESTION_RECORD_BYTES_def MAX_HYPOTHESIS_ID_LENGTH_def
  MAX_MALFORMED_PREVIEW_BYTES_def

record malformed_input =
  actualByteLength :: nat
  input_diagnosticId :: "string option"
  input_observedAt :: int
  previewByteLength :: nat

definition ingestionRecordByteLength :: "string \<Rightarrow> nat" where
  "ingestionRecordByteLength r = byte_length r"

text \<open>\<open>input.diagnosticId ?? `diag_${randomUUID()}`\<close>\<close>

definition id_or_random :: "string \<Rightarrow> string option \<Rightarrow> string \<Rightarrow> string" where
  "id_or_random prefix given rnd = (case given of Some i \<Rightarrow> i | None \<Rightarrow> prefix @ ''_'' @ rnd)"

definition malformedIngestionDiagnostic :: "string \<Rightarrow> malformed_input \<Rightarrow> diagnostic" where
  "malformedIngestionDiagnostic rnd input =
     \<lparr>diagnosticId = id_or_random ''diag'' (input_diagnosticId input) rnd,
      reason = INVALID_JSON,
      diag_message =
        (if MAX_INGESTION_RECORD_BYTES < actualByteLength input
         then ''An ingestion record exceeded the '' @ nat_text MAX_INGESTION_RECORD_BYTES
                @ ''-byte limit (actual: '' @ nat_text (actualByteLength input) @ '' bytes).''
         else ''An ingestion record could not be parsed.''),
      observedAt = input_observedAt input,
      recoverable = \<lparr>rec_hypothesisId = None, rec_location = None\<rparr>,
      redactedPreview = ''[redacted malformed ingestion preview: ''
        @ nat_text (previewByteLength input) @ '' bytes]'',
      suggestedAction =
        ''Inspect the generated probe serializer, correct it, reset the session, and reproduce.'',
      diag_eventId = None\<rparr>"

definition directSourceContentHash :: "(string \<Rightarrow> string) \<Rightarrow> string \<Rightarrow> string" where
  "directSourceContentHash sha256 content = sha256 content"

text \<open>The bytes the hash object is fed, one \<open>update\<close> after the other.\<close>

definition direct_source_preimage :: "string \<Rightarrow> string \<Rightarrow> nat \<Rightarrow> string \<Rightarrow> string" where
  "direct_source_preimage prefix sessionId offset contentHash =
     prefix @ [CHR 0x00] @ sessionId @ [CHR 0x00] @ nat_text offset @ [CHR 0x00] @ contentHash"

definition directSourceId ::
  "(string \<Rightarrow> string) \<Rightarrow> string \<Rightarrow> string \<Rightarrow> nat \<Rightarrow> string \<Rightarrow> string" where
  "directSourceId sha256 prefix sessionId offset contentHash =
     prefix @ ''_'' @ sha256 (direct_source_preimage prefix sessionId offset contentHash)"

definition directAppendEventId :: "(string \<Rightarrow> string) \<Rightarrow> string \<Rightarrow> nat \<Rightarrow> string \<Rightarrow> string" where
  "directAppendEventId sha256 sessionId offset contentHash =
     directSourceId sha256 ''evt'' sessionId offset contentHash"

definition directAppendDiagnosticId :: "(string \<Rightarrow> string) \<Rightarrow> string \<Rightarrow> nat \<Rightarrow> string \<Rightarrow> string" where
  "directAppendDiagnosticId sha256 sessionId offset contentHash =
     directSourceId sha256 ''diag'' sessionId offset contentHash"

lemma append_sep_inject:
  assumes "x \<notin> set a" "x \<notin> set b" "a @ x # s = b @ x # t"
  shows "a = b \<and> s = t"
  using assms
proof (induction a arbitrary: b)
  case Nil
  then show ?case by (cases b) auto
next
  case (Cons y ys)
  then show ?case by (cases b) auto
qed

lemma nat_text_no_nul: "CHR 0x00 \<notin> set (nat_text n)"
  using nat_text_digits [of n] by (auto simp: list_all_iff is_digit_def)

lemma direct_source_preimage_inject:
  assumes "direct_source_preimage p s n h = direct_source_preimage p s' n' h'"
    "CHR 0x00 \<notin> set s" "CHR 0x00 \<notin> set s'"
  shows "s = s' \<and> n = n' \<and> h = h'"
proof -
  from assms(1) have "s @ CHR 0x00 # nat_text n @ CHR 0x00 # h = s' @ CHR 0x00 # nat_text n' @ CHR 0x00 # h'"
    by (simp add: direct_source_preimage_def)
  from append_sep_inject [OF assms(2,3) this] have "s = s'"
    and "nat_text n @ CHR 0x00 # h = nat_text n' @ CHR 0x00 # h'" by auto
  from append_sep_inject [OF nat_text_no_nul nat_text_no_nul this(2)] \<open>s = s'\<close>
  show ?thesis by simp
qed

end
