(* ===== verification/Paths.thy ===== *)
theory Paths
  imports Domain
begin

text \<open>
  The paths of session state (the path methods of \<open>Persistence\<close>, \<open>src/daemon/persistence.ts\<close>).
  Every method checks the identifiers it is given and joins them below the state root with
  \<open>path.join\<close>, here on a platform whose separator is the slash and for a normalised root:
  the checked identifiers contain no separator and no dot-only component, so joining is
  concatenation.
\<close>

section \<open>The checks\<close>

definition safe_id_char :: "char \<Rightarrow> bool" where
  "safe_id_char c \<longleftrightarrow> is_alnum c \<or> c = CHR ''_'' \<or> c = CHR ''-''"

text \<open>\<open>/^[a-zA-Z0-9_-]+$/\<close> and \<open>/^[a-zA-Z0-9_-]+(?:\.[a-zA-Z0-9_-]+)*$/\<close>\<close>

definition SAFE_ID :: "string \<Rightarrow> bool" where
  "SAFE_ID s \<longleftrightarrow> s \<noteq> [] \<and> list_all safe_id_char s"

definition SAFE_FILENAME :: "string \<Rightarrow> bool" where
  "SAFE_FILENAME s \<longleftrightarrow> list_all SAFE_ID (split_on CHR ''.'' s)"

definition OWNED_SESSION_FILES :: "string list" where
  "OWNED_SESSION_FILES =
     [''diagnostics.ndjson'', ''events.ndjson'', ''incoming.cursor.json'', ''incoming.ndjson'',
      ''session.json'']"

section \<open>The paths\<close>

definition join_path :: "string \<Rightarrow> string \<Rightarrow> string" where
  "join_path a b = a @ CHR ''/'' # b"

definition sessionsDirectory :: "string \<Rightarrow> string" where
  "sessionsDirectory root = join_path root ''sessions''"

definition sessionDirectory :: "string \<Rightarrow> string \<Rightarrow> failure + string" where
  "sessionDirectory root sid =
     (if \<not> SAFE_ID sid then Inl (InvalidSessionId sid) else Inr (join_path (sessionsDirectory root) sid))"

definition below_session :: "string \<Rightarrow> string \<Rightarrow> string list \<Rightarrow> failure + string" where
  "below_session root sid parts = map_sum id (\<lambda>d. foldl join_path d parts) (sessionDirectory root sid)"

definition sessionFile :: "string \<Rightarrow> string \<Rightarrow> string \<Rightarrow> failure + string" where
  "sessionFile root sid filename =
     (if \<not> SAFE_FILENAME filename then Inl (InvalidFilename filename)
      else below_session root sid [filename])"

definition querySpoolFile :: "string \<Rightarrow> string \<Rightarrow> string \<Rightarrow> failure + string" where
  "querySpoolFile root sid spoolId =
     (if \<not> SAFE_ID spoolId then Inl (InvalidSpoolId spoolId)
      else below_session root sid [''query-spools'', spoolId @ ''.ndjson''])"

definition logSortFile :: "string \<Rightarrow> string \<Rightarrow> string \<Rightarrow> string \<Rightarrow> failure + string" where
  "logSortFile root sid operationId fileId =
     (if \<not> SAFE_ID operationId \<or> \<not> SAFE_ID fileId then Inl InvalidSortId
      else below_session root sid [''log-sort'', operationId, fileId @ ''.ndjson''])"

section \<open>What the checks give\<close>

lemma safe_id_char_not_special: "safe_id_char c \<Longrightarrow> c \<noteq> CHR ''/'' \<and> c \<noteq> CHR ''.'' \<and> c \<noteq> CHR 0x00"
  by (auto simp: safe_id_char_def char_class_defs)

lemma SAFE_ID_no_sep: "SAFE_ID s \<Longrightarrow> CHR ''/'' \<notin> set s \<and> CHR ''.'' \<notin> set s \<and> CHR 0x00 \<notin> set s"
  using safe_id_char_not_special by (fastforce simp: SAFE_ID_def list_all_iff)

lemma canonical_SAFE_ID:
  assumes "isCanonicalSessionId s"
  shows "SAFE_ID s"
proof -
  have "s \<noteq> []" using canonical_length [OF assms] by auto
  moreover have "safe_id_char c" if "c \<in> set s" for c
    using canonical_chars [OF assms that] by (auto simp: safe_id_char_def char_class_defs)
  ultimately show ?thesis by (simp add: SAFE_ID_def list_all_iff)
qed

lemma set_split_on: "c \<in> set s \<Longrightarrow> c = d \<or> (\<exists>p \<in> set (split_on d s). c \<in> set p)"
proof (induction s)
  case (Cons a s)
  then show ?case by (cases "split_on d s") auto
qed simp

lemma SAFE_FILENAME_no_slash: "SAFE_FILENAME s \<Longrightarrow> CHR ''/'' \<notin> set s"
  using set_split_on [of "CHR ''/''" s "CHR ''.''"] SAFE_ID_no_sep
  by (auto simp: SAFE_FILENAME_def list_all_iff)

lemma SAFE_FILENAME_not_dots: "SAFE_FILENAME s \<Longrightarrow> s \<noteq> [] \<and> s \<noteq> ''.'' \<and> s \<noteq> ''..''"
  by (auto simp: SAFE_FILENAME_def SAFE_ID_def)

lemma SAFE_ID_SAFE_FILENAME: "SAFE_ID s \<Longrightarrow> SAFE_FILENAME s"
  using SAFE_ID_no_sep by (simp add: SAFE_FILENAME_def split_on_no_sep)

lemma owned_SAFE_FILENAME: "f \<in> set OWNED_SESSION_FILES \<Longrightarrow> SAFE_FILENAME f"
  by (auto simp: OWNED_SESSION_FILES_def SAFE_FILENAME_def SAFE_ID_def safe_id_char_def char_class_defs)

text \<open>The components of a path below the root; none is empty, a dot or two dots.\<close>

definition ordinary_component :: "string \<Rightarrow> bool" where
  "ordinary_component p \<longleftrightarrow> p \<notin> {[], ''.'', ''..''} \<and> CHR ''/'' \<notin> set p"

definition stays_below :: "string \<Rightarrow> string \<Rightarrow> bool" where
  "stays_below dir path \<longleftrightarrow>
     (\<exists>parts. parts \<noteq> [] \<and> list_all ordinary_component parts \<and> path = foldl join_path dir parts)"

lemma ordinary_SAFE_ID: "SAFE_ID s \<Longrightarrow> ordinary_component s"
  using SAFE_FILENAME_not_dots SAFE_FILENAME_no_slash SAFE_ID_SAFE_FILENAME
  by (auto simp: ordinary_component_def)

lemma ordinary_SAFE_FILENAME: "SAFE_FILENAME s \<Longrightarrow> ordinary_component s"
  using SAFE_FILENAME_not_dots SAFE_FILENAME_no_slash by (auto simp: ordinary_component_def)

lemma ordinary_ndjson: "SAFE_ID s \<Longrightarrow> ordinary_component (s @ ''.ndjson'')"
  using SAFE_ID_no_sep [of s] by (auto simp: ordinary_component_def append_eq_Cons_conv)

lemma below_session_Inr:
  assumes "below_session root sid parts = Inr p" "list_all ordinary_component parts"
  shows "SAFE_ID sid \<and> stays_below (sessionsDirectory root) p"
  using assms
  by (auto simp: below_session_def sessionDirectory_def stays_below_def ordinary_SAFE_ID
      split: if_splits intro!: exI [of _ "sid # parts"])

lemma join_path_inject:
  assumes "CHR ''/'' \<notin> set b" "CHR ''/'' \<notin> set d" "join_path a b = join_path c d"
  shows "a = c \<and> b = d"
proof -
  from assms(3) have "rev b @ CHR ''/'' # rev a = rev d @ CHR ''/'' # rev c"
    by (metis append.assoc append_Cons append_Nil join_path_def rev.simps(2) rev_append)
  from append_sep_inject [OF _ _ this] assms(1,2) show ?thesis by simp
qed

lemma sessionFile_Inr:
  "sessionFile root sid f = Inr p \<longleftrightarrow>
     SAFE_FILENAME f \<and> SAFE_ID sid \<and> p = join_path (join_path (sessionsDirectory root) sid) f"
  by (auto simp: sessionFile_def below_session_def sessionDirectory_def)

end
