(* ===== verification/Store.thy ===== *)
theory Store
  imports Paths "HOL-Library.AList"
begin

text \<open>
  The evidence store of the daemon: the session directories on disk with the caches the daemon
  keeps in memory, and the operations of \<open>EventStore\<close> (\<open>src/daemon/event-store.ts\<close>, its paging in
  the theory Paging), \<open>DiagnosticStore\<close>, \<open>EventSequence\<close> and \<open>SessionRegistry\<close>.

  A line of an ndjson file is the record \<open>JSON.parse\<close> gives for it, or \<open>Bad\<close> when it throws;
  empty lines are left out, as every reader does. A JSON document is missing, refused by
  \<open>JSON.parse\<close>, or a value. Every operation runs inside \<open>runSessionOperation\<close> (theory
  Session_Lock), so it is one step on the state of its session. \<open>uuid n\<close> is the \<open>n\<close>-th value
  \<open>randomUUID()\<close> returns; \<open>draws\<close> counts the calls.
\<close>

section \<open>State\<close>

datatype 'a line = Rec 'a | Bad

datatype 'a document = Absent | Corrupt | Doc 'a

record session_dir =
  session_json :: "session document"
  cursor_json :: "json document"
  incoming_ndjson :: "string option"
  events_ndjson :: "event line list option"
  diagnostics_ndjson :: "diagnostic line list option"
  query_spools :: "(string \<times> string) list"
  log_sorts :: "string list"
  symbolic_links :: "string list"

record daemon =
  directories :: "(string \<times> session_dir) list"
  event_ids :: "string \<Rightarrow> string set option"
  diagnostic_ids :: "string \<Rightarrow> string set option"
  sequence_values :: "string \<Rightarrow> nat option"
  draws :: nat

definition directory_of :: "daemon \<Rightarrow> string \<Rightarrow> session_dir option" where
  "directory_of s sid = map_of (directories s) sid"

definition put_directory :: "string \<Rightarrow> session_dir \<Rightarrow> daemon \<Rightarrow> daemon" where
  "put_directory sid d s = s\<lparr>directories := AList.update sid d (directories s)\<rparr>"

definition empty_directory :: session_dir where
  "empty_directory =
     \<lparr>session_json = Absent, cursor_json = Absent, incoming_ndjson = None, events_ndjson = None,
      diagnostics_ndjson = None, query_spools = [], log_sorts = [], symbolic_links = []\<rparr>"

definition initial_daemon :: daemon where
  "initial_daemon =
     \<lparr>directories = [], event_ids = \<lambda>_. None, diagnostic_ids = \<lambda>_. None,
      sequence_values = \<lambda>_. None, draws = 0\<rparr>"

text \<open>A new process on the same state root: the disk stays, the caches are empty.\<close>

definition restarted :: "daemon \<Rightarrow> daemon" where
  "restarted s =
     s\<lparr>event_ids := \<lambda>_. None, diagnostic_ids := \<lambda>_. None, sequence_values := \<lambda>_. None\<rparr>"

section \<open>Access to the files\<close>

text \<open>
  \<open>sessionFile\<close> throws on an unsafe identifier; reading below a missing directory, or
  replacing a file in it, is \<open>ENOENT\<close>.
\<close>

definition requireSafe :: "string \<Rightarrow> (daemon, unit) op" where
  "requireSafe sid = (if SAFE_ID sid then ret () else throw (InvalidSessionId sid))"

definition readDirectory :: "string \<Rightarrow> (session_dir \<Rightarrow> failure + 'a) \<Rightarrow> (daemon, 'a) op" where
  "readDirectory sid f = andThen (requireSafe sid)
     (\<lambda>_ s. (case directory_of s sid of None \<Rightarrow> Inl ENOENT | Some d \<Rightarrow> f d, s))"

definition changeDirectory :: "string \<Rightarrow> (session_dir \<Rightarrow> session_dir) \<Rightarrow> (daemon, unit) op" where
  "changeDirectory sid f = andThen (requireSafe sid)
     (\<lambda>_ s. case directory_of s sid of
        None \<Rightarrow> (Inl ENOENT, s)
      | Some d \<Rightarrow> (Inr (), put_directory sid (f d) s))"

text \<open>\<open>contents.split("\n").filter(nonempty).map(JSON.parse)\<close>\<close>

fun records_of :: "'a line list \<Rightarrow> failure + 'a list" where
  "records_of [] = Inr []"
| "records_of (Bad # ls) = Inl SyntaxFailure"
| "records_of (Rec x # ls) = map_sum id (\<lambda>xs. x # xs) (records_of ls)"

definition lines_or_missing :: "'a line list option \<Rightarrow> failure + 'a line list" where
  "lines_or_missing f = (case f of None \<Rightarrow> Inl ENOENT | Some ls \<Rightarrow> Inr ls)"

definition records_or_missing :: "'a line list option \<Rightarrow> failure + 'a list" where
  "records_or_missing f = (case f of None \<Rightarrow> Inl ENOENT | Some ls \<Rightarrow> records_of ls)"

text \<open>\<open>appendFile\<close> creates the file.\<close>

definition append_lines :: "'a list \<Rightarrow> 'a line list option \<Rightarrow> 'a line list option" where
  "append_lines xs f = Some ((case f of None \<Rightarrow> [] | Some ls \<Rightarrow> ls) @ map Rec xs)"

section \<open>EventStore\<close>

definition readEventFile :: "string \<Rightarrow> (daemon, event list) op" where
  "readEventFile sid = readDirectory sid (\<lambda>d. records_or_missing (events_ndjson d))"

definition knownEventIds :: "string \<Rightarrow> (daemon, string set) op" where
  "knownEventIds sid = andThen (readState (\<lambda>s. event_ids s sid)) (\<lambda>cached.
     case cached of
       Some ids \<Rightarrow> ret ids
     | None \<Rightarrow> andThen (readEventFile sid) (\<lambda>es.
         andThen (updateState (event_ids_update (\<lambda>m. m(sid \<mapsto> event_id ` set es))))
           (\<lambda>_. ret (event_id ` set es))))"

definition hasId :: "string \<Rightarrow> string \<Rightarrow> (daemon, bool) op" where
  "hasId sid eventId = andThen (knownEventIds sid) (\<lambda>ids. ret (eventId \<in> ids))"

definition appendEvent :: "string \<Rightarrow> event \<Rightarrow> (daemon, bool) op" where
  "appendEvent sid ev = andThen (knownEventIds sid) (\<lambda>ids.
     if event_id ev \<in> ids then ret False
     else andThen (changeDirectory sid (\<lambda>d. d\<lparr>events_ndjson := append_lines [ev] (events_ndjson d)\<rparr>)) (\<lambda>_.
       andThen (updateState (event_ids_update (\<lambda>m. m(sid \<mapsto> insert (event_id ev) ids))))
         (\<lambda>_. ret True)))"

definition clearEvents :: "string \<Rightarrow> (daemon, unit) op" where
  "clearEvents sid = andThen (updateState (event_ids_update (\<lambda>m. m(sid \<mapsto> {})))) (\<lambda>_.
     changeDirectory sid (\<lambda>d. d\<lparr>events_ndjson := Some []\<rparr>))"

definition readEvents :: "string \<Rightarrow> (daemon, event list) op" where
  "readEvents sid = readEventFile sid"

record event_summary =
  eventCount :: nat
  summary_watermark :: nat

fun summary_step :: "event_summary \<Rightarrow> event line \<Rightarrow> event_summary" where
  "summary_step acc (Rec ev) =
     \<lparr>eventCount = eventCount acc + 1,
      summary_watermark = max (summary_watermark acc) (sequence ev)\<rparr>"
| "summary_step acc Bad = acc"

definition summarize_lines :: "event line list \<Rightarrow> event_summary" where
  "summarize_lines ls = foldl summary_step \<lparr>eventCount = 0, summary_watermark = 0\<rparr> ls"

definition summarize :: "string \<Rightarrow> (daemon, event_summary) op" where
  "summarize sid = readDirectory sid
     (\<lambda>d. map_sum id summarize_lines (lines_or_missing (events_ndjson d)))"

section \<open>DiagnosticStore\<close>

definition readDiagnosticFile :: "string \<Rightarrow> (daemon, diagnostic list) op" where
  "readDiagnosticFile sid = readDirectory sid (\<lambda>d. records_or_missing (diagnostics_ndjson d))"

definition knownDiagnosticIds :: "string \<Rightarrow> (daemon, string set) op" where
  "knownDiagnosticIds sid = andThen (readState (\<lambda>s. diagnostic_ids s sid)) (\<lambda>cached.
     case cached of
       Some ids \<Rightarrow> ret ids
     | None \<Rightarrow> andThen (readDiagnosticFile sid) (\<lambda>ds.
         andThen (updateState (diagnostic_ids_update (\<lambda>m. m(sid \<mapsto> diagnosticId ` set ds))))
           (\<lambda>_. ret (diagnosticId ` set ds))))"

text \<open>The filter that also adds to \<open>pendingIds\<close>.\<close>

fun new_diagnostics :: "string set \<Rightarrow> diagnostic list \<Rightarrow> diagnostic list" where
  "new_diagnostics pending [] = []"
| "new_diagnostics pending (d # ds) =
     (if diagnosticId d \<in> pending then new_diagnostics pending ds
      else d # new_diagnostics (insert (diagnosticId d) pending) ds)"

definition appendDiagnostics :: "string \<Rightarrow> diagnostic list \<Rightarrow> (daemon, unit) op" where
  "appendDiagnostics sid ds =
     (if ds = [] then ret ()
      else andThen (knownDiagnosticIds sid) (\<lambda>ids.
        let appended = new_diagnostics ids ds
        in if appended = [] then ret ()
           else andThen (changeDirectory sid
               (\<lambda>d. d\<lparr>diagnostics_ndjson := append_lines appended (diagnostics_ndjson d)\<rparr>)) (\<lambda>_.
             updateState (diagnostic_ids_update
               (\<lambda>m. m(sid \<mapsto> ids \<union> diagnosticId ` set appended))))))"

definition readDiagnostics :: "string \<Rightarrow> (daemon, diagnostic list) op" where
  "readDiagnostics sid = readDiagnosticFile sid"

definition clearDiagnostics :: "string \<Rightarrow> (daemon, unit) op" where
  "clearDiagnostics sid = andThen (updateState (diagnostic_ids_update (\<lambda>m. m(sid \<mapsto> {})))) (\<lambda>_.
     changeDirectory sid (\<lambda>d. d\<lparr>diagnostics_ndjson := Some []\<rparr>))"

section \<open>EventSequence\<close>

definition nextSequence :: "string \<Rightarrow> (daemon, nat) op" where
  "nextSequence sid = andThen (readState (\<lambda>s. sequence_values s sid)) (\<lambda>cached.
     andThen (case cached of
         Some current \<Rightarrow> ret current
       | None \<Rightarrow> andThen (readEvents sid) (\<lambda>es. ret (foldl max 0 (map sequence es))))
       (\<lambda>current. andThen (updateState (sequence_values_update (\<lambda>m. m(sid \<mapsto> current + 1))))
         (\<lambda>_. ret (current + 1))))"

definition resetSequence :: "string \<Rightarrow> (daemon, unit) op" where
  "resetSequence sid = updateState (sequence_values_update (\<lambda>m. m(sid := None)))"

section \<open>SessionRegistry\<close>

text \<open>The next value of \<open>randomUUID()\<close>.\<close>

definition randomUUID :: "(nat \<Rightarrow> string) \<Rightarrow> (daemon, string) op" where
  "randomUUID uuid = (\<lambda>s. (Inr (uuid (draws s)), s\<lparr>draws := draws s + 1\<rparr>))"

definition zero_cursor :: json where
  "zero_cursor = JObj [(''offset'', JNum (num_of_int 0))]"

definition or_empty :: "'a list option \<Rightarrow> 'a list option" where
  "or_empty f = Some (case f of None \<Rightarrow> [] | Some xs \<Rightarrow> xs)"

definition initialize_files :: "session \<Rightarrow> session_dir \<Rightarrow> session_dir" where
  "initialize_files ses d =
     d\<lparr>session_json := Doc ses, cursor_json := Doc zero_cursor,
       incoming_ndjson := or_empty (incoming_ndjson d),
       events_ndjson := or_empty (events_ndjson d),
       diagnostics_ndjson := or_empty (diagnostics_ndjson d)\<rparr>"

text \<open>The object literal draws the epoch before the identifier.\<close>

definition createSession :: "(nat \<Rightarrow> string) \<Rightarrow> int \<Rightarrow> (daemon, session) op" where
  "createSession uuid now =
     andThen (randomUUID uuid) (\<lambda>epoch.
     andThen (randomUUID uuid) (\<lambda>sid.
     andThen (requireSafe sid) (\<lambda>_.
       let ses = \<lparr>session_id = sid, createdAt = now, eventSchemaVersion = 1, evidenceEpoch = epoch\<rparr>
       in andThen (updateState (\<lambda>s. put_directory sid
              (initialize_files ses
                (case directory_of s sid of None \<Rightarrow> empty_directory | Some d \<Rightarrow> d)) s))
            (\<lambda>_. ret ses))))"

definition document_value :: "'a document \<Rightarrow> failure + 'a option" where
  "document_value doc = (case doc of Absent \<Rightarrow> Inr None | Corrupt \<Rightarrow> Inl SyntaxFailure | Doc x \<Rightarrow> Inr (Some x))"

definition getSession :: "string \<Rightarrow> (daemon, session option) op" where
  "getSession sid = andThen (requireSafe sid) (\<lambda>_ s.
     (case directory_of s sid of
        None \<Rightarrow> Inr None
      | Some d \<Rightarrow> document_value (session_json d), s))"

record session_summary =
  summary_id :: string
  summary_createdAt :: int
  summary_eventCount :: nat

fun mapOp :: "('a \<Rightarrow> ('s, 'b) op) \<Rightarrow> 'a list \<Rightarrow> ('s, 'b list) op" where
  "mapOp f [] = ret []"
| "mapOp f (x # xs) = andThen (f x) (\<lambda>y. andThen (mapOp f xs) (\<lambda>ys. ret (y # ys)))"

text \<open>
  \<open>window\<close> is the local day \<open>[start, end)\<close> of \<open>options.now\<close>, or absent when \<open>all\<close> is set;
  \<open>Array.prototype.sort\<close> is stable.
\<close>

definition select_sessions :: "(int \<times> int) option \<Rightarrow> nat option \<Rightarrow> session list \<Rightarrow> session list" where
  "select_sessions window limit sessions =
     (let sorted = sort_key (\<lambda>ses. - createdAt ses) sessions;
          filtered = (case window of None \<Rightarrow> sorted
            | Some (first, until) \<Rightarrow> filter (\<lambda>ses. first \<le> createdAt ses \<and> createdAt ses < until) sorted);
          count = (case limit of Some n \<Rightarrow> Some n | None \<Rightarrow> (if window = None then None else Some 20))
      in case count of None \<Rightarrow> filtered | Some n \<Rightarrow> take n filtered)"

definition listSessions ::
  "(int \<times> int) option \<Rightarrow> nat option \<Rightarrow> (daemon, session_summary list) op" where
  "listSessions window limit =
     andThen (readState (\<lambda>s. map fst (directories s))) (\<lambda>names.
     andThen (mapOp getSession names) (\<lambda>found.
       mapOp (\<lambda>ses. andThen (summarize (session_id ses)) (\<lambda>sum.
           ret \<lparr>summary_id = session_id ses, summary_createdAt = createdAt ses,
                summary_eventCount = eventCount sum\<rparr>))
         (select_sessions window limit (List.map_filter id found))))"

text \<open>The owned files are checked in the order of \<open>OWNED_SESSION_FILES\<close>, the directory first.\<close>

definition rejectSessionSymbolicLinks :: "string \<Rightarrow> (daemon, unit) op" where
  "rejectSessionSymbolicLinks sid = andThen (requireSafe sid) (\<lambda>_ s.
     (case directory_of s sid of
        None \<Rightarrow> Inr ()
      | Some d \<Rightarrow>
          (case filter (\<lambda>f. f \<in> set (symbolic_links d)) ([] # OWNED_SESSION_FILES) of
             [] \<Rightarrow> Inr ()
           | f # _ \<Rightarrow> Inl (SymlinkFailure f)), s))"

definition resetSession :: "(nat \<Rightarrow> string) \<Rightarrow> string \<Rightarrow> (daemon, session option) op" where
  "resetSession uuid sid =
     andThen (rejectSessionSymbolicLinks sid) (\<lambda>_.
     andThen (getSession sid) (\<lambda>found.
       case found of
         None \<Rightarrow> ret None
       | Some ses \<Rightarrow>
           andThen (randomUUID uuid) (\<lambda>epoch.
           andThen (clearEvents sid) (\<lambda>_.
           andThen (clearDiagnostics sid) (\<lambda>_.
           andThen (changeDirectory sid (\<lambda>d. d\<lparr>log_sorts := [], query_spools := []\<rparr>)) (\<lambda>_.
           andThen (changeDirectory sid (\<lambda>d. d\<lparr>incoming_ndjson := Some []\<rparr>)) (\<lambda>_.
           andThen (changeDirectory sid (\<lambda>d. d\<lparr>cursor_json := Doc zero_cursor\<rparr>)) (\<lambda>_.
           andThen (resetSequence sid) (\<lambda>_.
           andThen (changeDirectory sid (\<lambda>d. d\<lparr>session_json := Doc (ses\<lparr>evidenceEpoch := epoch\<rparr>)\<rparr>)) (\<lambda>_.
             ret (Some (ses\<lparr>evidenceEpoch := epoch\<rparr>))))))))))))"

definition removeSession :: "string \<Rightarrow> (daemon, bool) op" where
  "removeSession sid =
     andThen (rejectSessionSymbolicLinks sid) (\<lambda>_.
     andThen (getSession sid) (\<lambda>found.
       case found of
         None \<Rightarrow> ret False
       | Some ses \<Rightarrow>
           andThen (updateState (\<lambda>s. s\<lparr>directories := AList.delete sid (directories s)\<rparr>)) (\<lambda>_.
           andThen (resetSequence sid) (\<lambda>_. ret True))))"

end
