(* ===== verification/Redaction.thy ===== *)
theory Redaction
  imports Domain
begin

text \<open>
  Secret redaction (\<open>src/domain/redaction.ts\<close>): key normalisation by the five regular
  expressions of \<open>normalizeSensitiveKey\<close>, the exact and suffix tests of \<open>isSensitiveKey\<close>, and
  the recursive replacement with the list of redacted paths.
\<close>

section \<open>Key normalisation\<close>

text \<open>
  \<open>replace(/([A-Z]+)([A-Z][a-z])/g, "$1_$2")\<close>: the greedy group takes a whole run of capitals
  and gives the last one back; the match exists exactly when the run has two capitals and a
  lower-case letter follows. Scanning resumes after that letter.
\<close>

function acronym_breaks :: "string \<Rightarrow> string" where
  "acronym_breaks [] = []"
| "acronym_breaks (c # cs) =
     (if \<not> is_upper c then c # acronym_breaks cs
      else let run = c # takeWhile is_upper cs
        in (case dropWhile is_upper cs of
              [] \<Rightarrow> run
            | d # ds \<Rightarrow>
                if is_lower d \<and> 2 \<le> length run
                then butlast run @ ''_'' @ [last run, d] @ acronym_breaks ds
                else run @ acronym_breaks (d # ds)))"
  by pat_completeness auto
termination
proof (relation "measure length")
  fix c cs run d and ds :: string
  assume a: "run = c # takeWhile is_upper cs" "dropWhile is_upper cs = d # ds"
  from a(2) length_dropWhile_le [of is_upper cs] have "length (d # ds) \<le> length cs" by simp
  then show "(ds, c # cs) \<in> measure length" "(d # ds, c # cs) \<in> measure length" by simp_all
qed simp_all

text \<open>\<open>replace(/([a-z0-9])([A-Z])/g, "$1_$2")\<close>\<close>

fun camel_breaks :: "string \<Rightarrow> string" where
  "camel_breaks (c # d # cs) =
     (if (is_lower c \<or> is_digit c) \<and> is_upper d then c # CHR ''_'' # d # camel_breaks cs
      else c # camel_breaks (d # cs))"
| "camel_breaks cs = cs"

text \<open>\<open>replace(/[^a-zA-Z0-9]+/g, "_")\<close>\<close>

function collapse_separators :: "string \<Rightarrow> string" where
  "collapse_separators [] = []"
| "collapse_separators (c # cs) =
     (if is_alnum c then c # collapse_separators cs
      else CHR ''_'' # collapse_separators (dropWhile (\<lambda>d. \<not> is_alnum d) cs))"
  by pat_completeness auto
termination
  by (relation "measure length") (auto simp: less_Suc_eq_le length_dropWhile_le)

text \<open>\<open>replace(/^_+|_+$/g, "")\<close>\<close>

definition trim_underscores :: "string \<Rightarrow> string" where
  "trim_underscores s =
     rev (dropWhile (\<lambda>c. c = CHR ''_'') (rev (dropWhile (\<lambda>c. c = CHR ''_'') s)))"

definition normalizeSensitiveKey :: "string \<Rightarrow> string" where
  "normalizeSensitiveKey key =
     trim_underscores (map ascii_lower (collapse_separators (camel_breaks (acronym_breaks key))))"

definition SENSITIVE_KEY_EXACT :: "string list" where
  "SENSITIVE_KEY_EXACT =
     [''authorization'', ''authorization_header'', ''cookie'', ''set_cookie'', ''password'',
      ''passwd'', ''pwd'', ''private_key'', ''secret'', ''token'', ''credential'', ''credentials'']"

definition SENSITIVE_KEY_QUALIFIED :: "string list" where
  "SENSITIVE_KEY_QUALIFIED =
     [''api_key'', ''api_token'', ''oauth_token'', ''o_auth_token'', ''private_key'',
      ''client_secret'', ''access_token'', ''refresh_token'', ''id_token'', ''auth_token'',
      ''bearer_token'']"

text \<open>\<open>(^|_)(a|b|...)$\<close>\<close>

definition qualified_suffix :: "string \<Rightarrow> bool" where
  "qualified_suffix s \<longleftrightarrow> list_ex (\<lambda>q. s = q \<or> ends_with s (CHR ''_'' # q)) SENSITIVE_KEY_QUALIFIED"

definition isSensitiveKey :: "string \<Rightarrow> bool" where
  "isSensitiveKey key =
     (let normalized = normalizeSensitiveKey key
      in normalized \<in> set SENSITIVE_KEY_EXACT \<or> qualified_suffix normalized)"

section \<open>Redaction\<close>

definition REDACTED :: string where
  "REDACTED = ''[REDACTED]''"

definition item_path :: "string \<Rightarrow> nat \<Rightarrow> string" where
  "item_path path index = path @ ''['' @ nat_text index @ '']''"

definition entry_path :: "string \<Rightarrow> string \<Rightarrow> string" where
  "entry_path path key = (if path = [] then key else path @ ''.'' @ key)"

text \<open>The result value and the paths pushed while computing it, in order.\<close>

fun redact :: "json \<Rightarrow> string \<Rightarrow> json \<times> string list"
  and redact_items :: "nat \<Rightarrow> json list \<Rightarrow> string \<Rightarrow> json list \<times> string list"
  and redact_entries :: "(string \<times> json) list \<Rightarrow> string \<Rightarrow> (string \<times> json) list \<times> string list" where
  "redact (JArr xs) path = (case redact_items 0 xs path of (ys, ps) \<Rightarrow> (JArr ys, ps))"
| "redact (JObj es) path = (case redact_entries es path of (fs, ps) \<Rightarrow> (JObj fs, ps))"
| "redact v path = (v, [])"
| "redact_items index [] path = ([], [])"
| "redact_items index (x # xs) path =
     (case redact x (item_path path index) of (y, ps) \<Rightarrow>
        case redact_items (index + 1) xs path of (ys, qs) \<Rightarrow> (y # ys, ps @ qs))"
| "redact_entries [] path = ([], [])"
| "redact_entries ((key, item) # es) path =
     (case (if isSensitiveKey key then (JStr REDACTED, [entry_path path key])
            else redact item (entry_path path key)) of (v, ps) \<Rightarrow>
        case redact_entries es path of (fs, qs) \<Rightarrow> ((key, v) # fs, ps @ qs))"

record redaction_result =
  redactedPaths :: "string list"
  redacted_value :: json

definition redactSecrets :: "json \<Rightarrow> redaction_result" where
  "redactSecrets v = (case redact v [] of (w, ps) \<Rightarrow> \<lparr>redactedPaths = ps, redacted_value = w\<rparr>)"

section \<open>Facts about normalisation\<close>

text \<open>A snake-case key: lower-case letters and digits in groups joined by single underscores.\<close>

definition snake_char :: "char \<Rightarrow> bool" where
  "snake_char c \<longleftrightarrow> is_lower c \<or> is_digit c \<or> c = CHR ''_''"

fun single_underscores :: "string \<Rightarrow> bool" where
  "single_underscores (c # d # s) \<longleftrightarrow>
     \<not> (c = CHR ''_'' \<and> d = CHR ''_'') \<and> single_underscores (d # s)"
| "single_underscores _ \<longleftrightarrow> True"

definition snake_case :: "string \<Rightarrow> bool" where
  "snake_case s \<longleftrightarrow> list_all snake_char s \<and> single_underscores s
     \<and> (s \<noteq> [] \<longrightarrow> hd s \<noteq> CHR ''_'' \<and> last s \<noteq> CHR ''_'')"

lemma underscore_not_alnum [simp]: "\<not> is_alnum CHR ''_''"
  by (simp add: char_class_defs)

lemma alnum_not_underscore: "is_alnum c \<Longrightarrow> c \<noteq> CHR ''_''"
  by auto

lemma collapse_chars: "c \<in> set (collapse_separators s) \<Longrightarrow> is_alnum c \<or> c = CHR ''_''"
  by (induction s rule: collapse_separators.induct) (auto split: if_splits)

lemma collapse_hd: "s \<noteq> [] \<Longrightarrow> is_alnum (hd s) \<Longrightarrow> is_alnum (hd (collapse_separators s))"
  by (cases s) auto

lemma collapse_single: "single_underscores (collapse_separators s)"
proof (induction s rule: collapse_separators.induct)
  case (2 c cs)
  show ?case
  proof (cases "is_alnum c")
    case True
    with 2 alnum_not_underscore [OF True] show ?thesis
      by (cases "collapse_separators cs") auto
  next
    case False
    let ?r = "dropWhile (\<lambda>d. \<not> is_alnum d) cs"
    have "collapse_separators ?r \<noteq> [] \<Longrightarrow> is_alnum (hd (collapse_separators ?r))"
      using hd_dropWhile [of "\<lambda>d. \<not> is_alnum d" cs] by (cases "?r = []") (auto intro: collapse_hd)
    with 2 False show ?thesis
      by (cases "collapse_separators ?r") auto
  qed
qed simp

lemma single_underscores_map_lower:
  "\<forall>c \<in> set s. is_alnum c \<or> c = CHR ''_'' \<Longrightarrow>
   single_underscores (map ascii_lower s) = single_underscores s"
proof (induction s rule: single_underscores.induct)
  case (1 c d s)
  have "ascii_lower x = CHR ''_'' \<longleftrightarrow> x = CHR ''_''" if "is_alnum x \<or> x = CHR ''_''" for x
    using that alnum_ascii_lower_iff [of x] by (auto simp: ascii_lower_id is_upper_def)
  with 1 show ?case by simp
qed simp_all

lemma single_underscores_append: "single_underscores (s @ t) \<Longrightarrow> single_underscores s \<and> single_underscores t"
proof (induction s rule: single_underscores.induct)
  case (1 c d s)
  then show ?case by simp
qed (cases t; auto)+

lemma trim_infix: "\<exists>a b. s = a @ trim_underscores s @ b"
proof -
  let ?P = "\<lambda>c. c = CHR ''_''"
  let ?t = "dropWhile ?P s"
  have "s = takeWhile ?P s @ ?t" by simp
  moreover have "?t = trim_underscores s @ rev (takeWhile ?P (rev ?t))"
    unfolding trim_underscores_def by (metis rev_append rev_rev_ident takeWhile_dropWhile_id)
  ultimately show ?thesis by metis
qed

lemma trim_ends:
  assumes "trim_underscores s \<noteq> []"
  shows "hd (trim_underscores s) \<noteq> CHR ''_''" "last (trim_underscores s) \<noteq> CHR ''_''"
proof -
  let ?P = "\<lambda>c. c = CHR ''_''"
  let ?t = "dropWhile ?P s"
  have ne: "dropWhile ?P (rev ?t) \<noteq> []" using assms by (simp add: trim_underscores_def)
  show "last (trim_underscores s) \<noteq> CHR ''_''"
    using hd_dropWhile [OF ne] ne by (simp add: trim_underscores_def last_rev)
  have t: "?t = trim_underscores s @ rev (takeWhile ?P (rev ?t))"
    unfolding trim_underscores_def by (metis rev_append rev_rev_ident takeWhile_dropWhile_id)
  then have "hd (trim_underscores s) = hd ?t" using assms by (metis hd_append2)
  moreover have "?t \<noteq> []" using t assms by (metis Nil_is_append_conv)
  ultimately show "hd (trim_underscores s) \<noteq> CHR ''_''" using hd_dropWhile [of ?P s] by auto
qed

lemma normalize_snake_case: "snake_case (normalizeSensitiveKey key)"
proof -
  define s where "s = map ascii_lower (collapse_separators (camel_breaks (acronym_breaks key)))"
  have norm: "normalizeSensitiveKey key = trim_underscores s"
    by (simp add: normalizeSensitiveKey_def s_def)
  have chars: "snake_char c" if "c \<in> set s" for c
  proof -
    from that obtain d where d: "d \<in> set (collapse_separators (camel_breaks (acronym_breaks key)))"
      and c: "c = ascii_lower d" by (auto simp: s_def)
    from collapse_chars [OF d] show ?thesis
      using c alnum_ascii_lower [of d] by (auto simp: snake_char_def ascii_lower_id is_upper_def)
  qed
  have single: "single_underscores s"
    unfolding s_def by (subst single_underscores_map_lower) (auto simp: collapse_single dest: collapse_chars)
  obtain a b where ab: "s = a @ trim_underscores s @ b" using trim_infix by blast
  from single ab have "single_underscores (trim_underscores s)"
    by (metis single_underscores_append)
  moreover have "list_all snake_char (trim_underscores s)"
    using chars ab by (metis Un_iff list_all_iff set_append)
  ultimately show ?thesis using trim_ends [of s] by (simp add: snake_case_def norm)
qed

lemma acronym_breaks_id: "list_all (\<lambda>c. \<not> is_upper c) s \<Longrightarrow> acronym_breaks s = s"
  by (induction s) auto

lemma camel_breaks_id: "list_all (\<lambda>c. \<not> is_upper c) s \<Longrightarrow> camel_breaks s = s"
  by (induction s rule: camel_breaks.induct) auto

lemma collapse_id: "list_all snake_char s \<Longrightarrow> single_underscores s \<Longrightarrow> collapse_separators s = s"
proof (induction s rule: length_induct)
  case (1 s)
  show ?case
  proof (cases s)
    case (Cons c cs)
    from 1 Cons have rest: "list_all snake_char cs" "single_underscores cs"
      by (auto, cases cs, auto)
    with 1 Cons have IH: "collapse_separators cs = cs" by simp
    show ?thesis
    proof (cases "is_alnum c")
      case True
      with IH Cons show ?thesis by simp
    next
      case False
      with 1 Cons have c: "c = CHR ''_''" by (auto simp: snake_char_def is_alnum_def)
      have "dropWhile (\<lambda>d. \<not> is_alnum d) cs = cs"
        using 1 Cons c by (cases cs) (auto simp: snake_char_def is_alnum_def)
      with False c IH Cons show ?thesis by simp
    qed
  qed simp
qed

lemma trim_id:
  assumes "s \<noteq> [] \<Longrightarrow> hd s \<noteq> CHR ''_'' \<and> last s \<noteq> CHR ''_''"
  shows "trim_underscores s = s"
proof (cases "s = []")
  case False
  with assms have "hd s \<noteq> CHR ''_''" "hd (rev s) \<noteq> CHR ''_''" by (simp_all add: hd_rev)
  then show ?thesis by (simp add: trim_underscores_def dropWhile_hd)
qed (simp add: trim_underscores_def)

lemma snake_char_not_upper: "snake_char c \<Longrightarrow> \<not> is_upper c"
  by (auto simp: snake_char_def char_class_defs)

lemma normalize_id:
  assumes "snake_case s"
  shows "normalizeSensitiveKey s = s"
proof -
  have "list_all (\<lambda>c. \<not> is_upper c) s"
    using assms snake_char_not_upper by (auto simp: snake_case_def list_all_iff)
  moreover from this have "map ascii_lower s = s"
    by (simp add: list_all_iff ascii_lower_id map_idI)
  ultimately show ?thesis
    using assms by (simp add: normalizeSensitiveKey_def acronym_breaks_id camel_breaks_id collapse_id
        trim_id snake_case_def)
qed

lemma isSensitiveKey_normalize: "isSensitiveKey (normalizeSensitiveKey k) = isSensitiveKey k"
  by (simp add: isSensitiveKey_def normalize_id normalize_snake_case)

section \<open>Facts about redaction\<close>

text \<open>The value of a redaction, without the paths, and what is redacted.\<close>

fun redacted :: "json \<Rightarrow> json" where
  "redacted (JArr xs) = JArr (map redacted xs)"
| "redacted (JObj es) =
     JObj (map (\<lambda>p. (fst p, if isSensitiveKey (fst p) then JStr REDACTED else redacted (snd p))) es)"
| "redacted v = v"

fun has_secret :: "json \<Rightarrow> bool" where
  "has_secret (JArr xs) = list_ex has_secret xs"
| "has_secret (JObj es) = list_ex (\<lambda>p. isSensitiveKey (fst p) \<or> has_secret (snd p)) es"
| "has_secret _ = False"

text \<open>No sensitive key, at any depth, holds anything but the marker.\<close>

fun leak_free :: "json \<Rightarrow> bool" where
  "leak_free (JArr xs) = list_all leak_free xs"
| "leak_free (JObj es) =
     list_all (\<lambda>p. if isSensitiveKey (fst p) then snd p = JStr REDACTED else leak_free (snd p)) es"
| "leak_free _ = True"

text \<open>How many entries are replaced.\<close>

fun secret_count :: "json \<Rightarrow> nat" where
  "secret_count (JArr xs) = sum_list (map secret_count xs)"
| "secret_count (JObj es) =
     sum_list (map (\<lambda>p. if isSensitiveKey (fst p) then 1 else secret_count (snd p)) es)"
| "secret_count _ = 0"

lemma fst_redact [simp]:
  "fst (redact v p) = redacted v"
  "fst (redact_items i xs p) = map redacted xs"
  "fst (redact_entries es p) =
     map (\<lambda>p. (fst p, if isSensitiveKey (fst p) then JStr REDACTED else redacted (snd p))) es"
  by (induction v p and i xs p and es p rule: redact_redact_items_redact_entries.induct)
    (auto split: prod.splits simp: prod_eq_iff)

lemma length_snd_redact:
  "length (snd (redact v p)) = secret_count v"
  "length (snd (redact_items i xs p)) = sum_list (map secret_count xs)"
  "length (snd (redact_entries es p)) =
     sum_list (map (\<lambda>p. if isSensitiveKey (fst p) then 1 else secret_count (snd p)) es)"
  by (induction v p and i xs p and es p rule: redact_redact_items_redact_entries.induct)
    (auto split: prod.splits simp: prod_eq_iff)

lemma redactSecrets_value [simp]: "redacted_value (redactSecrets v) = redacted v"
proof -
  have "redacted_value (redactSecrets v) = fst (redact v [])"
    unfolding redactSecrets_def by (cases "redact v []") (simp del: fst_redact)
  then show ?thesis by simp
qed

lemma redactSecrets_paths: "redactedPaths (redactSecrets v) = snd (redact v [])"
  by (simp add: redactSecrets_def split: prod.splits)

lemma redactSecrets_paths_length: "length (redactedPaths (redactSecrets v)) = secret_count v"
  by (simp add: redactSecrets_paths length_snd_redact)

lemma secret_count_0_iff: "secret_count v = 0 \<longleftrightarrow> \<not> has_secret v"
proof (induction v)
  case (JArr xs)
  then have "(\<forall>x \<in> set xs. secret_count x = 0) \<longleftrightarrow> (\<forall>x \<in> set xs. \<not> has_secret x)" by blast
  then show ?case by (simp add: list_ex_iff)
next
  case (JObj es)
  have "secret_count (snd p) = 0 \<longleftrightarrow> \<not> has_secret (snd p)" if "p \<in> set es" for p
    using JObj [of p "snd p"] that by (auto simp: snds.simps)
  then have eq: "(if isSensitiveKey (fst p) then 1 else secret_count (snd p)) = 0
      \<longleftrightarrow> \<not> (isSensitiveKey (fst p) \<or> has_secret (snd p))" if "p \<in> set es" for p
    using that by simp
  have "secret_count (JObj es) = 0
      \<longleftrightarrow> (\<forall>p \<in> set es. (if isSensitiveKey (fst p) then 1 else secret_count (snd p)) = 0)"
    unfolding secret_count.simps sum_list_eq_0_iff by (simp only: set_map ball_simps)
  with eq show ?case by (simp only: has_secret.simps list_ex_iff) blast
qed simp_all

lemma redactedPaths_Nil_iff: "redactedPaths (redactSecrets v) = [] \<longleftrightarrow> \<not> has_secret v"
  by (metis length_0_conv redactSecrets_paths_length secret_count_0_iff)

lemma redacted_leak_free: "leak_free (redacted v)"
proof (induction v)
  case (JObj es)
  have "leak_free (redacted (snd p))" if "p \<in> set es" for p
    using JObj [of p "snd p"] that by (auto simp: snds.simps)
  then show ?case by (simp add: list_all_iff)
qed (simp_all add: list_all_iff)

lemma redacted_id: "leak_free v \<Longrightarrow> redacted v = v"
proof (induction v)
  case (JArr xs)
  then show ?case by (simp add: list_all_iff map_idI)
next
  case (JObj es)
  have "(fst p, if isSensitiveKey (fst p) then JStr REDACTED else redacted (snd p)) = p" if "p \<in> set es" for p
  proof (cases "isSensitiveKey (fst p)")
    case True
    with JObj.prems that show ?thesis by (cases p) (auto simp: list_all_iff)
  next
    case False
    with JObj.prems that have "leak_free (snd p)" by (auto simp: list_all_iff)
    with JObj.IH [of p "snd p"] that False show ?thesis by (cases p) (auto simp: snds.simps)
  qed
  then show ?case by (simp add: map_idI)
qed simp_all

lemma no_secret_leak_free: "\<not> has_secret v \<Longrightarrow> leak_free v"
proof (induction v)
  case (JObj es)
  have "leak_free (snd p)" "\<not> isSensitiveKey (fst p)" if "p \<in> set es" for p
    using JObj.IH [of p "snd p"] JObj.prems that by (auto simp: snds.simps list_ex_iff)
  then show ?case by (simp add: list_all_iff)
qed (simp_all add: list_all_iff list_ex_iff)

end
