(* ===== verification/Validation.thy ===== *)
theory Validation
  imports Redaction
begin

text \<open>
  Validation and normalisation of one probe event (\<open>src/domain/event-validation.ts\<close>): the
  bounded-JSON predicate, the diagnostics, and \<open>validateAndNormalizeEvent\<close>. The value is what
  \<open>JSON.parse\<close> produced; \<open>rnd_event\<close> and \<open>rnd_diag\<close> are the values \<open>randomUUID()\<close> returns for
  the event identifier and for the diagnostic identifier.
\<close>

section \<open>Bounded JSON\<close>

fun isJsonValue :: "nat \<Rightarrow> json \<Rightarrow> bool" where
  "isJsonValue depth JNull = (depth \<le> 8)"
| "isJsonValue depth (JBool b) = (depth \<le> 8)"
| "isJsonValue depth (JNum n) = (depth \<le> 8 \<and> is_finite n)"
| "isJsonValue depth (JStr s) = (depth \<le> 8 \<and> js_length s \<le> 4096)"
| "isJsonValue depth (JArr xs) =
     (depth \<le> 8 \<and> length xs \<le> 100 \<and> list_all (isJsonValue (depth + 1)) xs)"
| "isJsonValue depth (JObj es) =
     (depth \<le> 8 \<and> length es \<le> 100
      \<and> list_all (\<lambda>p. js_length (fst p) \<le> 256 \<and> isJsonValue (depth + 1) (snd p)) es)"

text \<open>\<open>raw.data\<close> may be \<open>undefined\<close>, which no branch of \<open>isJsonValue\<close> accepts.\<close>

definition isBoundedJsonValue :: "json option \<Rightarrow> bool" where
  "isBoundedJsonValue v =
     (case v of None \<Rightarrow> False
      | Some w \<Rightarrow> isJsonValue 0 w \<and> byte_length (json_text w) \<le> 32 * 1024)"

section \<open>Diagnostics\<close>

definition string_field :: "string \<Rightarrow> (string \<times> json) list \<Rightarrow> string option" where
  "string_field k raw = (case field k raw of Some (JStr s) \<Rightarrow> Some s | _ \<Rightarrow> None)"

definition number_field :: "string \<Rightarrow> (string \<times> json) list \<Rightarrow> jsnum option" where
  "number_field k raw = (case field k raw of Some (JNum n) \<Rightarrow> Some n | _ \<Rightarrow> None)"

definition recoverable_of :: "(string \<times> json) list \<Rightarrow> recoverable_fields" where
  "recoverable_of raw =
     \<lparr>rec_hypothesisId = string_field ''hypothesisId'' raw,
      rec_location = string_field ''location'' raw\<rparr>"

definition make_diagnostic ::
  "string \<Rightarrow> diagnostic_reason \<Rightarrow> string \<Rightarrow> (string \<times> json) list \<Rightarrow> int \<Rightarrow> string option \<Rightarrow> diagnostic" where
  "make_diagnostic rnd why msg raw at given =
     \<lparr>diagnosticId = id_or_random ''diag'' given rnd,
      reason = why,
      diag_message = msg,
      observedAt = at,
      recoverable = recoverable_of raw,
      redactedPreview = ''[redacted invalid event]'',
      suggestedAction =
        ''Inspect the generated probe, correct its structured fields, reset the session, and reproduce.'',
      diag_eventId = None\<rparr>"

section \<open>Validation\<close>

record validation_context =
  ctx_diagnosticId :: "string option"
  ctx_eventId :: "string option"
  ctx_receivedAt :: int
  ctx_sequence :: nat

record validation_result =
  result_diagnostics :: "diagnostic list"
  result_event :: "event option"

definition bounded_string :: "nat \<Rightarrow> string option \<Rightarrow> bool" where
  "bounded_string limit s =
     (case s of None \<Rightarrow> False | Some t \<Rightarrow> 0 < js_length t \<and> js_length t \<le> limit)"

text \<open>The conjunction \<open>valid\<close>.\<close>

definition valid_event :: "(string \<times> json) list \<Rightarrow> bool" where
  "valid_event raw \<longleftrightarrow>
     bounded_string MAX_HYPOTHESIS_ID_LENGTH (string_field ''hypothesisId'' raw)
     \<and> (case number_field ''timestamp'' raw of None \<Rightarrow> False | Some n \<Rightarrow> is_finite n)
     \<and> bounded_string 1024 (string_field ''location'' raw)
     \<and> bounded_string 1024 (string_field ''message'' raw)
     \<and> isBoundedJsonValue (field ''data'' raw)"

definition normalized_event ::
  "string \<Rightarrow> (string \<times> json) list \<Rightarrow> json \<Rightarrow> validation_context \<Rightarrow> event" where
  "normalized_event rnd raw value ctx =
     \<lparr>event_id = id_or_random ''evt'' (ctx_eventId ctx) rnd,
      sequence = ctx_sequence ctx,
      receivedAt = ctx_receivedAt ctx,
      hypothesisId = the (string_field ''hypothesisId'' raw),
      location = the (string_field ''location'' raw),
      message = the (string_field ''message'' raw),
      data = value,
      timestamp = the (number_field ''timestamp'' raw)\<rparr>"

definition validateAndNormalizeEvent ::
  "string \<Rightarrow> string \<Rightarrow> json \<Rightarrow> validation_context \<Rightarrow> validation_result" where
  "validateAndNormalizeEvent rnd_event rnd_diag value ctx =
     (case value of
        JObj raw \<Rightarrow>
          if \<not> valid_event raw then
            \<lparr>result_diagnostics =
               [make_diagnostic rnd_diag INVALID_SCHEMA
                  ''The event does not match the required bounded schema or route scope.''
                  raw (ctx_receivedAt ctx) (ctx_diagnosticId ctx)],
             result_event = None\<rparr>
          else
            (let redaction = redactSecrets (the (field ''data'' raw));
                 ev = normalized_event rnd_event raw (redacted_value redaction) ctx
             in \<lparr>result_diagnostics =
                   (if redactedPaths redaction = [] then []
                    else [(make_diagnostic rnd_diag SECRET_REDACTED
                             (''Sensitive fields were redacted: ''
                                @ join_with '', '' (redactedPaths redaction) @ ''.'')
                             raw (ctx_receivedAt ctx) None)
                          \<lparr>diag_eventId := Some (event_id ev)\<rparr>]),
                 result_event = Some ev\<rparr>)
      | _ \<Rightarrow>
          \<lparr>result_diagnostics =
             [make_diagnostic rnd_diag INVALID_SCHEMA ''An event must be a JSON object.''
                [] (ctx_receivedAt ctx) (ctx_diagnosticId ctx)],
           result_event = None\<rparr>)"

section \<open>Facts\<close>

lemma isJsonValue_depth: "isJsonValue d v \<Longrightarrow> d \<le> 8"
  by (cases v) auto

text \<open>The longest chain of members or elements below a value.\<close>

fun json_depth :: "json \<Rightarrow> nat" where
  "json_depth (JArr xs) = fold max (map (\<lambda>x. Suc (json_depth x)) xs) 0"
| "json_depth (JObj es) = fold max (map (\<lambda>p. Suc (json_depth (snd p))) es) 0"
| "json_depth _ = 0"

lemma fold_max_le: "fold max xs (m::nat) \<le> k \<longleftrightarrow> m \<le> k \<and> (\<forall>x \<in> set xs. x \<le> k)"
  by (induction xs arbitrary: m) auto

lemma isJsonValue_json_depth: "isJsonValue d v \<Longrightarrow> json_depth v \<le> 8 - d"
proof (induction v arbitrary: d)
  case (JArr xs)
  have "Suc (json_depth x) \<le> 8 - d" if "x \<in> set xs" for x
    using JArr.IH [OF that, of "d + 1"] JArr.prems that
    by (auto simp: list_all_iff dest!: bspec isJsonValue_depth)
  then show ?case by (simp add: fold_max_le)
next
  case (JObj es)
  have "Suc (json_depth (snd p)) \<le> 8 - d" if "p \<in> set es" for p
  proof -
    have "isJsonValue (d + 1) (snd p)" using JObj.prems that by (auto simp: list_all_iff)
    with JObj.IH [of p "snd p" "d + 1"] that isJsonValue_depth [of "d + 1" "snd p"]
    show ?thesis by (auto simp: snds.simps)
  qed
  then show ?case by (simp add: fold_max_le)
qed simp_all

lemma REDACTED_length: "js_length REDACTED = 10"
  by (simp add: REDACTED_def)

lemma isJsonValue_redacted: "isJsonValue d v \<Longrightarrow> isJsonValue d (redacted v)"
proof (induction v arbitrary: d)
  case (JArr xs)
  then show ?case by (auto simp: list_all_iff)
next
  case (JObj es)
  have marker: "isJsonValue (d + 1) (JStr REDACTED)" if "p \<in> set es" for p
  proof -
    from that JObj.prems have "isJsonValue (d + 1) (snd p)" by (auto simp: list_all_iff)
    then show ?thesis by (auto simp: REDACTED_length dest: isJsonValue_depth)
  qed
  have inner: "isJsonValue (d + 1) (redacted (snd p))" if "p \<in> set es" for p
    using JObj.IH [of p "snd p"] JObj.prems that by (auto simp: list_all_iff snds.simps)
  show ?case using JObj.prems marker inner
    by (simp add: list_all_iff del: isJsonValue.simps(4))
qed auto

lemma validate_object_invalid:
  "\<not> valid_event raw \<Longrightarrow> result_event (validateAndNormalizeEvent u w (JObj raw) ctx) = None"
  by (simp add: validateAndNormalizeEvent_def)

lemma validate_event_iff:
  "result_event (validateAndNormalizeEvent u w v ctx) \<noteq> None \<longleftrightarrow> (\<exists>raw. v = JObj raw \<and> valid_event raw)"
  by (cases v) (auto simp: validateAndNormalizeEvent_def Let_def)

lemma validate_rejected_diagnostics:
  assumes "result_event (validateAndNormalizeEvent u w v ctx) = None"
  shows "\<exists>d. result_diagnostics (validateAndNormalizeEvent u w v ctx) = [d] \<and> reason d = INVALID_SCHEMA
    \<and> diagnosticId d = id_or_random ''diag'' (ctx_diagnosticId ctx) w"
  using assms
  by (cases v) (auto simp: validateAndNormalizeEvent_def Let_def make_diagnostic_def split: if_splits)

lemma validate_accepted:
  assumes "result_event (validateAndNormalizeEvent u w v ctx) = Some ev"
  obtains raw d where "v = JObj raw" "valid_event raw" "field ''data'' raw = Some d"
    "ev = normalized_event u raw (redacted d) ctx"
    "result_diagnostics (validateAndNormalizeEvent u w v ctx) = [] \<longleftrightarrow> \<not> has_secret d"
    "\<And>g. g \<in> set (result_diagnostics (validateAndNormalizeEvent u w v ctx)) \<Longrightarrow>
       reason g = SECRET_REDACTED \<and> diag_eventId g = Some (event_id ev) \<and> diagnosticId g = ''diag_'' @ w"
    "length (result_diagnostics (validateAndNormalizeEvent u w v ctx)) \<le> 1"
proof -
  from assms obtain raw where v: "v = JObj raw" and ok: "valid_event raw"
    using validate_event_iff by blast
  from ok obtain d where d: "field ''data'' raw = Some d"
    by (auto simp: valid_event_def isBoundedJsonValue_def split: option.splits)
  show thesis
    using assms v ok d redactedPaths_Nil_iff [of d]
    by (intro that [of raw d])
      (auto simp: validateAndNormalizeEvent_def Let_def make_diagnostic_def id_or_random_def split: if_splits)
qed

text \<open>What holds of every event that validation lets through.\<close>

definition within :: "nat \<Rightarrow> string \<Rightarrow> bool" where
  "within limit s \<longleftrightarrow> 0 < js_length s \<and> js_length s \<le> limit"

definition event_ok :: "event \<Rightarrow> bool" where
  "event_ok ev \<longleftrightarrow> within MAX_HYPOTHESIS_ID_LENGTH (hypothesisId ev) \<and> within 1024 (location ev)
     \<and> within 1024 (message ev) \<and> is_finite (timestamp ev)
     \<and> isJsonValue 0 (data ev) \<and> leak_free (data ev)"

lemma bounded_string_within: "bounded_string limit s \<Longrightarrow> s \<noteq> None \<and> within limit (the s)"
  by (auto simp: bounded_string_def within_def split: option.splits)

lemma validate_event_ok:
  assumes "result_event (validateAndNormalizeEvent u w v ctx) = Some ev"
  shows "event_ok ev"
  using assms
proof (rule validate_accepted)
  fix raw d
  assume "valid_event raw" "field ''data'' raw = Some d" "ev = normalized_event u raw (redacted d) ctx"
  then show ?thesis
    by (auto simp: event_ok_def normalized_event_def valid_event_def isBoundedJsonValue_def redacted_leak_free
        dest: bounded_string_within intro: isJsonValue_redacted split: option.splits)
qed

lemma event_ok_sequence [simp]: "event_ok (ev\<lparr>sequence := n\<rparr>) = event_ok ev"
  by (simp add: event_ok_def)

end
