(* ===== verification/Store_Facts.thy ===== *)
theory Store_Facts
  imports Store Validation
begin

text \<open>
  The invariant of the evidence store and what each operation does under it. The state of one
  session is its \<open>view\<close>: the directory with the three caches. Every operation on a session
  changes that session's view only, so the invariant is a condition on single views.
\<close>

section \<open>Records of a file\<close>

fun good_records :: "'a line list \<Rightarrow> 'a list" where
  "good_records [] = []"
| "good_records (Rec x # ls) = x # good_records ls"
| "good_records (Bad # ls) = good_records ls"

definition stored :: "'a line list option \<Rightarrow> 'a list" where
  "stored f = (case f of None \<Rightarrow> [] | Some ls \<Rightarrow> good_records ls)"

definition intact :: "'a line list option \<Rightarrow> bool" where
  "intact f \<longleftrightarrow> f = Some (map Rec (stored f))"

lemma good_records_map_Rec [simp]: "good_records (map Rec xs) = xs"
  by (induction xs) auto

lemma good_records_append [simp]: "good_records (ls @ ls') = good_records ls @ good_records ls'"
  by (induction ls rule: good_records.induct) auto

lemma records_of_map_Rec [simp]: "records_of (map Rec xs) = Inr xs"
  by (induction xs) auto

lemma stored_simps [simp]:
  "stored None = []" "stored (Some ls) = good_records ls"
  by (simp_all add: stored_def)

lemma stored_append_lines [simp]: "stored (append_lines xs f) = stored f @ xs"
  by (simp add: append_lines_def split: option.splits)

lemma stored_or_empty [simp]: "stored (or_empty f) = stored f"
  by (simp add: or_empty_def split: option.splits)

lemma intact_Some_Nil [simp]: "intact (Some [])"
  by (simp add: intact_def)

lemma intact_append_lines [simp]: "intact f \<Longrightarrow> intact (append_lines xs f)"
  by (cases f) (auto simp: intact_def append_lines_def)

lemma records_or_missing_intact [simp]: "intact f \<Longrightarrow> records_or_missing f = Inr (stored f)"
  by (metis intact_def option.simps(5) records_of_map_Rec records_or_missing_def)

lemma records_of_Inr_iff: "records_of ls = Inr xs \<longleftrightarrow> ls = map Rec xs"
proof (induction ls arbitrary: xs rule: records_of.induct)
  case (3 x ls)
  then show ?case by (cases "records_of ls"; cases xs) auto
qed auto

lemma summary_foldl:
  "eventCount (foldl summary_step acc ls) = eventCount acc + length (good_records ls)"
  "summary_watermark (foldl summary_step acc ls) =
     foldl max (summary_watermark acc) (map sequence (good_records ls))"
  by (induction ls arbitrary: acc rule: good_records.induct) auto

lemma summarize_lines_simps [simp]:
  "eventCount (summarize_lines ls) = length (good_records ls)"
  "summary_watermark (summarize_lines ls) = foldl max 0 (map sequence (good_records ls))"
  by (simp_all add: summarize_lines_def summary_foldl)

section \<open>Views\<close>

type_synonym view = "session_dir option \<times> string set option \<times> string set option \<times> nat option"

definition view :: "daemon \<Rightarrow> string \<Rightarrow> view" where
  "view s sid = (directory_of s sid, event_ids s sid, diagnostic_ids s sid, sequence_values s sid)"

abbreviation dir_events :: "session_dir \<Rightarrow> event list" where
  "dir_events d \<equiv> stored (events_ndjson d)"

abbreviation dir_diagnostics :: "session_dir \<Rightarrow> diagnostic list" where
  "dir_diagnostics d \<equiv> stored (diagnostics_ndjson d)"

text \<open>
  A directory is well formed: the session document is the session's, the files exist and every
  line parses, every event is within the bounds and free of secrets, identifiers are unique and
  the sequence numbers are 1, 2, ... in file order.
\<close>

definition dir_ok :: "string \<Rightarrow> session_dir \<Rightarrow> bool" where
  "dir_ok sid d \<longleftrightarrow>
     (\<exists>ses. session_json d = Doc ses \<and> session_id ses = sid)
     \<and> incoming_ndjson d \<noteq> None
     \<and> intact (events_ndjson d) \<and> intact (diagnostics_ndjson d)
     \<and> list_all event_ok (dir_events d)
     \<and> distinct (map event_id (dir_events d))
     \<and> map sequence (dir_events d) = [1..<length (dir_events d) + 1]
     \<and> distinct (map diagnosticId (dir_diagnostics d))"

text \<open>A cache that is present agrees with the file.\<close>

fun view_ok :: "string \<Rightarrow> view \<Rightarrow> bool" where
  "view_ok sid (None, _) = True"
| "view_ok sid (Some d, e, g, q) =
     (dir_ok sid d
      \<and> e \<in> {None, Some (event_id ` set (dir_events d))}
      \<and> g \<in> {None, Some (diagnosticId ` set (dir_diagnostics d))}
      \<and> q \<in> {None, Some (length (dir_events d))})"

definition store_inv :: "(nat \<Rightarrow> string) \<Rightarrow> daemon \<Rightarrow> bool" where
  "store_inv uuid s \<longleftrightarrow>
     distinct (map fst (directories s))
     \<and> (\<forall>sid. view_ok sid (view s sid))
     \<and> (\<forall>sid. view s sid \<noteq> (None, None, None, None) \<longrightarrow> SAFE_ID sid \<and> sid \<in> uuid ` {..<draws s})"

lemma directory_of_put [simp]:
  "directory_of (put_directory sid d s) sid' = (if sid' = sid then Some d else directory_of s sid')"
  by (simp add: directory_of_def put_directory_def update_conv')

lemma put_directory_fields [simp]:
  "event_ids (put_directory sid d s) = event_ids s"
  "diagnostic_ids (put_directory sid d s) = diagnostic_ids s"
  "sequence_values (put_directory sid d s) = sequence_values s"
  "draws (put_directory sid d s) = draws s"
  by (simp_all add: put_directory_def)

lemma directory_of_updates [simp]:
  "directory_of (event_ids_update f s) = directory_of s"
  "directory_of (diagnostic_ids_update g s) = directory_of s"
  "directory_of (sequence_values_update h s) = directory_of s"
  "directory_of (draws_update i s) = directory_of s"
  by (simp_all add: directory_of_def fun_eq_iff)

lemma directories_put_distinct [simp]:
  "distinct (map fst (directories (put_directory sid d s))) = distinct (map fst (directories s))"
  by (auto simp: put_directory_def distinct_update update_keys)

lemma view_unfold [simp]:
  "view s sid = (a, b, c, d) \<longleftrightarrow> directory_of s sid = a \<and> event_ids s sid = b
     \<and> diagnostic_ids s sid = c \<and> sequence_values s sid = d"
  by (auto simp: view_def)

lemma view_eq_iff:
  "view s sid = view s' sid \<longleftrightarrow> directory_of s sid = directory_of s' sid \<and> event_ids s sid = event_ids s' sid
     \<and> diagnostic_ids s sid = diagnostic_ids s' sid \<and> sequence_values s sid = sequence_values s' sid"
  by (auto simp: view_def)

lemma store_inv_initial: "store_inv uuid initial_daemon"
  by (simp add: store_inv_def initial_daemon_def view_def directory_of_def)

lemma store_inv_session:
  assumes "store_inv uuid s" "directory_of s sid = Some d"
  shows "SAFE_ID sid" "sid \<in> uuid ` {..<draws s}" "view_ok sid (Some d, event_ids s sid, diagnostic_ids s sid, sequence_values s sid)"
  using assms by (auto simp: store_inv_def view_def dest: spec [of _ sid])

text \<open>An operation on one session that leaves a good view of it keeps the invariant.\<close>

lemma store_inv_local:
  assumes "store_inv uuid s" "directory_of s sid = Some d"
    and "\<And>sid'. sid' \<noteq> sid \<Longrightarrow> view t sid' = view s sid'"
    and "view_ok sid (view t sid)" "draws s \<le> draws t" "distinct (map fst (directories t))"
  shows "store_inv uuid t"
proof -
  have "view_ok sid' (view t sid')" for sid'
    using assms(1,3,4) by (cases "sid' = sid") (auto simp: store_inv_def)
  moreover have "SAFE_ID sid' \<and> sid' \<in> uuid ` {..<draws t}" if "view t sid' \<noteq> (None, None, None, None)" for sid'
  proof -
    have "SAFE_ID sid' \<and> sid' \<in> uuid ` {..<draws s}"
    proof (cases "sid' = sid")
      case True
      with store_inv_session [OF assms(1,2)] show ?thesis by simp
    next
      case False
      with assms(1) assms(3) [of sid'] that show ?thesis by (auto simp: store_inv_def view_def)
    qed
    with assms(5) show ?thesis by auto
  qed
  ultimately show ?thesis using assms(6) by (simp add: store_inv_def)
qed

section \<open>Operations on a given view\<close>

text \<open>
  \<open>with_view\<close> puts a view in place; the operations on the session then rewrite it. Every state
  that has the session is of this form (\<open>with_view_same\<close>).
\<close>

definition with_view ::
  "string \<Rightarrow> session_dir \<Rightarrow> string set option \<Rightarrow> string set option \<Rightarrow> nat option \<Rightarrow> daemon \<Rightarrow> daemon" where
  "with_view sid d e g q s =
     \<lparr>directories = AList.update sid d (directories s),
      event_ids = (event_ids s)(sid := e), diagnostic_ids = (diagnostic_ids s)(sid := g),
      sequence_values = (sequence_values s)(sid := q), draws = draws s\<rparr>"

lemma update_twice: "AList.update k v (AList.update k w al) = AList.update k v al"
  by (induction al) auto

lemma with_view_same:
  "view s sid = (Some d, e, g, q) \<Longrightarrow> with_view sid d e g q s = s"
  by (cases s) (auto simp: with_view_def directory_of_def update_triv)

lemma with_view_twice [simp]:
  "with_view sid d e g q (with_view sid d' e' g' q' s) = with_view sid d e g q s"
  by (simp add: with_view_def update_twice)

lemma with_view_access [simp]:
  "directory_of (with_view sid d e g q s) sid' = (if sid' = sid then Some d else directory_of s sid')"
  "event_ids (with_view sid d e g q s) sid = e"
  "diagnostic_ids (with_view sid d e g q s) sid = g"
  "sequence_values (with_view sid d e g q s) sid = q"
  "draws (with_view sid d e g q s) = draws s"
  "distinct (map fst (directories (with_view sid d e g q s))) = distinct (map fst (directories s))"
  by (auto simp: with_view_def directory_of_def update_conv' distinct_update update_keys)

lemma view_with_view:
  "view (with_view sid d e g q s) sid' = (if sid' = sid then (Some d, e, g, q) else view s sid')"
  by (auto simp: with_view_def view_def directory_of_def update_conv')

lemma with_view_updates [simp]:
  "put_directory sid d' (with_view sid d e g q s) = with_view sid d' e g q s"
  "event_ids_update (\<lambda>m. m(sid := e')) (with_view sid d e g q s) = with_view sid d e' g q s"
  "diagnostic_ids_update (\<lambda>m. m(sid := g')) (with_view sid d e g q s) = with_view sid d e g' q s"
  "sequence_values_update (\<lambda>m. m(sid := q')) (with_view sid d e g q s) = with_view sid d e g q' s"
  by (simp_all add: with_view_def put_directory_def update_twice)

lemma store_inv_with_view:
  assumes "store_inv uuid s" "directory_of s sid = Some d0" "view_ok sid (Some d, e, g, q)"
  shows "store_inv uuid (with_view sid d e g q s)"
  using assms
  by (intro store_inv_local [OF assms(1,2)]) (auto simp: view_with_view store_inv_def)

lemma store_inv_draws: "store_inv uuid s \<Longrightarrow> store_inv uuid (s\<lparr>draws := Suc (draws s)\<rparr>)"
proof -
  assume inv: "store_inv uuid s"
  have "view (s\<lparr>draws := Suc (draws s)\<rparr>) = view s"
    by (simp add: view_def directory_of_def fun_eq_iff)
  moreover have "uuid ` {..<draws s} \<subseteq> uuid ` {..<Suc (draws s)}" by auto
  ultimately show ?thesis using inv by (auto simp: store_inv_def simp del: view_unfold)
qed

lemma requireSafe_ok [simp, op_simps]: "SAFE_ID sid \<Longrightarrow> requireSafe sid s = (Inr (), s)"
  by (simp add: requireSafe_def)

lemma readDirectory_view [simp, op_simps]:
  "SAFE_ID sid \<Longrightarrow> readDirectory sid f (with_view sid d e g q s) = (f d, with_view sid d e g q s)"
  by (simp add: readDirectory_def)

lemma changeDirectory_view [simp, op_simps]:
  "SAFE_ID sid \<Longrightarrow>
     changeDirectory sid f (with_view sid d e g q s) = (Inr (), with_view sid (f d) e g q s)"
  by (simp add: changeDirectory_def)

lemma getSession_view [simp, op_simps]:
  "SAFE_ID sid \<Longrightarrow> getSession sid (with_view sid d e g q s) =
     (document_value (session_json d), with_view sid d e g q s)"
  by (simp add: getSession_def)

text \<open>
  The two stores share one scheme: the identifiers of a log are cached, and read from the file
  when they are not.
\<close>

locale id_log =
  fixes log_file :: "session_dir \<Rightarrow> 'a line list option"
    and ident :: "'a \<Rightarrow> string"
    and known :: "daemon \<Rightarrow> string \<Rightarrow> string set option"
    and remember :: "string \<Rightarrow> string set \<Rightarrow> daemon \<Rightarrow> daemon"
    and knownIds :: "string \<Rightarrow> (daemon, string set) op"
  assumes cached: "known s sid = Some ids \<Longrightarrow> knownIds sid s = (Inr ids, s)"
    and from_file: "known s sid = None \<Longrightarrow> SAFE_ID sid \<Longrightarrow> directory_of s sid = Some d \<Longrightarrow>
      records_or_missing (log_file d) = Inr xs \<Longrightarrow>
      knownIds sid s = (Inr (ident ` set xs), remember sid (ident ` set xs) s)"
    and remember_known: "known s sid = Some ids \<Longrightarrow> remember sid ids s = s"
begin

lemma knownIds_intact:
  assumes "SAFE_ID sid" "directory_of s sid = Some d" "intact (log_file d)"
    and "known s sid \<in> {None, Some (ident ` set (stored (log_file d)))}"
  shows "knownIds sid s = (Inr (ident ` set (stored (log_file d))),
    remember sid (ident ` set (stored (log_file d))) s)"
proof (cases "known s sid")
  case None
  with from_file [OF _ assms(1,2) records_or_missing_intact [OF assms(3)]] show ?thesis by simp
next
  case (Some ids)
  with assms(4) cached [OF Some] remember_known [OF Some] show ?thesis by simp
qed

end

definition remember_events :: "string \<Rightarrow> string set \<Rightarrow> daemon \<Rightarrow> daemon" where
  "remember_events sid ids = event_ids_update (\<lambda>m. m(sid \<mapsto> ids))"

definition remember_diagnostics :: "string \<Rightarrow> string set \<Rightarrow> daemon \<Rightarrow> daemon" where
  "remember_diagnostics sid ids = diagnostic_ids_update (\<lambda>m. m(sid \<mapsto> ids))"

lemma readDirectory_found:
  "SAFE_ID sid \<Longrightarrow> directory_of s sid = Some d \<Longrightarrow> readDirectory sid f s = (f d, s)"
  by (simp add: readDirectory_def)

interpretation event_log: id_log events_ndjson event_id event_ids remember_events knownEventIds
proof
  fix s :: daemon and sid ids
  assume "event_ids s sid = Some ids"
  then show "knownEventIds sid s = (Inr ids, s)" "remember_events sid ids s = s"
    by (cases s; auto simp: knownEventIds_def remember_events_def)+
next
  fix s :: daemon and sid d xs
  assume "event_ids s sid = None" "SAFE_ID sid" "directory_of s sid = Some d"
    "records_or_missing (events_ndjson d) = Inr xs"
  then show "knownEventIds sid s = (Inr (event_id ` set xs), remember_events sid (event_id ` set xs) s)"
    by (simp add: knownEventIds_def remember_events_def readEventFile_def readDirectory_found)
qed

interpretation diagnostic_log:
  id_log diagnostics_ndjson diagnosticId diagnostic_ids remember_diagnostics knownDiagnosticIds
proof
  fix s :: daemon and sid ids
  assume "diagnostic_ids s sid = Some ids"
  then show "knownDiagnosticIds sid s = (Inr ids, s)" "remember_diagnostics sid ids s = s"
    by (cases s; auto simp: knownDiagnosticIds_def remember_diagnostics_def)+
next
  fix s :: daemon and sid d xs
  assume "diagnostic_ids s sid = None" "SAFE_ID sid" "directory_of s sid = Some d"
    "records_or_missing (diagnostics_ndjson d) = Inr xs"
  then show "knownDiagnosticIds sid s =
      (Inr (diagnosticId ` set xs), remember_diagnostics sid (diagnosticId ` set xs) s)"
    by (simp add: knownDiagnosticIds_def remember_diagnostics_def readDiagnosticFile_def readDirectory_found)
qed

end
