(* ===== verification/Store_Invariant.thy ===== *)
theory Store_Invariant
  imports Store_Facts
begin

text \<open>
  What the operations of the two stores, the sequence and the registry do on a well-formed
  session, and that they keep the invariant of the store.
\<close>

section \<open>The stores\<close>

abbreviation dir_event_ids :: "session_dir \<Rightarrow> string set" where
  "dir_event_ids d \<equiv> event_id ` set (dir_events d)"

abbreviation dir_diagnostic_ids :: "session_dir \<Rightarrow> string set" where
  "dir_diagnostic_ids d \<equiv> diagnosticId ` set (dir_diagnostics d)"

lemma knownEventIds_view [simp, op_simps]:
  assumes "SAFE_ID sid" "intact (events_ndjson d)" "e \<in> {None, Some (dir_event_ids d)}"
  shows "knownEventIds sid (with_view sid d e g q s) =
    (Inr (dir_event_ids d), with_view sid d (Some (dir_event_ids d)) g q s)"
  using event_log.knownIds_intact [of sid "with_view sid d e g q s" d] assms
  by (simp add: remember_events_def)

lemma knownDiagnosticIds_view [simp, op_simps]:
  assumes "SAFE_ID sid" "intact (diagnostics_ndjson d)" "g \<in> {None, Some (dir_diagnostic_ids d)}"
  shows "knownDiagnosticIds sid (with_view sid d e g q s) =
    (Inr (dir_diagnostic_ids d), with_view sid d e (Some (dir_diagnostic_ids d)) q s)"
  using diagnostic_log.knownIds_intact [of sid "with_view sid d e g q s" d] assms
  by (simp add: remember_diagnostics_def)

lemma hasId_view [simp, op_simps]:
  assumes "SAFE_ID sid" "intact (events_ndjson d)" "e \<in> {None, Some (dir_event_ids d)}"
  shows "hasId sid i (with_view sid d e g q s) =
    (Inr (i \<in> dir_event_ids d), with_view sid d (Some (dir_event_ids d)) g q s)"
  using assms by (simp add: hasId_def)

definition with_event :: "event \<Rightarrow> session_dir \<Rightarrow> session_dir" where
  "with_event ev d = d\<lparr>events_ndjson := append_lines [ev] (events_ndjson d)\<rparr>"

definition with_diagnostics :: "diagnostic list \<Rightarrow> session_dir \<Rightarrow> session_dir" where
  "with_diagnostics ds d =
     (if ds = [] then d else d\<lparr>diagnostics_ndjson := append_lines ds (diagnostics_ndjson d)\<rparr>)"

lemma with_event_fields [simp]:
  "session_json (with_event ev d) = session_json d"
  "cursor_json (with_event ev d) = cursor_json d"
  "incoming_ndjson (with_event ev d) = incoming_ndjson d"
  "events_ndjson (with_event ev d) = append_lines [ev] (events_ndjson d)"
  "diagnostics_ndjson (with_event ev d) = diagnostics_ndjson d"
  by (simp_all add: with_event_def)

lemma with_diagnostics_fields [simp]:
  "session_json (with_diagnostics ds d) = session_json d"
  "cursor_json (with_diagnostics ds d) = cursor_json d"
  "incoming_ndjson (with_diagnostics ds d) = incoming_ndjson d"
  "events_ndjson (with_diagnostics ds d) = events_ndjson d"
  "stored (diagnostics_ndjson (with_diagnostics ds d)) = dir_diagnostics d @ ds"
  "intact (diagnostics_ndjson d) \<Longrightarrow> intact (diagnostics_ndjson (with_diagnostics ds d))"
  by (simp_all add: with_diagnostics_def)

lemma appendEvent_view [op_simps]:
  assumes "SAFE_ID sid" "intact (events_ndjson d)" "e \<in> {None, Some (dir_event_ids d)}"
  shows "appendEvent sid ev (with_view sid d e g q s) =
    (if event_id ev \<in> dir_event_ids d
     then (Inr False, with_view sid d (Some (dir_event_ids d)) g q s)
     else (Inr True, with_view sid (with_event ev d) (Some (dir_event_ids (with_event ev d))) g q s))"
  using assms by (simp add: appendEvent_def with_event_def)

lemma new_diagnostics_fresh:
  "set (map diagnosticId (new_diagnostics ids ds)) \<inter> ids = {}"
  "distinct (map diagnosticId (new_diagnostics ids ds))"
proof -
  have "set (map diagnosticId (new_diagnostics ids ds)) \<inter> ids = {}
      \<and> distinct (map diagnosticId (new_diagnostics ids ds))" for ids
  proof (induction ds arbitrary: ids)
    case (Cons d ds)
    from Cons [of ids] Cons [of "insert (diagnosticId d) ids"] show ?case by auto
  qed simp
  then show "set (map diagnosticId (new_diagnostics ids ds)) \<inter> ids = {}"
    "distinct (map diagnosticId (new_diagnostics ids ds))" by blast+
qed

lemma new_diagnostics_subset: "set (new_diagnostics ids ds) \<subseteq> set ds"
  by (induction ds arbitrary: ids) (simp_all add: subset_insertI2)

lemma new_diagnostics_ids:
  "ids \<union> diagnosticId ` set (new_diagnostics ids ds) = ids \<union> diagnosticId ` set ds"
proof (induction ds arbitrary: ids)
  case (Cons d ds)
  from Cons [of ids] Cons [of "insert (diagnosticId d) ids"] show ?case by auto
qed simp

lemma new_diagnostics_known: "diagnosticId ` set ds \<subseteq> ids \<Longrightarrow> new_diagnostics ids ds = []"
  by (induction ds) auto

lemma appendDiagnostics_view [op_simps]:
  assumes "SAFE_ID sid" "intact (diagnostics_ndjson d)" "g \<in> {None, Some (dir_diagnostic_ids d)}"
  shows "appendDiagnostics sid ds (with_view sid d e g q s) =
    (Inr (), if ds = [] then with_view sid d e g q s
      else let d' = with_diagnostics (new_diagnostics (dir_diagnostic_ids d) ds) d
        in with_view sid d' e (Some (dir_diagnostic_ids d')) q s)"
proof (cases "ds = []")
  case False
  show ?thesis
  proof (cases "new_diagnostics (dir_diagnostic_ids d) ds = []")
    case True
    with False assms show ?thesis
      by (simp add: appendDiagnostics_def Let_def with_diagnostics_def)
  next
    case new: False
    have "stored (append_lines (new_diagnostics (dir_diagnostic_ids d) ds) (diagnostics_ndjson d))
        = dir_diagnostics d @ new_diagnostics (dir_diagnostic_ids d) ds" by simp
    with new False assms show ?thesis
      by (simp add: appendDiagnostics_def Let_def with_diagnostics_def image_Un)
  qed
qed (simp add: appendDiagnostics_def)

lemma nextSequence_view [op_simps]:
  assumes "SAFE_ID sid" "intact (events_ndjson d)"
    "map sequence (dir_events d) = [1..<length (dir_events d) + 1]"
    "q \<in> {None, Some (length (dir_events d))}"
  shows "nextSequence sid (with_view sid d e g q s) =
    (Inr (length (dir_events d) + 1), with_view sid d e g (Some (length (dir_events d) + 1)) s)"
proof -
  have "foldl max 0 (map sequence (dir_events d)) = length (dir_events d)"
    unfolding assms(3) by (rule foldl_max_upt)
  with assms show ?thesis
    by (auto simp: nextSequence_def readEvents_def readEventFile_def)
qed

section \<open>Well-formed directories\<close>

lemma dir_ok_event:
  assumes "dir_ok sid d" "event_ok ev" "event_id ev \<notin> dir_event_ids d"
    "sequence ev = length (dir_events d) + 1"
  shows "dir_ok sid (with_event ev d)"
  using assms by (simp add: dir_ok_def)

lemma dir_ok_diagnostics:
  assumes "dir_ok sid d"
  shows "dir_ok sid (with_diagnostics (new_diagnostics (dir_diagnostic_ids d) ds) d)"
  using assms new_diagnostics_fresh [of "dir_diagnostic_ids d" ds] by (auto simp: dir_ok_def)

lemma dir_ok_initial: "session_id ses = sid \<Longrightarrow> dir_ok sid (initialize_files ses empty_directory)"
  by (simp add: dir_ok_def initialize_files_def empty_directory_def or_empty_def)

section \<open>The registry\<close>

lemma createSession_eq:
  assumes "SAFE_ID (uuid (draws s + 1))" "directory_of s (uuid (draws s + 1)) = None"
  shows "createSession uuid now s =
    (let sid = uuid (draws s + 1);
         ses = \<lparr>session_id = sid, createdAt = now, eventSchemaVersion = 1, evidenceEpoch = uuid (draws s)\<rparr>
     in (Inr ses, put_directory sid (initialize_files ses empty_directory) (s\<lparr>draws := draws s + 2\<rparr>)))"
  using assms by (simp add: createSession_def randomUUID_def Let_def)

lemma createSession_inv:
  assumes inv: "store_inv uuid s" and fresh: "uuid (draws s + 1) \<notin> uuid ` {..<draws s}"
    and safe: "SAFE_ID (uuid (draws s + 1))"
  shows "store_inv uuid (snd (createSession uuid now s))"
proof -
  define sid where "sid = uuid (draws s + 1)"
  define ses where "ses = \<lparr>session_id = sid, createdAt = now, eventSchemaVersion = 1,
    evidenceEpoch = uuid (draws s)\<rparr>"
  define t where "t = put_directory sid (initialize_files ses empty_directory) (s\<lparr>draws := draws s + 2\<rparr>)"
  have notin: "sid \<notin> uuid ` {..<draws s}"
    using fresh by (simp add: sid_def)
  with inv have none: "view s sid = (None, None, None, None)" unfolding store_inv_def by blast
  then have t: "snd (createSession uuid now s) = t"
    using createSession_eq [of uuid s now] safe
    by (simp add: sid_def t_def ses_def Let_def)
  have view_t: "view t sid' = (if sid' = sid
      then (Some (initialize_files ses empty_directory), None, None, None) else view s sid')" for sid'
    using none by (auto simp: view_def t_def)
  have "view_ok sid' (view t sid')" for sid'
    using inv view_t dir_ok_initial [of ses sid] by (auto simp: store_inv_def ses_def)
  moreover have "SAFE_ID sid' \<and> sid' \<in> uuid ` {..<draws t}" if "view t sid' \<noteq> (None, None, None, None)" for sid'
  proof (cases "sid' = sid")
    case True
    with safe show ?thesis by (auto simp: sid_def t_def)
  next
    case False
    with inv that view_t [of sid'] have "SAFE_ID sid' \<and> sid' \<in> uuid ` {..<draws s}"
      unfolding store_inv_def by (metis (full_types))
    then show ?thesis by (auto simp: t_def)
  qed
  moreover have "distinct (map fst (directories t))"
    using inv by (simp add: store_inv_def t_def)
  ultimately show ?thesis unfolding t by (simp add: store_inv_def)
qed

lemma resetSession_view:
  assumes "SAFE_ID sid" "session_json d = Doc ses"
    and links: "rejectSessionSymbolicLinks sid (with_view sid d e g q s) = (Inr (), with_view sid d e g q s)"
  shows "resetSession uuid sid (with_view sid d e g q s) =
    (Inr (Some (ses\<lparr>evidenceEpoch := uuid (draws s)\<rparr>)),
     with_view sid (d\<lparr>session_json := Doc (ses\<lparr>evidenceEpoch := uuid (draws s)\<rparr>),
        cursor_json := Doc zero_cursor, incoming_ndjson := Some [], events_ndjson := Some [],
        diagnostics_ndjson := Some [], query_spools := [], log_sorts := []\<rparr>)
       (Some {}) (Some {}) None (s\<lparr>draws := Suc (draws s)\<rparr>))"
proof -
  have draw: "randomUUID uuid (with_view sid d e g q s) =
      (Inr (uuid (draws s)), with_view sid d e g q (s\<lparr>draws := Suc (draws s)\<rparr>))" for s d e g q
    by (simp add: randomUUID_def with_view_def)
  have rec: "d\<lparr>events_ndjson := Some [], diagnostics_ndjson := Some [], log_sorts := [], query_spools := [],
      incoming_ndjson := Some [], cursor_json := c, session_json := j\<rparr> =
    d\<lparr>session_json := j, cursor_json := c, incoming_ndjson := Some [], events_ndjson := Some [],
      diagnostics_ndjson := Some [], query_spools := [], log_sorts := []\<rparr>" for c j
    by (cases d) simp
  show ?thesis
    using assms links
    by (simp add: resetSession_def document_value_def draw clearEvents_def clearDiagnostics_def
        resetSequence_def rec)
qed

text \<open>A state with the session is a view put in place; without it the registry finds nothing.\<close>

lemma store_inv_cases:
  assumes "store_inv uuid s"
  obtains (none) "directory_of s sid = None"
  | (some) d e g q where "s = with_view sid d e g q s" "directory_of s sid = Some d" "SAFE_ID sid"
      "dir_ok sid d" "e \<in> {None, Some (dir_event_ids d)}" "g \<in> {None, Some (dir_diagnostic_ids d)}"
      "q \<in> {None, Some (length (dir_events d))}"
proof (cases "directory_of s sid")
  case None
  then show thesis by (rule none)
next
  case (Some d)
  from store_inv_session [OF assms Some] with_view_same [of s sid d] Some show thesis
    by (intro some [of d "event_ids s sid" "diagnostic_ids s sid" "sequence_values s sid"]) auto
qed

lemma getSession_none: "SAFE_ID sid \<Longrightarrow> directory_of s sid = None \<Longrightarrow> getSession sid s = (Inr None, s)"
  by (simp add: getSession_def)

lemma getSession_unsafe: "\<not> SAFE_ID sid \<Longrightarrow> getSession sid s = (Inl (InvalidSessionId sid), s)"
  by (simp add: getSession_def requireSafe_def)

lemma reject_state: "snd (rejectSessionSymbolicLinks sid s) = s"
  by (cases "SAFE_ID sid") (auto simp: rejectSessionSymbolicLinks_def requireSafe_def)

lemma reject_none: "directory_of s sid = None \<Longrightarrow> SAFE_ID sid \<Longrightarrow> rejectSessionSymbolicLinks sid s = (Inr (), s)"
  by (simp add: rejectSessionSymbolicLinks_def)

lemma reject_unsafe: "\<not> SAFE_ID sid \<Longrightarrow> rejectSessionSymbolicLinks sid s = (Inl (InvalidSessionId sid), s)"
  by (simp add: rejectSessionSymbolicLinks_def requireSafe_def)

text \<open>The link check that does not find one of the links that are there lets the rest run.\<close>

definition reset_directory :: "session \<Rightarrow> string \<Rightarrow> session_dir \<Rightarrow> session_dir" where
  "reset_directory ses epoch d =
     d\<lparr>session_json := Doc (ses\<lparr>evidenceEpoch := epoch\<rparr>),
       cursor_json := Doc zero_cursor, incoming_ndjson := Some [], events_ndjson := Some [],
       diagnostics_ndjson := Some [], query_spools := [], log_sorts := []\<rparr>"

lemma reset_directory_ok: "dir_ok sid d \<Longrightarrow> session_json d = Doc ses \<Longrightarrow> dir_ok sid (reset_directory ses epoch d)"
  by (auto simp: dir_ok_def reset_directory_def)

lemma resetSession_cases:
  assumes "store_inv uuid s"
  obtains (refused) f where "resetSession uuid sid s = (Inl f, s)"
  | (absent) "resetSession uuid sid s = (Inr None, s)" "directory_of s sid = None"
  | (cleared) d ses where "directory_of s sid = Some d" "session_json d = Doc ses" "session_id ses = sid"
      "resetSession uuid sid s = (Inr (Some (ses\<lparr>evidenceEpoch := uuid (draws s)\<rparr>)),
        with_view sid (reset_directory ses (uuid (draws s)) d) (Some {}) (Some {}) None (s\<lparr>draws := Suc (draws s)\<rparr>))"
  using assms
proof (cases rule: store_inv_cases [of uuid s sid])
  case none
  show thesis
  proof (cases "SAFE_ID sid")
    case True
    with none show thesis by (intro absent) (simp_all add: resetSession_def reject_none getSession_none)
  next
    case False
    then show thesis by (intro refused) (simp add: resetSession_def reject_unsafe)
  qed
next
  case (some d e g q)
  then obtain ses where ses: "session_json d = Doc ses" "session_id ses = sid" by (auto simp: dir_ok_def)
  show thesis
  proof (cases "fst (rejectSessionSymbolicLinks sid s)")
    case (Inl f)
    with reject_state [of sid s] have "rejectSessionSymbolicLinks sid s = (Inl f, s)"
      by (metis prod.collapse)
    then show thesis by (intro refused) (simp add: resetSession_def)
  next
    case (Inr u)
    with reject_state [of sid s] have ok: "rejectSessionSymbolicLinks sid s = (Inr (), s)"
      by (metis prod.collapse unit.exhaust)
    have "resetSession uuid sid (with_view sid d e g q s) =
        (Inr (Some (ses\<lparr>evidenceEpoch := uuid (draws s)\<rparr>)),
         with_view sid (reset_directory ses (uuid (draws s)) d) (Some {}) (Some {}) None (s\<lparr>draws := Suc (draws s)\<rparr>))"
      using resetSession_view [of sid d ses e g q s uuid] some ses ok by (simp add: reset_directory_def)
    with some(1) have "resetSession uuid sid s =
        (Inr (Some (ses\<lparr>evidenceEpoch := uuid (draws s)\<rparr>)),
         with_view sid (reset_directory ses (uuid (draws s)) d) (Some {}) (Some {}) None (s\<lparr>draws := Suc (draws s)\<rparr>))"
      by simp
    with some(2) ses show thesis by (rule cleared)
  qed
qed

lemma resetSession_inv: "store_inv uuid s \<Longrightarrow> store_inv uuid (snd (resetSession uuid sid s))"
proof -
  assume inv: "store_inv uuid s"
  then show ?thesis
  proof (cases rule: resetSession_cases [of uuid s sid])
    case (cleared d ses)
    from store_inv_session(3) [OF inv cleared(1)] have "dir_ok sid d" by simp
    from reset_directory_ok [OF this cleared(2)]
    have "view_ok sid (Some (reset_directory ses (uuid (draws s)) d), Some {}, Some {}, None)"
      by (simp add: reset_directory_def)
    from store_inv_with_view [OF store_inv_draws [OF inv], of sid d, OF _ this] cleared show ?thesis by simp
  qed (use inv in simp_all)
qed

lemma removeSession_inv:
  assumes "store_inv uuid s"
  shows "store_inv uuid (snd (removeSession sid s))"
  using assms
proof (cases rule: store_inv_cases [of uuid s sid])
  case none
  then show ?thesis
    using assms by (cases "SAFE_ID sid")
      (simp_all add: removeSession_def reject_none getSession_none reject_unsafe)
next
  case (some d e g q)
  then obtain ses where ses: "session_json d = Doc ses" by (auto simp: dir_ok_def)
  define t where "t = sequence_values_update (\<lambda>m. m(sid := None))
    (s\<lparr>directories := AList.delete sid (directories s)\<rparr>)"
  have get: "getSession sid s = (Inr (Some ses), s)"
    using some(2,3) ses by (simp add: getSession_def document_value_def)
  have dir_t: "directory_of t sid' = (if sid' = sid then None else directory_of s sid')" for sid'
    by (simp add: t_def directory_of_def delete_conv')
  have "view_ok sid' (view t sid')" for sid'
    using assms dir_t [of sid'] by (auto simp: store_inv_def view_def t_def)
  moreover have "SAFE_ID sid' \<and> sid' \<in> uuid ` {..<draws t}" if "view t sid' \<noteq> (None, None, None, None)" for sid'
  proof (cases "sid' = sid")
    case True
    with store_inv_session [OF assms some(2)] show ?thesis by (simp add: t_def)
  next
    case False
    with dir_t [of sid'] that have "view s sid' \<noteq> (None, None, None, None)" by (simp add: t_def)
    with assms have "SAFE_ID sid' \<and> sid' \<in> uuid ` {..<draws s}" unfolding store_inv_def by blast
    then show ?thesis by (simp add: t_def)
  qed
  moreover have "distinct (map fst (directories t))"
    using assms by (simp add: t_def store_inv_def distinct_delete)
  ultimately have t: "store_inv uuid t" by (simp add: store_inv_def)
  show ?thesis
  proof (cases "fst (rejectSessionSymbolicLinks sid s)")
    case (Inl f)
    with reject_state [of sid s] have "rejectSessionSymbolicLinks sid s = (Inl f, s)"
      by (metis prod.collapse)
    with assms show ?thesis by (simp add: removeSession_def)
  next
    case (Inr u)
    with reject_state [of sid s] have "rejectSessionSymbolicLinks sid s = (Inr (), s)"
      by (metis prod.collapse unit.exhaust)
    with get t show ?thesis by (simp add: removeSession_def resetSequence_def t_def)
  qed
qed

lemma restarted_inv: "store_inv uuid s \<Longrightarrow> store_inv uuid (restarted s)"
proof -
  assume inv: "store_inv uuid s"
  have dir: "directory_of (restarted s) = directory_of s"
    by (simp add: restarted_def directory_of_def fun_eq_iff)
  have "view_ok sid (view (restarted s) sid)" for sid
    using inv by (cases "directory_of s sid") (auto simp: store_inv_def view_def dir restarted_def dest!: spec [of _ sid])
  then show ?thesis using inv by (auto simp: store_inv_def view_def dir restarted_def)
qed

end
