(* ===== verification/Ingest.thy ===== *)
theory Ingest
  imports Store_Invariant
begin

text \<open>
  Ingestion of one record into a session and the HTTP endpoint for it
  (\<open>IngestionService\<close> and \<open>IngestApi\<close>, \<open>src/daemon/ingest-api.ts\<close>). \<open>now\<close> is the value of
  \<open>Date.now()\<close> during the operation, \<open>uuid\<close> the sequence of random identifiers.
\<close>

section \<open>IngestionService\<close>

datatype ingestion_result = Accepted | Invalid | Malformed | NotFound | TooLarge

record ingestion_options =
  opt_actualByteLength :: "nat option"
  opt_diagnosticId :: "string option"
  opt_eventId :: "string option"
  opt_previewByteLength :: "nat option"

definition no_options :: ingestion_options where
  "no_options = \<lparr>opt_actualByteLength = None, opt_diagnosticId = None, opt_eventId = None,
     opt_previewByteLength = None\<rparr>"

definition hasSession :: "string \<Rightarrow> (daemon, bool) op" where
  "hasSession sid = andThen (getSession sid) (\<lambda>found. ret (found \<noteq> None))"

text \<open>How many identifiers the validation draws, the event's first.\<close>

definition event_draws :: "json \<Rightarrow> validation_context \<Rightarrow> nat" where
  "event_draws value ctx =
     (case value of JObj raw \<Rightarrow> if valid_event raw \<and> ctx_eventId ctx = None then 1 else 0 | _ \<Rightarrow> 0)"

definition diagnostic_draws :: "json \<Rightarrow> validation_context \<Rightarrow> nat" where
  "diagnostic_draws value ctx =
     (case value of
        JObj raw \<Rightarrow>
          if valid_event raw
          then if redactedPaths (redactSecrets (the (field ''data'' raw))) = [] then 0 else 1
          else if ctx_diagnosticId ctx = None then 1 else 0
      | _ \<Rightarrow> if ctx_diagnosticId ctx = None then 1 else 0)"

definition runValidation ::
  "(nat \<Rightarrow> string) \<Rightarrow> json \<Rightarrow> validation_context \<Rightarrow> (daemon, validation_result) op" where
  "runValidation uuid value ctx = (\<lambda>s.
     (Inr (validateAndNormalizeEvent (uuid (draws s)) (uuid (draws s + event_draws value ctx)) value ctx),
      s\<lparr>draws := draws s + event_draws value ctx + diagnostic_draws value ctx\<rparr>))"

definition ingest ::
  "(nat \<Rightarrow> string) \<Rightarrow> int \<Rightarrow> string \<Rightarrow> json \<Rightarrow> ingestion_options \<Rightarrow> (daemon, ingestion_result) op" where
  "ingest uuid now sid value opts =
     andThen (getSession sid) (\<lambda>found.
       case found of
         None \<Rightarrow> ret NotFound
       | Some ses \<Rightarrow>
           andThen (runValidation uuid value
               \<lparr>ctx_diagnosticId = opt_diagnosticId opts, ctx_eventId = opt_eventId opts,
                ctx_receivedAt = now, ctx_sequence = 0\<rparr>) (\<lambda>result.
             case result_event result of
               None \<Rightarrow> andThen (appendDiagnostics (session_id ses) (result_diagnostics result))
                         (\<lambda>_. ret Invalid)
             | Some ev \<Rightarrow>
                 andThen (hasId (session_id ses) (event_id ev)) (\<lambda>known.
                   if known then ret Accepted
                   else andThen (nextSequence (session_id ses)) (\<lambda>n.
                     andThen (appendEvent (session_id ses) (ev\<lparr>sequence := n\<rparr>)) (\<lambda>appended.
                       if \<not> appended then throw DuplicateEventId
                       else andThen (appendDiagnostics (session_id ses) (result_diagnostics result))
                              (\<lambda>_. ret Accepted))))))"

definition appendMalformed ::
  "(nat \<Rightarrow> string) \<Rightarrow> int \<Rightarrow> string \<Rightarrow> nat \<Rightarrow> string option \<Rightarrow> nat \<Rightarrow> (daemon, unit) op" where
  "appendMalformed uuid now sid actual diagId preview =
     andThen (case diagId of None \<Rightarrow> randomUUID uuid | Some _ \<Rightarrow> ret []) (\<lambda>rnd.
       appendDiagnostics sid
         [malformedIngestionDiagnostic rnd
            \<lparr>actualByteLength = actual, input_diagnosticId = diagId, input_observedAt = now,
             previewByteLength = preview\<rparr>])"

definition ingestRecord ::
  "(nat \<Rightarrow> string) \<Rightarrow> int \<Rightarrow> string \<Rightarrow> string \<Rightarrow> ingestion_options \<Rightarrow> (daemon, ingestion_result) op" where
  "ingestRecord uuid now sid rec opts =
     andThen (getSession sid) (\<lambda>found.
       if found = None then ret NotFound
       else
         let actual = (case opt_actualByteLength opts of Some n \<Rightarrow> n | None \<Rightarrow> ingestionRecordByteLength rec);
             preview = (case opt_previewByteLength opts of Some n \<Rightarrow> n
               | None \<Rightarrow> min actual MAX_MALFORMED_PREVIEW_BYTES)
         in if MAX_INGESTION_RECORD_BYTES < actual
            then andThen (appendMalformed uuid now sid actual (opt_diagnosticId opts) preview)
                   (\<lambda>_. ret TooLarge)
            else (case parse_json rec of
                None \<Rightarrow> andThen (appendMalformed uuid now sid actual (opt_diagnosticId opts) preview)
                          (\<lambda>_. ret Malformed)
              | Some value \<Rightarrow> ingest uuid now sid value opts))"

definition ingestOversizedRecord ::
  "(nat \<Rightarrow> string) \<Rightarrow> int \<Rightarrow> string \<Rightarrow> nat \<Rightarrow> string option \<Rightarrow> nat \<Rightarrow> (daemon, ingestion_result) op" where
  "ingestOversizedRecord uuid now sid actual diagId preview =
     andThen (getSession sid) (\<lambda>found.
       if found = None then ret NotFound
       else andThen (appendMalformed uuid now sid actual diagId preview) (\<lambda>_. ret TooLarge))"

section \<open>IngestApi\<close>

text \<open>
  \<open>parse_url\<close> is the \<open>URL\<close> constructor: the protocol (with its colon) and the hostname, or
  nothing when it throws. A missing or empty header is falsy.
\<close>

definition isAllowedOrigin :: "(string \<Rightarrow> (string \<times> string) option) \<Rightarrow> string option \<Rightarrow> bool" where
  "isAllowedOrigin parse_url origin =
     (case origin of
        None \<Rightarrow> True
      | Some o' \<Rightarrow> o' = [] \<or>
          (case parse_url o' of
             None \<Rightarrow> False
           | Some (protocol, hostname) \<Rightarrow>
               (protocol = ''http:'' \<or> protocol = ''https:'')
               \<and> (hostname = ''127.0.0.1'' \<or> hostname = ''localhost'' \<or> hostname = ''::1'')))"

definition corsHeaders :: "string option \<Rightarrow> (string \<times> string) list" where
  "corsHeaders origin =
     (case origin of
        None \<Rightarrow> []
      | Some o' \<Rightarrow> if o' = [] then [] else
          [(''Access-Control-Allow-Headers'', ''Content-Type''),
           (''Access-Control-Allow-Methods'', ''POST, OPTIONS''),
           (''Access-Control-Allow-Origin'', o'),
           (''Vary'', ''Origin'')])"

record http_request =
  req_method :: string
  req_pathname :: string
  req_origin :: "string option"
  req_contentType :: "string option"
  req_body :: string

record http_response =
  resp_status :: nat
  resp_headers :: "(string \<times> string) list"
  resp_body :: "json option"

definition json_response :: "nat \<Rightarrow> (string \<times> string) list \<Rightarrow> (string \<times> json) list \<Rightarrow> http_response" where
  "json_response status headers body =
     \<lparr>resp_status = status, resp_headers = headers, resp_body = Some (JObj body)\<rparr>"

definition sessionNotFound :: "string option \<Rightarrow> http_response" where
  "sessionNotFound origin =
     json_response 404 (corsHeaders origin) [(''code'', JStr ''SESSION_NOT_FOUND'')]"

text \<open>The loop over the records, with its two counters. Each record sees a later clock.\<close>

fun ingestRecords ::
  "(nat \<Rightarrow> string) \<Rightarrow> (nat \<Rightarrow> int) \<Rightarrow> string \<Rightarrow> string option \<Rightarrow> nat \<Rightarrow> nat \<Rightarrow> string list
     \<Rightarrow> (daemon, http_response) op" where
  "ingestRecords uuid clock sid origin accepted invalid [] =
     ret (json_response 202 (corsHeaders origin)
       [(''accepted'', JNum (num_of_int (int accepted))), (''invalid'', JNum (num_of_int (int invalid)))])"
| "ingestRecords uuid clock sid origin accepted invalid (r # rs) =
     andThen (ingestRecord uuid (clock (length rs)) sid r no_options) (\<lambda>result.
       case result of
         Accepted \<Rightarrow> ingestRecords uuid clock sid origin (accepted + 1) invalid rs
       | Invalid \<Rightarrow> ingestRecords uuid clock sid origin accepted (invalid + 1) rs
       | Malformed \<Rightarrow> ingestRecords uuid clock sid origin accepted (invalid + 1) rs
       | NotFound \<Rightarrow> ret (sessionNotFound origin)
       | TooLarge \<Rightarrow> ret (json_response 413 (corsHeaders origin) [(''error'', JStr ''payload-too-large'')]))"

definition ingest_prefix :: string where
  "ingest_prefix = ''/ingest/''"

text \<open>\<open>undefined\<close> (not this API's path) is \<open>None\<close>.\<close>

definition handleIngest ::
  "(string \<Rightarrow> (string \<times> string) option) \<Rightarrow> (nat \<Rightarrow> string) \<Rightarrow> (nat \<Rightarrow> int) \<Rightarrow> http_request
     \<Rightarrow> (daemon, http_response option) op" where
  "handleIngest parse_url uuid clock req =
     (if \<not> starts_with (req_pathname req) ingest_prefix then ret None
      else
        let sid = drop (length ingest_prefix) (req_pathname req); origin = req_origin req
        in if \<not> isCanonicalSessionId sid
           then ret (Some (json_response 400 [] [(''code'', JStr ''INVALID_ARGUMENTS'')]))
           else if \<not> isAllowedOrigin parse_url origin
           then ret (Some (json_response 403 [] [(''error'', JStr ''origin-not-allowed'')]))
           else if req_method req = ''OPTIONS''
           then ret (Some \<lparr>resp_status = 204, resp_headers = corsHeaders origin, resp_body = None\<rparr>)
           else if req_method req \<noteq> ''POST''
           then ret (Some (json_response 405 [] [(''error'', JStr ''method-not-allowed'')]))
           else andThen (hasSession sid) (\<lambda>found.
             if \<not> found then ret (Some (sessionNotFound origin))
             else
               let contentType = (case req_contentType req of None \<Rightarrow> [] | Some c \<Rightarrow> c);
                   records = (if includes_text contentType ''application/x-ndjson''
                     then filter (\<lambda>r. r \<noteq> []) (split_on CHR 0x0A (req_body req)) else [req_body req])
               in andThen (ingestRecords uuid clock sid origin 0 0 records) (\<lambda>resp. ret (Some resp))))"

end
