(* ===== verification/Ingest_Facts.thy ===== *)
theory Ingest_Facts
  imports Ingest
begin

text \<open>
  Ingestion as a function on the session's directory: the operations of the service, caches and
  all, compute a pure function of the directory and the random source (\<open>session_effect\<close>), and
  keep the invariant. The functional facts (what is stored, idempotence for fixed identifiers)
  are then facts about that function.
\<close>

section \<open>Effects\<close>

text \<open>\<open>m\<close>, started with the directory \<open>d\<close> in place, returns \<open>r\<close> and leaves \<open>d'\<close>.\<close>

definition reaches ::
  "string \<Rightarrow> (failure + 'a) \<times> daemon \<Rightarrow> daemon \<Rightarrow> 'a \<times> session_dir \<times> nat \<Rightarrow> bool" where
  "reaches sid result s out \<longleftrightarrow> (case out of (r, d', n') \<Rightarrow>
     \<exists>e' g' q'. result = (Inr r, with_view sid d' e' g' q' (s\<lparr>draws := n'\<rparr>))
       \<and> view_ok sid (Some d', e', g', q'))"

definition session_effect ::
  "string \<Rightarrow> (daemon, 'a) op \<Rightarrow> (nat \<Rightarrow> session_dir \<Rightarrow> 'a \<times> session_dir \<times> nat) \<Rightarrow> bool" where
  "session_effect sid m f \<longleftrightarrow>
     (\<forall>s d e g q. view_ok sid (Some d, e, g, q) \<longrightarrow>
        reaches sid (m (with_view sid d e g q s)) s (f (draws s) d))"

lemma session_effectI:
  "(\<And>s d e g q. view_ok sid (Some d, e, g, q) \<Longrightarrow>
     reaches sid (m (with_view sid d e g q s)) s (f (draws s) d)) \<Longrightarrow> session_effect sid m f"
  by (simp add: session_effect_def)

lemma reachesI:
  "result = (Inr r, with_view sid d' e' g' q' (s\<lparr>draws := n'\<rparr>)) \<Longrightarrow> view_ok sid (Some d', e', g', q')
     \<Longrightarrow> reaches sid result s (r, d', n')"
  by (auto simp: reaches_def)

lemma session_effectE:
  assumes "session_effect sid m f" "view_ok sid (Some d, e, g, q)" "f (draws s) d = (r, d', n')"
  obtains e' g' q' where "m (with_view sid d e g q s) = (Inr r, with_view sid d' e' g' q' (s\<lparr>draws := n'\<rparr>))"
    "view_ok sid (Some d', e', g', q')"
proof -
  from assms(1,2) have "reaches sid (m (with_view sid d e g q s)) s (f (draws s) d)"
    unfolding session_effect_def by blast
  with assms(3) that show thesis unfolding reaches_def by (simp del: view_ok.simps) blast
qed

definition pure_ret :: "'a \<Rightarrow> nat \<Rightarrow> session_dir \<Rightarrow> 'a \<times> session_dir \<times> nat" where
  "pure_ret x = (\<lambda>n d. (x, d, n))"

definition pure_then ::
  "(nat \<Rightarrow> session_dir \<Rightarrow> 'a \<times> session_dir \<times> nat) \<Rightarrow> ('a \<Rightarrow> nat \<Rightarrow> session_dir \<Rightarrow> 'b \<times> session_dir \<times> nat)
     \<Rightarrow> nat \<Rightarrow> session_dir \<Rightarrow> 'b \<times> session_dir \<times> nat" where
  "pure_then f h = (\<lambda>n d. case f n d of (x, d', n') \<Rightarrow> h x n' d')"

lemma draws_same: "(s :: daemon)\<lparr>draws := draws s\<rparr> = s"
  by simp

lemma session_effect_ret: "session_effect sid (ret x) (pure_ret x)"
  unfolding pure_ret_def
  by (rule session_effectI, rule reachesI [OF _ _]) (simp only: ret_apply draws_same, assumption)

lemma session_effect_andThen:
  assumes m: "session_effect sid m f" and k: "\<And>x. session_effect sid (k x) (h x)"
  shows "session_effect sid (andThen m k) (pure_then f h)"
proof (rule session_effectI)
  fix s :: daemon and d e g q
  assume ok: "view_ok sid (Some d, e, g, q)"
  obtain x d' n' where f: "f (draws s) d = (x, d', n')" by (metis prod_cases3)
  obtain e' g' q' where step: "m (with_view sid d e g q s) = (Inr x, with_view sid d' e' g' q' (s\<lparr>draws := n'\<rparr>))"
    and ok': "view_ok sid (Some d', e', g', q')"
    by (rule session_effectE [OF m ok f])
  obtain y d'' n'' where h: "h x n' d' = (y, d'', n'')" by (metis prod_cases3)
  then have "h x (draws (s\<lparr>draws := n'\<rparr>)) d' = (y, d'', n'')" by simp
  from session_effectE [OF k ok' this] obtain e'' g'' q'' where
    "k x (with_view sid d' e' g' q' (s\<lparr>draws := n'\<rparr>)) = (Inr y, with_view sid d'' e'' g'' q'' (s\<lparr>draws := n''\<rparr>))"
    "view_ok sid (Some d'', e'', g'', q'')" by auto
  with step f h show "reaches sid (andThen m k (with_view sid d e g q s)) s (pure_then f h (draws s) d)"
    by (simp add: pure_then_def reachesI)
qed

section \<open>What ingestion computes\<close>

text \<open>New diagnostics are those whose identifier is not stored yet.\<close>

definition log_diagnostics :: "diagnostic list \<Rightarrow> session_dir \<Rightarrow> session_dir" where
  "log_diagnostics ds d = with_diagnostics (new_diagnostics (dir_diagnostic_ids d) ds) d"

definition outcome :: "validation_result \<Rightarrow> session_dir \<Rightarrow> ingestion_result \<times> session_dir" where
  "outcome result d =
     (case result_event result of
        None \<Rightarrow> (Invalid, log_diagnostics (result_diagnostics result) d)
      | Some ev \<Rightarrow>
          (Accepted,
           if event_id ev \<in> dir_event_ids d then d
           else log_diagnostics (result_diagnostics result)
                  (with_event (ev\<lparr>sequence := length (dir_events d) + 1\<rparr>) d)))"

definition validation_of ::
  "(nat \<Rightarrow> string) \<Rightarrow> int \<Rightarrow> json \<Rightarrow> ingestion_options \<Rightarrow> nat \<Rightarrow> validation_result \<times> nat" where
  "validation_of uuid now value opts n =
     (let ctx = \<lparr>ctx_diagnosticId = opt_diagnosticId opts, ctx_eventId = opt_eventId opts,
                 ctx_receivedAt = now, ctx_sequence = 0\<rparr>
      in (validateAndNormalizeEvent (uuid n) (uuid (n + event_draws value ctx)) value ctx,
          n + event_draws value ctx + diagnostic_draws value ctx))"

definition pure_ingest ::
  "(nat \<Rightarrow> string) \<Rightarrow> int \<Rightarrow> json \<Rightarrow> ingestion_options
     \<Rightarrow> nat \<Rightarrow> session_dir \<Rightarrow> ingestion_result \<times> session_dir \<times> nat" where
  "pure_ingest uuid now value opts = (\<lambda>n d.
     case validation_of uuid now value opts n of
       (result, n') \<Rightarrow> (fst (outcome result d), snd (outcome result d), n'))"

definition pure_malformed ::
  "(nat \<Rightarrow> string) \<Rightarrow> int \<Rightarrow> nat \<Rightarrow> string option \<Rightarrow> nat \<Rightarrow> nat \<Rightarrow> session_dir \<Rightarrow> unit \<times> session_dir \<times> nat" where
  "pure_malformed uuid now actual diagId preview = (\<lambda>n d.
     ((), log_diagnostics
        [malformedIngestionDiagnostic (uuid n)
           \<lparr>actualByteLength = actual, input_diagnosticId = diagId, input_observedAt = now,
            previewByteLength = preview\<rparr>] d,
      if diagId = None then n + 1 else n))"

lemma malformed_id_only:
  "diagId \<noteq> None \<Longrightarrow> malformedIngestionDiagnostic u \<lparr>actualByteLength = a, input_diagnosticId = diagId,
     input_observedAt = t, previewByteLength = p\<rparr> = malformedIngestionDiagnostic w \<lparr>actualByteLength = a,
     input_diagnosticId = diagId, input_observedAt = t, previewByteLength = p\<rparr>"
  by (auto simp: malformedIngestionDiagnostic_def id_or_random_def)

lemma with_view_draws: "(with_view sid d e g q s)\<lparr>draws := n\<rparr> = with_view sid d e g q (s\<lparr>draws := n\<rparr>)"
  by (simp add: with_view_def)

lemma log_diagnostics_Nil [simp]: "log_diagnostics [] d = d"
  by (simp add: log_diagnostics_def with_diagnostics_def)

lemma log_diagnostics_fields [simp]:
  "session_json (log_diagnostics ds d) = session_json d"
  "cursor_json (log_diagnostics ds d) = cursor_json d"
  "incoming_ndjson (log_diagnostics ds d) = incoming_ndjson d"
  "events_ndjson (log_diagnostics ds d) = events_ndjson d"
  "dir_diagnostics (log_diagnostics ds d) = dir_diagnostics d @ new_diagnostics (dir_diagnostic_ids d) ds"
  by (simp_all add: log_diagnostics_def)

lemma dir_ok_log: "dir_ok sid d \<Longrightarrow> dir_ok sid (log_diagnostics ds d)"
  by (simp add: log_diagnostics_def dir_ok_diagnostics)

lemma appendDiagnostics_log:
  assumes "SAFE_ID sid" "intact (diagnostics_ndjson d)" "g \<in> {None, Some (dir_diagnostic_ids d)}"
  obtains g' where "appendDiagnostics sid ds (with_view sid d e g q s) =
      (Inr (), with_view sid (log_diagnostics ds d) e g' q s)"
    "g' \<in> {None, Some (dir_diagnostic_ids (log_diagnostics ds d))}"
proof (cases "ds = []")
  case True
  with appendDiagnostics_view [OF assms] assms(3) show thesis by (intro that [of g]) auto
next
  case False
  with appendDiagnostics_view [OF assms] show thesis
    by (intro that [of "Some (dir_diagnostic_ids (log_diagnostics ds d))"])
      (simp_all add: Let_def log_diagnostics_def)
qed

lemma appendDiagnostics_effect:
  assumes safe: "SAFE_ID sid"
  shows "session_effect sid (appendDiagnostics sid ds) (\<lambda>n d. ((), log_diagnostics ds d, n))"
proof (rule session_effectI)
  fix s :: daemon and d e g q
  assume ok: "view_ok sid (Some d, e, g, q)"
  then have "intact (diagnostics_ndjson d)" "g \<in> {None, Some (dir_diagnostic_ids d)}" by (auto simp: dir_ok_def)
  from safe this obtain g' where
    "appendDiagnostics sid ds (with_view sid d e g q s) = (Inr (), with_view sid (log_diagnostics ds d) e g' q s)"
    "g' \<in> {None, Some (dir_diagnostic_ids (log_diagnostics ds d))}" by (rule appendDiagnostics_log)
  with ok show "reaches sid (appendDiagnostics sid ds (with_view sid d e g q s)) s ((), log_diagnostics ds d, draws s)"
    by (intro reachesI [of _ _ _ _ e g' q]) (auto simp: dir_ok_log)
qed

lemma view_ok_parts:
  assumes "view_ok sid (Some d, e, g, q)"
  obtains ses where "dir_ok sid d" "session_json d = Doc ses" "session_id ses = sid"
    "intact (events_ndjson d)" "intact (diagnostics_ndjson d)"
    "e \<in> {None, Some (dir_event_ids d)}" "g \<in> {None, Some (dir_diagnostic_ids d)}"
    "q \<in> {None, Some (length (dir_events d))}"
    "map sequence (dir_events d) = [1..<length (dir_events d) + 1]"
  using assms by (auto simp: dir_ok_def)

lemma runValidation_view:
  "runValidation uuid value \<lparr>ctx_diagnosticId = opt_diagnosticId opts, ctx_eventId = opt_eventId opts,
      ctx_receivedAt = now, ctx_sequence = 0\<rparr> (with_view sid d e g q s) =
    (Inr (fst (validation_of uuid now value opts (draws s))),
     with_view sid d e g q (s\<lparr>draws := snd (validation_of uuid now value opts (draws s))\<rparr>))"
  by (simp add: runValidation_def validation_of_def Let_def with_view_draws)

lemma ingest_effect:
  assumes safe: "SAFE_ID sid"
  shows "session_effect sid (ingest uuid now sid value opts) (pure_ingest uuid now value opts)"
proof (rule session_effectI)
  fix s :: daemon and d e g q
  assume ok: "view_ok sid (Some d, e, g, q)"
  then obtain ses where d: "dir_ok sid d" and ses: "session_json d = Doc ses" "session_id ses = sid"
    and files: "intact (events_ndjson d)" "intact (diagnostics_ndjson d)"
    and caches: "e \<in> {None, Some (dir_event_ids d)}" "g \<in> {None, Some (dir_diagnostic_ids d)}"
      "q \<in> {None, Some (length (dir_events d))}"
    and numbers: "map sequence (dir_events d) = [1..<length (dir_events d) + 1]"
    by (rule view_ok_parts)
  define result where "result = fst (validation_of uuid now value opts (draws s))"
  define s' where "s' = s\<lparr>draws := snd (validation_of uuid now value opts (draws s))\<rparr>"
  let ?w = "with_view sid"
  have get: "getSession sid (?w d e g q s) = (Inr (Some ses), ?w d e g q s)"
    using safe ses by (simp add: document_value_def)
  note start = get runValidation_view [of uuid "value" opts now sid d e g q s, folded result_def s'_def]
  have out: "pure_ingest uuid now value opts (draws s) d =
      (fst (outcome result d), snd (outcome result d), snd (validation_of uuid now value opts (draws s)))"
    by (simp add: pure_ingest_def result_def split: prod.splits)
  have finish: "reaches sid (ingest uuid now sid value opts (?w d e g q s)) s (pure_ingest uuid now value opts (draws s) d)"
    if "ingest uuid now sid value opts (?w d e g q s) = (Inr (fst (outcome result d)), ?w (snd (outcome result d)) e' g' q' s')"
      "view_ok sid (Some (snd (outcome result d)), e', g', q')" for e' g' q'
    unfolding out by (rule reachesI [OF _ that(2)]) (simp add: that(1) s'_def)
  show "reaches sid (ingest uuid now sid value opts (?w d e g q s)) s (pure_ingest uuid now value opts (draws s) d)"
  proof (cases "result_event result")
    case None
    obtain g' where log: "appendDiagnostics sid (result_diagnostics result) (?w d e g q s') =
        (Inr (), ?w (log_diagnostics (result_diagnostics result) d) e g' q s')"
      and g': "g' \<in> {None, Some (dir_diagnostic_ids (log_diagnostics (result_diagnostics result) d))}"
      by (rule appendDiagnostics_log [OF safe files(2) caches(2)])
    show ?thesis
    proof (rule finish [of e g' q])
      show "ingest uuid now sid value opts (?w d e g q s) =
          (Inr (fst (outcome result d)), ?w (snd (outcome result d)) e g' q s')"
        using start None log ses by (simp add: ingest_def outcome_def)
      show "view_ok sid (Some (snd (outcome result d)), e, g', q)"
        using None caches g' dir_ok_log [OF d] by (simp add: outcome_def)
    qed
  next
    case (Some ev)
    have has: "hasId sid (event_id ev) (?w d e g q s') =
        (Inr (event_id ev \<in> dir_event_ids d), ?w d (Some (dir_event_ids d)) g q s')"
      by (rule hasId_view [OF safe files(1) caches(1)])
    show ?thesis
    proof (cases "event_id ev \<in> dir_event_ids d")
      case True
      show ?thesis
      proof (rule finish [of "Some (dir_event_ids d)" g q])
        show "ingest uuid now sid value opts (?w d e g q s) =
            (Inr (fst (outcome result d)), ?w (snd (outcome result d)) (Some (dir_event_ids d)) g q s')"
          using start Some has True ses by (simp add: ingest_def outcome_def del: hasId_view)
        show "view_ok sid (Some (snd (outcome result d)), Some (dir_event_ids d), g, q)"
          using Some True caches d by (simp add: outcome_def)
      qed
    next
      case False
      define n where "n = length (dir_events d) + 1"
      define d1 where "d1 = with_event (ev\<lparr>sequence := n\<rparr>) d"
      have nxt: "nextSequence sid (?w d (Some (dir_event_ids d)) g q s') =
          (Inr n, ?w d (Some (dir_event_ids d)) g (Some n) s')"
        unfolding n_def by (rule nextSequence_view [OF safe files(1) numbers caches(3)])
      have app: "appendEvent sid (ev\<lparr>sequence := n\<rparr>) (?w d (Some (dir_event_ids d)) g (Some n) s') =
          (Inr True, ?w d1 (Some (dir_event_ids d1)) g (Some n) s')"
        using appendEvent_view [OF safe files(1), of "Some (dir_event_ids d)" "ev\<lparr>sequence := n\<rparr>" g "Some n" s'] False
        by (simp add: d1_def)
      have "event_ok ev"
        using Some validate_event_ok by (simp add: result_def validation_of_def Let_def)
      with False have d1: "dir_ok sid d1" "length (dir_events d1) = n"
        using dir_ok_event [OF d, of "ev\<lparr>sequence := n\<rparr>"] by (simp_all add: d1_def n_def)
      have diag1: "dir_diagnostics d1 = dir_diagnostics d" by (simp add: d1_def)
      have "intact (diagnostics_ndjson d1)" "g \<in> {None, Some (dir_diagnostic_ids d1)}"
        using files(2) caches(2) diag1 by (simp_all add: d1_def)
      from safe this obtain g' where log: "appendDiagnostics sid (result_diagnostics result)
            (?w d1 (Some (dir_event_ids d1)) g (Some n) s') =
          (Inr (), ?w (log_diagnostics (result_diagnostics result) d1) (Some (dir_event_ids d1)) g' (Some n) s')"
        and g': "g' \<in> {None, Some (dir_diagnostic_ids (log_diagnostics (result_diagnostics result) d1))}"
        by (rule appendDiagnostics_log)
      have final: "snd (outcome result d) = log_diagnostics (result_diagnostics result) d1"
        "fst (outcome result d) = Accepted"
        using Some False by (simp_all add: outcome_def d1_def n_def)
      show ?thesis
      proof (rule finish [of "Some (dir_event_ids d1)" g' "Some n"])
        show "ingest uuid now sid value opts (?w d e g q s) =
            (Inr (fst (outcome result d)), ?w (snd (outcome result d)) (Some (dir_event_ids d1)) g' (Some n) s')"
          using start Some has nxt app log False ses final
          by (simp add: ingest_def del: hasId_view)
        show "view_ok sid (Some (snd (outcome result d)), Some (dir_event_ids d1), g', Some n)"
          using g' dir_ok_log [OF d1(1)] d1(2) by (simp add: final)
      qed
    qed
  qed
qed

lemma appendMalformed_effect:
  assumes safe: "SAFE_ID sid"
  shows "session_effect sid (appendMalformed uuid now sid actual diagId preview)
    (pure_malformed uuid now actual diagId preview)"
proof (rule session_effectI)
  fix s :: daemon and d e g q
  assume ok: "view_ok sid (Some d, e, g, q)"
  then have "intact (diagnostics_ndjson d)" "g \<in> {None, Some (dir_diagnostic_ids d)}" by (auto simp: dir_ok_def)
  define ds where "ds = [malformedIngestionDiagnostic (uuid (draws s))
     \<lparr>actualByteLength = actual, input_diagnosticId = diagId, input_observedAt = now,
      previewByteLength = preview\<rparr>]"
  define s' where "s' = s\<lparr>draws := if diagId = None then draws s + 1 else draws s\<rparr>"
  from appendDiagnostics_log [OF safe \<open>intact _\<close> \<open>g \<in> _\<close>, of ds e q s'] obtain g' where
    log: "appendDiagnostics sid ds (with_view sid d e g q s') = (Inr (), with_view sid (log_diagnostics ds d) e g' q s')"
      "g' \<in> {None, Some (dir_diagnostic_ids (log_diagnostics ds d))}" .
  have "appendMalformed uuid now sid actual diagId preview (with_view sid d e g q s) =
      (Inr (), with_view sid (log_diagnostics ds d) e g' q s')"
  proof (cases diagId)
    case None
    with log(1) show ?thesis by (simp add: appendMalformed_def randomUUID_def with_view_draws s'_def ds_def)
  next
    case (Some i)
    have rnd: "malformedIngestionDiagnostic [] \<lparr>actualByteLength = actual, input_diagnosticId = Some i,
        input_observedAt = now, previewByteLength = preview\<rparr> = hd ds"
      unfolding ds_def Some using malformed_id_only by simp
    with Some log(1) show ?thesis by (simp add: appendMalformed_def s'_def ds_def)
  qed
  moreover have "view_ok sid (Some (log_diagnostics ds d), e, g', q)"
    using ok log(2) by (auto simp: dir_ok_log)
  ultimately show "reaches sid (appendMalformed uuid now sid actual diagId preview (with_view sid d e g q s)) s
      (pure_malformed uuid now actual diagId preview (draws s) d)"
    unfolding pure_malformed_def
    by (intro reachesI [of _ _ _ _ e g' q]) (simp_all add: s'_def ds_def cong: if_cong)
qed

lemma getSession_effect_then:
  assumes safe: "SAFE_ID sid" and m: "session_effect sid m f"
  shows "session_effect sid (andThen (getSession sid) (\<lambda>found. if found = None then k else m)) f"
proof (rule session_effectI)
  fix s :: daemon and d e g q
  assume ok: "view_ok sid (Some d, e, g, q)"
  then obtain ses where "session_json d = Doc ses" by (rule view_ok_parts)
  with safe have "andThen (getSession sid) (\<lambda>found. if found = None then k else m) (with_view sid d e g q s)
      = m (with_view sid d e g q s)" by (simp add: document_value_def)
  with m ok show "reaches sid (andThen (getSession sid) (\<lambda>found. if found = None then k else m)
      (with_view sid d e g q s)) s (f (draws s) d)"
    by (simp add: session_effect_def)
qed

definition pure_record ::
  "(nat \<Rightarrow> string) \<Rightarrow> int \<Rightarrow> string \<Rightarrow> ingestion_options
     \<Rightarrow> nat \<Rightarrow> session_dir \<Rightarrow> ingestion_result \<times> session_dir \<times> nat" where
  "pure_record uuid now rec opts =
     (let actual = (case opt_actualByteLength opts of Some n \<Rightarrow> n | None \<Rightarrow> ingestionRecordByteLength rec);
          preview = (case opt_previewByteLength opts of Some n \<Rightarrow> n
            | None \<Rightarrow> min actual MAX_MALFORMED_PREVIEW_BYTES);
          malformed = pure_malformed uuid now actual (opt_diagnosticId opts) preview
      in if MAX_INGESTION_RECORD_BYTES < actual then pure_then malformed (\<lambda>_. pure_ret TooLarge)
         else (case parse_json rec of
             None \<Rightarrow> pure_then malformed (\<lambda>_. pure_ret Malformed)
           | Some value \<Rightarrow> pure_ingest uuid now value opts))"

definition pure_oversized ::
  "(nat \<Rightarrow> string) \<Rightarrow> int \<Rightarrow> nat \<Rightarrow> string option \<Rightarrow> nat
     \<Rightarrow> nat \<Rightarrow> session_dir \<Rightarrow> ingestion_result \<times> session_dir \<times> nat" where
  "pure_oversized uuid now actual diagId preview =
     pure_then (pure_malformed uuid now actual diagId preview) (\<lambda>_. pure_ret TooLarge)"

lemma ingestRecord_effect:
  assumes "SAFE_ID sid"
  shows "session_effect sid (ingestRecord uuid now sid rec opts) (pure_record uuid now rec opts)"
  unfolding ingestRecord_def
  by (rule getSession_effect_then [OF assms])
    (auto simp: pure_record_def Let_def assms split: option.splits
      intro!: session_effect_andThen session_effect_ret appendMalformed_effect ingest_effect)

lemma ingestOversizedRecord_effect:
  assumes "SAFE_ID sid"
  shows "session_effect sid (ingestOversizedRecord uuid now sid actual diagId preview)
    (pure_oversized uuid now actual diagId preview)"
  unfolding ingestOversizedRecord_def pure_oversized_def
  by (rule getSession_effect_then [OF assms])
    (intro session_effect_andThen session_effect_ret appendMalformed_effect assms)

section \<open>The invariant\<close>

definition draws_grow :: "(nat \<Rightarrow> session_dir \<Rightarrow> 'a \<times> session_dir \<times> nat) \<Rightarrow> bool" where
  "draws_grow f \<longleftrightarrow> (\<forall>n d. n \<le> snd (snd (f n d)))"

lemma draws_grow_then: "draws_grow f \<Longrightarrow> (\<And>x. draws_grow (h x)) \<Longrightarrow> draws_grow (pure_then f h)"
  unfolding draws_grow_def pure_then_def
  by (auto split: prod.splits) (metis le_trans snd_conv)

lemma draws_grow_ret: "draws_grow (pure_ret x)"
  by (simp add: draws_grow_def pure_ret_def)

lemma draws_grow_malformed: "draws_grow (pure_malformed uuid now actual diagId preview)"
  by (simp add: draws_grow_def pure_malformed_def)

lemma draws_grow_ingest: "draws_grow (pure_ingest uuid now value opts)"
  by (simp add: draws_grow_def pure_ingest_def validation_of_def Let_def)

lemma draws_grow_record: "draws_grow (pure_record uuid now rec opts)"
  by (auto simp: pure_record_def Let_def split: option.splits
      intro!: draws_grow_then draws_grow_ret draws_grow_malformed draws_grow_ingest)

lemma draws_grow_oversized: "draws_grow (pure_oversized uuid now actual diagId preview)"
  unfolding pure_oversized_def by (intro draws_grow_then draws_grow_malformed draws_grow_ret)

lemma effect_at:
  assumes inv: "store_inv uuid s" and dir: "directory_of s sid = Some d"
    and m: "session_effect sid m f" and grow: "draws_grow f" and f: "f (draws s) d = (r, d', n')"
  shows "fst (m s) = Inr r" "directory_of (snd (m s)) sid = Some d'" "store_inv uuid (snd (m s))"
    "\<And>sid'. sid' \<noteq> sid \<Longrightarrow> view (snd (m s)) sid' = view s sid'" "draws (snd (m s)) = n'"
proof -
  let ?e = "event_ids s sid" and ?g = "diagnostic_ids s sid" and ?q = "sequence_values s sid"
  have s: "with_view sid d ?e ?g ?q s = s" using dir by (simp add: with_view_same)
  have ok: "view_ok sid (Some d, ?e, ?g, ?q)" by (rule store_inv_session(3) [OF inv dir])
  obtain e' g' q' where m: "m s = (Inr r, with_view sid d' e' g' q' (s\<lparr>draws := n'\<rparr>))"
    and ok': "view_ok sid (Some d', e', g', q')"
    using session_effectE [OF m ok f] unfolding s by auto
  have view: "view (with_view sid d' e' g' q' (s\<lparr>draws := n'\<rparr>)) sid' =
      (if sid' = sid then (Some d', e', g', q') else view s sid')" for sid'
    unfolding view_with_view by (simp add: view_def directory_of_def)
  have "n' = snd (snd (f (draws s) d))" by (simp add: f)
  with grow have "draws s \<le> n'" by (simp add: draws_grow_def)
  with ok' view inv have "store_inv uuid (with_view sid d' e' g' q' (s\<lparr>draws := n'\<rparr>))"
    by (intro store_inv_local [OF inv dir]) (simp_all add: store_inv_def)
  with m view show "fst (m s) = Inr r" "directory_of (snd (m s)) sid = Some d'" "store_inv uuid (snd (m s))"
    "\<And>sid'. sid' \<noteq> sid \<Longrightarrow> view (snd (m s)) sid' = view s sid'" "draws (snd (m s)) = n'" by simp_all
qed

lemma effect_inv:
  assumes "store_inv uuid s" "directory_of s sid = Some d" "session_effect sid m f" "draws_grow f"
  shows "store_inv uuid (snd (m s))"
proof -
  obtain r d' n' where "f (draws s) d = (r, d', n')" by (metis prod_cases3)
  from effect_at(3) [OF assms this] show ?thesis .
qed

text \<open>Without the session nothing changes.\<close>

lemma ingestRecord_absent:
  assumes "directory_of s sid = None"
  shows "ingestRecord uuid now sid rec opts s =
    (if SAFE_ID sid then Inr NotFound else Inl (InvalidSessionId sid), s)"
  using assms by (simp add: ingestRecord_def getSession_none getSession_unsafe)

lemma ingestOversizedRecord_absent:
  assumes "directory_of s sid = None"
  shows "ingestOversizedRecord uuid now sid actual diagId preview s =
    (if SAFE_ID sid then Inr NotFound else Inl (InvalidSessionId sid), s)"
  using assms by (simp add: ingestOversizedRecord_def getSession_none getSession_unsafe)

lemma ingestRecord_inv: "store_inv uuid s \<Longrightarrow> store_inv uuid (snd (ingestRecord rnd now sid rec opts s))"
proof (cases "directory_of s sid")
  case (Some d)
  moreover assume inv: "store_inv uuid s"
  ultimately show ?thesis
    using store_inv_session(1) [OF inv Some] ingestRecord_effect [of sid rnd now rec opts] draws_grow_record
    by (blast intro: effect_inv)
qed (simp add: ingestRecord_absent)

lemma ingestOversizedRecord_inv:
  "store_inv uuid s \<Longrightarrow> store_inv uuid (snd (ingestOversizedRecord rnd now sid actual diagId preview s))"
proof (cases "directory_of s sid")
  case (Some d)
  moreover assume inv: "store_inv uuid s"
  ultimately show ?thesis
    using store_inv_session(1) [OF inv Some] ingestOversizedRecord_effect [of sid rnd now actual diagId preview]
      draws_grow_oversized
    by (blast intro: effect_inv)
qed (simp add: ingestOversizedRecord_absent)

section \<open>Accepted records\<close>

lemma record_accepted:
  assumes "store_inv uuid s" "directory_of s sid = Some d"
    and "parse_json rec = Some (JObj raw)" "valid_event raw" "byte_length rec \<le> MAX_INGESTION_RECORD_BYTES"
    and "opt_actualByteLength opts = None"
    and "id_or_random ''evt'' (opt_eventId opts) (rnd (draws s)) \<notin> event_id ` set (dir_events d)"
  obtains d' where "fst (ingestRecord rnd now sid rec opts s) = Inr Accepted"
    "directory_of (snd (ingestRecord rnd now sid rec opts s)) sid = Some d'"
    "dir_events d' = dir_events d @
      [\<lparr>event_id = id_or_random ''evt'' (opt_eventId opts) (rnd (draws s)), sequence = length (dir_events d) + 1,
        receivedAt = now, hypothesisId = the (string_field ''hypothesisId'' raw),
        location = the (string_field ''location'' raw), message = the (string_field ''message'' raw),
        data = redacted (the (field ''data'' raw)), timestamp = the (number_field ''timestamp'' raw)\<rparr>]"
proof -
  obtain r d' n' where p: "pure_record rnd now rec opts (draws s) d = (r, d', n')" by (metis prod_cases3)
  note safe = store_inv_session(1) [OF assms(1,2)]
  note at = effect_at [OF assms(1,2) ingestRecord_effect [OF safe] draws_grow_record p]
  show thesis
    using at(1,2) p assms(3-7)
    by (intro that [of d'])
      (auto simp: pure_record_def Let_def ingestionRecordByteLength_def pure_ingest_def validation_of_def
        validateAndNormalizeEvent_def outcome_def normalized_event_def)
qed

section \<open>Origins\<close>

text \<open>
  The hostname of a URL with an IPv6 address is the address in brackets, so the comparison with \<open>::1\<close>
  fails for every such origin.
\<close>

lemma ipv6_origin_refused:
  assumes "parse_url o' = Some (protocol, CHR ''['' # address)" "o' \<noteq> []"
  shows "\<not> isAllowedOrigin parse_url (Some o')"
  using assms by (simp add: isAllowedOrigin_def)

end
