(* ===== verification/Observer.thy ===== *)
theory Observer
  imports Ingest_Facts
begin

text \<open>
  The observer that polls the \<open>incoming.ndjson\<close> file of every session
  (\<open>src/daemon/direct-append-observer.ts\<close>): the read of at most 256 KiB from the cursor, the loop
  over its complete lines, the scan of a record that does not fit, and the cursor document.
  \<open>sha256\<close> is the hexadecimal digest, \<open>clock\<close> the value of \<open>Date.now()\<close> when the record at a
  source offset is ingested.
\<close>

section \<open>The cursor\<close>

definition MAX_READ_BYTES :: nat where
  "MAX_READ_BYTES = 256 * 1024"

abbreviation newline :: char where "newline \<equiv> CHR 0x0A"

text \<open>
  \<open>readCursor\<close>: a syntax error and a missing file give offset 0, as does any value without a
  non-negative safe integer; reading a property of \<open>null\<close> is a \<open>TypeError\<close>, which is rethrown.
\<close>

definition offset_of :: "json \<Rightarrow> nat" where
  "offset_of v =
     (case v of
        JObj es \<Rightarrow>
          (case field ''offset'' es of
             Some (JNum n) \<Rightarrow> if is_safe_integer n \<and> 0 \<le> int_of_num n then nat (int_of_num n) else 0
           | _ \<Rightarrow> 0)
      | _ \<Rightarrow> 0)"

definition cursor_value :: "json document \<Rightarrow> failure + nat" where
  "cursor_value doc =
     (case doc of
        Absent \<Rightarrow> Inr 0
      | Corrupt \<Rightarrow> Inr 0
      | Doc v \<Rightarrow> if v = JNull then Inl TypeFailure else Inr (offset_of v))"

definition readCursor :: "string \<Rightarrow> (daemon, nat) op" where
  "readCursor sid = andThen (requireSafe sid) (\<lambda>_ s.
     (case directory_of s sid of None \<Rightarrow> Inr 0 | Some d \<Rightarrow> cursor_value (cursor_json d), s))"

definition cursor_document :: "nat \<Rightarrow> json" where
  "cursor_document offset = JObj [(''offset'', JNum (num_of_int (int offset)))]"

definition writeCursor :: "string \<Rightarrow> nat \<Rightarrow> (daemon, unit) op" where
  "writeCursor sid offset = changeDirectory sid (\<lambda>d. d\<lparr>cursor_json := Doc (cursor_document offset)\<rparr>)"

definition openIncoming :: "string \<Rightarrow> (daemon, string) op" where
  "openIncoming sid = readDirectory sid
     (\<lambda>d. case incoming_ndjson d of None \<Rightarrow> Inl ENOENT | Some bytes \<Rightarrow> Inr bytes)"

section \<open>A record that does not fit\<close>

record oversized_scan =
  scan_actualByteLength :: nat
  scan_contentHash :: string
  scan_previewByteLength :: nat
  scan_recordEnd :: nat

text \<open>
  \<open>hashed\<close> are the bytes given to the hash so far. Reads are of \<open>MAX_READ_BYTES\<close>, the size of
  the buffer. A file that shrinks while it is scanned (a read of no bytes) is left out: the
  bytes are a snapshot.
\<close>

function scanOversizedRecord ::
  "(string \<Rightarrow> string) \<Rightarrow> string \<Rightarrow> nat \<Rightarrow> nat \<Rightarrow> nat \<Rightarrow> string \<Rightarrow> oversized_scan option" where
  "scanOversizedRecord sha256 file position actual preview hashed =
     (if length file \<le> position then None
      else
        let chunk = take MAX_READ_BYTES (drop position file);
            recordBytes = (case index_of newline chunk of Some i \<Rightarrow> take i chunk | None \<Rightarrow> chunk);
            actual' = actual + length recordBytes;
            preview' = preview + min (length recordBytes) (MAX_MALFORMED_PREVIEW_BYTES - preview);
            hashed' = hashed @ recordBytes
        in (case index_of newline chunk of
              Some i \<Rightarrow> Some \<lparr>scan_actualByteLength = actual', scan_contentHash = sha256 hashed',
                scan_previewByteLength = preview', scan_recordEnd = position + i + 1\<rparr>
            | None \<Rightarrow> scanOversizedRecord sha256 file (position + length recordBytes) actual' preview' hashed'))"
  by pat_completeness auto
termination
  by (relation "measure (\<lambda>(sha256, file, position, _). length file - position)")
    (auto simp: MAX_READ_BYTES_def)

declare scanOversizedRecord.simps [simp del]

section \<open>One session\<close>

definition line_options :: "(string \<Rightarrow> string) \<Rightarrow> string \<Rightarrow> nat \<Rightarrow> string \<Rightarrow> ingestion_options" where
  "line_options sha256 sid offset line =
     (let contentHash = directSourceContentHash sha256 line
      in \<lparr>opt_actualByteLength = Some (length line),
          opt_diagnosticId = Some (directAppendDiagnosticId sha256 sid offset contentHash),
          opt_eventId = Some (directAppendEventId sha256 sid offset contentHash),
          opt_previewByteLength = Some (min (length line) MAX_MALFORMED_PREVIEW_BYTES)\<rparr>)"

definition ingestLine ::
  "(string \<Rightarrow> string) \<Rightarrow> (nat \<Rightarrow> string) \<Rightarrow> (nat \<Rightarrow> int) \<Rightarrow> string \<Rightarrow> nat \<Rightarrow> string
     \<Rightarrow> (daemon, ingestion_result) op" where
  "ingestLine sha256 uuid clock sid offset line =
     (if MAX_INGESTION_RECORD_BYTES < length line
      then ingestOversizedRecord uuid (clock offset) sid (length line)
             (opt_diagnosticId (line_options sha256 sid offset line))
             (min (length line) MAX_MALFORMED_PREVIEW_BYTES)
      else ingestRecord uuid (clock offset) sid (utf8_decode line) (line_options sha256 sid offset line))"

text \<open>
  The loop over the complete lines; \<open>offset\<close> is the source offset of the rest. The value is
  false when a record was answered \<open>not-found\<close>, which ends the poll without a new cursor.
\<close>

function ingestLines ::
  "(string \<Rightarrow> string) \<Rightarrow> (nat \<Rightarrow> string) \<Rightarrow> (nat \<Rightarrow> int) \<Rightarrow> string \<Rightarrow> nat \<Rightarrow> string \<Rightarrow> (daemon, bool) op" where
  "ingestLines sha256 uuid clock sid offset rest =
     (case index_of newline rest of
        None \<Rightarrow> ret True
      | Some i \<Rightarrow>
          if i = 0 then ingestLines sha256 uuid clock sid (offset + i + 1) (drop (i + 1) rest)
          else andThen (ingestLine sha256 uuid clock sid offset (take i rest)) (\<lambda>result.
            if result = NotFound then ret False
            else ingestLines sha256 uuid clock sid (offset + i + 1) (drop (i + 1) rest)))"
  by pat_completeness auto
termination
  by (relation "measure (\<lambda>(_, _, _, _, _, rest). length rest)") (auto dest: index_of_Some)

declare ingestLines.simps [simp del]

text \<open>What follows once the cursor and the bytes are known.\<close>

definition pollSession ::
  "(string \<Rightarrow> string) \<Rightarrow> (nat \<Rightarrow> string) \<Rightarrow> (nat \<Rightarrow> int) \<Rightarrow> string \<Rightarrow> nat \<Rightarrow> string \<Rightarrow> (daemon, unit) op" where
  "pollSession sha256 uuid clock sid cursor bytes =
     (let size = length bytes;
          offset = (if cursor \<le> size then cursor else 0);
          available = size - offset
      in if available = 0 then (if offset \<noteq> cursor then writeCursor sid offset else ret ())
         else
           let contents = take (min available MAX_READ_BYTES) (drop offset bytes)
           in case last_index_of newline contents of
                None \<Rightarrow>
                  if MAX_INGESTION_RECORD_BYTES < available
                  then (case scanOversizedRecord sha256 bytes offset 0 0 [] of
                      None \<Rightarrow> ret ()
                    | Some scan \<Rightarrow>
                        andThen (ingestOversizedRecord uuid (clock offset) sid (scan_actualByteLength scan)
                            (Some (directAppendDiagnosticId sha256 sid offset (scan_contentHash scan)))
                            (scan_previewByteLength scan)) (\<lambda>result.
                          if result = NotFound then ret ()
                          else writeCursor sid (scan_recordEnd scan)))
                  else ret ()
              | Some finalNewline \<Rightarrow>
                  let complete = take (finalNewline + 1) contents
                  in andThen (ingestLines sha256 uuid clock sid offset complete) (\<lambda>finished.
                       if finished then writeCursor sid (offset + length complete) else ret ()))"

definition processSession ::
  "(string \<Rightarrow> string) \<Rightarrow> (nat \<Rightarrow> string) \<Rightarrow> (nat \<Rightarrow> int) \<Rightarrow> string \<Rightarrow> (daemon, unit) op" where
  "processSession sha256 uuid clock sid =
     andThen (readCursor sid) (\<lambda>cursor.
     andThen (openIncoming sid) (\<lambda>bytes. pollSession sha256 uuid clock sid cursor bytes))"

text \<open>
  \<open>tick\<close>: every listed session is processed, whatever happens to the others; the rejection
  that is reported is the first one.
\<close>

fun runAll :: "('a \<Rightarrow> ('s, unit) op) \<Rightarrow> 'a list \<Rightarrow> ('s, unit) op" where
  "runAll f [] s = (Inr (), s)"
| "runAll f (x # xs) s =
     (case f x s of
        (Inr _, t) \<Rightarrow> runAll f xs t
      | (Inl e, t) \<Rightarrow> (Inl e, snd (runAll f xs t)))"

definition tick :: "(string \<Rightarrow> string) \<Rightarrow> (nat \<Rightarrow> string) \<Rightarrow> (nat \<Rightarrow> int) \<Rightarrow> (daemon, unit) op" where
  "tick sha256 uuid clock =
     andThen (listSessions None None) (\<lambda>sessions.
       runAll (\<lambda>x. processSession sha256 uuid clock (summary_id x)) sessions)"

end
