(* ===== verification/Json_Codec.thy ===== *)
theory Json_Codec
  imports Json
begin

text \<open>
  Facts about the JSON codec of \<open>Json\<close>: the depth bound of the parser is always enough, and
  \<open>JSON.parse (JSON.stringify v)\<close> gives back every value whose numbers are integers below
  \<open>10 ^ 21\<close>, whose strings hold no lone surrogate and whose objects list their entries in
  property order (\<open>storable\<close>).
\<close>

section \<open>The depth bound is enough\<close>

lemma skip_ws_length: "skip_ws s = c # cs \<Longrightarrow> length cs < length s"
  using length_dropWhile_le [of is_ws s] by (simp add: skip_ws_def)

lemma parse_chars_shorter: "parse_chars s = Some q \<Longrightarrow> length (snd q) < length s"
proof (induction s arbitrary: q rule: measure_induct_rule [of length])
  case (less s)
  have IH: "parse_chars y = Some z \<Longrightarrow> length y < length s \<Longrightarrow> length (snd z) < length s" for y z
    using less.IH [of y z] by simp
  show ?case
  proof (cases s)
    case (Cons c cs)
    with less.prems show ?thesis
      by (auto split: if_splits list.splits option.splits dest!: IH)
  qed (use less.prems in simp)
qed

lemma digits_after_le: "length (digits_after s) \<le> length s"
  by (simp add: digits_after_def length_dropWhile_le)

lemma digits_after_less: "digits_before s \<noteq> [] \<Longrightarrow> length (digits_after s) < length s"
  by (cases s) (auto simp: digits_after_def digits_before_def less_Suc_eq_le length_dropWhile_le
      split: if_splits)

lemma parse_fraction_le: "parse_fraction s = Some (p, r) \<Longrightarrow> length r \<le> length s"
  using digits_after_le [of "tl s"]
  by (cases s) (auto simp: parse_fraction_def split: if_splits)

lemma parse_exponent_le: "parse_exponent s = Some (x, r) \<Longrightarrow> length r \<le> length s"
  using digits_after_le [of "tl s"] digits_after_le [of "drop 1 (tl s)"]
  by (cases s) (auto simp: parse_exponent_def Let_def split: if_splits)

lemma parse_number_shorter:
  assumes "parse_number s = Some (v, r)"
  shows "length r < length s"
proof -
  define t where "t = (if starts_with s ''-'' then drop 1 s else s)"
  have "length t \<le> length s" by (simp add: t_def)
  from assms obtain fp r1 x where ne: "digits_before t \<noteq> []"
    and fr: "parse_fraction (digits_after t) = Some (fp, r1)"
    and ex: "parse_exponent r1 = Some (x, r)"
    by (auto simp: parse_number_def Let_def t_def [symmetric] split: if_splits option.splits)
  from digits_after_less [OF ne] parse_fraction_le [OF fr] parse_exponent_le [OF ex] \<open>length t \<le> length s\<close>
  show ?thesis by simp
qed

lemma parse_word_shorter: "parse_word s = Some (v, r) \<Longrightarrow> length r < length s"
  by (auto simp: parse_word_def starts_with_iff split: if_splits dest: parse_number_shorter)

lemma less_fuel:
  assumes "n < m" "2 * m \<le> h"
  obtains h' where "h = Suc h'" "2 * n + 1 \<le> h'"
  using assms by (cases h) auto

declare parse_value.simps(2) [simp del] parse_elements.simps(2) [simp del]
  parse_members.simps(2) [simp del]

lemmas parse_unfold = parse_value.simps(2) parse_elements.simps(2) parse_members.simps(2)

lemma odd_fuel:
  assumes "Suc (2 * n) \<le> h"
  obtains h' where "h = Suc h'" "2 * n \<le> h'"
  using assms by (cases h) auto

lemma parse_fuel:
  "parse_value f s = Some (v, r) \<Longrightarrow>
     length r < length s \<and> (\<forall>h. 2 * length s \<le> h \<longrightarrow> parse_value (Suc h) s = Some (v, r))"
  "parse_elements f acc s = Some (v, r) \<Longrightarrow>
     length r < length s \<and> (\<forall>h. 2 * length s + 1 \<le> h \<longrightarrow> parse_elements (Suc h) acc s = Some (v, r))"
  "parse_members f ms s = Some (v, r) \<Longrightarrow>
     length r < length s \<and> (\<forall>h. 2 * length s + 1 \<le> h \<longrightarrow> parse_members (Suc h) ms s = Some (v, r))"
proof (induction f s and f acc s and f ms s arbitrary: v r and v r and v r
    rule: parse_value_parse_elements_parse_members.induct)
  case (2 f s)
  then obtain c cs where s: "skip_ws s = c # cs" by (auto simp: parse_unfold split: list.splits)
  note len = skip_ws_length [OF s]
  have word: ?case if "parse_word (c # cs) = Some (v, r)" "c \<noteq> CHR 0x22" "c \<noteq> CHR ''[''" "c \<noteq> CHR ''{''"
    using that parse_word_shorter [of "c # cs" v r] s len by (auto simp: parse_unfold)
  have string: ?case if "c = CHR 0x22"
    using that "2.prems" s len parse_chars_shorter [of cs] by (fastforce simp: parse_unfold)
  have array: ?case if c: "c = CHR ''[''"
  proof (cases "skip_ws cs")
    case (Cons d ds)
    note ds = skip_ws_length [OF Cons]
    show ?thesis
    proof (cases "d = CHR '']''")
      case True
      then show ?thesis using "2.prems" s c Cons len ds by (auto simp: parse_unfold)
    next
      case False
      with "2.prems" s c Cons have "parse_elements f [] (d # ds) = Some (v, r)" by (simp add: parse_unfold(1))
      from "2.IH"(1) [OF s _ _ Cons False this] c
      have "length r < length (d # ds)" and
        el: "\<And>h. 2 * length (d # ds) + 1 \<le> h \<Longrightarrow> parse_elements (Suc h) [] (d # ds) = Some (v, r)"
        by auto
      moreover have "length (d # ds) < length s" using ds len by simp
      ultimately show ?thesis
        using s c Cons False by (auto simp: parse_unfold(1) elim!: less_fuel)
    qed
  qed (use "2.prems" s c in \<open>simp add: parse_unfold(1)\<close>)
  have object: ?case if c: "c = CHR ''{''"
  proof (cases "skip_ws cs")
    case (Cons d ds)
    note ds = skip_ws_length [OF Cons]
    show ?thesis
    proof (cases "d = CHR ''}''")
      case True
      then show ?thesis using "2.prems" s c Cons len ds by (auto simp: parse_unfold)
    next
      case False
      with "2.prems" s c Cons have "parse_members f [] (d # ds) = Some (v, r)" by (simp add: parse_unfold(1))
      from "2.IH"(2) [OF s _ _ _ Cons False this] c
      have "length r < length (d # ds)" and
        el: "\<And>h. 2 * length (d # ds) + 1 \<le> h \<Longrightarrow> parse_members (Suc h) [] (d # ds) = Some (v, r)"
        by auto
      moreover have "length (d # ds) < length s" using ds len by simp
      ultimately show ?thesis
        using s c Cons False by (auto simp: parse_unfold(1) elim!: less_fuel)
    qed
  qed (use "2.prems" s c in \<open>simp add: parse_unfold(1)\<close>)
  have "parse_word (c # cs) = Some (v, r)" if "c \<noteq> CHR 0x22" "c \<noteq> CHR ''[''" "c \<noteq> CHR ''{''"
    using that "2.prems" s by (simp add: parse_unfold(1))
  with word string array object show ?case by blast
next
  case (4 f acc s)
  then obtain w r1 where w: "parse_value f s = Some (w, r1)"
    by (auto simp: parse_unfold split: option.splits)
  from "4.IH"(1) [OF w] have r1: "length r1 < length s"
    and val: "\<And>h. 2 * length s \<le> h \<Longrightarrow> parse_value (Suc h) s = Some (w, r1)" by auto
  from "4.prems" w obtain d ds where d: "skip_ws r1 = d # ds"
    by (auto simp: parse_unfold split: list.splits)
  note ds = skip_ws_length [OF d]
  have shorter: "length ds < length s" using ds r1 by simp
  have step: "parse_elements (Suc (Suc h)) acc s = (if d = CHR '','' then parse_elements (Suc h) (acc @ [w]) ds
      else if d = CHR '']'' then Some (JArr (acc @ [w]), ds) else None)" if "2 * length s \<le> h" for h
    by (subst parse_unfold(2)) (simp add: val [OF that] d)
  show ?case
  proof (cases "d = CHR '',''")
    case True
    with "4.prems" w d have "parse_elements f (acc @ [w]) ds = Some (v, r)" by (simp add: parse_unfold)
    from "4.IH"(2) [OF w refl d True this] have "length r < length ds"
      and el: "\<And>h. 2 * length ds + 1 \<le> h \<Longrightarrow> parse_elements (Suc h) (acc @ [w]) ds = Some (v, r)" by auto
    then show ?thesis using shorter True by (auto simp: step elim!: odd_fuel)
  next
    case False
    with "4.prems" w d have "d = CHR '']''" "v = JArr (acc @ [w])" "r = ds"
      by (auto simp: parse_unfold split: if_splits)
    then show ?thesis using shorter by (auto simp: step elim!: odd_fuel)
  qed
next
  case (6 f ms s)
  then obtain cs k r0 where s: "skip_ws s = CHR 0x22 # cs" and k: "parse_chars cs = Some (k, r0)"
    by (auto simp: parse_unfold split: list.splits option.splits if_splits)
  from "6.prems" s k obtain d0 ds0 where d0: "skip_ws r0 = d0 # ds0"
    by (auto simp: parse_unfold split: list.splits)
  from "6.prems" s k d0 have colon: "d0 = CHR '':''" by (auto simp: parse_unfold split: if_splits)
  from "6.prems" s k d0 colon obtain w r1 where w: "parse_value f ds0 = Some (w, r1)"
    by (auto simp: parse_unfold split: option.splits)
  have len: "length ds0 < length s"
    using skip_ws_length [OF s] parse_chars_shorter [OF k] skip_ws_length [OF d0] by simp
  from "6.IH"(1) [OF s _ k refl d0 _ w] colon have r1: "length r1 < length ds0"
    and val: "\<And>h. 2 * length ds0 \<le> h \<Longrightarrow> parse_value (Suc h) ds0 = Some (w, r1)" by auto
  from "6.prems" s k d0 colon w obtain d ds where d: "skip_ws r1 = d # ds"
    by (auto simp: parse_unfold split: list.splits)
  have shorter: "length ds < length s" using skip_ws_length [OF d] r1 len by simp
  have step: "parse_members (Suc (Suc h)) ms s =
      (if d = CHR '','' then parse_members (Suc h) (obj_put ms (k, w)) ds
       else if d = CHR ''}'' then Some (JObj (obj_put ms (k, w)), ds) else None)"
    if "2 * length s \<le> h" for h
    using that len by (subst parse_unfold(3)) (simp add: val d s k d0 colon)
  show ?case
  proof (cases "d = CHR '',''")
    case True
    with "6.prems" s k d0 colon w d have "parse_members f (obj_put ms (k, w)) ds = Some (v, r)"
      by (simp add: parse_unfold)
    from "6.IH"(2) [OF s _ k refl d0 _ w refl d True this] colon have "length r < length ds"
      and el: "\<And>h. 2 * length ds + 1 \<le> h \<Longrightarrow> parse_members (Suc h) (obj_put ms (k, w)) ds = Some (v, r)"
      by auto
    then show ?thesis using shorter True by (auto simp: step elim!: odd_fuel)
  next
    case False
    with "6.prems" s k d0 colon w d have "d = CHR ''}''" "v = JObj (obj_put ms (k, w))" "r = ds"
      by (auto simp: parse_unfold split: if_splits)
    then show ?thesis using shorter by (auto simp: step elim!: odd_fuel)
  qed
qed simp_all

section \<open>Round trip\<close>

subsection \<open>String literals\<close>

fun no_surrogates :: "string \<Rightarrow> bool" where
  "no_surrogates (c # d # s) =
     (\<not> (code c = 237 \<and> 160 \<le> code d \<and> code d < 192) \<and> no_surrogates (d # s))"
| "no_surrogates _ = True"

lemma no_surrogates_tl: "no_surrogates (c # s) \<Longrightarrow> no_surrogates s"
  by (cases s) auto

lemma less_16_cases: "n < (16::nat) \<Longrightarrow> n < 10 \<or> n = 10 \<or> n = 11 \<or> n = 12 \<or> n = 13 \<or> n = 14 \<or> n = 15"
  by arith

lemma hex_value_hex_char: "n < 16 \<Longrightarrow> hex_value (hex_char n) = Some n"
  by (drule less_16_cases, elim disjE, drule less_10_cases)
    (auto simp: hex_char_def hex_value_def is_digit_def)

lemma short_long_escape: "short_escape c = Some x \<Longrightarrow> long_escape x = Some c \<and> x \<noteq> CHR ''u''"
  by (auto simp: short_escape_def long_escape_def split: if_splits)

lemma short_escape_None: "short_escape c = None \<Longrightarrow> c \<noteq> CHR 0x22 \<and> c \<noteq> CHR 0x5C"
  by (auto simp: short_escape_def split: if_splits)

lemma parse_control:
  assumes "code c < 32"
  shows "parse_chars (CHR 0x5C # ''u00'' @ [hex_char (code c div 16), hex_char (code c mod 16)] @ s) =
    put_front [c] (parse_chars s)"
proof -
  have "code c div 16 < 16" using assms by simp
  then have "hex4 (''00'' @ [hex_char (code c div 16), hex_char (code c mod 16)] @ s) = Some (code c)"
    by (simp add: hex_value_hex_char) (simp add: hex_value_def is_digit_def)
  with assms show ?thesis by (simp add: utf8_code_def)
qed

lemma parse_chars_escape:
  "no_surrogates s \<Longrightarrow> parse_chars (escape_text s @ CHR 0x22 # r) = Some (s, r)"
proof (induction s)
  case (Cons c cs)
  have IH: "parse_chars (escape_text cs @ CHR 0x22 # r) = Some (cs, r)"
    using Cons.IH no_surrogates_tl [OF Cons.prems] .
  show ?case
  proof (cases "short_escape c")
    case (Some x)
    with short_long_escape [OF Some] IH show ?thesis by simp
  next
    case None
    show ?thesis
    proof (cases "code c < 32")
      case True
      with None IH parse_control [OF True] show ?thesis by simp
    next
      case False
      with None Cons.prems have "escape_text (c # cs) = c # escape_text cs"
        by (auto split: list.splits)
      with short_escape_None [OF None] False IH show ?thesis by simp
    qed
  qed
qed simp

subsection \<open>Numbers\<close>

definition delim :: "string \<Rightarrow> bool" where
  "delim r \<longleftrightarrow> (\<forall>c cs. r = c # cs \<longrightarrow> \<not> is_digit c \<and> c \<noteq> CHR ''.'' \<and> c \<noteq> CHR ''e'' \<and> c \<noteq> CHR ''E'')"

fun integer_num :: "jsnum \<Rightarrow> bool" where
  "integer_num (Dec m e) \<longleftrightarrow>
     norm_dec m e = Dec m e \<and> 0 \<le> e \<and> int (length (nat_text (nat \<bar>m\<bar>))) + e \<le> 21"
| "integer_num _ = False"

lemma digits_before_append:
  "list_all is_digit ds \<Longrightarrow> delim r \<Longrightarrow> digits_before (ds @ r) = ds \<and> digits_after (ds @ r) = r"
  by (cases r) (auto simp: digits_before_def digits_after_def delim_def list_all_iff takeWhile_append dropWhile_append)

lemma digits_value_zeros: "digits_value (s @ replicate z CHR ''0'') = digits_value s * 10 ^ z"
proof (induction z)
  case (Suc z)
  have "s @ replicate (Suc z) CHR ''0'' = (s @ replicate z CHR ''0'') @ [CHR ''0'']"
    by (simp add: replicate_append_same)
  with Suc show ?case by (simp only: digits_value_snoc) (simp add: digit_value_def)
qed simp

lemma nat_text_hd: "0 < n \<Longrightarrow> hd (nat_text n) \<noteq> CHR ''0''"
proof (induction n rule: nat_text.induct)
  case (1 n)
  show ?case
  proof (cases "n < 10")
    case True
    with "1.prems" less_10_cases [OF True] show ?thesis by (auto simp: nat_text.simps [of n] digit_char_def)
  next
    case False
    with "1" show ?thesis by (subst nat_text.simps) (simp add: hd_append)
  qed
qed

lemma nat_text_bound: "n < 10 ^ length (nat_text n)"
proof (induction n rule: nat_text.induct)
  case (1 n)
  show ?case
  proof (cases "n < 10")
    case True
    then show ?thesis by (simp add: nat_text.simps [of n])
  next
    case False
    with "1" have "n div 10 < 10 ^ length (nat_text (n div 10))" by simp
    then have "n < 10 * 10 ^ length (nat_text (n div 10))" by (simp add: less_mult_imp_div_less)
    with False show ?thesis by (subst nat_text.simps) simp
  qed
qed

lemma norm_dec_shift: "m \<noteq> 0 \<Longrightarrow> norm_dec (m * 10 ^ z) e = norm_dec m (e + int z)"
proof (induction z arbitrary: e)
  case (Suc z)
  have "norm_dec (m * 10 ^ Suc z) e = norm_dec (m * 10 ^ z) (e + 1)"
    using Suc.prems by (subst norm_dec.simps) (simp add: mult.assoc mult.left_commute [of _ 10])
  with Suc show ?case by (simp add: algebra_simps)
qed simp

lemma nat_text_lower: "0 < n \<Longrightarrow> 10 ^ (length (nat_text n) - 1) \<le> n"
proof (induction n rule: nat_text.induct)
  case (1 n)
  show ?case
  proof (cases "n < 10")
    case True
    with "1.prems" show ?thesis by (simp add: nat_text.simps [of n])
  next
    case False
    define d where "d = n div 10"
    from False "1" have "10 ^ (length (nat_text d) - 1) \<le> d" by (simp add: d_def)
    moreover have "10 * d \<le> n" by (simp add: d_def)
    moreover have "nat_text n = nat_text d @ [digit_char (n mod 10)]"
      using False by (subst nat_text.simps) (simp add: d_def)
    moreover have "(10::nat) ^ length (nat_text d) = 10 * 10 ^ (length (nat_text d) - 1)"
      by (cases "nat_text d") auto
    ultimately show ?thesis by simp
  qed
qed

lemma to_number_integer:
  assumes "integer_num (Dec m e)"
  shows "to_number (m * 10 ^ nat e) 0 = Dec m e"
proof (cases "m = 0")
  case True
  with assms show ?thesis by (simp add: to_number_def norm_dec.simps [of 0])
next
  case False
  define N where "N = nat \<bar>m * 10 ^ nat e\<bar>"
  define k where "k = length (nat_text (nat \<bar>m\<bar>))"
  have "nat \<bar>m\<bar> < 10 ^ k" by (simp add: k_def nat_text_bound)
  then have "\<bar>m\<bar> < 10 ^ k" by (simp add: nat_less_iff)
  then have "\<bar>m * 10 ^ nat e\<bar> < 10 ^ (k + nat e)" by (simp add: abs_mult power_add)
  also have "(10::int) ^ (k + nat e) \<le> 10 ^ 21"
    using assms by (intro power_increasing) (auto simp: k_def)
  finally have bound: "\<bar>m * 10 ^ nat e\<bar> < 10 ^ 21" .
  then have "N < 10 ^ 21" by (simp add: N_def nat_less_iff)
  moreover have "0 < N" using False by (simp add: N_def)
  ultimately have "(10::nat) ^ (length (nat_text N) - 1) < 10 ^ 21"
    using nat_text_lower [of N] by linarith
  then have "length (nat_text N) - 1 < 21" by (rule power_less_imp_less_exp [rotated]) simp
  then have "\<not> 310 < int (length (nat_text N))" by simp
  moreover have "\<not> (2 ^ 1024 - 2 ^ 970 \<le> \<bar>m * 10 ^ nat e\<bar>)" using bound by simp
  moreover have "norm_dec (m * 10 ^ nat e) 0 = Dec m e"
    using assms False by (simp add: norm_dec_shift)
  ultimately show ?thesis using False by (simp add: to_number_def Let_def N_def)
qed

lemma parse_number_dec_text:
  assumes "integer_num (Dec m e)" "delim r"
  shows "parse_number (dec_text m e @ r) = Some (JNum (Dec m e), r)"
proof -
  define M where "M = nat \<bar>m\<bar>"
  define ds where "ds = (if m = 0 then ''0'' else nat_text M @ replicate (nat e) CHR ''0'')"
  have dt: "dec_text m e = (if m < 0 then ''-'' else []) @ ds"
    using assms by (auto simp: dec_text_def ds_def M_def Let_def)
  have digs: "list_all is_digit ds"
    using nat_text_digits [of M] by (auto simp: ds_def list_all_iff is_digit_def)
  have ne: "ds \<noteq> []" by (simp add: ds_def)
  have hd: "length ds = 1 \<or> hd ds \<noteq> CHR ''0''"
    using nat_text_hd [of M] by (auto simp: ds_def M_def)
  have val: "int (digits_value ds) = \<bar>m\<bar> * 10 ^ nat e"
    by (auto simp: ds_def M_def digits_value_zeros digits_value_def [of "''0''"] digit_value_def)
  have nominus: "\<not> starts_with (ds @ r) ''-''"
    using digs ne by (cases ds) (auto simp: is_digit_def)
  have frac: "parse_fraction r = Some ([], r)" and expo: "parse_exponent r = Some (0, r)"
    using assms(2) by (auto simp: parse_fraction_def parse_exponent_def delim_def split: list.splits)
  have num: "to_number ((if m < 0 then -1 else 1) * int (digits_value ds)) 0 = Dec m e"
    using to_number_integer [OF assms(1)] val by (auto simp: abs_if)
  show ?thesis
    using nominus frac expo num ne hd digits_before_append [OF digs assms(2)]
    by (auto simp: parse_number_def Let_def dt)
qed

subsection \<open>Values\<close>

fun storable :: "json \<Rightarrow> bool" where
  "storable (JNum n) \<longleftrightarrow> integer_num n"
| "storable (JStr s) \<longleftrightarrow> no_surrogates s"
| "storable (JArr xs) \<longleftrightarrow> list_all storable xs"
| "storable (JObj es) \<longleftrightarrow>
     list_all (\<lambda>p. no_surrogates (fst p) \<and> storable (snd p)) es \<and> foldl obj_put [] es = es"
| "storable _ \<longleftrightarrow> True"

text \<open>\<open>parses s v r\<close>: the text \<open>s\<close> is the value \<open>v\<close> followed by the rest \<open>r\<close>.\<close>

definition parses :: "string \<Rightarrow> json \<Rightarrow> string \<Rightarrow> bool" where
  "parses s v r \<longleftrightarrow> (\<exists>f. parse_value f s = Some (v, r))"

lemma parses_enough: "parses s v r \<Longrightarrow> 2 * length s \<le> h \<Longrightarrow> parse_value (Suc h) s = Some (v, r)"
  by (auto simp: parses_def dest: parse_fuel(1))

lemma parses_string: "no_surrogates s \<Longrightarrow> parses (quote_text s @ r) (JStr s) r"
  unfolding parses_def
  by (rule exI [of _ "Suc 0"]) (simp add: parse_unfold(1) skip_ws_def is_ws_def quote_text_def parse_chars_escape)

lemma parse_word_number:
  "\<not> starts_with s ''null'' \<Longrightarrow> \<not> starts_with s ''true'' \<Longrightarrow> \<not> starts_with s ''false'' \<Longrightarrow>
   parse_word s = parse_number s"
  by (simp add: parse_word_def)

lemma dec_text_hd:
  "integer_num (Dec m e) \<Longrightarrow> \<exists>c cs. dec_text m e = c # cs \<and> (is_digit c \<or> c = CHR ''-'')"
  using nat_text_digits [of "nat \<bar>m\<bar>"]
  by (cases "nat_text (nat \<bar>m\<bar>)") (auto simp: dec_text_def Let_def is_digit_def)

lemma parses_number: "integer_num n \<Longrightarrow> delim r \<Longrightarrow> parses (num_text n @ r) (JNum n) r"
proof (cases n)
  case (Dec m e)
  assume a: "integer_num n" "delim r"
  obtain c cs where c: "dec_text m e = c # cs" "is_digit c \<or> c = CHR ''-''"
    using dec_text_hd [of m e] a Dec by blast
  then have "c \<notin> {CHR 0x22, CHR ''['', CHR ''{'', CHR ''n'', CHR ''t'', CHR ''f''}" "\<not> is_ws c"
    by (auto simp: is_digit_def is_ws_def)
  with c(1) parse_number_dec_text [of m e r] a Dec show ?thesis unfolding parses_def
    by (intro exI [of _ "Suc 0"]) (auto simp: parse_unfold(1) skip_ws_def parse_word_number)
qed auto

text \<open>The text of a value starts with a character that is neither white space nor a bracket.\<close>

lemma json_text_hd: "storable v \<Longrightarrow> \<exists>c cs. json_text v = c # cs \<and> \<not> is_ws c \<and> c \<noteq> CHR '']'' \<and> c \<noteq> CHR ''}''"
proof (cases v)
  case (JNum n)
  assume "storable v"
  with JNum obtain m e where n: "n = Dec m e" "integer_num (Dec m e)" by (cases n) auto
  then show ?thesis using dec_text_hd [of m e] JNum by (auto simp: is_ws_def is_digit_def)
qed (auto simp: is_ws_def quote_text_def)

lemma parse_elements_step:
  assumes "parses (s @ d # r) v (d # r)" "d = CHR '','' \<or> d = CHR '']''"
  shows "\<exists>h. \<forall>f \<ge> h. parse_elements (Suc f) acc (s @ d # r) =
    (if d = CHR '','' then parse_elements f (acc @ [v]) r else Some (JArr (acc @ [v]), r))"
proof (intro exI allI impI)
  fix f
  assume "Suc (2 * length (s @ d # r)) \<le> f"
  then obtain f' where f': "f = Suc f'" "2 * length (s @ d # r) \<le> f'" by (cases f) auto
  from parses_enough [OF assms(1) f'(2)] assms(2) show
    "parse_elements (Suc f) acc (s @ d # r) =
      (if d = CHR '','' then parse_elements f (acc @ [v]) r else Some (JArr (acc @ [v]), r))"
    by (subst parse_unfold(2)) (auto simp: f'(1) skip_ws_def is_ws_def)
qed

lemma parse_elements_join:
  assumes "xs \<noteq> []" "\<And>x s. x \<in> set xs \<Longrightarrow> delim s \<Longrightarrow> parses (json_text x @ s) x s"
  shows "\<exists>f. parse_elements f acc (join_with '','' (map json_text xs) @ CHR '']'' # r) = Some (JArr (acc @ xs), r)"
  using assms
proof (induction xs arbitrary: acc)
  case (Cons x xs)
  show ?case
  proof (cases xs)
    case Nil
    have "parses (json_text x @ CHR '']'' # r) x (CHR '']'' # r)"
      by (rule Cons.prems) (auto simp: delim_def is_digit_def)
    from parse_elements_step [OF this, of acc] Nil show ?thesis by auto
  next
    case (Cons y ys)
    let ?rest = "join_with '','' (map json_text xs) @ CHR '']'' # r"
    have "parses (json_text x @ CHR '','' # ?rest) x (CHR '','' # ?rest)"
      by (rule Cons.prems) (auto simp: delim_def is_digit_def)
    from parse_elements_step [OF this, of acc] obtain h where
      h: "\<And>f. h \<le> f \<Longrightarrow> parse_elements (Suc f) acc (json_text x @ CHR '','' # ?rest) = parse_elements f (acc @ [x]) ?rest"
      by auto
    obtain f where "parse_elements f (acc @ [x]) ?rest = Some (JArr ((acc @ [x]) @ xs), r)"
      using Cons.IH [of "acc @ [x]"] Cons.prems Cons by auto
    then have "\<And>g. 2 * length ?rest + 1 \<le> g \<Longrightarrow> parse_elements (Suc g) (acc @ [x]) ?rest = Some (JArr (acc @ x # xs), r)"
      using parse_fuel(2) by fastforce
    then have "parse_elements (Suc (Suc (h + 2 * length ?rest + 1))) acc (json_text x @ CHR '','' # ?rest) =
        Some (JArr (acc @ x # xs), r)"
      by (subst h) auto
    then show ?thesis using Cons by auto
  qed
qed simp

lemma parse_members_step:
  assumes "no_surrogates k" "parses (s @ d # r) v (d # r)" "d = CHR '','' \<or> d = CHR ''}''"
  shows "\<exists>h. \<forall>f \<ge> h. parse_members (Suc f) acc (quote_text k @ CHR '':'' # s @ d # r) =
    (if d = CHR '','' then parse_members f (obj_put acc (k, v)) r else Some (JObj (obj_put acc (k, v)), r))"
proof (intro exI allI impI)
  fix f
  assume "Suc (2 * length (s @ d # r)) \<le> f"
  then obtain f' where f': "f = Suc f'" "2 * length (s @ d # r) \<le> f'" by (cases f) auto
  have key: "parse_chars (escape_text k @ CHR 0x22 # CHR '':'' # s @ d # r) = Some (k, CHR '':'' # s @ d # r)"
    by (rule parse_chars_escape [OF assms(1)])
  from parses_enough [OF assms(2) f'(2)] assms(3) key show
    "parse_members (Suc f) acc (quote_text k @ CHR '':'' # s @ d # r) =
      (if d = CHR '','' then parse_members f (obj_put acc (k, v)) r else Some (JObj (obj_put acc (k, v)), r))"
    by (subst parse_unfold(3)) (auto simp: f'(1) skip_ws_def is_ws_def quote_text_def)
qed

abbreviation entry_json_text :: "string \<times> json \<Rightarrow> string" where
  "entry_json_text p \<equiv> quote_text (fst p) @ '':'' @ json_text (snd p)"

lemma parse_members_join:
  assumes "es \<noteq> []" "list_all (\<lambda>p. no_surrogates (fst p)) es"
    "\<And>p s. p \<in> set es \<Longrightarrow> delim s \<Longrightarrow> parses (json_text (snd p) @ s) (snd p) s"
  shows "\<exists>f. parse_members f acc (join_with '','' (map entry_json_text es) @ CHR ''}'' # r) =
    Some (JObj (foldl obj_put acc es), r)"
  using assms
proof (induction es arbitrary: acc)
  case (Cons p es)
  have ns: "no_surrogates (fst p)" using Cons.prems by simp
  show ?case
  proof (cases es)
    case Nil
    have "parses (json_text (snd p) @ CHR ''}'' # r) (snd p) (CHR ''}'' # r)"
      by (rule Cons.prems) (auto simp: delim_def is_digit_def)
    from parse_members_step [OF ns this, of acc] Nil show ?thesis by auto
  next
    case (Cons y ys)
    let ?rest = "join_with '','' (map entry_json_text es) @ CHR ''}'' # r"
    let ?all = "quote_text (fst p) @ CHR '':'' # json_text (snd p) @ CHR '','' # ?rest"
    have "parses (json_text (snd p) @ CHR '','' # ?rest) (snd p) (CHR '','' # ?rest)"
      by (rule Cons.prems) (auto simp: delim_def is_digit_def)
    from parse_members_step [OF ns this, of acc] obtain h where
      h: "\<And>f. h \<le> f \<Longrightarrow> parse_members (Suc f) acc ?all = parse_members f (obj_put acc p) ?rest"
      by auto
    obtain f where "parse_members f (obj_put acc p) ?rest = Some (JObj (foldl obj_put acc (p # es)), r)"
      using Cons.IH [of "obj_put acc p"] Cons.prems Cons by auto
    then have "\<And>g. 2 * length ?rest + 1 \<le> g \<Longrightarrow>
        parse_members (Suc g) (obj_put acc p) ?rest = Some (JObj (foldl obj_put acc (p # es)), r)"
      using parse_fuel(3) by fastforce
    then have "parse_members (Suc (Suc (h + 2 * length ?rest + 1))) acc ?all =
        Some (JObj (foldl obj_put acc (p # es)), r)"
      by (subst h) auto
    then show ?thesis using Cons by auto
  qed
qed simp

lemma join_text_hd:
  assumes "xs \<noteq> []" "\<exists>c cs. f (hd xs) = c # cs \<and> P c"
  shows "\<exists>c cs. join_with sep (map f xs) @ s = c # cs \<and> P c"
  using assms by (cases xs; cases "tl xs") auto

lemma parses_json_text: "storable v \<Longrightarrow> delim r \<Longrightarrow> parses (json_text v @ r) v r"
proof (induction v arbitrary: r)
  case (JNum n)
  then show ?case by (simp add: parses_number)
next
  case (JStr s)
  then show ?case by (simp add: parses_string)
next
  case (JArr xs)
  show ?case
  proof (cases "xs = []")
    case False
    let ?body = "join_with '','' (map json_text xs) @ CHR '']'' # r"
    have "storable (hd xs)" using JArr.prems False by (simp add: list_all_iff)
    note hd = json_text_hd [OF this]
    obtain c cs where c: "?body = c # cs" "\<not> is_ws c \<and> c \<noteq> CHR '']'' \<and> c \<noteq> CHR ''}''"
      using join_text_hd [OF False, of json_text "\<lambda>c. \<not> is_ws c \<and> c \<noteq> CHR '']'' \<and> c \<noteq> CHR ''}''",
          OF hd, of "'',''" "CHR '']'' # r"] by blast
    obtain f where "parse_elements f [] ?body = Some (JArr xs, r)"
      using parse_elements_join [OF False, of "[]" r] JArr by (auto simp: list_all_iff)
    with c have "parse_value (Suc f) (json_text (JArr xs) @ r) = Some (JArr xs, r)"
      by (simp add: parse_unfold(1) skip_ws_def is_ws_def)
    then show ?thesis unfolding parses_def by blast
  qed (auto simp: parses_def parse_unfold(1) skip_ws_def is_ws_def intro!: exI [of _ "Suc 0"])
next
  case (JObj es)
  show ?case
  proof (cases "es = []")
    case False
    let ?body = "join_with '','' (map entry_json_text es) @ CHR ''}'' # r"
    obtain c cs where c: "?body = c # cs" "c = CHR 0x22"
      using join_text_hd [OF False, of entry_json_text "\<lambda>c. c = CHR 0x22" "'',''" "CHR ''}'' # r"]
      by (auto simp: quote_text_def)
    have "parses (json_text (snd p) @ s) (snd p) s" if "p \<in> set es" "delim s" for p s
      using JObj.IH [of p "snd p" s] JObj.prems that by (auto simp: list_all_iff snds.simps)
    then obtain f where "parse_members f [] ?body = Some (JObj (foldl obj_put [] es), r)"
      using parse_members_join [OF False, of "[]" r] JObj.prems by (auto simp: list_all_iff)
    with c JObj.prems have "parse_value (Suc f) (json_text (JObj es) @ r) = Some (JObj es, r)"
      by (simp add: parse_unfold(1) skip_ws_def is_ws_def)
    then show ?thesis unfolding parses_def by blast
  qed (auto simp: parses_def parse_unfold(1) skip_ws_def is_ws_def intro!: exI [of _ "Suc 0"])
qed (auto simp: parses_def parse_unfold(1) skip_ws_def is_ws_def parse_word_def intro!: exI [of _ "Suc 0"])

lemma parse_json_text: "storable v \<Longrightarrow> parse_json (json_text v) = Some v"
  using parses_enough [OF parses_json_text [of v "[]"], of "2 * length (json_text v)"]
  by (simp add: parse_json_def delim_def skip_ws_def)

text \<open>No character grows by more than a factor of six.\<close>

lemma length_escape_text: "length (escape_text s) \<le> 6 * length s"
proof (induction s rule: measure_induct_rule [of length])
  case (less s)
  show ?case
  proof (cases s)
    case (Cons c cs)
    then have IH: "length (escape_text cs) \<le> 6 * length cs" using less by simp
    show ?thesis
    proof (cases "\<exists>d e ds. cs = d # e # ds")
      case True
      then obtain d e ds where cs: "cs = d # e # ds" by blast
      then have "length (escape_text ds) \<le> 6 * length ds" using less Cons by simp
      with IH show ?thesis
        unfolding Cons cs escape_text.simps(2) [of c] by (cases "short_escape c") simp_all
    next
      case False
      then have "(case cs of d # e # ds \<Rightarrow> X d e ds | _ \<Rightarrow> Y) = Y" for X and Y :: string
        by (auto split: list.splits)
      with IH show ?thesis
        unfolding Cons escape_text.simps(2) [of c] by (cases "short_escape c") simp_all
    qed
  qed simp
qed

lemma length_quote_text: "length (quote_text s) \<le> 6 * length s + 2"
  using length_escape_text [of s] by (simp add: quote_text_def)

section \<open>Texts without control characters\<close>

definition printable :: "string \<Rightarrow> bool" where
  "printable s \<longleftrightarrow> (\<forall>c \<in> set s. 32 \<le> code c)"

named_theorems printing \<open>texts without control characters\<close>

lemma printable_append [simp]: "printable (s @ t) \<longleftrightarrow> printable s \<and> printable t"
  by (auto simp: printable_def)

lemma printable_Cons [simp]: "printable (c # s) \<longleftrightarrow> 32 \<le> code c \<and> printable s"
  by (auto simp: printable_def)

lemma printable_Nil [simp]: "printable []"
  by (simp add: printable_def)

lemma nat_text_printable [printing]: "printable (nat_text n)"
  using nat_text_digit_set [of _ n] by (fastforce simp: printable_def is_digit_def)

lemma dec_text_printable [printing]: "printable (dec_text m e)"
  using nat_text_printable by (auto simp: dec_text_def Let_def printable_def dest: in_set_takeD in_set_dropD)

lemma hex_char_printable: "n < 16 \<Longrightarrow> 32 \<le> code (hex_char n)"
  by (drule less_16_cases, elim disjE, drule less_10_cases) (auto simp: hex_char_def)

lemma short_escape_printable: "short_escape c = Some x \<Longrightarrow> 32 \<le> code x"
  by (auto simp: short_escape_def split: if_splits)

lemma escape_printable: "printable (escape_text s)"
proof (induction s rule: escape_text.induct)
  case (2 c cs)
  show ?case
  proof (cases "short_escape c")
    case None
    show ?thesis
    proof (cases "code c < 32")
      case True
      then have "code c div 16 < 16" "code c mod 16 < 16" by simp_all
      with 2 None True show ?thesis by (simp add: hex_char_printable)
    next
      case False
      show ?thesis
      proof (cases cs rule: list.exhaust [case_product list.exhaust, of _ "tl cs"])
        case (Cons_Cons d ds e es)
        then have cs: "cs = d # e # es" by simp
        show ?thesis
        proof (cases "code c = 237 \<and> 160 \<le> code d \<and> code d < 192")
          case True
          then have "(code d - 128) div 4 < 16" "(code d mod 4) * 4 + (code e mod 64) div 16 < 16" "code e mod 16 < 16"
            by auto
          with 2 None False True cs show ?thesis by (simp add: hex_char_printable)
        qed (use 2 None False cs in auto)
      qed (use 2 None False in auto)
    qed
  qed (use 2 short_escape_printable in auto)
qed simp

lemma quote_printable [printing]: "printable (quote_text s)"
  using escape_printable by (simp add: quote_text_def)

lemma join_printable: "printable sep \<Longrightarrow> \<forall>p \<in> set ps. printable p \<Longrightarrow> printable (join_with sep ps)"
  by (induction sep ps rule: join_with.induct) auto

lemma json_text_printable [printing]: "printable (json_text v)"
proof (induction v)
  case (JNum n)
  show ?case by (cases n) (simp_all add: printing)
next
  case (JArr xs)
  then have "printable (join_with '','' (map json_text xs))" by (intro join_printable) auto
  then show ?case by simp
next
  case (JObj es)
  have "printable (quote_text (fst p) @ '':'' @ json_text (snd p))" if "p \<in> set es" for p
    using JObj [of p "snd p"] that by (auto simp: printing snds.simps)
  then have "printable (join_with '','' (map (\<lambda>p. quote_text (fst p) @ '':'' @ json_text (snd p)) es))"
    by (intro join_printable) auto
  then show ?case by simp
qed (simp_all add: printing)

text \<open>In particular they are texts of one line.\<close>

named_theorems one_line \<open>texts of one line\<close>

lemma printable_one_line: "printable s \<Longrightarrow> CHR 0x0A \<notin> set s"
  by (auto simp: printable_def dest!: bspec)

lemma digit_one_line: "is_digit c \<Longrightarrow> c \<noteq> CHR 0x0A"
  by (auto simp: is_digit_def)

lemmas printed_one_line [one_line] = printing [THEN printable_one_line]

lemma json_text_one_line: "CHR 0x0A \<notin> set (json_text v)"
  by (rule printed_one_line)

lemma join_one_line: "CHR 0x0A \<notin> set sep \<Longrightarrow> \<forall>p \<in> set ps. CHR 0x0A \<notin> set p \<Longrightarrow> CHR 0x0A \<notin> set (join_with sep ps)"
  by (induction sep ps rule: join_with.induct) auto

end
