(* ===== verification/Js_Number.thy ===== *)
theory Js_Number
  imports Json_Codec
begin

text \<open>
  \<open>Number(text)\<close> of the JavaScript standard library (StringToNumber), used for the parameters of
  the control API and the options of the command line, with the fact that it reads back what
  \<open>String(n)\<close> writes for an integer.
\<close>

section \<open>White space\<close>

text \<open>The white space and line terminators of ECMA-262, each as its UTF-8 encoding.\<close>

definition js_spaces :: "string list" where
  "js_spaces = map (\<lambda>n. [char_of n]) [9, 10, 11, 12, 13, 32 :: nat]
     @ [utf8_code 160, utf8_code 5760, utf8_code 8232, utf8_code 8233, utf8_code 8239, utf8_code 8287,
        utf8_code 12288, utf8_code 65279]
     @ map utf8_code [8192..<8203]"

function strip_front :: "string list \<Rightarrow> string \<Rightarrow> string" where
  "strip_front spaces s =
     (case List.find (\<lambda>w. w \<noteq> [] \<and> starts_with s w) spaces of
        None \<Rightarrow> s
      | Some w \<Rightarrow> strip_front spaces (drop (length w) s))"
  by pat_completeness auto
termination
  by (relation "measure (\<lambda>(_, s). length s)") (auto simp: find_Some_iff starts_with_iff)

declare strip_front.simps [simp del]

definition js_trim :: "string \<Rightarrow> string" where
  "js_trim s = rev (strip_front (map rev js_spaces) (rev (strip_front js_spaces s)))"

section \<open>Literals\<close>

definition digit_in :: "nat \<Rightarrow> char \<Rightarrow> bool" where
  "digit_in base c \<longleftrightarrow> (case hex_value c of Some v \<Rightarrow> v < base | None \<Rightarrow> False)"

definition radix_value :: "nat \<Rightarrow> string \<Rightarrow> jsnum" where
  "radix_value base ds =
     (if ds \<noteq> [] \<and> list_all (digit_in base) ds
      then to_number (int (foldl (\<lambda>n c. base * n + the (hex_value c)) 0 ds)) 0 else NaN)"

text \<open>A decimal literal with an optional sign; one of the two digit strings may be missing.\<close>

definition decimal_value :: "string \<Rightarrow> jsnum" where
  "decimal_value t =
     (let neg = starts_with t ''-''; u = (if neg \<or> starts_with t ''+'' then drop 1 t else t);
          ip = digits_before u; r = digits_after u;
          dot = starts_with r ''.''; fp = (if dot then digits_before (drop 1 r) else []);
          r' = (if dot then digits_after (drop 1 r) else r)
      in if u = ''Infinity'' then Inf neg
         else if ip = [] \<and> fp = [] then NaN
         else case parse_exponent r' of
           Some (x, []) \<Rightarrow> to_number ((if neg then -1 else 1) * int (digits_value (ip @ fp))) (x - int (length fp))
         | _ \<Rightarrow> NaN)"

definition js_number :: "string \<Rightarrow> jsnum" where
  "js_number s =
     (let t = js_trim s; p = map ascii_lower (take 2 t)
      in if t = [] then Dec 0 0
         else if p = ''0x'' then radix_value 16 (drop 2 t)
         else if p = ''0o'' then radix_value 8 (drop 2 t)
         else if p = ''0b'' then radix_value 2 (drop 2 t)
         else decimal_value t)"

section \<open>Reading integers\<close>

lemma js_spaces_hd: "w \<in> set js_spaces \<Longrightarrow> w \<noteq> [] \<and> \<not> is_digit (hd w) \<and> hd w \<noteq> CHR ''-''"
  by (auto simp: js_spaces_def utf8_code_def is_digit_def of_char_def char_of_def
      dest: arg_cong [of _ _ code])

lemma js_spaces_last: "w \<in> set js_spaces \<Longrightarrow> \<not> is_digit (last w)"
  by (auto simp: js_spaces_def utf8_code_def is_digit_def of_char_def char_of_def
      dest: arg_cong [of _ _ code])

lemma strip_front_id:
  assumes "\<And>w. w \<in> set spaces \<Longrightarrow> w \<noteq> [] \<Longrightarrow> s = [] \<or> hd w \<noteq> hd s"
  shows "strip_front spaces s = s"
proof -
  have "List.find (\<lambda>w. w \<noteq> [] \<and> starts_with s w) spaces = None"
    using assms by (fastforce simp: find_None_iff starts_with_iff hd_append)
  then show ?thesis by (subst strip_front.simps) simp
qed

lemma js_trim_id:
  assumes "s \<noteq> []" "is_digit (hd s) \<or> hd s = CHR ''-''" "is_digit (last s)"
  shows "js_trim s = s"
proof -
  have "strip_front js_spaces s = s"
  proof (rule strip_front_id)
    fix w
    assume "w \<in> set js_spaces"
    from js_spaces_hd [OF this] assms(2) show "s = [] \<or> hd w \<noteq> hd s" by auto
  qed
  moreover have "strip_front (map rev js_spaces) (rev s) = rev s"
  proof (rule strip_front_id)
    fix w
    assume "w \<in> set (map rev js_spaces)" "w \<noteq> []"
    then obtain v where "v \<in> set js_spaces" "hd w = last v" by (metis hd_rev imageE list.set_map)
    with js_spaces_last [of v] assms(1,3) show "rev s = [] \<or> hd w \<noteq> hd (rev s)" by (auto simp: hd_rev)
  qed
  ultimately show ?thesis by (simp add: js_trim_def)
qed

text \<open>The text of an integer is its sign and its digits.\<close>

lemma dec_text_digits:
  assumes "integer_num (Dec m e)"
  obtains ds where "dec_text m e = (if m < 0 then ''-'' else []) @ ds" "ds \<noteq> []" "list_all is_digit ds"
    "int (digits_value ds) = \<bar>m\<bar> * 10 ^ nat e" "length ds = 1 \<or> hd ds \<noteq> CHR ''0''"
proof -
  define M where "M = nat \<bar>m\<bar>"
  define ds where "ds = (if m = 0 then ''0'' else nat_text M @ replicate (nat e) CHR ''0'')"
  show thesis
  proof (rule that [of ds])
    show "dec_text m e = (if m < 0 then ''-'' else []) @ ds"
      using assms by (auto simp: dec_text_def ds_def M_def Let_def)
    show "list_all is_digit ds"
      using nat_text_digits [of M] by (auto simp: ds_def list_all_iff is_digit_def)
    show "length ds = 1 \<or> hd ds \<noteq> CHR ''0''" using nat_text_hd [of M] by (auto simp: ds_def M_def)
    show "int (digits_value ds) = \<bar>m\<bar> * 10 ^ nat e"
      by (auto simp: ds_def M_def digits_value_zeros digits_value_def [of "''0''"] digit_value_def)
  qed (simp add: ds_def)
qed

lemma second_lower_digit:
  assumes "list_all is_digit ds" "c \<in> {CHR ''x'', CHR ''o'', CHR ''b''}"
  shows "map ascii_lower (take 2 ds) \<noteq> [z, c]" "map ascii_lower (take 2 (CHR ''-'' # ds)) \<noteq> [CHR ''0'', c]"
proof -
  have low: "ascii_lower a = a" if "is_digit a" for a
    using that by (intro ascii_lower_id) (auto simp: is_digit_def is_upper_def)
  show "map ascii_lower (take 2 ds) \<noteq> [z, c]"
    using assms low by (cases ds; cases "tl ds") (auto simp: numeral_2_eq_2 is_digit_def)
  show "map ascii_lower (take 2 (CHR ''-'' # ds)) \<noteq> [CHR ''0'', c]"
    by (cases ds) (auto simp: numeral_2_eq_2)
qed

lemma js_number_integer:
  assumes "integer_num n"
  shows "js_number (num_text n) = n"
proof (cases n)
  case (Dec m e)
  with assms have int: "integer_num (Dec m e)" by simp
  obtain ds where ds: "dec_text m e = (if m < 0 then ''-'' else []) @ ds" "ds \<noteq> []" "list_all is_digit ds"
    "int (digits_value ds) = \<bar>m\<bar> * 10 ^ nat e" "length ds = 1 \<or> hd ds \<noteq> CHR ''0''"
    using dec_text_digits [OF int] .
  let ?t = "dec_text m e"
  have hd: "is_digit (hd ds)" "is_digit (last ds)" using ds(2,3) by (auto simp: list_all_iff)
  then have trim: "js_trim ?t = ?t" using ds(1,2) by (intro js_trim_id) auto
  have digs: "digits_before ds = ds" "digits_after ds = []"
    using ds(3) by (simp_all add: digits_before_def digits_after_def list_all_iff)
  have plain: "\<not> starts_with ds ''-''" "\<not> starts_with ds ''+''" "ds \<noteq> ''Infinity''"
    using hd(1) ds(2) by (auto simp: starts_with_iff is_digit_def)
  have num: "to_number ((if m < 0 then -1 else 1) * int (digits_value ds)) 0 = Dec m e"
    using to_number_integer [OF int] ds(4) by (auto simp: abs_if)
  have expo: "parse_exponent [] = Some (0, [])" by (simp add: parse_exponent_def)
  have "decimal_value ?t = Dec m e"
    using plain digs num expo ds(2) by (auto simp: decimal_value_def ds(1) Let_def)
  moreover have "map ascii_lower (take 2 ?t) \<notin> {''0x'', ''0o'', ''0b''}"
    using second_lower_digit [OF ds(3)] by (auto simp: ds(1))
  ultimately show ?thesis
    using trim ds(2) by (auto simp: js_number_def Let_def Dec ds(1))
qed (use assms in auto)

section \<open>Safe integers\<close>

lemma norm_dec_value: "norm_dec m e = Dec m' e' \<Longrightarrow> e \<le> e' \<and> m = m' * 10 ^ nat (e' - e) \<or> m = 0 \<and> m' = 0 \<and> e' = 0"
proof (induction m e arbitrary: m' e' rule: norm_dec.induct)
  case (1 m e)
  show ?case
  proof (cases "m \<noteq> 0 \<and> m mod 10 = 0")
    case True
    then have "norm_dec (m div 10) (e + 1) = Dec m' e'" using 1(2) by (simp add: norm_dec.simps [of m e])
    from 1(1) [OF _ _ this] True have IH: "e + 1 \<le> e'" "m div 10 = m' * 10 ^ nat (e' - (e + 1))" by auto
    have "nat (e' - e) = Suc (nat (e' - (e + 1)))" using IH(1) by simp
    moreover have "m = 10 * (m div 10)" using True by auto
    ultimately show ?thesis using IH by simp
  next
    case False
    with 1(2) show ?thesis by (subst (asm) norm_dec.simps) (auto split: if_splits)
  qed
qed

lemma norm_dec_Dec: "\<exists>m' e'. norm_dec m e = Dec m' e'"
proof (induction m e rule: norm_dec.induct)
  case (1 m e)
  then show ?case by (subst norm_dec.simps) auto
qed

lemma num_of_int_cases:
  obtains m k where "num_of_int i = Dec m (int k)" "i = m * 10 ^ k" "m = 0 \<Longrightarrow> k = 0"
proof -
  obtain m e where n: "norm_dec i 0 = Dec m e" using norm_dec_Dec by blast
  from norm_dec_value [OF n] show thesis
  proof
    assume a: "0 \<le> e \<and> i = m * 10 ^ nat (e - 0)"
    show thesis
    proof (cases "m = 0")
      case True
      with a n have "Dec m e = Dec 0 0" by (simp add: norm_dec.simps [of 0 0])
      with a n that [of m 0] show thesis by (simp add: num_of_int_def)
    next
      case False
      with a n that [of m "nat e"] show thesis by (simp add: num_of_int_def)
    qed
  next
    assume "i = 0 \<and> m = 0 \<and> e = 0"
    with n that [of 0 0] show thesis by (simp add: num_of_int_def)
  qed
qed

lemma int_of_num_of_int [simp]: "int_of_num (num_of_int i) = i"
  by (rule num_of_int_cases [of i]) simp

lemma is_safe_integer_num_of_int: "is_safe_integer (num_of_int i) \<longleftrightarrow> \<bar>i\<bar> \<le> 9007199254740991"
proof (rule num_of_int_cases [of i])
  fix m k
  assume n: "num_of_int i = Dec m (int k)" "i = m * 10 ^ k" "m = 0 \<Longrightarrow> k = 0"
  have "k \<le> 16" if "m \<noteq> 0" "\<bar>m\<bar> * 10 ^ k \<le> 9007199254740991"
  proof (rule ccontr)
    assume "\<not> k \<le> 16"
    then have "(10::int) ^ 16 \<le> 10 ^ k" by (intro power_increasing) auto
    also have "\<dots> \<le> \<bar>m\<bar> * 10 ^ k" using \<open>m \<noteq> 0\<close> by simp
    finally show False using that(2) by simp
  qed
  then show "is_safe_integer (num_of_int i) \<longleftrightarrow> \<bar>i\<bar> \<le> 9007199254740991"
    using n by (auto simp: abs_mult)
qed

definition max_safe_integer :: nat where
  "max_safe_integer = 9007199254740991"

text \<open>A normal decimal has no trailing zeros.\<close>

lemma norm_dec_normal: "norm_dec m e = Dec m' e' \<Longrightarrow> norm_dec m' e' = Dec m' e'"
proof (induction m e arbitrary: m' e' rule: norm_dec.induct)
  case (1 m e)
  show ?case
  proof (cases "m \<noteq> 0 \<and> m mod 10 = 0")
    case True
    then have "norm_dec (m div 10) (e + 1) = Dec m' e'" using 1(2) by (simp add: norm_dec.simps [of m e])
    from 1(1) [OF _ _ this] True show ?thesis by simp
  next
    case False
    then have "m' = 0 \<and> e' = 0 \<or> m' = m \<and> e' = e \<and> m mod 10 \<noteq> 0"
      using 1(2) by (auto simp: norm_dec.simps [of m e] split: if_splits)
    then show ?thesis by (auto simp: norm_dec.simps [of 0 0] norm_dec.simps [of m e])
  qed
qed

lemma num_of_int_integer:
  assumes "n \<le> max_safe_integer"
  shows "integer_num (num_of_int (int n))" "is_safe_integer (num_of_int (int n))"
proof -
  show "is_safe_integer (num_of_int (int n))"
    using assms by (simp add: is_safe_integer_num_of_int max_safe_integer_def)
  obtain m k where mk: "num_of_int (int n) = Dec m (int k)" "int n = m * 10 ^ k" "m = 0 \<Longrightarrow> k = 0"
    by (rule num_of_int_cases [of "int n"]) (rule that)
  have normal: "norm_dec m (int k) = Dec m (int k)"
    using mk(1) norm_dec_normal by (auto simp: num_of_int_def)
  have "0 \<le> m * 10 ^ k" using mk(2) by (metis of_nat_0_le_iff)
  moreover have "0 < (10::int) ^ k" by simp
  ultimately have pos: "0 \<le> m" by (auto simp: zero_le_mult_iff)
  have "int (length (nat_text (nat \<bar>m\<bar>))) + int k \<le> 21"
  proof (cases "m = 0")
    case True
    with mk(3) show ?thesis by (simp add: nat_text.simps [of 0])
  next
    case False
    define l where "l = length (nat_text (nat m))"
    have "int (nat m * 10 ^ k) = int n" using mk(2) pos by simp
    then have n: "nat m * 10 ^ k = n" by linarith
    have "10 ^ (l - 1) \<le> nat m" unfolding l_def using False pos by (intro nat_text_lower) simp
    then have "10 ^ (l - 1) * 10 ^ k \<le> nat m * 10 ^ k" by simp
    then have "(10::nat) ^ (l - 1 + k) < 10 ^ 16"
      using assms n by (simp add: power_add max_safe_integer_def)
    then have "l - 1 + k < 16" by (rule power_less_imp_less_exp [rotated]) simp
    then show ?thesis using pos by (simp add: l_def)
  qed
  with mk(1) normal show "integer_num (num_of_int (int n))" by simp
qed

lemma js_number_nat: "n \<le> max_safe_integer \<Longrightarrow> js_number (num_text (num_of_int (int n))) = num_of_int (int n)"
  by (simp add: js_number_integer num_of_int_integer)

end
