(* ===== verification/Observer_Facts.thy ===== *)
theory Observer_Facts
  imports Observer Js_Number
begin

text \<open>
  What a poll of the observer does: it ingests the complete lines of a prefix of the unread
  bytes that ends at a newline, and moves the cursor to the end of that prefix. Whether the
  lines come through the loop or the scan of an oversized record makes no difference.
\<close>

section \<open>Numbers in the cursor\<close>

lemma offset_of_cursor_document: "n \<le> max_safe_integer \<Longrightarrow> offset_of (cursor_document n) = n"
  by (simp add: offset_of_def cursor_document_def field_def is_safe_integer_num_of_int max_safe_integer_def)

lemma cursor_value_document: "n \<le> max_safe_integer \<Longrightarrow> cursor_value (Doc (cursor_document n)) = Inr n"
  by (simp add: cursor_value_def offset_of_cursor_document) (simp add: cursor_document_def)

section \<open>The records of a file\<close>

text \<open>The non-empty lines that end in a newline, with their offsets.\<close>

function records_at :: "nat \<Rightarrow> string \<Rightarrow> (nat \<times> string) list" where
  "records_at offset rest =
     (case index_of newline rest of
        None \<Rightarrow> []
      | Some i \<Rightarrow> (if i = 0 then [] else [(offset, take i rest)])
          @ records_at (offset + i + 1) (drop (i + 1) rest))"
  by pat_completeness auto
termination
  by (relation "measure (\<lambda>(_, rest). length rest)") (auto dest: index_of_Some)

declare records_at.simps [simp del]

lemma records_at_line:
  "newline \<notin> set l \<Longrightarrow> records_at off (l @ newline # r) =
     (if l = [] then [] else [(off, l)]) @ records_at (off + length l + 1) r"
  by (subst records_at.simps) (simp add: index_of_append)

lemma records_at_no_newline: "newline \<notin> set r \<Longrightarrow> records_at off r = []"
  by (subst records_at.simps) (simp add: index_of_None_iff [symmetric])

text \<open>Text that is empty or ends in a newline.\<close>

definition complete_lines :: "string \<Rightarrow> bool" where
  "complete_lines s \<longleftrightarrow> s = [] \<or> last s = newline"

lemma records_at_append:
  "complete_lines a \<Longrightarrow> records_at off (a @ b) = records_at off a @ records_at (off + length a) b"
proof (induction a arbitrary: off rule: measure_induct_rule [of length])
  case (less a)
  show ?case
  proof (cases "a = []")
    case True
    then show ?thesis by (simp add: records_at_no_newline)
  next
    case False
    with less.prems have "newline \<in> set a" by (metis complete_lines_def last_in_set)
    then obtain i where i: "index_of newline a = Some i" using index_of_None_iff by fastforce
    define l where "l = take i a"
    define r where "r = drop (Suc i) a"
    have a: "a = l @ newline # r" and l: "newline \<notin> set l"
      using index_of_split [OF i] index_of_Some [OF i] by (simp_all add: l_def r_def)
    have "complete_lines r" using less.prems a by (auto simp: complete_lines_def split: if_splits)
    from less.IH [OF _ this] have IH: "records_at o' (r @ b) = records_at o' r @ records_at (o' + length r) b" for o'
      using a by simp
    have "records_at off (a @ b) = (if l = [] then [] else [(off, l)]) @ records_at (off + length l + 1) (r @ b)"
      unfolding a using records_at_line [OF l, of off "r @ b"] by simp
    moreover have "records_at off a = (if l = [] then [] else [(off, l)]) @ records_at (off + length l + 1) r"
      unfolding a by (rule records_at_line [OF l])
    moreover have "length a = Suc (length l + length r)" by (simp add: a)
    ultimately show ?thesis using IH [of "off + length l + 1"] by (simp add: add.assoc)
  qed
qed

lemma records_at_nonempty: "(n, l) \<in> set (records_at off s) \<Longrightarrow> l \<noteq> [] \<and> newline \<notin> set l \<and> off \<le> n"
proof (induction off s rule: records_at.induct)
  case (1 off s)
  show ?case
  proof (cases "index_of newline s")
    case None
    with 1(2) show ?thesis by (simp add: records_at.simps [of off s])
  next
    case (Some i)
    with 1(2) have "(n, l) = (off, take i s) \<and> i \<noteq> 0 \<or> (n, l) \<in> set (records_at (off + i + 1) (drop (i + 1) s))"
      by (auto simp: records_at.simps [of off s] split: if_splits)
    with 1(1) [OF Some] index_of_Some [OF Some] show ?thesis by auto
  qed
qed

section \<open>What a line does\<close>

definition pure_line ::
  "(string \<Rightarrow> string) \<Rightarrow> (nat \<Rightarrow> string) \<Rightarrow> (nat \<Rightarrow> int) \<Rightarrow> string \<Rightarrow> nat \<times> string
     \<Rightarrow> nat \<Rightarrow> session_dir \<Rightarrow> ingestion_result \<times> session_dir \<times> nat" where
  "pure_line sha256 uuid clock sid = (\<lambda>(offset, line).
     let opts = line_options sha256 sid offset line
     in if MAX_INGESTION_RECORD_BYTES < length line
        then pure_oversized uuid (clock offset) (length line) (opt_diagnosticId opts)
               (min (length line) MAX_MALFORMED_PREVIEW_BYTES)
        else pure_record uuid (clock offset) (utf8_decode line) opts)"

fun pure_lines ::
  "(string \<Rightarrow> string) \<Rightarrow> (nat \<Rightarrow> string) \<Rightarrow> (nat \<Rightarrow> int) \<Rightarrow> string \<Rightarrow> (nat \<times> string) list
     \<Rightarrow> nat \<Rightarrow> session_dir \<Rightarrow> session_dir \<times> nat" where
  "pure_lines sha256 uuid clock sid [] n d = (d, n)"
| "pure_lines sha256 uuid clock sid (x # xs) n d =
     (case pure_line sha256 uuid clock sid x n d of (_, d', n') \<Rightarrow> pure_lines sha256 uuid clock sid xs n' d')"

lemma pure_lines_append:
  "pure_lines sha256 uuid clock sid (xs @ ys) n d =
     (case pure_lines sha256 uuid clock sid xs n d of (d', n') \<Rightarrow> pure_lines sha256 uuid clock sid ys n' d')"
  by (induction xs arbitrary: n d) (auto split: prod.splits)

lemma ingestLine_effect:
  "SAFE_ID sid \<Longrightarrow> session_effect sid (ingestLine sha256 uuid clock sid offset line)
     (pure_line sha256 uuid clock sid (offset, line))"
  by (simp add: ingestLine_def pure_line_def Let_def ingestRecord_effect ingestOversizedRecord_effect)

lemma outcome_not_NotFound: "fst (outcome result d) \<noteq> NotFound"
  by (simp add: outcome_def split: option.splits)

lemma pure_record_not_NotFound: "fst (pure_record uuid now rec opts n d) \<noteq> NotFound"
  by (auto simp: pure_record_def Let_def pure_then_def pure_ret_def pure_malformed_def pure_ingest_def
      outcome_not_NotFound split: option.splits prod.splits)

lemma pure_line_not_NotFound: "fst (pure_line sha256 uuid clock sid x n d) \<noteq> NotFound"
  by (cases x) (auto simp: pure_line_def Let_def pure_record_not_NotFound pure_oversized_def pure_then_def
      pure_ret_def pure_malformed_def)

lemma outcome_fields:
  "cursor_json (snd (outcome result d)) = cursor_json d"
  "incoming_ndjson (snd (outcome result d)) = incoming_ndjson d"
  "session_json (snd (outcome result d)) = session_json d"
  by (simp_all add: outcome_def split: option.splits)

lemma pure_record_fields:
  assumes "pure_record uuid now rec opts n d = (r, d', n')"
  shows "cursor_json d' = cursor_json d \<and> incoming_ndjson d' = incoming_ndjson d \<and> session_json d' = session_json d"
  using assms
  by (auto simp: pure_record_def Let_def pure_then_def pure_ret_def pure_malformed_def pure_ingest_def
      outcome_fields split: option.splits prod.splits if_splits)

lemma pure_line_fields:
  assumes "pure_line sha256 uuid clock sid x n d = (r, d', n')"
  shows "cursor_json d' = cursor_json d \<and> incoming_ndjson d' = incoming_ndjson d \<and> session_json d' = session_json d"
  using assms pure_record_fields
  by (cases x) (auto simp: pure_line_def Let_def pure_oversized_def pure_then_def
      pure_ret_def pure_malformed_def split: if_splits)

lemma pure_lines_fields:
  assumes "pure_lines sha256 uuid clock sid xs n d = (d', n')"
  shows "cursor_json d' = cursor_json d \<and> incoming_ndjson d' = incoming_ndjson d \<and> session_json d' = session_json d"
  using assms
proof (induction xs arbitrary: n d)
  case (Cons x xs)
  obtain r d1 n1 where 1: "pure_line sha256 uuid clock sid x n d = (r, d1, n1)" by (metis prod_cases3)
  with Cons.prems have "pure_lines sha256 uuid clock sid xs n1 d1 = (d', n')" by simp
  from Cons.IH [OF this] pure_line_fields [OF 1] show ?case by simp
qed simp

lemma session_effect_cong: "session_effect sid m f \<Longrightarrow> (\<And>n d. f n d = g n d) \<Longrightarrow> session_effect sid m g"
  by (simp add: session_effect_def)

lemma ingestLines_effect:
  assumes safe: "SAFE_ID sid"
  shows "session_effect sid (ingestLines sha256 uuid clock sid offset rest)
    (\<lambda>n d. (True, pure_lines sha256 uuid clock sid (records_at offset rest) n d))"
proof (induction offset rest rule: records_at.induct)
  case (1 offset rest)
  show ?case
  proof (cases "index_of newline rest")
    case None
    then have "session_effect sid (ingestLines sha256 uuid clock sid offset rest) (pure_ret True)"
      by (subst ingestLines.simps) (simp add: session_effect_ret)
    then show ?thesis
      by (rule session_effect_cong) (simp add: pure_ret_def records_at.simps [of offset rest] None)
  next
    case (Some i)
    note IH = 1 [OF Some]
    show ?thesis
    proof (cases "i = 0")
      case True
      with Some have "ingestLines sha256 uuid clock sid offset rest =
          ingestLines sha256 uuid clock sid (offset + i + 1) (drop (i + 1) rest)"
        by (subst ingestLines.simps) simp
      with IH Some True show ?thesis by (simp add: records_at.simps [of offset rest])
    next
      case False
      let ?k = "\<lambda>result. if result = NotFound then ret False
        else ingestLines sha256 uuid clock sid (offset + i + 1) (drop (i + 1) rest)"
      let ?h = "\<lambda>result. if result = NotFound then pure_ret False
        else (\<lambda>n d. (True, pure_lines sha256 uuid clock sid (records_at (offset + i + 1) (drop (i + 1) rest)) n d))"
      have "session_effect sid (?k result) (?h result)" for result
        using IH session_effect_ret [of sid False] by simp
      from session_effect_andThen [OF ingestLine_effect [OF safe] this]
      have "session_effect sid (ingestLines sha256 uuid clock sid offset rest)
          (pure_then (pure_line sha256 uuid clock sid (offset, take i rest)) ?h)"
        using Some False by (subst ingestLines.simps) simp
      then show ?thesis
      proof (rule session_effect_cong)
        fix n d
        obtain r d1 n1 where p: "pure_line sha256 uuid clock sid (offset, take i rest) n d = (r, d1, n1)"
          by (metis prod_cases3)
        with pure_line_not_NotFound [of sha256 uuid clock sid "(offset, take i rest)" n d] have "r \<noteq> NotFound" by simp
        with p Some False show "pure_then (pure_line sha256 uuid clock sid (offset, take i rest)) ?h n d =
            (True, pure_lines sha256 uuid clock sid (records_at offset rest) n d)"
          by (simp add: pure_then_def records_at.simps [of offset rest])
      qed
    qed
  qed
qed

section \<open>The scan\<close>

lemma index_of_append_cases:
  "index_of x (a @ b) =
     (case index_of x a of Some i \<Rightarrow> Some i | None \<Rightarrow> map_option (\<lambda>i. length a + i) (index_of x b))"
  by (cases "index_of x b"; induction a) (auto split: option.splits)

lemma scan_spec:
  assumes "position \<le> length bytes" "preview \<le> MAX_MALFORMED_PREVIEW_BYTES"
  shows "scanOversizedRecord sha256 bytes position actual preview hashed =
    (case index_of newline (drop position bytes) of
       None \<Rightarrow> None
     | Some i \<Rightarrow> Some \<lparr>scan_actualByteLength = actual + i,
         scan_contentHash = sha256 (hashed @ take i (drop position bytes)),
         scan_previewByteLength = min (preview + i) MAX_MALFORMED_PREVIEW_BYTES,
         scan_recordEnd = position + i + 1\<rparr>)"
  using assms
proof (induction sha256 bytes position actual preview hashed rule: scanOversizedRecord.induct)
  case (1 sha256 bytes position actual preview hashed)
  show ?case
  proof (cases "length bytes \<le> position")
    case True
    then show ?thesis by (subst scanOversizedRecord.simps) simp
  next
    case False
    define rest where "rest = drop position bytes"
    define chunk where "chunk = take MAX_READ_BYTES rest"
    have rest: "rest = chunk @ drop (length chunk) rest"
      unfolding chunk_def by (simp add: min_def)
    have len: "length chunk \<le> length rest" by (simp add: chunk_def)
    show ?thesis
    proof (cases "index_of newline chunk")
      case (Some i)
      then have "index_of newline rest = Some i"
        by (subst rest) (simp add: index_of_append_cases)
      moreover have "i < length chunk" using index_of_Some [OF Some] by simp
      moreover from this have "take i chunk = take i rest"
        by (auto simp: chunk_def min_def split: if_splits)
      moreover have "preview + min i (MAX_MALFORMED_PREVIEW_BYTES - preview) = min (preview + i) MAX_MALFORMED_PREVIEW_BYTES"
        using 1(3) by arith
      moreover have "length (take i chunk) = i" using \<open>i < length chunk\<close> by simp
      ultimately show ?thesis
        using False Some
        by (subst scanOversizedRecord.simps)
          (simp add: Let_def chunk_def [symmetric] rest_def [symmetric] del: length_take)
    next
      case None
      define pre where "pre = preview + min (length chunk) (MAX_MALFORMED_PREVIEW_BYTES - preview)"
      have pre: "pre = min (preview + length chunk) MAX_MALFORMED_PREVIEW_BYTES"
        unfolding pre_def using 1(3) by arith
      have step: "scanOversizedRecord sha256 bytes position actual preview hashed =
          scanOversizedRecord sha256 bytes (position + length chunk) (actual + length chunk) pre (hashed @ chunk)"
        using False None
        by (subst scanOversizedRecord.simps) (simp add: Let_def chunk_def [symmetric] rest_def [symmetric] pre_def)
      have nxt: "index_of newline rest = map_option (\<lambda>i. length chunk + i) (index_of newline (drop (length chunk) rest))"
        using None by (subst rest) (simp add: index_of_append_cases)
      have le: "position + length chunk \<le> length bytes" using len False by (simp add: rest_def)
      have IH: "scanOversizedRecord sha256 bytes (position + length chunk) (actual + length chunk) pre (hashed @ chunk) =
        (case index_of newline (drop (position + length chunk) bytes) of
           None \<Rightarrow> None
         | Some i \<Rightarrow> Some \<lparr>scan_actualByteLength = actual + length chunk + i,
             scan_contentHash = sha256 ((hashed @ chunk) @ take i (drop (position + length chunk) bytes)),
             scan_previewByteLength = min (pre + i) MAX_MALFORMED_PREVIEW_BYTES,
             scan_recordEnd = position + length chunk + i + 1\<rparr>)"
      proof (rule 1(1) [OF False _ _ refl pre_def refl None le])
        show "chunk = take MAX_READ_BYTES (drop position bytes)" by (simp add: chunk_def rest_def)
        show "chunk = (case index_of newline chunk of None \<Rightarrow> chunk | Some i \<Rightarrow> take i chunk)"
          using None by simp
        show "pre \<le> MAX_MALFORMED_PREVIEW_BYTES" by (simp add: pre)
      qed
      have drop2: "drop (position + length chunk) bytes = drop (length chunk) rest"
        by (simp add: rest_def add.commute)
      have "take (length chunk + i) rest = chunk @ take i (drop (length chunk) rest)" for i
        by (subst rest) simp
      with step IH nxt drop2 pre show ?thesis
        by (auto simp: rest_def [symmetric] split: option.splits)
    qed
  qed
qed

text \<open>How many of the unread bytes a poll consumes.\<close>

definition consumed :: "string \<Rightarrow> nat" where
  "consumed rest =
     (case last_index_of newline (take MAX_READ_BYTES rest) of
        Some i \<Rightarrow> i + 1
      | None \<Rightarrow> (case index_of newline rest of Some i \<Rightarrow> i + 1 | None \<Rightarrow> 0))"

lemma consumed_le: "consumed rest \<le> length rest"
  by (auto simp: consumed_def split: option.splits dest!: last_index_of_Some index_of_Some)

lemma take_Suc_last: "i < length s \<Longrightarrow> last (take (Suc i) s) = s ! i"
  by (simp add: take_Suc_conv_app_nth)

lemma consumed_complete: "complete_lines (take (consumed rest) rest)"
proof (cases "last_index_of newline (take MAX_READ_BYTES rest)")
  case (Some i)
  with last_index_of_Some [OF Some] show ?thesis
    by (auto simp: consumed_def complete_lines_def take_Suc_last)
next
  case None
  then show ?thesis
    by (auto simp: consumed_def complete_lines_def take_Suc_last split: option.splits dest: index_of_Some)
qed

lemma consumed_0_iff: "consumed rest = 0 \<longleftrightarrow> newline \<notin> set rest"
proof
  assume "consumed rest = 0"
  then show "newline \<notin> set rest"
    by (auto simp: consumed_def index_of_None_iff [symmetric] split: option.splits)
next
  assume no: "newline \<notin> set rest"
  then have "newline \<notin> set (take MAX_READ_BYTES rest)" by (meson in_set_takeD)
  with no show "consumed rest = 0"
    by (simp add: consumed_def index_of_None_iff [THEN iffD2] last_index_of_None_iff [THEN iffD2])
qed

section \<open>A poll\<close>

definition effective_offset :: "nat \<Rightarrow> string \<Rightarrow> nat" where
  "effective_offset cursor bytes = (if cursor \<le> length bytes then cursor else 0)"

text \<open>The records a poll ingests, and the cursor document it leaves.\<close>

definition polled_records :: "nat \<Rightarrow> string \<Rightarrow> (nat \<times> string) list" where
  "polled_records cursor bytes =
     (let off = effective_offset cursor bytes; rest = drop off bytes
      in records_at off (take (consumed rest) rest))"

definition polled_cursor :: "nat \<Rightarrow> string \<Rightarrow> json document \<Rightarrow> json document" where
  "polled_cursor cursor bytes old =
     (let off = effective_offset cursor bytes; k = consumed (drop off bytes)
      in if 0 < k \<or> off = length bytes \<and> off \<noteq> cursor then Doc (cursor_document (off + k)) else old)"

definition pure_poll ::
  "(string \<Rightarrow> string) \<Rightarrow> (nat \<Rightarrow> string) \<Rightarrow> (nat \<Rightarrow> int) \<Rightarrow> string \<Rightarrow> nat \<Rightarrow> string
     \<Rightarrow> nat \<Rightarrow> session_dir \<Rightarrow> unit \<times> session_dir \<times> nat" where
  "pure_poll sha256 uuid clock sid cursor bytes = (\<lambda>n d.
     case pure_lines sha256 uuid clock sid (polled_records cursor bytes) n d of
       (d', n') \<Rightarrow> ((), d'\<lparr>cursor_json := polled_cursor cursor bytes (cursor_json d')\<rparr>, n'))"

definition pure_cursor :: "nat \<Rightarrow> nat \<Rightarrow> session_dir \<Rightarrow> unit \<times> session_dir \<times> nat" where
  "pure_cursor offset = (\<lambda>n d. ((), d\<lparr>cursor_json := Doc (cursor_document offset)\<rparr>, n))"

lemma writeCursor_effect: "SAFE_ID sid \<Longrightarrow> session_effect sid (writeCursor sid k) (pure_cursor k)"
  unfolding writeCursor_def pure_cursor_def
proof (rule session_effectI)
  fix s :: daemon and d e g q
  assume "SAFE_ID sid" and ok: "view_ok sid (Some d, e, g, q)"
  moreover from ok have "view_ok sid (Some (d\<lparr>cursor_json := Doc (cursor_document k)\<rparr>), e, g, q)"
    by (simp add: dir_ok_def)
  ultimately show "reaches sid (changeDirectory sid (\<lambda>d. d\<lparr>cursor_json := Doc (cursor_document k)\<rparr>)
      (with_view sid d e g q s)) s ((), d\<lparr>cursor_json := Doc (cursor_document k)\<rparr>, draws s)"
    by (intro reachesI [of _ _ _ _ e g q]) (simp_all only: changeDirectory_view draws_same)
qed

lemma min_length_drop: "take (min (length bytes - off) m) (drop off bytes) = take m (drop off bytes)"
  by (metis length_drop take_all_iff take_take min.cobounded1 min.commute nle_le order_refl)

lemma directory_cursor_same: "d\<lparr>cursor_json := cursor_json d\<rparr> = (d :: session_dir)"
  by simp

lemma pollSession_effect:
  assumes safe: "SAFE_ID sid"
  shows "session_effect sid (pollSession sha256 uuid clock sid cursor bytes)
    (pure_poll sha256 uuid clock sid cursor bytes)"
proof -
  define off where "off = effective_offset cursor bytes"
  define rest where "rest = drop off bytes"
  define contents where "contents = take MAX_READ_BYTES rest"
  have off: "off \<le> length bytes" by (simp add: off_def effective_offset_def)
  have off': "(if cursor \<le> length bytes then cursor else 0) = off" by (simp add: off_def effective_offset_def)
  have len: "length rest = length bytes - off" by (simp add: rest_def)
  have contents: "take (min (length bytes - off) MAX_READ_BYTES) (drop off bytes) = contents"
    unfolding contents_def rest_def by (rule min_length_drop)
  have pure: "pure_poll sha256 uuid clock sid cursor bytes = (\<lambda>n d.
     case pure_lines sha256 uuid clock sid (records_at off (take (consumed rest) rest)) n d of
       (d', n') \<Rightarrow> ((), d'\<lparr>cursor_json := polled_cursor cursor bytes (cursor_json d')\<rparr>, n'))"
    by (simp add: pure_poll_def polled_records_def Let_def off_def rest_def)
  note poll = pollSession_def [of sha256 uuid clock sid cursor bytes, unfolded Let_def off' contents]
  show ?thesis
  proof (cases "rest = []")
    case True
    then have "consumed rest = 0" "length bytes - off = 0" "off = length bytes"
      using len off by (simp_all add: consumed_0_iff)
    moreover have "session_effect sid (if off \<noteq> cursor then writeCursor sid off else ret ())
        (if off \<noteq> cursor then pure_cursor off else pure_ret ())"
      by (simp add: writeCursor_effect safe session_effect_ret)
    ultimately show ?thesis
      unfolding poll pure
      by (auto intro!: session_effect_cong [where g = "\<lambda>n d. case pure_lines sha256 uuid clock sid _ n d of _ \<Rightarrow> _"]
          simp: True records_at_no_newline pure_cursor_def pure_ret_def polled_cursor_def Let_def off_def [symmetric]
            rest_def [symmetric])
  next
    case False
    then have avail: "length bytes - off \<noteq> 0" "off \<noteq> length bytes" using len by auto
    show ?thesis
    proof (cases "last_index_of newline contents")
      case (Some fin)
      then have k: "consumed rest = fin + 1" by (simp add: consumed_def contents_def)
      have "fin < length contents" using last_index_of_Some [OF Some] by simp
      then have complete: "take (fin + 1) contents = take (consumed rest) rest" "length (take (fin + 1) contents) = fin + 1"
        by (auto simp: k contents_def min_def split: if_splits)
      then have prefix: "take (Suc fin) contents = take (Suc fin) rest" by (simp add: k)
      let ?k = "\<lambda>finished. if finished then writeCursor sid (off + length (take (fin + 1) contents)) else ret ()"
      let ?h = "\<lambda>finished. if finished then pure_cursor (off + (fin + 1)) else pure_ret ()"
      have "session_effect sid (?k finished) (?h finished)" for finished
        using complete(2) by (simp add: writeCursor_effect safe session_effect_ret [of sid "()"])
      from session_effect_andThen [OF ingestLines_effect [OF safe] this]
      have "session_effect sid (pollSession sha256 uuid clock sid cursor bytes)
          (pure_then (\<lambda>n d. (True, pure_lines sha256 uuid clock sid (records_at off (take (fin + 1) contents)) n d)) ?h)"
        unfolding poll using avail Some by simp
      then show ?thesis
        by (rule session_effect_cong)
          (simp add: pure prefix k pure_then_def pure_cursor_def polled_cursor_def Let_def
            off_def [symmetric] rest_def [symmetric] split: prod.splits)
    next
      case None
      show ?thesis
      proof (cases "index_of newline rest")
        case none: None
        then have "consumed rest = 0" using None by (simp add: consumed_def contents_def)
        moreover have "scanOversizedRecord sha256 bytes off 0 0 [] = None"
          using scan_spec [OF off, of 0 sha256 0 "[]"] none by (simp add: rest_def)
        then have "pollSession sha256 uuid clock sid cursor bytes = ret ()"
          unfolding poll using avail None by simp
        ultimately show ?thesis
          using session_effect_ret [of sid "()"]
          by (auto intro: session_effect_cong simp: pure records_at_no_newline pure_ret_def polled_cursor_def Let_def
              off_def [symmetric] rest_def [symmetric] avail)
      next
        case (Some i)
        have k: "consumed rest = i + 1" using None Some by (simp add: consumed_def contents_def)
        have nl: "newline \<notin> set contents" using None last_index_of_None_iff by blast
        have "MAX_READ_BYTES \<le> i"
        proof (rule ccontr)
          assume "\<not> MAX_READ_BYTES \<le> i"
          with index_of_Some [OF Some] have "newline \<in> set contents"
            unfolding contents_def by (metis in_set_conv_nth length_take min_less_iff_conj not_le nth_take)
          with nl show False by simp
        qed
        then have big: "MAX_INGESTION_RECORD_BYTES < i"
          by (simp add: MAX_READ_BYTES_def MAX_INGESTION_RECORD_BYTES_def)
        have i: "i < length rest" using index_of_Some [OF Some] by simp
        define line where "line = take i rest"
        have line: "rest = line @ newline # drop (Suc i) rest" "newline \<notin> set line" "length line = i"
          using index_of_split [OF Some] index_of_Some [OF Some] i by (simp_all add: line_def)
        have scan: "scanOversizedRecord sha256 bytes off 0 0 [] = Some \<lparr>scan_actualByteLength = i,
            scan_contentHash = sha256 line, scan_previewByteLength = min i MAX_MALFORMED_PREVIEW_BYTES,
            scan_recordEnd = off + i + 1\<rparr>"
          using scan_spec [OF off, of 0 sha256 0 "[]"] Some by (simp add: rest_def [symmetric] line_def)
        have records: "records_at off (take (Suc i) rest) = [(off, line)]"
        proof -
          have "take (Suc i) rest = line @ [newline]"
            by (subst line(1)) (simp add: line(3))
          then show ?thesis
            using records_at_line [OF line(2), of off "[]"] records_at_no_newline [of "[]"] line(3) big by auto
        qed
        let ?diag = "Some (directAppendDiagnosticId sha256 sid off (sha256 line))"
        let ?k = "\<lambda>result. if result = NotFound then ret () else writeCursor sid (off + i + 1)"
        let ?h = "\<lambda>result. if result = NotFound then pure_ret () else pure_cursor (off + i + 1)"
        have continue: "session_effect sid (?k result) (?h result)" for result
          by (simp add: writeCursor_effect safe session_effect_ret [of sid "()"])
        have "pollSession sha256 uuid clock sid cursor bytes =
            andThen (ingestOversizedRecord uuid (clock off) sid i ?diag (min i MAX_MALFORMED_PREVIEW_BYTES)) ?k"
          unfolding poll using avail None scan big i len by (simp cong del: if_weak_cong)
        with session_effect_andThen [where k = ?k and h = ?h, OF ingestOversizedRecord_effect [OF safe] continue]
        have "session_effect sid (pollSession sha256 uuid clock sid cursor bytes)
          (pure_then (pure_oversized uuid (clock off) i ?diag (min i MAX_MALFORMED_PREVIEW_BYTES)) ?h)"
          by simp
        then show ?thesis
        proof (rule session_effect_cong)
          fix n d
          have "pure_line sha256 uuid clock sid (off, line) =
              pure_oversized uuid (clock off) i ?diag (min i MAX_MALFORMED_PREVIEW_BYTES)"
            using big line(3) by (simp add: pure_line_def Let_def line_options_def directSourceContentHash_def)
          moreover have "pure_then (pure_oversized uuid (clock off) i ?diag (min i MAX_MALFORMED_PREVIEW_BYTES)) ?h n d
              = (case pure_oversized uuid (clock off) i ?diag (min i MAX_MALFORMED_PREVIEW_BYTES) n d of
                  (_, d', n') \<Rightarrow> pure_cursor (off + i + 1) n' d')"
            by (simp add: pure_oversized_def pure_then_def pure_ret_def split: prod.splits)
          ultimately show "pure_then (pure_oversized uuid (clock off) i ?diag (min i MAX_MALFORMED_PREVIEW_BYTES)) ?h n d
              = pure_poll sha256 uuid clock sid cursor bytes n d"
            by (simp add: pure records k pure_cursor_def polled_cursor_def Let_def
                off_def [symmetric] rest_def [symmetric] split: prod.splits)
        qed
      qed
    qed
  qed
qed

text \<open>The whole operation on a state with the session.\<close>

lemma processSession_reads:
  assumes "SAFE_ID sid" "directory_of s sid = Some d" "incoming_ndjson d = Some bytes"
    "cursor_value (cursor_json d) = Inr c"
  shows "processSession sha256 uuid clock sid s = pollSession sha256 uuid clock sid c bytes s"
proof -
  have "readCursor sid s = (Inr c, s)" using assms by (simp add: readCursor_def)
  moreover have "openIncoming sid s = (Inr bytes, s)"
    using assms by (simp add: openIncoming_def readDirectory_found)
  ultimately show ?thesis by (simp add: processSession_def)
qed

lemma draws_grow_line: "draws_grow (pure_line sha256 uuid clock sid x)"
  by (cases x) (simp add: pure_line_def Let_def draws_grow_record draws_grow_oversized)

lemma pure_lines_grow: "pure_lines sha256 uuid clock sid xs n d = (d', n') \<Longrightarrow> n \<le> n'"
proof (induction xs arbitrary: n d)
  case (Cons x xs)
  obtain r d1 n1 where 1: "pure_line sha256 uuid clock sid x n d = (r, d1, n1)" by (metis prod_cases3)
  from draws_grow_line [of sha256 uuid clock sid x] have "n \<le> n1"
    unfolding draws_grow_def using 1 by (metis snd_conv)
  with Cons 1 show ?case by fastforce
qed simp

lemma draws_grow_poll: "draws_grow (pure_poll sha256 uuid clock sid cursor bytes)"
  by (auto simp: draws_grow_def pure_poll_def split: prod.splits dest: pure_lines_grow)

lemma processSession_at:
  assumes inv: "store_inv rnd s" and dir: "directory_of s sid = Some d" "incoming_ndjson d = Some bytes"
    "cursor_value (cursor_json d) = Inr c"
    and lines: "pure_lines sha256 uuid clock sid (polled_records c bytes) (draws s) d = (d', n')"
  shows "fst (processSession sha256 uuid clock sid s) = Inr ()"
    "directory_of (snd (processSession sha256 uuid clock sid s)) sid =
       Some (d'\<lparr>cursor_json := polled_cursor c bytes (cursor_json d')\<rparr>)"
    "store_inv rnd (snd (processSession sha256 uuid clock sid s))"
    "\<And>sid'. sid' \<noteq> sid \<Longrightarrow> view (snd (processSession sha256 uuid clock sid s)) sid' = view s sid'"
    "draws (snd (processSession sha256 uuid clock sid s)) = n'"
proof -
  note safe = store_inv_session(1) [OF inv dir(1)]
  note reads = processSession_reads [OF safe dir, of sha256 uuid clock]
  have "pure_poll sha256 uuid clock sid c bytes (draws s) d =
      ((), d'\<lparr>cursor_json := polled_cursor c bytes (cursor_json d')\<rparr>, n')"
    by (simp add: pure_poll_def lines)
  from effect_at [OF inv dir(1) pollSession_effect [OF safe] draws_grow_poll this]
  show "fst (processSession sha256 uuid clock sid s) = Inr ()"
    "directory_of (snd (processSession sha256 uuid clock sid s)) sid =
       Some (d'\<lparr>cursor_json := polled_cursor c bytes (cursor_json d')\<rparr>)"
    "store_inv rnd (snd (processSession sha256 uuid clock sid s))"
    "\<And>sid'. sid' \<noteq> sid \<Longrightarrow> view (snd (processSession sha256 uuid clock sid s)) sid' = view s sid'"
    "draws (snd (processSession sha256 uuid clock sid s)) = n'"
    unfolding reads by auto
qed

lemma readCursor_state: "snd (readCursor sid s) = s"
  by (cases "SAFE_ID sid") (simp_all add: readCursor_def requireSafe_def)

lemma openIncoming_state: "snd (openIncoming sid s) = s"
  by (cases "SAFE_ID sid") (simp_all add: openIncoming_def readDirectory_def requireSafe_def)

lemma processSession_inv: "store_inv rnd s \<Longrightarrow> store_inv rnd (snd (processSession sha256 uuid clock sid s))"
proof (cases "directory_of s sid")
  case None
  assume inv: "store_inv rnd s"
  from None have "fst (openIncoming sid s) \<in> range Inl"
    by (cases "SAFE_ID sid") (auto simp: openIncoming_def readDirectory_def requireSafe_def)
  then obtain f where "openIncoming sid s = (Inl f, s)"
    using openIncoming_state [of sid s] by (metis imageE prod.collapse)
  moreover obtain r where "readCursor sid s = (r, s)"
    using readCursor_state [of sid s] by (metis prod.collapse)
  ultimately show ?thesis using inv by (cases r) (simp_all add: processSession_def)
next
  case (Some d)
  assume inv: "store_inv rnd s"
  note safe = store_inv_session(1) [OF inv Some]
  from store_inv_session(3) [OF inv Some] obtain bytes where bytes: "incoming_ndjson d = Some bytes"
    by (auto simp: dir_ok_def)
  show ?thesis
  proof (cases "cursor_value (cursor_json d)")
    case (Inl f)
    with Some safe have "readCursor sid s = (Inl f, s)" by (simp add: readCursor_def)
    with inv show ?thesis by (simp add: processSession_def)
  next
    case (Inr c)
    obtain d' n' where "pure_lines sha256 uuid clock sid (polled_records c bytes) (draws s) d = (d', n')"
      by (metis prod.exhaust)
    from processSession_at(3) [OF inv Some bytes Inr this] show ?thesis .
  qed
qed

section \<open>Replaying records\<close>

text \<open>
  A poll that was interrupted before it wrote the cursor sees the same records again. The
  identifiers derive from the session, the source offset and the content, so a record that
  was stored is recognised.
\<close>

definition event_line :: "string \<Rightarrow> bool" where
  "event_line line \<longleftrightarrow> length line \<le> MAX_INGESTION_RECORD_BYTES
     \<and> (case parse_json (utf8_decode line) of Some (JObj raw) \<Rightarrow> valid_event raw | _ \<Rightarrow> False)"

definition recorded :: "(string \<Rightarrow> string) \<Rightarrow> string \<Rightarrow> session_dir \<Rightarrow> nat \<times> string \<Rightarrow> bool" where
  "recorded sha256 sid d = (\<lambda>(offset, line).
     if event_line line then directAppendEventId sha256 sid offset (sha256 line) \<in> dir_event_ids d
     else directAppendDiagnosticId sha256 sid offset (sha256 line) \<in> dir_diagnostic_ids d)"

lemma dir_diagnostic_ids_log: "dir_diagnostic_ids (log_diagnostics ds d) = dir_diagnostic_ids d \<union> diagnosticId ` set ds"
  using new_diagnostics_ids [of "dir_diagnostic_ids d" ds] by (simp add: image_Un)

lemma log_diagnostics_known: "diagnosticId ` set ds \<subseteq> dir_diagnostic_ids d \<Longrightarrow> log_diagnostics ds d = d"
  by (simp add: log_diagnostics_def new_diagnostics_known with_diagnostics_def)

text \<open>One line, in the terms of what it stores.\<close>

lemma pure_line_diagnostic:
  assumes "\<not> event_line line"
  obtains r g n' where "pure_line sha256 uuid clock sid (off, line) n d = (r, log_diagnostics [g] d, n')"
    "diagnosticId g = directAppendDiagnosticId sha256 sid off (sha256 line)"
proof -
  let ?id = "directAppendDiagnosticId sha256 sid off (sha256 line)"
  have malformed: "\<exists>g n'. pure_malformed uuid now actual (Some ?id) preview n d = ((), log_diagnostics [g] d, n')
      \<and> diagnosticId g = ?id" for now actual preview
    by (auto simp: pure_malformed_def malformedIngestionDiagnostic_def id_or_random_def)
  show thesis
  proof (cases "MAX_INGESTION_RECORD_BYTES < length line")
    case True
    obtain g n' where "pure_malformed uuid (clock off) (length line) (Some ?id)
        (min (length line) MAX_MALFORMED_PREVIEW_BYTES) n d = ((), log_diagnostics [g] d, n')" "diagnosticId g = ?id"
      using malformed by blast
    with True show thesis
      by (intro that [of TooLarge g n'])
        (simp_all add: pure_line_def Let_def pure_oversized_def pure_then_def pure_ret_def line_options_def
          directSourceContentHash_def)
  next
    case False
    show thesis
    proof (cases "parse_json (utf8_decode line)")
      case None
      obtain g n' where "pure_malformed uuid (clock off) (length line) (Some ?id)
          (min (length line) MAX_MALFORMED_PREVIEW_BYTES) n d = ((), log_diagnostics [g] d, n')" "diagnosticId g = ?id"
        using malformed by blast
      with None False show thesis
        by (intro that [of Malformed g n']) (simp_all add: pure_line_def Let_def pure_record_def pure_then_def pure_ret_def line_options_def
            directSourceContentHash_def)
    next
      case (Some v)
      let ?opts = "line_options sha256 sid off line"
      define res where "res = fst (validation_of uuid (clock off) v ?opts n)"
      from Some False assms have "\<not> (\<exists>raw. v = JObj raw \<and> valid_event raw)" by (auto simp: event_line_def)
      then have none: "result_event res = None"
        unfolding res_def validation_of_def Let_def fst_conv using validate_event_iff by blast
      define ctx where "ctx = \<lparr>ctx_diagnosticId = opt_diagnosticId ?opts, ctx_eventId = opt_eventId ?opts,
        ctx_receivedAt = clock off, ctx_sequence = 0\<rparr>"
      have res: "res = validateAndNormalizeEvent (uuid n) (uuid (n + event_draws v ctx)) v ctx"
        by (simp add: res_def validation_of_def Let_def ctx_def)
      have id: "ctx_diagnosticId ctx = Some ?id"
        by (simp add: ctx_def line_options_def Let_def directSourceContentHash_def)
      from validate_rejected_diagnostics [OF none [unfolded res]] id
      obtain g where g: "result_diagnostics res = [g]" "diagnosticId g = ?id"
        by (auto simp: res id_or_random_def)
      have "pure_ingest uuid (clock off) v ?opts n d =
          (Invalid, log_diagnostics [g] d, snd (validation_of uuid (clock off) v ?opts n))"
        using none g unfolding res_def
        by (cases "validation_of uuid (clock off) v ?opts n") (simp add: pure_ingest_def outcome_def)
      with g(2) Some False show thesis
        by (intro that [of Invalid g "snd (validation_of uuid (clock off) v ?opts n)"])
          (simp_all add: pure_line_def Let_def pure_record_def line_options_def [unfolded Let_def])
    qed
  qed
qed

lemma pure_line_event:
  assumes "event_line line"
  obtains ev ds n' where "pure_line sha256 uuid clock sid (off, line) n d =
      (Accepted, if event_id ev \<in> dir_event_ids d then d
        else log_diagnostics ds (with_event (ev\<lparr>sequence := length (dir_events d) + 1\<rparr>) d), n')"
    "event_id ev = directAppendEventId sha256 sid off (sha256 line)"
proof -
  let ?opts = "line_options sha256 sid off line"
  from assms obtain raw where small: "length line \<le> MAX_INGESTION_RECORD_BYTES"
    and raw: "parse_json (utf8_decode line) = Some (JObj raw)" "valid_event raw"
    by (auto simp: event_line_def split: option.splits json.splits)
  obtain res n1 where v: "validation_of uuid (clock off) (JObj raw) ?opts n = (res, n1)" by (metis prod.exhaust)
  then have res_def: "res = fst (validation_of uuid (clock off) (JObj raw) ?opts n)" by simp
  have "result_event res \<noteq> None"
    unfolding res_def validation_of_def Let_def fst_conv using validate_event_iff raw(2) by blast
  then obtain ev where ev: "result_event res = Some ev" by auto
  have "event_id ev = directAppendEventId sha256 sid off (sha256 line)"
    using ev raw(2)
    by (auto simp: res_def validation_of_def Let_def validateAndNormalizeEvent_def normalized_event_def
        line_options_def id_or_random_def directSourceContentHash_def)
  moreover have "pure_ingest uuid (clock off) (JObj raw) ?opts n d =
      (Accepted, if event_id ev \<in> dir_event_ids d then d
        else log_diagnostics (result_diagnostics res) (with_event (ev\<lparr>sequence := length (dir_events d) + 1\<rparr>) d), n1)"
    using ev v by (simp add: pure_ingest_def outcome_def)
  ultimately show thesis
    using small raw(1)
    by (intro that [of ev "result_diagnostics res" n1])
      (simp_all add: pure_line_def Let_def pure_record_def line_options_def [unfolded Let_def])
qed

lemma pure_line_recorded: "pure_line sha256 uuid clock sid x n d = (r, d', n') \<Longrightarrow> recorded sha256 sid d' x"
proof (cases x)
  case (Pair off line)
  assume p: "pure_line sha256 uuid clock sid x n d = (r, d', n')"
  show ?thesis
  proof (cases "event_line line")
    case True
    obtain ev ds where
      d': "d' = (if event_id ev \<in> dir_event_ids d then d
        else log_diagnostics ds (with_event (ev\<lparr>sequence := length (dir_events d) + 1\<rparr>) d))"
      and ev: "event_id ev = directAppendEventId sha256 sid off (sha256 line)"
      by (rule pure_line_event [OF True, of sha256 uuid clock sid off n d]) (use p Pair in auto)
    from d' have "event_id ev \<in> dir_event_ids d'" by (cases "event_id ev \<in> dir_event_ids d") simp_all
    with ev Pair True show ?thesis by (simp add: recorded_def)
  next
    case False
    show ?thesis
      by (rule pure_line_diagnostic [OF False, of sha256 uuid clock sid off n d])
        (use p Pair False in \<open>auto simp: recorded_def dir_diagnostic_ids_log\<close>)
  qed
qed

lemma pure_line_replay:
  "recorded sha256 sid d x \<Longrightarrow> pure_line sha256 uuid clock sid x n d = (r, d', n') \<Longrightarrow> d' = d"
proof (cases x)
  case (Pair off line)
  assume r: "recorded sha256 sid d x" and p: "pure_line sha256 uuid clock sid x n d = (r, d', n')"
  show ?thesis
  proof (cases "event_line line")
    case True
    show ?thesis
      by (rule pure_line_event [OF True, of sha256 uuid clock sid off n d])
        (use p r Pair True in \<open>auto simp: recorded_def split: if_splits\<close>)
  next
    case False
    show ?thesis
      by (rule pure_line_diagnostic [OF False, of sha256 uuid clock sid off n d])
        (use p Pair False r in \<open>auto simp: recorded_def log_diagnostics_known\<close>)
  qed
qed

text \<open>The two logs only grow.\<close>

lemma pure_line_grows:
  assumes "pure_line sha256 uuid clock sid x n d = (r, d', n')"
  shows "(\<exists>es. dir_events d' = dir_events d @ es) \<and> (\<exists>gs. dir_diagnostics d' = dir_diagnostics d @ gs)"
proof (cases x)
  case (Pair off line)
  show ?thesis
  proof (cases "event_line line")
    case True
    show ?thesis
      by (rule pure_line_event [OF True, of sha256 uuid clock sid off n d])
        (use assms Pair in \<open>auto split: if_splits\<close>)
  next
    case False
    show ?thesis
      by (rule pure_line_diagnostic [OF False, of sha256 uuid clock sid off n d]) (use assms Pair in auto)
  qed
qed

lemma recorded_grows:
  assumes "recorded sha256 sid d y" "dir_events d' = dir_events d @ es" "dir_diagnostics d' = dir_diagnostics d @ gs"
  shows "recorded sha256 sid d' y"
  using assms by (auto simp: recorded_def split: prod.splits if_splits)

lemma pure_lines_grows:
  assumes "pure_lines sha256 uuid clock sid xs n d = (d', n')"
  shows "(\<exists>es. dir_events d' = dir_events d @ es) \<and> (\<exists>gs. dir_diagnostics d' = dir_diagnostics d @ gs)"
  using assms
proof (induction xs arbitrary: n d)
  case (Cons x xs)
  obtain r d1 n1 where 1: "pure_line sha256 uuid clock sid x n d = (r, d1, n1)" by (metis prod_cases3)
  with Cons.prems have "pure_lines sha256 uuid clock sid xs n1 d1 = (d', n')" by simp
  from Cons.IH [OF this] pure_line_grows [OF 1] show ?case by auto
qed simp

lemma pure_lines_recorded:
  assumes "pure_lines sha256 uuid clock sid xs n d = (d', n')" "x \<in> set xs \<or> recorded sha256 sid d x"
  shows "recorded sha256 sid d' x"
  using assms
proof (induction xs arbitrary: n d)
  case (Cons y ys)
  obtain r d1 n1 where 1: "pure_line sha256 uuid clock sid y n d = (r, d1, n1)" by (metis prod_cases3)
  with Cons.prems(1) have 2: "pure_lines sha256 uuid clock sid ys n1 d1 = (d', n')" by simp
  from pure_line_grows [OF 1] obtain es gs where "dir_events d1 = dir_events d @ es"
    "dir_diagnostics d1 = dir_diagnostics d @ gs" by blast
  from recorded_grows [OF _ this, of sha256 sid x] Cons.prems(2) pure_line_recorded [OF 1]
  have "x \<in> set ys \<or> recorded sha256 sid d1 x" by (cases "x = y") auto
  with Cons.IH [OF 2] show ?case .
qed simp

lemma pure_lines_replay:
  assumes "\<And>x. x \<in> set xs \<Longrightarrow> recorded sha256 sid d x"
  shows "fst (pure_lines sha256 uuid clock sid xs n d) = d"
  using assms
proof (induction xs arbitrary: n)
  case (Cons x xs)
  obtain r d1 n1 where 1: "pure_line sha256 uuid clock sid x n d = (r, d1, n1)" by (metis prod_cases3)
  from pure_line_replay [OF _ 1] Cons.prems have "d1 = d" by simp
  with 1 Cons show ?case by simp
qed simp

section \<open>Many polls\<close>

text \<open>The cursor document plays no part in what a line does.\<close>

lemma log_diagnostics_cursor:
  "log_diagnostics ds (d\<lparr>cursor_json := j\<rparr>) = (log_diagnostics ds d)\<lparr>cursor_json := j\<rparr>"
  by (cases d) (simp add: log_diagnostics_def with_diagnostics_def)

lemma with_event_cursor: "with_event ev (d\<lparr>cursor_json := j\<rparr>) = (with_event ev d)\<lparr>cursor_json := j\<rparr>"
  by (cases d) (simp add: with_event_def)

lemma outcome_cursor:
  "outcome res (d\<lparr>cursor_json := j\<rparr>) = (fst (outcome res d), (snd (outcome res d))\<lparr>cursor_json := j\<rparr>)"
  by (simp add: outcome_def log_diagnostics_cursor with_event_cursor split: option.splits)

definition with_cursor :: "json document \<Rightarrow> 'a \<times> session_dir \<times> nat \<Rightarrow> 'a \<times> session_dir \<times> nat" where
  "with_cursor j out = (case out of (r, d, n) \<Rightarrow> (r, d\<lparr>cursor_json := j\<rparr>, n))"

lemma pure_line_cursor:
  "pure_line sha256 uuid clock sid x n (d\<lparr>cursor_json := j\<rparr>) = with_cursor j (pure_line sha256 uuid clock sid x n d)"
  by (cases x) (auto simp: pure_line_def Let_def pure_oversized_def pure_record_def pure_then_def pure_ret_def
      pure_malformed_def pure_ingest_def outcome_cursor log_diagnostics_cursor with_cursor_def
      split: option.splits prod.splits)

lemma pure_lines_cursor:
  "pure_lines sha256 uuid clock sid xs n d = (d', n') \<Longrightarrow>
     pure_lines sha256 uuid clock sid xs n (d\<lparr>cursor_json := j\<rparr>) = (d'\<lparr>cursor_json := j\<rparr>, n')"
proof (induction xs arbitrary: n d)
  case (Cons x xs)
  obtain r d1 n1 where 1: "pure_line sha256 uuid clock sid x n d = (r, d1, n1)" by (metis prod_cases3)
  with Cons.prems have "pure_lines sha256 uuid clock sid xs n1 d1 = (d', n')" by simp
  from Cons.IH [OF this] 1 show ?case by (simp add: pure_line_cursor with_cursor_def)
qed simp

definition poll_once ::
  "(string \<Rightarrow> string) \<Rightarrow> (nat \<Rightarrow> string) \<Rightarrow> (nat \<Rightarrow> int) \<Rightarrow> string \<Rightarrow> daemon \<Rightarrow> daemon" where
  "poll_once sha256 uuid clock sid s = snd (processSession sha256 uuid clock sid s)"

text \<open>
  After \<open>k\<close> polls a prefix of \<open>K\<close> unread bytes has been ingested: all complete lines, or at
  least \<open>k\<close> bytes.
\<close>

lemma polls_prefix:
  assumes inv: "store_inv rnd s" and dir: "directory_of s sid = Some d" "incoming_ndjson d = Some bytes"
    "cursor_value (cursor_json d) = Inr c" and size: "length bytes \<le> max_safe_integer"
  defines "off \<equiv> effective_offset c bytes"
  defines "rest \<equiv> drop off bytes"
  shows "\<exists>K d' j c'. K \<le> length rest \<and> complete_lines (take K rest)
    \<and> (newline \<in> set (drop K rest) \<longrightarrow> k \<le> K)
    \<and> pure_lines sha256 uuid clock sid (records_at off (take K rest)) (draws s) d =
        (d', draws ((poll_once sha256 uuid clock sid ^^ k) s))
    \<and> directory_of ((poll_once sha256 uuid clock sid ^^ k) s) sid = Some (d'\<lparr>cursor_json := j\<rparr>)
    \<and> cursor_value j = Inr c' \<and> effective_offset c' bytes = off + K
    \<and> store_inv rnd ((poll_once sha256 uuid clock sid ^^ k) s)"
proof (induction k)
  case 0
  show ?case
    by (intro exI [of _ 0] exI [of _ d] exI [of _ "cursor_json d"] exI [of _ c])
      (simp add: dir inv complete_lines_def records_at_no_newline off_def)
next
  case (Suc k)
  let ?t = "(poll_once sha256 uuid clock sid ^^ k) s"
  from Suc obtain K d' j c' where K: "K \<le> length rest" "complete_lines (take K rest)"
      "newline \<in> set (drop K rest) \<longrightarrow> k \<le> K"
    and lines: "pure_lines sha256 uuid clock sid (records_at off (take K rest)) (draws s) d = (d', draws ?t)"
    and dir_t: "directory_of ?t sid = Some (d'\<lparr>cursor_json := j\<rparr>)"
    and cur: "cursor_value j = Inr c'" "effective_offset c' bytes = off + K"
    and inv_t: "store_inv rnd ?t" by blast
  have off: "off \<le> length bytes" by (simp add: off_def effective_offset_def)
  define rest' where "rest' = drop K rest"
  have rest': "drop (effective_offset c' bytes) bytes = rest'"
    by (simp add: rest'_def rest_def cur(2) add.commute)
  define k' where "k' = consumed rest'"
  have inc: "incoming_ndjson (d'\<lparr>cursor_json := j\<rparr>) = Some bytes"
    using pure_lines_fields [OF lines] dir(2) by simp
  have records: "polled_records c' bytes = records_at (off + K) (take k' rest')"
    by (simp only: polled_records_def Let_def rest' k'_def) (simp only: cur(2))
  obtain d2 n2 where lines2: "pure_lines sha256 uuid clock sid (records_at (off + K) (take k' rest')) (draws ?t) d' = (d2, n2)"
    by (metis prod.exhaust)
  from pure_lines_cursor [OF this, of j]
  have polled: "pure_lines sha256 uuid clock sid (polled_records c' bytes) (draws ?t) (d'\<lparr>cursor_json := j\<rparr>)
      = (d2\<lparr>cursor_json := j\<rparr>, n2)" by (simp add: records)
  have cur': "cursor_value (cursor_json (d'\<lparr>cursor_json := j\<rparr>)) = Inr c'" by (simp add: cur(1))
  note step = processSession_at [OF inv_t dir_t inc cur' polled]
  have k'_le: "K + k' \<le> length rest"
    using consumed_le [of rest'] K(1) by (simp add: k'_def rest'_def)
  have take_add: "take (K + k') rest = take K rest @ take k' rest'" by (simp add: rest'_def take_add)
  have c2: "complete_lines (take k' rest')" unfolding k'_def by (rule consumed_complete)
  have complete: "complete_lines (take (K + k') rest)"
    using K(2) c2 unfolding take_add complete_lines_def by (auto simp: last_append)
  have all: "pure_lines sha256 uuid clock sid (records_at off (take (K + k') rest)) (draws s) d = (d2, n2)"
    unfolding take_add records_at_append [OF K(2)] pure_lines_append
    using lines lines2 K(1) by (simp add: min_def)
  have more: "newline \<in> set (drop (K + k') rest) \<longrightarrow> Suc k \<le> K + k'"
  proof
    assume "newline \<in> set (drop (K + k') rest)"
    then have "newline \<in> set (drop k' rest')" by (simp add: rest'_def add.commute)
    then have in': "newline \<in> set rest'" by (meson in_set_dropD)
    with consumed_0_iff [of rest'] have "0 < k'" unfolding k'_def by auto
    moreover from in' K(3) have "k \<le> K" by (simp add: rest'_def)
    ultimately show "Suc k \<le> K + k'" by simp
  qed
  define j' where "j' = polled_cursor c' bytes j"
  have j': "j' = (if 0 < k' \<or> off + K = length bytes \<and> off + K \<noteq> c'
      then Doc (cursor_document (off + K + k')) else j)"
    unfolding j'_def polled_cursor_def Let_def rest' k'_def [symmetric] unfolding cur(2) ..
  have "off + K + k' \<le> length bytes" using k'_le off by (simp add: rest_def)
  have cursor: "\<exists>c''. cursor_value j' = Inr c'' \<and> effective_offset c'' bytes = off + (K + k')"
  proof (cases "0 < k' \<or> off + K = length bytes \<and> off + K \<noteq> c'")
    case True
    then have "j' = Doc (cursor_document (off + K + k'))"
      by (simp add: j')
    with \<open>off + K + k' \<le> length bytes\<close> size show ?thesis
      by (simp add: cursor_value_document effective_offset_def add.assoc)
  next
    case False
    then have "k' = 0" by simp
    moreover from False have "j' = j" unfolding j' by (simp only: if_False)
    moreover note cur
    ultimately show ?thesis by simp
  qed
  have cj: "cursor_json (d2\<lparr>cursor_json := j\<rparr>) = j" by simp
  define u where "u = (poll_once sha256 uuid clock sid ^^ Suc k) s"
  have "u = snd (processSession sha256 uuid clock sid ?t)" by (simp add: u_def poll_once_def)
  with step have u: "directory_of u sid = Some (d2\<lparr>cursor_json := j'\<rparr>)" "store_inv rnd u" "draws u = n2"
    by (simp_all add: j'_def)
  from cursor obtain c'' where "cursor_value j' = Inr c''" "effective_offset c'' bytes = off + (K + k')" by blast
  with u k'_le complete more all show ?case
    unfolding u_def [symmetric]
    by (intro exI [of _ "K + k'"] exI [of _ d2] exI [of _ j'] exI [of _ c'']) simp
qed

lemma polls_drain:
  assumes "store_inv rnd s" "directory_of s sid = Some d" "incoming_ndjson d = Some bytes"
    "cursor_value (cursor_json d) = Inr c" "length bytes \<le> max_safe_integer"
  defines "off \<equiv> effective_offset c bytes"
  shows "\<exists>j. directory_of ((poll_once sha256 uuid clock sid ^^ Suc (length bytes - off)) s) sid =
    Some ((fst (pure_lines sha256 uuid clock sid (records_at off (drop off bytes)) (draws s) d))\<lparr>cursor_json := j\<rparr>)"
proof -
  define rest where "rest = drop off bytes"
  define k where "k = Suc (length bytes - off)"
  from polls_prefix [OF assms(1-5), of k sha256 uuid clock, folded off_def, folded rest_def]
  obtain K d' j where K: "K \<le> length rest" "complete_lines (take K rest)" "newline \<in> set (drop K rest) \<longrightarrow> k \<le> K"
    and lines: "fst (pure_lines sha256 uuid clock sid (records_at off (take K rest)) (draws s) d) = d'"
    and dir: "directory_of ((poll_once sha256 uuid clock sid ^^ k) s) sid = Some (d'\<lparr>cursor_json := j\<rparr>)"
    by (metis fst_conv)
  from K(1,3) have "newline \<notin> set (drop K rest)" by (auto simp: rest_def k_def)
  then have "records_at off rest = records_at off (take K rest)"
    using records_at_append [OF K(2), of off "drop K rest"] by (simp add: records_at_no_newline)
  with lines dir show ?thesis unfolding k_def [symmetric] rest_def [symmetric] by auto
qed

lemma poll_forward:
  assumes "store_inv rnd s" "directory_of s sid = Some d" "incoming_ndjson d = Some bytes"
    "cursor_value (cursor_json d) = Inr c" "length bytes \<le> max_safe_integer"
  defines "off \<equiv> effective_offset c bytes"
  shows "\<exists>d' c'. directory_of (poll_once sha256 uuid clock sid s) sid = Some d'
    \<and> incoming_ndjson d' = Some bytes \<and> cursor_value (cursor_json d') = Inr c'
    \<and> off \<le> effective_offset c' bytes \<and> effective_offset c' bytes \<le> length bytes
    \<and> (newline \<in> set (drop off bytes) \<longrightarrow> off < effective_offset c' bytes
         \<and> bytes ! (effective_offset c' bytes - 1) = newline)"
proof -
  define rest where "rest = drop off bytes"
  from polls_prefix [OF assms(1-5), of 1 sha256 uuid clock, folded off_def, folded rest_def]
  obtain K d' j c' n' where K: "K \<le> length rest" "complete_lines (take K rest)" "newline \<in> set (drop K rest) \<longrightarrow> 1 \<le> K"
    and lines: "pure_lines sha256 uuid clock sid (records_at off (take K rest)) (draws s) d = (d', n')"
    and dir: "directory_of (poll_once sha256 uuid clock sid s) sid = Some (d'\<lparr>cursor_json := j\<rparr>)"
    and cur: "cursor_value j = Inr c'" "effective_offset c' bytes = off + K" by auto
  have off: "off \<le> length bytes" by (simp add: off_def effective_offset_def)
  have more: "0 < K \<and> bytes ! (off + K - 1) = newline" if "newline \<in> set rest"
  proof -
    have "0 < K" using K(3) that by (cases K) auto
    moreover have "take K rest \<noteq> []" using \<open>0 < K\<close> that by auto
    with K(2) have "last (take K rest) = newline" by (simp add: complete_lines_def)
    ultimately have "rest ! (K - 1) = newline" using K(1) \<open>take K rest \<noteq> []\<close> by (simp add: last_conv_nth min_absorb2)
    then show ?thesis using \<open>0 < K\<close> off K(1) by (simp add: rest_def)
  qed
  have "off + K \<le> length bytes" using K(1) off by (simp add: rest_def)
  with more dir cur pure_lines_fields [OF lines] assms(3) show ?thesis
    unfolding rest_def [symmetric]
    by (intro exI [of _ "d'\<lparr>cursor_json := j\<rparr>"] exI [of _ c']) auto
qed

lemma replay_after_crash:
  fixes sha256 uuid clock sid
  assumes inv: "store_inv rnd s" and dir: "directory_of s sid = Some d" "incoming_ndjson d = Some bytes"
    "cursor_value (cursor_json d) = Inr c"
  defines "t \<equiv> snd (processSession sha256 uuid clock sid s)"
  defines "crashed \<equiv> restarted (put_directory sid ((the (directory_of t sid))\<lparr>cursor_json := cursor_json d\<rparr>) t)"
  shows "directory_of (snd (processSession sha256 uuid' clock' sid crashed)) sid = directory_of t sid"
proof -
  let ?xs = "polled_records c bytes"
  obtain d1 n1 where lines: "pure_lines sha256 uuid clock sid ?xs (draws s) d = (d1, n1)"
    by (metis prod.exhaust)
  note first = processSession_at [OF inv dir lines, folded t_def]
  from pure_lines_fields [OF lines] dir(2) have keep: "cursor_json d1 = cursor_json d" "incoming_ndjson d1 = Some bytes"
    by simp_all
  define d2 where "d2 = d1\<lparr>cursor_json := cursor_json d\<rparr>"
  have crashed: "crashed = restarted (put_directory sid d2 t)"
    unfolding crashed_def first(2) by (simp add: d2_def)
  have "put_directory sid d2 t = with_view sid d2 (event_ids t sid) (diagnostic_ids t sid) (sequence_values t sid) t"
    by (cases t) (simp add: put_directory_def with_view_def)
  moreover from store_inv_session(3) [OF first(3,2)]
  have "view_ok sid (Some d2, event_ids t sid, diagnostic_ids t sid, sequence_values t sid)"
    by (simp add: d2_def dir_ok_def)
  ultimately have "store_inv rnd (put_directory sid d2 t)"
    using store_inv_with_view [OF first(3,2)] by simp
  then have inv2: "store_inv rnd crashed" unfolding crashed by (rule restarted_inv)
  have dir2: "directory_of crashed sid = Some d2"
    unfolding crashed by (simp add: restarted_def directory_of_def put_directory_def update_conv')
  have recorded: "recorded sha256 sid d2 x" if "x \<in> set ?xs" for x
    using pure_lines_recorded [OF lines] that by (auto simp: recorded_def d2_def split: prod.splits)
  have fields: "incoming_ndjson d2 = Some bytes" "cursor_value (cursor_json d2) = Inr c"
    using keep dir(3) by (simp_all add: d2_def)
  obtain d3 n3 where lines2: "pure_lines sha256 uuid' clock' sid ?xs (draws crashed) d2 = (d3, n3)"
    by (metis prod.exhaust)
  with pure_lines_replay [OF recorded, of ?xs uuid' clock' "draws crashed"] have "d3 = d2" by simp
  with processSession_at(2) [OF inv2 dir2 fields lines2] first(2) keep show ?thesis
    by (simp add: d2_def)
qed

section \<open>Records that are refused\<close>

lemma pure_record_rejects:
  assumes p: "pure_record uuid now rec opts n d = (r, d', n')"
    and bad: "\<not> (\<exists>raw. parse_json rec = Some (JObj raw) \<and> valid_event raw)"
    and "byte_length rec \<le> MAX_INGESTION_RECORD_BYTES"
    and "opt_actualByteLength opts = None" "opt_diagnosticId opts = Some i"
  shows "r = (if parse_json rec = None then Malformed else Invalid)
    \<and> (\<exists>g. d' = log_diagnostics [g] d \<and> diagnosticId g = i
        \<and> reason g = (if parse_json rec = None then INVALID_JSON else INVALID_SCHEMA))"
proof (cases "parse_json rec")
  case None
  with assms show ?thesis
    by (auto simp: pure_record_def Let_def ingestionRecordByteLength_def pure_then_def pure_ret_def
        pure_malformed_def malformedIngestionDiagnostic_def id_or_random_def)
next
  case (Some v)
  define res where "res = fst (validation_of uuid now v opts n)"
  define ctx where "ctx = \<lparr>ctx_diagnosticId = opt_diagnosticId opts, ctx_eventId = opt_eventId opts,
    ctx_receivedAt = now, ctx_sequence = 0\<rparr>"
  have res: "res = validateAndNormalizeEvent (uuid n) (uuid (n + event_draws v ctx)) v ctx"
    by (simp add: res_def validation_of_def Let_def ctx_def)
  from bad Some have "\<not> (\<exists>raw. v = JObj raw \<and> valid_event raw)" by simp
  then have none: "result_event res = None" unfolding res using validate_event_iff by blast
  from validate_rejected_diagnostics [OF none [unfolded res]] assms(5)
  obtain g where g: "result_diagnostics res = [g]" "diagnosticId g = i" "reason g = INVALID_SCHEMA"
    by (auto simp: res ctx_def id_or_random_def)
  have "pure_ingest uuid now v opts n d = (Invalid, log_diagnostics [g] d, snd (validation_of uuid now v opts n))"
    using none g(1) unfolding res_def
    by (cases "validation_of uuid now v opts n") (simp add: pure_ingest_def outcome_def)
  with p Some assms(3,4) g show ?thesis
    by (auto simp: pure_record_def Let_def ingestionRecordByteLength_def)
qed

end
