(* ===== verification/Daemon.thy ===== *)
theory Daemon
  imports Observer_Facts
begin

text \<open>
  The daemon as a transition system: every operation that changes the evidence of a session,
  the probes that append to \<open>incoming.ndjson\<close> from outside, a restart of the process, and a
  crash in the middle of an ingestion. The invariant of the store holds in every reachable
  state.
\<close>

text \<open>A probe appends bytes to the file it was given.\<close>

definition probeAppend :: "string \<Rightarrow> string \<Rightarrow> daemon \<Rightarrow> daemon" where
  "probeAppend sid bytes s =
     (case directory_of s sid of
        None \<Rightarrow> s
      | Some d \<Rightarrow> put_directory sid (d\<lparr>incoming_ndjson := Some ((case incoming_ndjson d of None \<Rightarrow> []
            | Some old \<Rightarrow> old) @ bytes)\<rparr>) s)"

text \<open>The process dies after the event reached the file and before the diagnostics did.\<close>

definition crashAfterEvent :: "string \<Rightarrow> event \<Rightarrow> daemon \<Rightarrow> daemon" where
  "crashAfterEvent sid ev s =
     restarted (snd (andThen (nextSequence sid) (\<lambda>n. appendEvent sid (ev\<lparr>sequence := n\<rparr>)) s))"

text \<open>
  \<open>uuid\<close> is the source of random identifiers. A new session is created when the identifier it
  draws was not drawn before, which is what \<open>randomUUID()\<close> guarantees in practice, and is of the
  form the paths accept.
\<close>

inductive daemon_step :: "(nat \<Rightarrow> string) \<Rightarrow> (string \<Rightarrow> string) \<Rightarrow> daemon \<Rightarrow> daemon \<Rightarrow> bool"
  for uuid :: "nat \<Rightarrow> string" and sha256 :: "string \<Rightarrow> string" where
  create: "uuid (draws s + 1) \<notin> uuid ` {..<draws s} \<Longrightarrow> SAFE_ID (uuid (draws s + 1)) \<Longrightarrow>
     daemon_step uuid sha256 s (snd (createSession uuid now s))"
| reset: "daemon_step uuid sha256 s (snd (resetSession uuid sid s))"
| remove: "daemon_step uuid sha256 s (snd (removeSession sid s))"
| ingested: "daemon_step uuid sha256 s (snd (ingestRecord uuid now sid rec opts s))"
| oversized: "daemon_step uuid sha256 s (snd (ingestOversizedRecord uuid now sid actual diagId preview s))"
| observe: "daemon_step uuid sha256 s (snd (processSession sha256 uuid clock sid s))"
| probe: "daemon_step uuid sha256 s (probeAppend sid bytes s)"
| restart: "daemon_step uuid sha256 s (restarted s)"
| crash: "result_event (validateAndNormalizeEvent u w value ctx) = Some ev \<Longrightarrow>
     daemon_step uuid sha256 s (crashAfterEvent sid ev s)"

lemma probeAppend_inv: "store_inv uuid s \<Longrightarrow> store_inv uuid (probeAppend sid bytes s)"
proof (cases "directory_of s sid")
  case (Some d)
  assume inv: "store_inv uuid s"
  define d' where "d' = d\<lparr>incoming_ndjson := Some ((case incoming_ndjson d of None \<Rightarrow> []
            | Some old \<Rightarrow> old) @ bytes)\<rparr>"
  let ?e = "event_ids s sid" and ?g = "diagnostic_ids s sid" and ?q = "sequence_values s sid"
  have "probeAppend sid bytes s = put_directory sid d' (with_view sid d ?e ?g ?q s)"
    using Some by (simp add: probeAppend_def d'_def with_view_same)
  moreover have "view_ok sid (Some d', ?e, ?g, ?q)"
    using store_inv_session(3) [OF inv Some] by (simp add: dir_ok_def d'_def)
  ultimately show ?thesis using store_inv_with_view [OF inv Some] by simp
qed (simp add: probeAppend_def)

lemma append_state_unchanged:
  assumes "directory_of s sid = None"
  shows "restarted (snd (andThen (nextSequence sid) (\<lambda>n. appendEvent sid (ev\<lparr>sequence := n\<rparr>)) s)) = restarted s"
proof -
  have known: "restarted (snd (knownEventIds sid t)) = restarted t \<and> directory_of (snd (knownEventIds sid t)) sid = None"
    if "directory_of t sid = None" for t
    using that by (auto simp: knownEventIds_def readEventFile_def readDirectory_def requireSafe_def split: option.splits)
  have app: "restarted (snd (appendEvent sid e t)) = restarted t" if "directory_of t sid = None" for e t
  proof -
    obtain r u where u: "knownEventIds sid t = (r, u)" by (metis prod.exhaust)
    with known [OF that] have "restarted u = restarted t" "directory_of u sid = None" by auto
    with u show ?thesis
      by (cases r) (auto simp: appendEvent_def changeDirectory_def requireSafe_def restarted_def)
  qed
  show ?thesis
  proof (cases "sequence_values s sid")
    case None
    obtain f where "readEvents sid s = (Inl f, s)"
      using assms by (cases "SAFE_ID sid") (auto simp: readEvents_def readEventFile_def readDirectory_def requireSafe_def)
    with None have "nextSequence sid s = (Inl f, s)" by (simp add: nextSequence_def)
    then show ?thesis by simp
  next
    case (Some n)
    define t where "t = sequence_values_update (\<lambda>m. m(sid \<mapsto> n + 1)) s"
    have "nextSequence sid s = (Inr (n + 1), t)" using Some by (simp add: nextSequence_def t_def)
    moreover have "directory_of t sid = None" using assms by (simp add: t_def)
    moreover have "restarted t = restarted s" by (simp add: t_def restarted_def)
    ultimately show ?thesis using app by simp
  qed
qed

lemma crashAfterEvent_inv:
  assumes "store_inv uuid s" and ev: "event_ok ev"
  shows "store_inv uuid (crashAfterEvent sid ev s)"
  using assms(1)
proof (cases rule: store_inv_cases [of uuid s sid])
  case none
  show ?thesis
    unfolding crashAfterEvent_def append_state_unchanged [OF none] using assms(1) by (rule restarted_inv)
next
  case (some d e g q)
  let ?w = "with_view sid"
  define n where "n = length (dir_events d) + 1"
  have files: "intact (events_ndjson d)" "map sequence (dir_events d) = [1..<length (dir_events d) + 1]"
    using some(4) by (auto simp: dir_ok_def)
  have nxt: "nextSequence sid (?w d e g q s) = (Inr n, ?w d e g (Some n) s)"
    unfolding n_def by (rule nextSequence_view [OF some(3) files some(7)])
  have app: "appendEvent sid (ev\<lparr>sequence := n\<rparr>) (?w d e g (Some n) s) =
    (if event_id ev \<in> dir_event_ids d
     then (Inr False, ?w d (Some (dir_event_ids d)) g (Some n) s)
     else (Inr True, ?w (with_event (ev\<lparr>sequence := n\<rparr>) d)
             (Some (dir_event_ids (with_event (ev\<lparr>sequence := n\<rparr>) d))) g (Some n) s))"
    using appendEvent_view [OF some(3) files(1) some(5), of "ev\<lparr>sequence := n\<rparr>" g "Some n" s] by simp
  define d' where "d' = (if event_id ev \<in> dir_event_ids d then d else with_event (ev\<lparr>sequence := n\<rparr>) d)"
  have state: "crashAfterEvent sid ev s = restarted (?w d' (Some (dir_event_ids d')) g (Some n) s)"
    unfolding crashAfterEvent_def by (subst some(1)) (simp add: nxt app d'_def)
  have "dir_ok sid d'"
    using some(4) dir_ok_event [OF some(4), of "ev\<lparr>sequence := n\<rparr>"] ev by (simp add: d'_def n_def)
  then have "store_inv uuid (?w d' None None None s)"
    using store_inv_with_view [OF assms(1) some(2), of d' None None None] by simp
  then have "store_inv uuid (restarted (?w d' None None None s))" by (rule restarted_inv)
  moreover have "restarted (?w d' None None None s) = crashAfterEvent sid ev s"
    unfolding state by (simp add: restarted_def with_view_def)
  ultimately show ?thesis by simp
qed

interpretation daemon_system:
  transition_system "\<lambda>s. s = initial_daemon" "daemon_step uuid sha256" "store_inv uuid" for uuid sha256
proof
  fix s
  assume "s = initial_daemon"
  then show "store_inv uuid s" by (simp add: store_inv_initial)
next
  fix s t
  assume inv: "store_inv uuid s" and step: "daemon_step uuid sha256 s t"
  from step show "store_inv uuid t"
  proof cases
    case (create now)
    then show ?thesis using inv by (simp add: createSession_inv)
  next
    case (observe clock sid)
    then show ?thesis using inv by (simp add: processSession_inv)
  next
    case crash
    then show ?thesis using inv by (simp add: crashAfterEvent_inv validate_event_ok)
  qed (use inv in \<open>simp_all add: resetSession_inv removeSession_inv ingestRecord_inv
      ingestOversizedRecord_inv probeAppend_inv restarted_inv\<close>)
qed

inductive_cases daemon_step_cases: "daemon_step uuid sha256 s t"

end
