(* ===== verification/Paging.thy ===== *)
theory Paging
  imports Ingest_Facts
begin

text \<open>
  Reading a page of a session's events in time order (\<open>readPage\<close> and its helpers,
  \<open>src/daemon/event-store.ts\<close>): an external merge sort that writes sorted chunks, merges them in
  groups of 32 until at most 32 are left, and merges those up to the end of the page.

  A temporary file is the list of its events. \<open>collate\<close> stands for \<open>String.prototype.localeCompare\<close>.
  The hooks of the sorted readers are for tests and are absent.
\<close>

section \<open>The order\<close>

text \<open>The sign of \<open>left - right\<close>; 0 also for \<open>NaN\<close>, which is falsy as well.\<close>

fun sub_sign :: "jsnum \<Rightarrow> jsnum \<Rightarrow> int" where
  "sub_sign (Dec m e) (Dec m' e') =
     sgn (m * 10 ^ nat (e - min e e') - m' * 10 ^ nat (e' - min e e'))"
| "sub_sign (Inf a) (Inf b) = (if a = b then 0 else if a then -1 else 1)"
| "sub_sign (Inf a) (Dec m e) = (if a then -1 else 1)"
| "sub_sign (Dec m e) (Inf b) = (if b then 1 else -1)"
| "sub_sign _ _ = 0"

definition compareEvents :: "(string \<Rightarrow> string \<Rightarrow> int) \<Rightarrow> event \<Rightarrow> event \<Rightarrow> int" where
  "compareEvents collate left right =
     (let t = sub_sign (timestamp left) (timestamp right);
          q = int (sequence left) - int (sequence right)
      in if t \<noteq> 0 then t else if q \<noteq> 0 then q else collate (event_id left) (event_id right))"

section \<open>Sorted runs\<close>

text \<open>\<open>Array.prototype.sort\<close>, which is stable.\<close>

fun insert_by :: "('a \<Rightarrow> 'a \<Rightarrow> int) \<Rightarrow> 'a \<Rightarrow> 'a list \<Rightarrow> 'a list" where
  "insert_by cmp x [] = [x]"
| "insert_by cmp x (y # ys) = (if cmp x y \<le> 0 then x # y # ys else y # insert_by cmp x ys)"

definition sort_by :: "('a \<Rightarrow> 'a \<Rightarrow> int) \<Rightarrow> 'a list \<Rightarrow> 'a list" where
  "sort_by cmp xs = foldr (insert_by cmp) xs []"

text \<open>
  The open readers, each with the records it has not yielded. \<open>nextReader\<close> takes the first
  reader unless a later one is strictly smaller.
\<close>

definition better :: "('a \<Rightarrow> 'a \<Rightarrow> int) \<Rightarrow> 'a list list \<Rightarrow> nat option \<Rightarrow> nat \<Rightarrow> nat option" where
  "better cmp readers selected i =
     (case readers ! i of
        [] \<Rightarrow> selected
      | x # _ \<Rightarrow>
          (case selected of
             None \<Rightarrow> Some i
           | Some j \<Rightarrow> if cmp x (hd (readers ! j)) < 0 then Some i else selected))"

definition nextReader :: "('a \<Rightarrow> 'a \<Rightarrow> int) \<Rightarrow> 'a list list \<Rightarrow> nat option" where
  "nextReader cmp readers = foldl (better cmp readers) None [0..<length readers]"

definition advance :: "'a list list \<Rightarrow> nat \<Rightarrow> 'a list list" where
  "advance readers i = readers[i := tl (readers ! i)]"

lemma nextReader_fold:
  assumes "foldl (better cmp readers) None [0..<n] = Some i" "n \<le> length readers"
  shows "i < n \<and> readers ! i \<noteq> []"
  using assms
proof (induction n arbitrary: i)
  case (Suc n)
  then have IH: "foldl (better cmp readers) None [0..<n] = Some j \<Longrightarrow> j < n \<and> readers ! j \<noteq> []" for j by simp
  have "better cmp readers (foldl (better cmp readers) None [0..<n]) n = Some i" using Suc.prems by simp
  then show ?case
    using IH by (auto simp: better_def less_Suc_eq split: list.splits option.splits if_splits)
qed simp

lemma nextReader_Some: "nextReader cmp readers = Some i \<Longrightarrow> i < length readers \<and> readers ! i \<noteq> []"
  unfolding nextReader_def by (rule nextReader_fold) simp_all

lemma advance_shorter:
  assumes "nextReader cmp readers = Some i"
  shows "sum_list (map length (advance readers i)) < sum_list (map length readers)"
proof -
  from nextReader_Some [OF assms] have i: "i < length readers" "readers ! i \<noteq> []" by auto
  then have "sum_list (map length readers) = sum_list (map length (take i readers)) + length (readers ! i)
      + sum_list (map length (drop (Suc i) readers))"
    by (subst id_take_nth_drop [OF i(1)]) simp
  moreover have "sum_list (map length (advance readers i)) = sum_list (map length (take i readers))
      + length (tl (readers ! i)) + sum_list (map length (drop (Suc i) readers))"
    using i(1) by (simp add: advance_def upd_conv_take_nth_drop)
  ultimately show ?thesis using i(2) by (cases "readers ! i") auto
qed

text \<open>\<open>mergeSortedFiles\<close>\<close>

function mergeSortedFiles :: "('a \<Rightarrow> 'a \<Rightarrow> int) \<Rightarrow> 'a list list \<Rightarrow> 'a list" where
  "mergeSortedFiles cmp readers =
     (case nextReader cmp readers of
        None \<Rightarrow> []
      | Some i \<Rightarrow> hd (readers ! i) # mergeSortedFiles cmp (advance readers i))"
  by pat_completeness auto
termination
  by (relation "measure (\<lambda>(_, readers). sum_list (map length readers))") (simp_all add: advance_shorter)

text \<open>\<open>readMergedPage\<close>: \<open>index\<close> records were seen, \<open>records\<close> were kept.\<close>

function readMergedPage ::
  "('a \<Rightarrow> 'a \<Rightarrow> int) \<Rightarrow> 'a list list \<Rightarrow> nat \<Rightarrow> nat \<Rightarrow> nat \<Rightarrow> 'a list \<Rightarrow> 'a list" where
  "readMergedPage cmp readers offset limit index records =
     (if \<not> length records < limit then records
      else case nextReader cmp readers of
             None \<Rightarrow> records
           | Some i \<Rightarrow>
               readMergedPage cmp (advance readers i) offset limit (index + 1)
                 (if offset \<le> index then records @ [hd (readers ! i)] else records))"
  by pat_completeness auto
termination
  by (relation "measure (\<lambda>(_, readers, _). sum_list (map length readers))") (simp_all add: advance_shorter)

declare mergeSortedFiles.simps [simp del] readMergedPage.simps [simp del]

definition MERGE_FAN_IN :: nat where
  "MERGE_FAN_IN = 32"

text \<open>The slices \<open>[index, index + MERGE_FAN_IN)\<close>.\<close>

function groups :: "'a list \<Rightarrow> 'a list list" where
  "groups [] = []"
| "groups (x # xs) = take MERGE_FAN_IN (x # xs) # groups (drop MERGE_FAN_IN (x # xs))"
  by pat_completeness auto
termination
  by (relation "measure length") (auto simp: MERGE_FAN_IN_def)

lemma ceil_step: "1 \<le> n \<Longrightarrow> Suc ((n - 32 + 31) div 32) \<le> (n + 31) div (32::nat)"
proof (cases "n \<le> 32")
  case False
  then have "n + 31 = (n - 32 + 31) + 32" by simp
  then have "(n + 31) div 32 = Suc ((n - 32 + 31) div 32)" by (simp del: add_diff_assoc2 add: div_add_self2)
  then show ?thesis by simp
qed (simp add: div_le_dividend Suc_le_eq div_greater_zero_iff)

lemma length_groups: "length (groups xs) \<le> (length xs + 31) div 32"
proof (induction xs rule: groups.induct)
  case (2 x xs)
  then have "length (groups (drop MERGE_FAN_IN (x # xs))) \<le> (length (x # xs) - 32 + 31) div 32"
    by (simp add: MERGE_FAN_IN_def)
  moreover have "Suc ((length (x # xs) - 32 + 31) div 32) \<le> (length (x # xs) + 31) div 32"
    by (rule ceil_step) simp
  ultimately show ?case by simp
qed simp

function mergePasses :: "('a \<Rightarrow> 'a \<Rightarrow> int) \<Rightarrow> 'a list list \<Rightarrow> 'a list list" where
  "mergePasses cmp runs =
     (if length runs \<le> MERGE_FAN_IN then runs
      else mergePasses cmp (map (mergeSortedFiles cmp) (groups runs)))"
  by pat_completeness auto
termination
proof (relation "measure (\<lambda>(_, runs). length runs)")
  fix cmp :: "'a \<Rightarrow> 'a \<Rightarrow> int" and runs :: "'a list list"
  assume "\<not> length runs \<le> MERGE_FAN_IN"
  then have "(length runs + 31) div 32 < length runs" by (simp add: MERGE_FAN_IN_def)
  with length_groups [of runs]
  show "((cmp, map (mergeSortedFiles cmp) (groups runs)), cmp, runs) \<in> measure (\<lambda>(_, runs). length runs)"
    by simp
qed simp

declare mergePasses.simps [simp del]

section \<open>Counting by hypothesis\<close>

text \<open>
  \<open>recordsByHypothesis\<close> is an ordinary object: a key it does not have is looked up in
  \<open>Object.prototype\<close>, and what is found there plus 1 is text. Assigning text to \<open>__proto__\<close>
  does nothing.
\<close>

datatype tally = Tally nat | TextTally

definition bump :: "(string \<Rightarrow> tally option) \<Rightarrow> string \<Rightarrow> string \<Rightarrow> tally option" where
  "bump counts h =
     (if h = ''__proto__'' then counts
      else counts(h \<mapsto>
        (case counts h of
           Some (Tally n) \<Rightarrow> Tally (n + 1)
         | Some TextTally \<Rightarrow> TextTally
         | None \<Rightarrow> if h \<in> set prototype_keys then TextTally else Tally 1)))"

section \<open>readPage\<close>

record page_options =
  page_evidenceEpoch :: "string option"
  page_hypothesisIds :: "string list"
  page_limit :: nat
  page_offset :: nat
  page_watermark :: "nat option"

record event_page =
  epage_evidenceEpoch :: string
  epage_records :: "event list"
  epage_recordsByHypothesis :: "string \<Rightarrow> tally option"
  epage_totalRecords :: nat
  epage_watermark :: nat

record scan_state =
  ss_chunk :: "event list"
  ss_runs :: "event list list"
  ss_counts :: "string \<Rightarrow> tally option"
  ss_total :: nat
  ss_watermark :: nat

definition flushChunk :: "(event \<Rightarrow> event \<Rightarrow> int) \<Rightarrow> scan_state \<Rightarrow> scan_state" where
  "flushChunk cmp st =
     (if ss_chunk st = [] then st
      else st\<lparr>ss_runs := ss_runs st @ [sort_by cmp (ss_chunk st)], ss_chunk := []\<rparr>)"

definition scan_event ::
  "(event \<Rightarrow> event \<Rightarrow> int) \<Rightarrow> nat \<Rightarrow> page_options \<Rightarrow> event \<Rightarrow> scan_state \<Rightarrow> scan_state" where
  "scan_event cmp chunkSize opts ev st0 =
     (let st = (if page_watermark opts = None
                then st0\<lparr>ss_watermark := max (ss_watermark st0) (sequence ev)\<rparr> else st0)
      in if (case page_watermark opts of None \<Rightarrow> False | Some w \<Rightarrow> w < sequence ev) then st
         else if page_hypothesisIds opts \<noteq> [] \<and> hypothesisId ev \<notin> set (page_hypothesisIds opts) then st
         else
           let st' = st\<lparr>ss_counts := bump (ss_counts st) (hypothesisId ev), ss_total := ss_total st + 1,
                        ss_chunk := ss_chunk st @ [ev]\<rparr>
           in if length (ss_chunk st') = chunkSize then flushChunk cmp st' else st')"

fun scan_lines ::
  "(event \<Rightarrow> event \<Rightarrow> int) \<Rightarrow> nat \<Rightarrow> page_options \<Rightarrow> event line list \<Rightarrow> scan_state \<Rightarrow> failure + scan_state" where
  "scan_lines cmp chunkSize opts [] st = Inr (flushChunk cmp st)"
| "scan_lines cmp chunkSize opts (Bad # ls) st = Inl SyntaxFailure"
| "scan_lines cmp chunkSize opts (Rec ev # ls) st = scan_lines cmp chunkSize opts ls (scan_event cmp chunkSize opts ev st)"

definition initial_scan :: "page_options \<Rightarrow> scan_state" where
  "initial_scan opts =
     \<lparr>ss_chunk = [], ss_runs = [], ss_counts = \<lambda>_. None, ss_total = 0,
      ss_watermark = (case page_watermark opts of None \<Rightarrow> 0 | Some w \<Rightarrow> w)\<rparr>"

definition page_of ::
  "(event \<Rightarrow> event \<Rightarrow> int) \<Rightarrow> page_options \<Rightarrow> string \<Rightarrow> scan_state \<Rightarrow> event_page" where
  "page_of cmp opts epoch st =
     (let runs = mergePasses cmp (ss_runs st)
      in \<lparr>epage_evidenceEpoch = epoch,
          epage_records = (if runs = [] then []
            else readMergedPage cmp runs (page_offset opts) (page_limit opts) 0 []),
          epage_recordsByHypothesis = ss_counts st,
          epage_totalRecords = ss_total st,
          epage_watermark = ss_watermark st\<rparr>)"

text \<open>\<open>finally\<close>: the second operation runs whatever the first did; its own result is dropped.\<close>

definition finallyDo :: "('s, 'a) op \<Rightarrow> ('s, unit) op \<Rightarrow> ('s, 'a) op" where
  "finallyDo m f s = (case m s of (r, t) \<Rightarrow>
     case f t of (Inl e, u) \<Rightarrow> (Inl e, u) | (Inr _, u) \<Rightarrow> (r, u))"

definition initializeLogSortOperation :: "string \<Rightarrow> string \<Rightarrow> (daemon, unit) op" where
  "initializeLogSortOperation sid operationId =
     (if \<not> SAFE_ID operationId then throw InvalidSortId
      else changeDirectory sid (\<lambda>d. d\<lparr>log_sorts := operationId # log_sorts d\<rparr>))"

definition clearLogSortOperation :: "string \<Rightarrow> string \<Rightarrow> (daemon, unit) op" where
  "clearLogSortOperation sid operationId =
     (if \<not> SAFE_ID operationId then throw InvalidSortId
      else changeDirectory sid (\<lambda>d. d\<lparr>log_sorts := removeAll operationId (log_sorts d)\<rparr>))"

definition stale_epoch :: "page_options \<Rightarrow> session \<Rightarrow> bool" where
  "stale_epoch opts ses =
     (case page_evidenceEpoch opts of None \<Rightarrow> False | Some e \<Rightarrow> e \<noteq> [] \<and> e \<noteq> evidenceEpoch ses)"

definition readPage ::
  "(string \<Rightarrow> string \<Rightarrow> int) \<Rightarrow> (nat \<Rightarrow> string) \<Rightarrow> nat \<Rightarrow> string \<Rightarrow> page_options \<Rightarrow> (daemon, event_page) op" where
  "readPage collate uuid chunkSize sid opts =
     andThen (readDirectory sid (\<lambda>d. case session_json d of
         Absent \<Rightarrow> Inl ENOENT | Corrupt \<Rightarrow> Inl SyntaxFailure | Doc ses \<Rightarrow> Inr ses)) (\<lambda>ses.
     if stale_epoch opts ses then throw EpochMismatch
     else andThen (randomUUID uuid) (\<lambda>operationId.
       andThen (initializeLogSortOperation sid operationId) (\<lambda>_.
         finallyDo
           (andThen (readDirectory sid (\<lambda>d. lines_or_missing (events_ndjson d))) (\<lambda>ls.
              case scan_lines (compareEvents collate) chunkSize opts ls (initial_scan opts) of
                Inl e \<Rightarrow> throw e
              | Inr st \<Rightarrow> ret (page_of (compareEvents collate) opts (evidenceEpoch ses) st)))
           (clearLogSortOperation sid operationId))))"

text \<open>The check of the constructor of \<open>EventStore\<close>.\<close>

definition DEFAULT_SORT_CHUNK_SIZE :: nat where
  "DEFAULT_SORT_CHUNK_SIZE = 512"

definition sort_chunk_size :: "jsnum option \<Rightarrow> failure + nat" where
  "sort_chunk_size given =
     (case given of
        None \<Rightarrow> Inr DEFAULT_SORT_CHUNK_SIZE
      | Some n \<Rightarrow> if \<not> is_safe_integer n \<or> int_of_num n < 1 then Inl ChunkSizeInvalid
                  else Inr (nat (int_of_num n)))"

end
