(* ===== verification/Paging_Facts.thy ===== *)
theory Paging_Facts
  imports Paging
begin

text \<open>
  A page is what a plain sort would give: the chunks, the groups of 32 and the early end of
  the last merge do not show. The facts are proved for a comparison that is a strict order on
  the records at hand, which the comparison of events is for events with distinct sequence
  numbers, whatever \<open>localeCompare\<close> does.
\<close>

section \<open>Merging under a strict order\<close>

locale strict_order_on =
  fixes cmp :: "'a \<Rightarrow> 'a \<Rightarrow> int" and A :: "'a set"
  assumes less_trans: "x \<in> A \<Longrightarrow> y \<in> A \<Longrightarrow> z \<in> A \<Longrightarrow> cmp x y < 0 \<Longrightarrow> cmp y z < 0 \<Longrightarrow> cmp x z < 0"
    and connex: "x \<in> A \<Longrightarrow> y \<in> A \<Longrightarrow> x \<noteq> y \<Longrightarrow> cmp x y < 0 \<or> cmp y x < 0"
    and antisym: "x \<in> A \<Longrightarrow> y \<in> A \<Longrightarrow> x \<noteq> y \<Longrightarrow> cmp x y < 0 \<Longrightarrow> 0 < cmp y x"
begin

text \<open>In order, and without repetitions.\<close>

definition ordered :: "'a list \<Rightarrow> bool" where
  "ordered xs \<longleftrightarrow> distinct xs \<and> set xs \<subseteq> A \<and> sorted_wrt (\<lambda>x y. cmp x y < 0) xs"

lemma not_le_less: "x \<in> A \<Longrightarrow> y \<in> A \<Longrightarrow> x \<noteq> y \<Longrightarrow> \<not> cmp x y \<le> 0 \<Longrightarrow> cmp y x < 0"
  using connex by fastforce

lemma le_less: "x \<in> A \<Longrightarrow> y \<in> A \<Longrightarrow> x \<noteq> y \<Longrightarrow> cmp x y \<le> 0 \<Longrightarrow> cmp x y < 0"
  using connex [of x y] antisym [of y x] by fastforce

lemma ordered_Nil [simp]: "ordered []"
  by (simp add: ordered_def)

lemma ordered_Cons:
  "ordered (x # xs) \<longleftrightarrow> x \<in> A \<and> x \<notin> set xs \<and> (\<forall>y \<in> set xs. cmp x y < 0) \<and> ordered xs"
  by (auto simp: ordered_def)

lemma set_insert_by: "set (insert_by cmp x xs) = insert x (set xs)"
  by (induction xs) auto

lemma mset_insert_by: "mset (insert_by cmp x xs) = add_mset x (mset xs)"
  by (induction xs) auto

lemma ordered_insert_by: "ordered xs \<Longrightarrow> x \<in> A \<Longrightarrow> x \<notin> set xs \<Longrightarrow> ordered (insert_by cmp x xs)"
proof (induction xs)
  case (Cons y ys)
  show ?case
  proof (cases "cmp x y \<le> 0")
    case True
    with Cons.prems have "cmp x y < 0" by (intro le_less) (auto simp: ordered_Cons)
    moreover from this Cons.prems have "cmp x z < 0" if "z \<in> set ys" for z
      using that less_trans [of x y z] by (auto simp: ordered_Cons ordered_def)
    ultimately show ?thesis using True Cons.prems by (auto simp: ordered_Cons)
  next
    case False
    with Cons.prems have "cmp y x < 0" by (intro not_le_less) (auto simp: ordered_Cons)
    with False Cons show ?thesis by (auto simp: ordered_Cons set_insert_by)
  qed
qed (simp add: ordered_Cons)

lemma mset_sort_by: "mset (sort_by cmp xs) = mset xs"
  by (induction xs) (simp_all add: sort_by_def mset_insert_by)

lemma set_sort_by: "set (sort_by cmp xs) = set xs"
  using mset_sort_by [of xs] by (metis set_mset_mset)

lemma ordered_sort_by: "distinct xs \<Longrightarrow> set xs \<subseteq> A \<Longrightarrow> ordered (sort_by cmp xs)"
proof (induction xs)
  case (Cons x xs)
  have eq: "sort_by cmp (x # xs) = insert_by cmp x (sort_by cmp xs)" by (simp add: sort_by_def)
  show ?case unfolding eq using Cons by (intro ordered_insert_by) (auto simp: set_sort_by)
qed (simp add: sort_by_def)

lemma ordered_unique: "ordered xs \<Longrightarrow> ordered ys \<Longrightarrow> set xs = set ys \<Longrightarrow> xs = ys"
proof (induction xs arbitrary: ys)
  case (Cons x xs)
  then obtain y zs where ys: "ys = y # zs" by (cases ys) auto
  have "x = y"
  proof (rule ccontr)
    assume ne: "x \<noteq> y"
    with Cons.prems ys have "y \<in> set xs" "x \<in> set zs" by auto
    with Cons.prems ys have "cmp x y < 0" "cmp y x < 0" by (auto simp: ordered_Cons)
    with antisym [OF _ _ ne] Cons.prems ys show False by (fastforce simp: ordered_Cons)
  qed
  moreover from this Cons.prems ys have "set xs = set zs" by (auto simp: ordered_Cons)
  ultimately show ?case using Cons ys by (auto simp: ordered_Cons)
qed simp

lemma sort_by_cong: "mset xs = mset ys \<Longrightarrow> distinct xs \<Longrightarrow> set xs \<subseteq> A \<Longrightarrow> sort_by cmp xs = sort_by cmp ys"
  by (metis mset_eq_imp_distinct_iff mset_eq_setD ordered_sort_by ordered_unique set_sort_by)

text \<open>The readers: each in order, all together without repetitions.\<close>

definition runs_ok :: "'a list list \<Rightarrow> bool" where
  "runs_ok runs \<longleftrightarrow> (\<forall>r \<in> set runs. ordered r) \<and> distinct (concat runs)"

lemma runs_ok_run: "runs_ok runs \<Longrightarrow> i < length runs \<Longrightarrow> ordered (runs ! i)"
  by (simp add: runs_ok_def)

lemma runs_ok_subset: "runs_ok runs \<Longrightarrow> set (concat runs) \<subseteq> A"
  by (auto simp: runs_ok_def ordered_def)

lemma runs_ok_heads_differ:
  assumes "runs_ok runs" "i < length runs" "j < length runs" "i \<noteq> j" "x \<in> set (runs ! i)" "y \<in> set (runs ! j)"
  shows "x \<noteq> y"
proof -
  have "set (runs ! i) \<inter> set (runs ! j) = {}" if "i < j" "i < length runs" "j < length runs" for i j
  proof -
    have "j < length runs" "distinct (concat runs)" using that assms(1) by (auto simp: runs_ok_def)
    moreover have "runs = take j runs @ runs ! j # drop (Suc j) runs"
      using that by (simp add: id_take_nth_drop)
    ultimately have "set (concat (take j runs)) \<inter> set (runs ! j) = {}"
      by (metis concat.simps(2) concat_append distinct_append inf_sup_distrib1 set_append sup_eq_bot_iff)
    moreover have "runs ! i \<in> set (take j runs)"
      using that by (metis in_set_conv_nth length_take min_less_iff_conj nth_take)
    ultimately show ?thesis by auto
  qed
  from this [of i j] this [of j i] assms show ?thesis by (cases "i < j") auto
qed

lemma better_least:
  assumes "runs_ok runs" "n \<le> length runs"
  shows "case foldl (better cmp runs) None [0..<n] of
      None \<Rightarrow> \<forall>k < n. runs ! k = []
    | Some i \<Rightarrow> i < n \<and> runs ! i \<noteq> []
        \<and> (\<forall>k < n. runs ! k \<noteq> [] \<longrightarrow> k \<noteq> i \<longrightarrow> cmp (hd (runs ! i)) (hd (runs ! k)) < 0)"
  using assms(2)
proof (induction n)
  case (Suc n)
  let ?s = "foldl (better cmp runs) None [0..<n]"
  have n: "n < length runs" using Suc.prems by simp
  have hdA: "hd (runs ! k) \<in> A" if "k < length runs" "runs ! k \<noteq> []" for k
    using runs_ok_run [OF assms(1) that(1)] that(2) by (cases "runs ! k") (auto simp: ordered_Cons)
  have differ: "hd (runs ! i) \<noteq> hd (runs ! j)"
    if "i < length runs" "j < length runs" "i \<noteq> j" "runs ! i \<noteq> []" "runs ! j \<noteq> []" for i j
    using runs_ok_heads_differ [OF assms(1) that(1-3), of "hd (runs ! i)" "hd (runs ! j)"] that by simp
  from Suc have IH: "case ?s of None \<Rightarrow> \<forall>k < n. runs ! k = []
    | Some i \<Rightarrow> i < n \<and> runs ! i \<noteq> []
        \<and> (\<forall>k < n. runs ! k \<noteq> [] \<longrightarrow> k \<noteq> i \<longrightarrow> cmp (hd (runs ! i)) (hd (runs ! k)) < 0)" by simp
  have step: "foldl (better cmp runs) None [0..<Suc n] = better cmp runs ?s n" by simp
  show ?case
  proof (cases "runs ! n")
    case Nil
    with IH show ?thesis unfolding step by (auto simp: better_def less_Suc_eq split: option.splits)
  next
    case (Cons x xs)
    show ?thesis
    proof (cases ?s)
      case None
      with IH Cons show ?thesis unfolding step by (auto simp: better_def less_Suc_eq)
    next
      case (Some j)
      with IH have j: "j < n" "runs ! j \<noteq> []"
        "\<And>k. k < n \<Longrightarrow> runs ! k \<noteq> [] \<Longrightarrow> k \<noteq> j \<Longrightarrow> cmp (hd (runs ! j)) (hd (runs ! k)) < 0" by auto
      have mem: "x \<in> A" "hd (runs ! j) \<in> A" "x \<noteq> hd (runs ! j)"
        using hdA [of n] hdA [of j] differ [of n j] n j Cons by auto
      show ?thesis
      proof (cases "cmp x (hd (runs ! j)) < 0")
        case True
        have "cmp x (hd (runs ! k)) < 0" if "k < n" "runs ! k \<noteq> []" for k
          using j(3) [OF that] that True less_trans [OF mem(1,2) hdA [of k]] n by (cases "k = j") auto
        with True Cons Some show ?thesis unfolding step by (auto simp: better_def less_Suc_eq)
      next
        case False
        with connex [OF mem] have "cmp (hd (runs ! j)) x < 0" by simp
        with False Cons Some j show ?thesis unfolding step by (auto simp: better_def less_Suc_eq)
      qed
    qed
  qed
qed simp

lemma nextReader_None: "runs_ok runs \<Longrightarrow> nextReader cmp runs = None \<Longrightarrow> concat runs = []"
  using better_least [of runs "length runs"] by (auto simp: nextReader_def in_set_conv_nth)

lemma nextReader_least:
  assumes "runs_ok runs" "nextReader cmp runs = Some i" "y \<in> set (concat runs)" "y \<noteq> hd (runs ! i)"
  shows "cmp (hd (runs ! i)) y < 0"
proof -
  from better_least [OF assms(1), of "length runs"] assms(2) have i: "i < length runs" "runs ! i \<noteq> []"
    "\<And>k. k < length runs \<Longrightarrow> runs ! k \<noteq> [] \<Longrightarrow> k \<noteq> i \<Longrightarrow> cmp (hd (runs ! i)) (hd (runs ! k)) < 0"
    by (auto simp: nextReader_def)
  from assms(3) obtain r where "r \<in> set runs" "y \<in> set r" by auto
  then obtain k where k: "k < length runs" "y \<in> set (runs ! k)" by (metis in_set_conv_nth)
  then obtain z zs where run: "runs ! k = z # zs" by (cases "runs ! k") auto
  have ord: "ordered (z # zs)" using runs_ok_run [OF assms(1) k(1)] run by simp
  have ordi: "hd (runs ! i) \<in> A" using runs_ok_run [OF assms(1) i(1)] i(2) by (cases "runs ! i") (auto simp: ordered_Cons)
  show ?thesis
  proof (cases "k = i")
    case True
    with ord k run assms(4) show ?thesis by (auto simp: ordered_Cons)
  next
    case False
    with i(3) [OF k(1)] run have lt: "cmp (hd (runs ! i)) z < 0" by simp
    show ?thesis
    proof (cases "y = z")
      case False
      with ord k run have "cmp z y < 0" "z \<in> A" "y \<in> A" by (auto simp: ordered_Cons ordered_def)
      with lt ordi show ?thesis by (blast intro: less_trans)
    qed (simp add: lt)
  qed
qed

end

text \<open>What a step takes out of the readers, in any order.\<close>

lemma mset_advance:
  assumes "i < length readers" "readers ! i \<noteq> []"
  shows "mset (concat readers) = add_mset (hd (readers ! i)) (mset (concat (advance readers i)))"
proof -
  have "concat readers = concat (take i readers) @ readers ! i @ concat (drop (Suc i) readers)"
    by (subst id_take_nth_drop [OF assms(1)]) simp
  moreover have "concat (advance readers i) =
      concat (take i readers) @ tl (readers ! i) @ concat (drop (Suc i) readers)"
    using assms(1) by (simp add: advance_def upd_conv_take_nth_drop)
  moreover have "mset (readers ! i) = add_mset (hd (readers ! i)) (mset (tl (readers ! i)))"
    using assms(2) by (cases "readers ! i") auto
  ultimately show ?thesis by simp
qed

lemma readMergedPage_merge:
  "readMergedPage cmp readers offset limit index records =
     records @ take (limit - length records) (drop (offset - index) (mergeSortedFiles cmp readers))"
proof (induction cmp readers offset limit index records rule: readMergedPage.induct)
  case (1 cmp readers offset limit index records)
  show ?case
  proof (cases "length records < limit")
    case False
    then show ?thesis by (subst readMergedPage.simps) simp
  next
    case True
    show ?thesis
    proof (cases "nextReader cmp readers")
      case None
      then show ?thesis
        using True by (subst readMergedPage.simps, subst mergeSortedFiles.simps) simp
    next
      case (Some i)
      let ?h = "hd (readers ! i)" and ?m = "mergeSortedFiles cmp (advance readers i)"
      have m: "mergeSortedFiles cmp readers = ?h # ?m"
        using Some by (subst mergeSortedFiles.simps) simp
      have r: "readMergedPage cmp readers offset limit index records =
          readMergedPage cmp (advance readers i) offset limit (index + 1)
            (if offset \<le> index then records @ [?h] else records)"
        using Some True by (subst readMergedPage.simps) simp
      show ?thesis
      proof (cases "offset \<le> index")
        case le: True
        have "limit - length records = Suc (limit - Suc (length records))" using True by simp
        with 1 [OF _ Some] True le m r show ?thesis by simp
      next
        case False
        then have "offset - index = Suc (offset - Suc index)" by simp
        with 1 [OF _ Some] True False m r show ?thesis by simp
      qed
    qed
  qed
qed

context strict_order_on
begin

lemma runs_ok_advance:
  assumes ok: "runs_ok runs" and i: "i < length runs" "runs ! i \<noteq> []"
  shows "runs_ok (advance runs i)" "hd (runs ! i) \<notin> set (concat (advance runs i))"
    "set (concat runs) = insert (hd (runs ! i)) (set (concat (advance runs i)))"
proof -
  note m = mset_advance [OF i]
  from ok have "distinct (concat runs)" by (simp add: runs_ok_def)
  then have "distinct (hd (runs ! i) # concat (advance runs i))"
    using m by (metis mset.simps(2) mset_eq_imp_distinct_iff)
  moreover have "ordered r" if "r \<in> set (advance runs i)" for r
  proof -
    from that have "r \<in> set runs \<or> r = tl (runs ! i)"
      unfolding advance_def by (meson in_mono insert_iff set_update_subset_insert)
    moreover have "ordered (tl (runs ! i))"
      using runs_ok_run [OF ok i(1)] i(2) by (cases "runs ! i") (auto simp: ordered_Cons)
    ultimately show ?thesis using ok by (auto simp: runs_ok_def)
  qed
  ultimately show "runs_ok (advance runs i)" "hd (runs ! i) \<notin> set (concat (advance runs i))"
    by (simp_all add: runs_ok_def)
  show "set (concat runs) = insert (hd (runs ! i)) (set (concat (advance runs i)))"
    using arg_cong [OF m, of set_mset] by simp
qed

lemma merge_ordered:
  "runs_ok runs \<Longrightarrow> ordered (mergeSortedFiles cmp runs)
     \<and> mset (mergeSortedFiles cmp runs) = mset (concat runs)"
proof (induction "sum_list (map length runs)" arbitrary: runs rule: less_induct)
  case less
  show ?case
  proof (cases "nextReader cmp runs")
    case None
    then show ?thesis
      using nextReader_None [OF less.prems] by (subst (1 2) mergeSortedFiles.simps) simp
  next
    case (Some i)
    from nextReader_Some [OF Some] have i: "i < length runs" "runs ! i \<noteq> []" by auto
    note adv = runs_ok_advance [OF less.prems i]
    have IH: "ordered (mergeSortedFiles cmp (advance runs i))"
      "mset (mergeSortedFiles cmp (advance runs i)) = mset (concat (advance runs i))"
      using less.hyps [OF advance_shorter [OF Some] adv(1)] by auto
    have set_IH: "set (mergeSortedFiles cmp (advance runs i)) = set (concat (advance runs i))"
      using IH(2) by (metis set_mset_mset)
    have m: "mergeSortedFiles cmp runs = hd (runs ! i) # mergeSortedFiles cmp (advance runs i)"
      using Some by (subst mergeSortedFiles.simps) simp
    have "hd (runs ! i) \<in> A" using runs_ok_subset [OF less.prems] adv(3) by blast
    moreover have "cmp (hd (runs ! i)) y < 0" if "y \<in> set (concat (advance runs i))" for y
      using nextReader_least [OF less.prems Some] that adv(2,3) by blast
    ultimately have "ordered (mergeSortedFiles cmp runs)"
      unfolding m ordered_Cons using IH(1) adv(2) set_IH by auto
    moreover have "mset (mergeSortedFiles cmp runs) = mset (concat runs)"
      using IH(2) mset_advance [OF i] m by simp
    ultimately show ?thesis by simp
  qed
qed

lemma merge_sorts:
  assumes "runs_ok runs"
  shows "mergeSortedFiles cmp runs = sort_by cmp (concat runs)"
proof (rule ordered_unique)
  show "ordered (mergeSortedFiles cmp runs)" using merge_ordered [OF assms] by simp
  show "ordered (sort_by cmp (concat runs))"
    using assms runs_ok_subset [OF assms] by (intro ordered_sort_by) (simp_all add: runs_ok_def)
  show "set (mergeSortedFiles cmp runs) = set (sort_by cmp (concat runs))"
    using merge_ordered [OF assms] mset_eq_setD unfolding set_sort_by by blast
qed

lemma concat_groups: "concat (groups xs) = xs"
  by (induction xs rule: groups.induct) auto

lemma runs_ok_parts: "runs_ok (concat gs) \<Longrightarrow> g \<in> set gs \<Longrightarrow> runs_ok g"
proof -
  assume ok: "runs_ok (concat gs)" and g: "g \<in> set gs"
  from g obtain a b where gs: "gs = a @ g # b" by (meson split_list)
  from ok show ?thesis unfolding gs runs_ok_def by auto
qed

lemma mset_concat_map_merge:
  "(\<And>g. g \<in> set gs \<Longrightarrow> runs_ok g) \<Longrightarrow> mset (concat (map (mergeSortedFiles cmp) gs)) = mset (concat (concat gs))"
  by (induction gs) (simp_all add: merge_ordered)

lemma runs_ok_merge_groups:
  assumes "runs_ok runs"
  shows "runs_ok (map (mergeSortedFiles cmp) (groups runs))"
    "mset (concat (map (mergeSortedFiles cmp) (groups runs))) = mset (concat runs)"
proof -
  have parts: "runs_ok g" if "g \<in> set (groups runs)" for g
    using runs_ok_parts [of "groups runs", unfolded concat_groups, OF assms that] .
  show m: "mset (concat (map (mergeSortedFiles cmp) (groups runs))) = mset (concat runs)"
    using mset_concat_map_merge [of "groups runs"] parts by (simp add: concat_groups)
  from assms have "distinct (concat runs)" by (simp add: runs_ok_def)
  with m have "distinct (concat (map (mergeSortedFiles cmp) (groups runs)))"
    using mset_eq_imp_distinct_iff by blast
  with parts show "runs_ok (map (mergeSortedFiles cmp) (groups runs))"
    by (auto simp: runs_ok_def merge_ordered)
qed

lemma mergePasses_ok:
  "runs_ok runs \<Longrightarrow> runs_ok (mergePasses cmp runs) \<and> mset (concat (mergePasses cmp runs)) = mset (concat runs)
     \<and> length (mergePasses cmp runs) \<le> MERGE_FAN_IN"
proof (induction "length runs" arbitrary: runs rule: less_induct)
  case less
  show ?case
  proof (cases "length runs \<le> MERGE_FAN_IN")
    case True
    with less.prems show ?thesis by (subst (1 2 3) mergePasses.simps) simp
  next
    case False
    let ?next = "map (mergeSortedFiles cmp) (groups runs)"
    have "(length runs + 31) div 32 < length runs" using False by (simp add: MERGE_FAN_IN_def)
    with length_groups [of runs] have "length ?next < length runs" by simp
    from less.hyps [OF this runs_ok_merge_groups(1) [OF less.prems]] runs_ok_merge_groups(2) [OF less.prems]
    show ?thesis using False by (subst (1 2 3) mergePasses.simps) simp
  qed
qed

lemma page_sorted:
  assumes "runs_ok runs"
  shows "readMergedPage cmp (mergePasses cmp runs) offset limit 0 [] =
    take limit (drop offset (sort_by cmp (concat runs)))"
proof -
  note p = mergePasses_ok [OF assms]
  have "mergeSortedFiles cmp (mergePasses cmp runs) = sort_by cmp (concat (mergePasses cmp runs))"
    using p by (intro merge_sorts) simp
  also have "\<dots> = sort_by cmp (concat runs)"
    using p assms runs_ok_subset [of "mergePasses cmp runs"]
    by (intro sort_by_cong) (auto simp: runs_ok_def)
  finally show ?thesis by (simp add: readMergedPage_merge)
qed

end

section \<open>The order of events\<close>

lemma sub_sign_scale:
  assumes "k \<le> e" "k \<le> e'"
  shows "sub_sign (Dec m e) (Dec m' e') = sgn (m * 10 ^ nat (e - k) - m' * 10 ^ nat (e' - k))"
proof -
  let ?c = "min e e'"
  have "nat (e - k) = nat (e - ?c) + nat (?c - k)" "nat (e' - k) = nat (e' - ?c) + nat (?c - k)"
    using assms by auto
  then have "m * 10 ^ nat (e - k) - m' * 10 ^ nat (e' - k)
      = (m * 10 ^ nat (e - ?c) - m' * 10 ^ nat (e' - ?c)) * 10 ^ nat (?c - k)"
    by (simp add: power_add algebra_simps)
  then show ?thesis by (simp add: sgn_mult)
qed

lemma sub_sign_flip: "sub_sign x y = - sub_sign y x"
proof (cases "\<exists>m e m' e'. x = Dec m e \<and> y = Dec m' e'")
  case True
  then obtain m e m' e' where "x = Dec m e" "y = Dec m' e'" by blast
  then show ?thesis
    using sub_sign_scale [of "min e e'" e e' m m'] sub_sign_scale [of "min e e'" e' e m' m]
    by (simp add: sgn_minus [symmetric])
qed (cases x; cases y; auto)

lemma sub_sign_trans:
  assumes "is_finite x" "is_finite y" "is_finite z"
  shows "sub_sign x y < 0 \<Longrightarrow> sub_sign y z \<le> 0 \<Longrightarrow> sub_sign x z < 0"
    "sub_sign x y \<le> 0 \<Longrightarrow> sub_sign y z < 0 \<Longrightarrow> sub_sign x z < 0"
    "sub_sign x y = 0 \<Longrightarrow> sub_sign y z = 0 \<Longrightarrow> sub_sign x z = 0"
proof -
  from assms obtain a i b j c k where xyz: "x = Dec a i" "y = Dec b j" "z = Dec c k"
    by (metis is_finite.elims(2))
  define l where "l = min i (min j k)"
  have "sub_sign x y = sgn (a * 10 ^ nat (i - l) - b * 10 ^ nat (j - l))"
    "sub_sign y z = sgn (b * 10 ^ nat (j - l) - c * 10 ^ nat (k - l))"
    "sub_sign x z = sgn (a * 10 ^ nat (i - l) - c * 10 ^ nat (k - l))"
    unfolding xyz by (rule sub_sign_scale; simp add: l_def)+
  then show "sub_sign x y < 0 \<Longrightarrow> sub_sign y z \<le> 0 \<Longrightarrow> sub_sign x z < 0"
    "sub_sign x y \<le> 0 \<Longrightarrow> sub_sign y z < 0 \<Longrightarrow> sub_sign x z < 0"
    "sub_sign x y = 0 \<Longrightarrow> sub_sign y z = 0 \<Longrightarrow> sub_sign x z = 0"
    by (auto simp: sgn_if split: if_splits)
qed

text \<open>Time, then sequence number: what a reader of the log relies on.\<close>

definition earlier :: "event \<Rightarrow> event \<Rightarrow> bool" where
  "earlier x y \<longleftrightarrow> sub_sign (timestamp x) (timestamp y) < 0
     \<or> sub_sign (timestamp x) (timestamp y) = 0 \<and> sequence x < sequence y"

definition distinguishable :: "event list \<Rightarrow> event set" where
  "distinguishable es =
     (if distinct (map sequence es) \<and> list_all (\<lambda>ev. is_finite (timestamp ev)) es then set es else {})"

lemma distinguishable_differ:
  assumes "x \<in> distinguishable es" "y \<in> distinguishable es" "x \<noteq> y"
  shows "sequence x \<noteq> sequence y"
proof -
  from assms have "distinct (map sequence es)" "x \<in> set es" "y \<in> set es"
    by (auto simp: distinguishable_def split: if_splits)
  with assms(3) show ?thesis by (auto simp: distinct_map inj_on_def)
qed

lemma distinguishable_finite: "x \<in> distinguishable es \<Longrightarrow> is_finite (timestamp x)"
  by (auto simp: distinguishable_def list_all_iff split: if_splits)

lemma compare_earlier:
  assumes "x \<in> distinguishable es" "y \<in> distinguishable es" "x \<noteq> y"
  shows "compareEvents collate x y < 0 \<longleftrightarrow> earlier x y" "0 < compareEvents collate x y \<longleftrightarrow> earlier y x"
  using distinguishable_differ [OF assms] sub_sign_flip [of "timestamp x" "timestamp y"]
  by (auto simp: compareEvents_def earlier_def Let_def)

lemma earlier_trans:
  assumes "is_finite (timestamp x)" "is_finite (timestamp y)" "is_finite (timestamp z)" "earlier x y" "earlier y z"
  shows "earlier x z"
  using assms sub_sign_trans [OF assms(1-3)] unfolding earlier_def by force

lemma earlier_irrefl: "is_finite (timestamp x) \<Longrightarrow> \<not> earlier x x"
  using sub_sign_flip [of "timestamp x" "timestamp x"] by (simp add: earlier_def)

interpretation event_order: strict_order_on "compareEvents collate" "distinguishable es" for collate es
proof
  fix x y z
  assume mem: "x \<in> distinguishable es" "y \<in> distinguishable es" "z \<in> distinguishable es"
  note fin = mem [THEN distinguishable_finite]
  assume less: "compareEvents collate x y < 0" "compareEvents collate y z < 0"
  show "compareEvents collate x z < 0"
  proof (cases "x = y \<or> y = z")
    case True
    with less show ?thesis by auto
  next
    case False
    with less mem have "earlier x y" "earlier y z" by (auto simp: compare_earlier)
    with earlier_trans [OF fin] have xz: "earlier x z" by blast
    with earlier_irrefl [OF fin(3)] have "x \<noteq> z" by auto
    with xz mem show ?thesis by (simp add: compare_earlier)
  qed
next
  fix x y
  assume mem: "x \<in> distinguishable es" "y \<in> distinguishable es" "x \<noteq> y"
  show "compareEvents collate x y < 0 \<or> compareEvents collate y x < 0"
    using mem distinguishable_differ [OF mem] sub_sign_flip [of "timestamp x" "timestamp y"]
    by (auto simp: compare_earlier earlier_def)
  assume "compareEvents collate x y < 0"
  with mem show "0 < compareEvents collate y x" by (auto simp: compare_earlier)
qed

section \<open>The scan of the file\<close>

definition in_page :: "page_options \<Rightarrow> event \<Rightarrow> bool" where
  "in_page opts ev \<longleftrightarrow>
     (case page_watermark opts of None \<Rightarrow> True | Some w \<Rightarrow> sequence ev \<le> w)
     \<and> (page_hypothesisIds opts = [] \<or> hypothesisId ev \<in> set (page_hypothesisIds opts))"

definition sorted_runs :: "(event \<Rightarrow> event \<Rightarrow> int) \<Rightarrow> event list list \<Rightarrow> bool" where
  "sorted_runs cmp runs \<longleftrightarrow> (\<forall>r \<in> set runs. \<exists>xs. r = sort_by cmp xs)"

lemma mset_sort_by_any: "mset (sort_by cmp xs) = mset xs"
proof -
  have "mset (insert_by cmp x ys) = add_mset x (mset ys)" for x ys
    by (induction ys) auto
  then show ?thesis by (induction xs) (simp_all add: sort_by_def)
qed

definition held :: "scan_state \<Rightarrow> event multiset" where
  "held st = mset (concat (ss_runs st)) + mset (ss_chunk st)"

lemma flushChunk_facts:
  "held (flushChunk cmp st) = held st" "ss_chunk (flushChunk cmp st) = []"
  "sorted_runs cmp (ss_runs st) \<Longrightarrow> sorted_runs cmp (ss_runs (flushChunk cmp st))"
  "ss_total (flushChunk cmp st) = ss_total st" "ss_watermark (flushChunk cmp st) = ss_watermark st"
  "ss_counts (flushChunk cmp st) = ss_counts st"
  by (auto simp: flushChunk_def held_def mset_sort_by_any sorted_runs_def)

definition seen :: "page_options \<Rightarrow> event \<Rightarrow> scan_state \<Rightarrow> scan_state" where
  "seen opts ev st =
     (if page_watermark opts = None then st\<lparr>ss_watermark := max (ss_watermark st) (sequence ev)\<rparr> else st)"

definition taken :: "event \<Rightarrow> scan_state \<Rightarrow> scan_state" where
  "taken ev st = st\<lparr>ss_counts := bump (ss_counts st) (hypothesisId ev), ss_total := ss_total st + 1,
     ss_chunk := ss_chunk st @ [ev]\<rparr>"

lemma scan_event_alt:
  "scan_event cmp n opts ev st =
     (let st1 = seen opts ev st
      in if \<not> in_page opts ev then st1
         else if length (ss_chunk (taken ev st1)) = n then flushChunk cmp (taken ev st1) else taken ev st1)"
  by (cases "page_watermark opts")
    (simp_all add: scan_event_def seen_def taken_def in_page_def Let_def not_less)

lemma seen_facts:
  "held (seen opts ev st) = held st" "ss_runs (seen opts ev st) = ss_runs st"
  "ss_total (seen opts ev st) = ss_total st" "ss_counts (seen opts ev st) = ss_counts st"
  "ss_watermark (seen opts ev st) =
     (if page_watermark opts = None then max (ss_watermark st) (sequence ev) else ss_watermark st)"
  by (simp_all add: seen_def held_def)

lemma taken_facts:
  "held (taken ev st) = held st + {#ev#}" "ss_runs (taken ev st) = ss_runs st"
  "ss_total (taken ev st) = ss_total st + 1" "ss_counts (taken ev st) = bump (ss_counts st) (hypothesisId ev)"
  "ss_watermark (taken ev st) = ss_watermark st"
  by (simp_all add: taken_def held_def)

lemma scan_event_facts:
  "held (scan_event cmp n opts ev st) = held st + (if in_page opts ev then {#ev#} else {#})"
  "sorted_runs cmp (ss_runs st) \<Longrightarrow> sorted_runs cmp (ss_runs (scan_event cmp n opts ev st))"
  "ss_total (scan_event cmp n opts ev st) = ss_total st + (if in_page opts ev then 1 else 0)"
  "ss_watermark (scan_event cmp n opts ev st) =
     (if page_watermark opts = None then max (ss_watermark st) (sequence ev) else ss_watermark st)"
  "ss_counts (scan_event cmp n opts ev st) =
     (if in_page opts ev then bump (ss_counts st) (hypothesisId ev) else ss_counts st)"
  by (simp_all add: scan_event_alt Let_def seen_facts taken_facts flushChunk_facts)

definition scan_all :: "(event \<Rightarrow> event \<Rightarrow> int) \<Rightarrow> nat \<Rightarrow> page_options \<Rightarrow> event list \<Rightarrow> scan_state \<Rightarrow> scan_state" where
  "scan_all cmp n opts es st = foldl (\<lambda>st ev. scan_event cmp n opts ev st) st es"

lemma scan_lines_all:
  "scan_lines cmp n opts (map Rec es) st = Inr (flushChunk cmp (scan_all cmp n opts es st))"
  by (induction es arbitrary: st) (simp_all add: scan_all_def)

lemma scan_all_facts:
  "held (scan_all cmp n opts es st) = held st + mset (filter (in_page opts) es)"
  "sorted_runs cmp (ss_runs st) \<Longrightarrow> sorted_runs cmp (ss_runs (scan_all cmp n opts es st))"
  "ss_total (scan_all cmp n opts es st) = ss_total st + length (filter (in_page opts) es)"
  "ss_watermark (scan_all cmp n opts es st) =
     (if page_watermark opts = None then foldl max (ss_watermark st) (map sequence es) else ss_watermark st)"
  "ss_counts (scan_all cmp n opts es st) = foldl bump (ss_counts st) (map hypothesisId (filter (in_page opts) es))"
  unfolding scan_all_def
  by (induction es arbitrary: st; simp add: scan_event_facts)+

lemma scan_lines_facts:
  obtains st' where "scan_lines cmp n opts (map Rec es) st = Inr st'"
    "mset (concat (ss_runs st')) = held st + mset (filter (in_page opts) es)"
    "sorted_runs cmp (ss_runs st) \<Longrightarrow> sorted_runs cmp (ss_runs st')"
    "ss_total st' = ss_total st + length (filter (in_page opts) es)"
    "ss_watermark st' = (if page_watermark opts = None then foldl max (ss_watermark st) (map sequence es)
         else ss_watermark st)"
    "ss_counts st' = foldl bump (ss_counts st) (map hypothesisId (filter (in_page opts) es))"
proof (rule that [of "flushChunk cmp (scan_all cmp n opts es st)"])
  let ?t = "flushChunk cmp (scan_all cmp n opts es st)"
  have "held ?t = held st + mset (filter (in_page opts) es)"
    by (simp add: flushChunk_facts(1) scan_all_facts(1))
  then show "mset (concat (ss_runs ?t)) = held st + mset (filter (in_page opts) es)"
    using flushChunk_facts(2) [of cmp "scan_all cmp n opts es st"] by (simp add: held_def)
qed (simp_all add: scan_lines_all flushChunk_facts scan_all_facts)

text \<open>The page of a well-formed event list, as a plain sort gives it.\<close>

definition sorted_page :: "(string \<Rightarrow> string \<Rightarrow> int) \<Rightarrow> page_options \<Rightarrow> event list \<Rightarrow> event list" where
  "sorted_page collate opts es = sort_by (compareEvents collate) (filter (in_page opts) es)"

lemma distinguishable_all:
  "distinct (map sequence es) \<Longrightarrow> list_all (\<lambda>ev. is_finite (timestamp ev)) es \<Longrightarrow> distinguishable es = set es"
  by (simp add: distinguishable_def)

lemma page_of_events:
  assumes seqs: "distinct (map sequence es)" and fin: "list_all (\<lambda>ev. is_finite (timestamp ev)) es"
  shows "\<exists>st. scan_lines (compareEvents collate) n opts (map Rec es) (initial_scan opts) = Inr st
    \<and> page_of (compareEvents collate) opts epoch st =
      \<lparr>epage_evidenceEpoch = epoch,
       epage_records = take (page_limit opts) (drop (page_offset opts) (sorted_page collate opts es)),
       epage_recordsByHypothesis = foldl bump (\<lambda>_. None) (map hypothesisId (filter (in_page opts) es)),
       epage_totalRecords = length (filter (in_page opts) es),
       epage_watermark = (case page_watermark opts of Some w \<Rightarrow> w | None \<Rightarrow> foldl max 0 (map sequence es))\<rparr>"
proof -
  let ?cmp = "compareEvents collate"
  obtain st where st: "scan_lines ?cmp n opts (map Rec es) (initial_scan opts) = Inr st"
    and runs: "mset (concat (ss_runs st)) = mset (filter (in_page opts) es)" "sorted_runs ?cmp (ss_runs st)"
    and rest: "ss_total st = length (filter (in_page opts) es)"
      "ss_watermark st = (case page_watermark opts of Some w \<Rightarrow> w | None \<Rightarrow> foldl max 0 (map sequence es))"
      "ss_counts st = foldl bump (\<lambda>_. None) (map hypothesisId (filter (in_page opts) es))"
    by (rule scan_lines_facts [of ?cmp n opts es "initial_scan opts"])
      (cases "page_watermark opts"; simp add: initial_scan_def held_def sorted_runs_def)
  have all: "distinguishable es = set es" by (rule distinguishable_all [OF seqs fin])
  have dist: "distinct (filter (in_page opts) es)" using seqs by (simp add: distinct_map)
  with runs(1) have dist': "distinct (concat (ss_runs st))" by (metis mset_eq_imp_distinct_iff)
  have sub: "set (concat (ss_runs st)) \<subseteq> distinguishable es"
    using mset_eq_setD [OF runs(1)] unfolding all by auto
  have ok: "event_order.runs_ok collate es (ss_runs st)"
    unfolding event_order.runs_ok_def
  proof (intro conjI ballI dist')
    fix r
    assume r: "r \<in> set (ss_runs st)"
    with runs(2) obtain xs where xs: "r = sort_by ?cmp xs" by (auto simp: sorted_runs_def)
    from dist' r have "distinct r" by (auto simp: distinct_concat_iff)
    with xs have "distinct xs" by (metis mset_sort_by_any mset_eq_imp_distinct_iff)
    moreover have "set xs \<subseteq> distinguishable es"
      using xs r sub mset_sort_by_any [of ?cmp xs] by (metis UN_subset_iff mset_eq_setD set_concat)
    ultimately show "event_order.ordered collate es r"
      unfolding xs by (rule event_order.ordered_sort_by)
  qed
  have sorted: "sort_by ?cmp (concat (ss_runs st)) = sorted_page collate opts es"
    unfolding sorted_page_def using runs(1) dist' sub by (rule event_order.sort_by_cong)
  have "epage_records (page_of ?cmp opts epoch st)
      = take (page_limit opts) (drop (page_offset opts) (sorted_page collate opts es))"
  proof (cases "mergePasses ?cmp (ss_runs st) = []")
    case True
    with event_order.mergePasses_ok [OF ok] have "concat (ss_runs st) = []" by simp
    with sorted have "sorted_page collate opts es = []" by (simp add: sort_by_def)
    with True show ?thesis by (simp add: page_of_def Let_def)
  next
    case False
    then show ?thesis using event_order.page_sorted [OF ok] sorted by (simp add: page_of_def Let_def)
  qed
  with st rest show ?thesis by (intro exI [of _ st]) (simp add: page_of_def Let_def)
qed

lemma sorted_wrt_distinct:
  "sorted_wrt P xs \<Longrightarrow> distinct xs \<Longrightarrow> sorted_wrt (\<lambda>x y. P x y \<and> x \<noteq> y) xs"
  by (induction xs) auto

lemma sorted_page_facts:
  assumes "distinct (map sequence es)" "list_all (\<lambda>ev. is_finite (timestamp ev)) es"
  shows "sorted_wrt earlier (sorted_page collate opts es)"
    "mset (sorted_page collate opts es) = mset (filter (in_page opts) es)"
proof -
  let ?f = "filter (in_page opts) es"
  have all: "distinguishable es = set es" by (rule distinguishable_all [OF assms])
  have "distinct ?f" using assms(1) by (simp add: distinct_map)
  moreover have "set ?f \<subseteq> distinguishable es" unfolding all by auto
  ultimately have ord: "event_order.ordered collate es (sorted_page collate opts es)"
    unfolding sorted_page_def by (rule event_order.ordered_sort_by)
  then have strict: "sorted_wrt (\<lambda>x y. compareEvents collate x y < 0 \<and> x \<noteq> y) (sorted_page collate opts es)"
    unfolding event_order.ordered_def by (intro sorted_wrt_distinct) auto
  show "sorted_wrt earlier (sorted_page collate opts es)"
  proof (rule sorted_wrt_mono_rel [OF _ strict])
    fix x y
    assume "x \<in> set (sorted_page collate opts es)" "y \<in> set (sorted_page collate opts es)"
      "compareEvents collate x y < 0 \<and> x \<noteq> y"
    with ord show "earlier x y"
      using compare_earlier(1) [of x es y collate] unfolding event_order.ordered_def by blast
  qed
  show "mset (sorted_page collate opts es) = mset ?f"
    by (simp add: sorted_page_def mset_sort_by_any)
qed

section \<open>The operation\<close>

lemma dir_ok_pageable:
  assumes "dir_ok sid d"
  shows "distinct (map sequence (dir_events d))" "list_all (\<lambda>ev. is_finite (timestamp ev)) (dir_events d)"
    "events_ndjson d = Some (map Rec (dir_events d))"
proof -
  have "map sequence (dir_events d) = [1..<length (dir_events d) + 1]" using assms by (simp add: dir_ok_def)
  then show "distinct (map sequence (dir_events d))" by (metis distinct_upt)
  show "list_all (\<lambda>ev. is_finite (timestamp ev)) (dir_events d)"
    using assms by (auto simp: dir_ok_def event_ok_def list_all_iff)
  show "events_ndjson d = Some (map Rec (dir_events d))"
    using assms by (simp add: dir_ok_def intact_def)
qed

definition expected_page ::
  "(string \<Rightarrow> string \<Rightarrow> int) \<Rightarrow> page_options \<Rightarrow> session \<Rightarrow> event list \<Rightarrow> event_page" where
  "expected_page collate opts ses es =
     \<lparr>epage_evidenceEpoch = evidenceEpoch ses,
      epage_records = take (page_limit opts) (drop (page_offset opts) (sorted_page collate opts es)),
      epage_recordsByHypothesis = foldl bump (\<lambda>_. None) (map hypothesisId (filter (in_page opts) es)),
      epage_totalRecords = length (filter (in_page opts) es),
      epage_watermark = (case page_watermark opts of Some w \<Rightarrow> w | None \<Rightarrow> length es)\<rparr>"

lemma readPage_view:
  assumes safe: "SAFE_ID sid" "SAFE_ID (uuid (draws s))" and d: "dir_ok sid d" "session_json d = Doc ses"
    and fresh: "\<not> stale_epoch opts ses"
  shows "readPage collate uuid n sid opts (with_view sid d e g q s) =
    (Inr (expected_page collate opts ses (dir_events d)),
     with_view sid (d\<lparr>log_sorts := removeAll (uuid (draws s)) (log_sorts d)\<rparr>) e g q (s\<lparr>draws := Suc (draws s)\<rparr>))"
proof -
  let ?cmp = "compareEvents collate" and ?id = "uuid (draws s)"
  let ?d1 = "d\<lparr>log_sorts := ?id # log_sorts d\<rparr>"
  let ?s1 = "s\<lparr>draws := Suc (draws s)\<rparr>"
  note files = dir_ok_pageable [OF d(1)]
  have numbers: "foldl max 0 (map sequence (dir_events d)) = length (dir_events d)"
    using d(1) foldl_max_upt by (simp add: dir_ok_def)
  obtain st where st: "scan_lines ?cmp n opts (map Rec (dir_events d)) (initial_scan opts) = Inr st"
    and page: "page_of ?cmp opts (evidenceEpoch ses) st = expected_page collate opts ses (dir_events d)"
    using page_of_events [OF files(1,2), of collate n opts "evidenceEpoch ses"]
    unfolding numbers expected_page_def by blast
  have draw: "randomUUID uuid (with_view sid d e g q s) = (Inr ?id, with_view sid d e g q ?s1)"
    by (simp add: randomUUID_def with_view_draws)
  have lines: "lines_or_missing (events_ndjson d) = Inr (map Rec (dir_events d))"
    unfolding lines_or_missing_def by (subst files(3)) simp
  have body: "andThen (readDirectory sid (\<lambda>d. lines_or_missing (events_ndjson d))) (\<lambda>ls.
      case scan_lines ?cmp n opts ls (initial_scan opts) of Inl e \<Rightarrow> throw e
      | Inr st \<Rightarrow> ret (page_of ?cmp opts (evidenceEpoch ses) st)) (with_view sid ?d1 e g q ?s1)
    = (Inr (expected_page collate opts ses (dir_events d)), with_view sid ?d1 e g q ?s1)"
  proof -
    have "readDirectory sid (\<lambda>d. lines_or_missing (events_ndjson d)) (with_view sid ?d1 e g q ?s1) =
        (Inr (map Rec (dir_events d)), with_view sid ?d1 e g q ?s1)"
      using safe(1) lines by simp
    with st page show ?thesis by (simp add: andThen_def)
  qed
  show ?thesis
    using safe d(2) fresh
    by (simp add: readPage_def draw initializeLogSortOperation_def clearLogSortOperation_def finallyDo_def body)
qed

lemma readPage_at:
  assumes inv: "store_inv rnd s" and dir: "directory_of s sid = Some d" "session_json d = Doc ses"
    and fresh: "\<not> stale_epoch opts ses" and safe: "SAFE_ID (uuid (draws s))"
  shows "fst (readPage collate uuid n sid opts s) = Inr (expected_page collate opts ses (dir_events d))"
    "directory_of (snd (readPage collate uuid n sid opts s)) sid =
       Some (d\<lparr>log_sorts := removeAll (uuid (draws s)) (log_sorts d)\<rparr>)"
    "sid' \<noteq> sid \<Longrightarrow> view (snd (readPage collate uuid n sid opts s)) sid' = view s sid'"
proof -
  let ?e = "event_ids s sid" and ?g = "diagnostic_ids s sid" and ?q = "sequence_values s sid"
  have s: "with_view sid d ?e ?g ?q s = s" using dir by (simp add: with_view_same)
  have "dir_ok sid d" using store_inv_session(3) [OF inv dir(1)] by simp
  from readPage_view [where s = s and uuid = uuid, OF store_inv_session(1) [OF inv dir(1)] safe this dir(2) fresh,
      of collate n ?e ?g ?q]
  have eq: "readPage collate uuid n sid opts s = (Inr (expected_page collate opts ses (dir_events d)),
     with_view sid (d\<lparr>log_sorts := removeAll (uuid (draws s)) (log_sorts d)\<rparr>) ?e ?g ?q (s\<lparr>draws := Suc (draws s)\<rparr>))"
    unfolding s .
  show "fst (readPage collate uuid n sid opts s) = Inr (expected_page collate opts ses (dir_events d))"
    "directory_of (snd (readPage collate uuid n sid opts s)) sid =
       Some (d\<lparr>log_sorts := removeAll (uuid (draws s)) (log_sorts d)\<rparr>)"
    by (simp_all add: eq)
  show "view (snd (readPage collate uuid n sid opts s)) sid' = view s sid'" if "sid' \<noteq> sid"
    unfolding eq snd_conv view_with_view using that by (simp add: view_def directory_of_def)
qed

lemma readPage_stale:
  assumes "SAFE_ID sid" "directory_of s sid = Some d" "session_json d = Doc ses" "stale_epoch opts ses"
  shows "readPage collate uuid n sid opts s = (Inl EpochMismatch, s)"
  using assms by (simp add: readPage_def readDirectory_found)

text \<open>With a watermark, later events do not change a page.\<close>

lemma filter_watermark:
  assumes "page_watermark opts = Some w" "\<And>ev. ev \<in> set new \<Longrightarrow> w < sequence ev"
  shows "filter (in_page opts) (es @ new) = filter (in_page opts) es"
proof -
  have "\<not> in_page opts ev" if "ev \<in> set new" for ev
    using assms(1) assms(2) [OF that] by (simp add: in_page_def)
  then show ?thesis by (simp add: filter_empty_conv)
qed

text \<open>Consecutive pages make up the whole list.\<close>

lemma take_drop_pages:
  "take n (drop k xs) @ take m (drop (k + n) xs) = take (n + m) (drop k xs)"
  by (simp add: take_add add.commute [of k n])

lemma concat_pages: "concat (map (\<lambda>k. take n (drop (k * n) xs)) [0..<m]) = take (m * n) xs"
proof (induction m)
  case (Suc m)
  with take_drop_pages [of "m * n" 0 xs n] show ?case by (simp add: add.commute)
qed simp

section \<open>Counts\<close>

lemma bump_other: "h \<noteq> k \<Longrightarrow> bump counts h k = counts k"
  by (simp add: bump_def)

definition tally_after :: "string \<Rightarrow> nat \<Rightarrow> tally option" where
  "tally_after h n =
     (if n = 0 \<or> h = ''__proto__'' then None
      else if h \<in> set prototype_keys then Some TextTally else Some (Tally n))"

lemma bump_tally:
  "counts h = tally_after h n \<Longrightarrow> bump counts h h = tally_after h (n + 1)"
  by (auto simp: bump_def tally_after_def split: option.splits)

lemma foldl_bump:
  "counts h = tally_after h n \<Longrightarrow> foldl bump counts hs h = tally_after h (n + count (mset hs) h)"
proof (induction hs arbitrary: counts n)
  case (Cons k hs)
  show ?case
  proof (cases "k = h")
    case True
    with Cons.IH [of "bump counts k" "n + 1"] bump_tally [of counts h n] Cons.prems show ?thesis by simp
  next
    case False
    with Cons.IH [of "bump counts k" n] Cons.prems show ?thesis by (simp add: bump_other)
  qed
qed simp

lemma recordsByHypothesis_count:
  "foldl bump (\<lambda>_. None) hs h = tally_after h (count (mset hs) h)"
  using foldl_bump [of "\<lambda>_. None" h 0 hs] by (simp add: tally_after_def)

lemma count_hypotheses:
  "count (mset (map hypothesisId (filter (in_page opts) es))) h =
     length (filter (\<lambda>ev. in_page opts ev \<and> hypothesisId ev = h) es)"
  by (induction es) auto

lemma later_sequences:
  assumes "map sequence (es @ new) = [1..<length (es @ new) + 1]" "ev \<in> set new"
  shows "length es < sequence ev"
proof -
  from assms(2) obtain i where i: "i < length new" "ev = new ! i" by (metis in_set_conv_nth)
  have "map sequence (es @ new) ! (length es + i) = sequence ev"
    using i by (simp add: nth_append)
  moreover have "[1..<length (es @ new) + 1] ! (length es + i) = 1 + (length es + i)"
    using i by (subst nth_upt) auto
  ultimately have "sequence ev = 1 + (length es + i)" using assms(1) by simp
  then show ?thesis by simp
qed

end
