(* ===== verification/Session_Lock.thy ===== *)
theory Session_Lock
  imports Prelude
begin

text \<open>
  The per-session queue of operations (\<open>runSessionOperation\<close>, \<open>src/daemon/persistence.ts\<close>) as a
  transition system. A call chains its operation to the promise stored for the session and
  stores its own settled promise; when the operation is over the entry is deleted if it is
  still the call's own. A call made inside an operation of the same session runs at once and is
  part of that operation.
\<close>

section \<open>State\<close>

text \<open>\<open>Over\<close>: the result has settled; \<open>Left\<close>: the \<open>finally\<close> block has run.\<close>

datatype status = Queued | Running | Over | Left

record call =
  call_session :: string
  call_previous :: "nat option"
  call_status :: status

record queue_state =
  calls :: "call list"
  operations :: "string \<Rightarrow> nat option"

definition initial_queue :: queue_state where
  "initial_queue = \<lparr>calls = [], operations = \<lambda>_. None\<rparr>"

definition settled :: "call \<Rightarrow> bool" where
  "settled c \<longleftrightarrow> call_status c \<in> {Over, Left}"

definition set_status :: "nat \<Rightarrow> status \<Rightarrow> queue_state \<Rightarrow> queue_state" where
  "set_status n x s = s\<lparr>calls := (calls s)[n := (calls s ! n)\<lparr>call_status := x\<rparr>]\<rparr>"

section \<open>Steps\<close>

definition enqueue :: "string \<Rightarrow> queue_state \<Rightarrow> queue_state" where
  "enqueue sid s =
     \<lparr>calls = calls s @ [\<lparr>call_session = sid, call_previous = operations s sid, call_status = Queued\<rparr>],
      operations = (operations s)(sid \<mapsto> length (calls s))\<rparr>"

text \<open>\<open>previous.then(...)\<close>: the stored promise resolves when its call is over, however it ended.\<close>

definition can_start :: "queue_state \<Rightarrow> nat \<Rightarrow> bool" where
  "can_start s n \<longleftrightarrow> n < length (calls s) \<and> call_status (calls s ! n) = Queued
     \<and> (case call_previous (calls s ! n) of None \<Rightarrow> True | Some p \<Rightarrow> settled (calls s ! p))"

definition leave :: "nat \<Rightarrow> queue_state \<Rightarrow> queue_state" where
  "leave n s =
     (let sid = call_session (calls s ! n); t = set_status n Left s
      in if operations s sid = Some n then t\<lparr>operations := (operations s)(sid := None)\<rparr> else t)"

inductive queue_step :: "queue_state \<Rightarrow> queue_state \<Rightarrow> bool" where
  call_made: "queue_step s (enqueue sid s)"
| operation_starts: "can_start s n \<Longrightarrow> queue_step s (set_status n Running s)"
| operation_ends: "n < length (calls s) \<Longrightarrow> call_status (calls s ! n) = Running \<Longrightarrow>
     queue_step s (set_status n Over s)"
| call_leaves: "n < length (calls s) \<Longrightarrow> call_status (calls s ! n) = Over \<Longrightarrow> queue_step s (leave n s)"

section \<open>Invariant\<close>

definition same_session :: "queue_state \<Rightarrow> nat \<Rightarrow> nat \<Rightarrow> bool" where
  "same_session s m n \<longleftrightarrow> call_session (calls s ! m) = call_session (calls s ! n)"

text \<open>Once a call has started, all earlier calls of its session are over.\<close>

definition in_turn :: "queue_state \<Rightarrow> bool" where
  "in_turn s \<longleftrightarrow> (\<forall>n < length (calls s). call_status (calls s ! n) \<noteq> Queued \<longrightarrow>
     (\<forall>m < n. same_session s m n \<longrightarrow> settled (calls s ! m)))"

text \<open>The stored predecessor is the last earlier call of the session, if one may still be open.\<close>

definition chained :: "queue_state \<Rightarrow> bool" where
  "chained s \<longleftrightarrow> (\<forall>n < length (calls s).
     case call_previous (calls s ! n) of
       None \<Rightarrow> \<forall>m < n. same_session s m n \<longrightarrow> settled (calls s ! m)
     | Some p \<Rightarrow> p < n \<and> same_session s p n \<and> (\<forall>m < n. same_session s m n \<longrightarrow> m \<le> p))"

definition tail_stored :: "queue_state \<Rightarrow> bool" where
  "tail_stored s \<longleftrightarrow> (\<forall>sid.
     case operations s sid of
       None \<Rightarrow> \<forall>m < length (calls s). call_session (calls s ! m) = sid \<longrightarrow> settled (calls s ! m)
     | Some n \<Rightarrow> n < length (calls s) \<and> call_session (calls s ! n) = sid
         \<and> call_status (calls s ! n) \<noteq> Left
         \<and> (\<forall>m < length (calls s). call_session (calls s ! m) = sid \<longrightarrow> m \<le> n))"

definition queue_inv :: "queue_state \<Rightarrow> bool" where
  "queue_inv s \<longleftrightarrow> in_turn s \<and> chained s \<and> tail_stored s"

lemma in_turnD:
  "in_turn s \<Longrightarrow> n < length (calls s) \<Longrightarrow> call_status (calls s ! n) \<noteq> Queued \<Longrightarrow>
     m < n \<Longrightarrow> same_session s m n \<Longrightarrow> settled (calls s ! m)"
  by (simp add: in_turn_def)

lemma tail_storedD:
  assumes "tail_stored s"
  shows "operations s sid = None \<Longrightarrow> m < length (calls s) \<Longrightarrow> call_session (calls s ! m) = sid \<Longrightarrow>
      settled (calls s ! m)"
    and "operations s sid = Some n \<Longrightarrow>
      n < length (calls s) \<and> call_session (calls s ! n) = sid \<and> call_status (calls s ! n) \<noteq> Left"
    and "operations s sid = Some n \<Longrightarrow> m < length (calls s) \<Longrightarrow> call_session (calls s ! m) = sid \<Longrightarrow> m \<le> n"
  using assms [unfolded tail_stored_def, rule_format, of sid] by auto

lemma operations_update [simp]:
  "same_session (s\<lparr>operations := f\<rparr>) m n = same_session s m n"
  by (simp add: same_session_def)

lemma calls_set_status [simp]:
  "length (calls (set_status n x s)) = length (calls s)"
  "operations (set_status n x s) = operations s"
  by (simp_all add: set_status_def)

lemma nth_set_status:
  "n < length (calls s) \<Longrightarrow> calls (set_status n x s) ! m =
     (if m = n then (calls s ! n)\<lparr>call_status := x\<rparr> else calls s ! m)"
  by (simp add: set_status_def nth_list_update)

lemma session_set_status [simp]:
  "n < length (calls s) \<Longrightarrow> call_session (calls (set_status n x s) ! m) = call_session (calls s ! m)"
  "n < length (calls s) \<Longrightarrow> call_previous (calls (set_status n x s) ! m) = call_previous (calls s ! m)"
  "n < length (calls s) \<Longrightarrow> same_session (set_status n x s) m k = same_session s m k"
  by (simp_all add: nth_set_status same_session_def)

lemma status_set_status [simp]:
  "n < length (calls s) \<Longrightarrow> call_status (calls (set_status n x s) ! m) =
     (if m = n then x else call_status (calls s ! m))"
  by (simp add: nth_set_status)

lemma settled_set_status:
  "n < length (calls s) \<Longrightarrow> settled (calls (set_status n x s) ! m) =
     (if m = n then x \<in> {Over, Left} else settled (calls s ! m))"
  by (simp add: settled_def)

text \<open>Both chain facts survive every change that keeps the calls and settles more of them.\<close>

lemma chained_mono:
  assumes "chained s" "length (calls t) = length (calls s)"
    "\<And>n. call_previous (calls t ! n) = call_previous (calls s ! n)"
    "\<And>m n. same_session t m n = same_session s m n"
    "\<And>m. settled (calls s ! m) \<Longrightarrow> settled (calls t ! m)"
  shows "chained t"
  unfolding chained_def
proof (intro allI impI)
  fix n
  assume "n < length (calls t)"
  with assms(1,2) have "case call_previous (calls s ! n) of
       None \<Rightarrow> \<forall>m < n. same_session s m n \<longrightarrow> settled (calls s ! m)
     | Some p \<Rightarrow> p < n \<and> same_session s p n \<and> (\<forall>m < n. same_session s m n \<longrightarrow> m \<le> p)"
    by (simp add: chained_def)
  then show "case call_previous (calls t ! n) of
       None \<Rightarrow> \<forall>m < n. same_session t m n \<longrightarrow> settled (calls t ! m)
     | Some p \<Rightarrow> p < n \<and> same_session t p n \<and> (\<forall>m < n. same_session t m n \<longrightarrow> m \<le> p)"
    using assms(3-5) by (cases "call_previous (calls s ! n)") simp_all
qed

lemma queue_inv_initial: "queue_inv initial_queue"
  by (simp add: queue_inv_def in_turn_def chained_def tail_stored_def initial_queue_def)

lemma nth_enqueue:
  "m < length (calls s) \<Longrightarrow> calls (enqueue sid s) ! m = calls s ! m"
  "calls (enqueue sid s) ! length (calls s) =
     \<lparr>call_session = sid, call_previous = operations s sid, call_status = Queued\<rparr>"
  "length (calls (enqueue sid s)) = Suc (length (calls s))"
  by (simp_all add: enqueue_def nth_append)

lemma queue_inv_enqueue:
  assumes "queue_inv s"
  shows "queue_inv (enqueue sid s)"
proof -
  let ?t = "enqueue sid s"
  have same: "same_session ?t m n = same_session s m n" if "m < length (calls s)" "n < length (calls s)" for m n
    using that by (simp add: same_session_def nth_enqueue)
  have last: "same_session ?t m (length (calls s)) \<longleftrightarrow> call_session (calls s ! m) = sid" if "m < length (calls s)" for m
    using that by (simp add: same_session_def nth_enqueue)
  have turn: "in_turn s" and chain: "chained s" and tail: "tail_stored s"
    using assms by (simp_all add: queue_inv_def)
  have tail_sid: "case operations s sid of
      None \<Rightarrow> \<forall>m < length (calls s). call_session (calls s ! m) = sid \<longrightarrow> settled (calls s ! m)
    | Some n \<Rightarrow> n < length (calls s) \<and> call_session (calls s ! n) = sid
        \<and> call_status (calls s ! n) \<noteq> Left
        \<and> (\<forall>m < length (calls s). call_session (calls s ! m) = sid \<longrightarrow> m \<le> n)"
    using tail by (simp add: tail_stored_def)
  have "in_turn ?t"
    using turn same by (auto simp: in_turn_def nth_enqueue less_Suc_eq)
  moreover have "chained ?t"
    unfolding chained_def
  proof (intro allI impI)
    fix n
    assume "n < length (calls ?t)"
    then have "n < length (calls s) \<or> n = length (calls s)" by (simp add: nth_enqueue(3) less_Suc_eq)
    then show "case call_previous (calls ?t ! n) of
       None \<Rightarrow> \<forall>m < n. same_session ?t m n \<longrightarrow> settled (calls ?t ! m)
     | Some p \<Rightarrow> p < n \<and> same_session ?t p n \<and> (\<forall>m < n. same_session ?t m n \<longrightarrow> m \<le> p)"
    proof
      assume "n < length (calls s)"
      with chain same show ?thesis by (auto simp: chained_def nth_enqueue split: option.splits)
    next
      assume "n = length (calls s)"
      with tail_sid last show ?thesis by (auto simp: nth_enqueue split: option.splits)
    qed
  qed
  moreover have "tail_stored ?t"
    unfolding tail_stored_def
  proof
    fix other
    show "case operations ?t other of
      None \<Rightarrow> \<forall>m < length (calls ?t). call_session (calls ?t ! m) = other \<longrightarrow> settled (calls ?t ! m)
    | Some n \<Rightarrow> n < length (calls ?t) \<and> call_session (calls ?t ! n) = other
        \<and> call_status (calls ?t ! n) \<noteq> Left
        \<and> (\<forall>m < length (calls ?t). call_session (calls ?t ! m) = other \<longrightarrow> m \<le> n)"
      using tail [unfolded tail_stored_def, rule_format, of other]
      by (cases "other = sid") (auto simp: enqueue_def nth_append less_Suc_eq split: option.splits)
  qed
  ultimately show ?thesis by (simp add: queue_inv_def)
qed

lemma queue_inv_start:
  assumes "queue_inv s" "can_start s n"
  shows "queue_inv (set_status n Running s)"
proof -
  let ?t = "set_status n Running s"
  from assms(2) have n: "n < length (calls s)" "call_status (calls s ! n) = Queued"
    by (auto simp: can_start_def)
  have turn: "in_turn s" and chain: "chained s" and tail: "tail_stored s"
    using assms by (simp_all add: queue_inv_def)
  have before: "settled (calls s ! m)" if m: "m < n" "same_session s m n" for m
  proof (cases "call_previous (calls s ! n)")
    case None
    with chain n m show ?thesis by (auto simp: chained_def)
  next
    case (Some p)
    with chain n have p: "p < n" "same_session s p n" "\<And>m. m < n \<Longrightarrow> same_session s m n \<Longrightarrow> m \<le> p"
      by (auto simp: chained_def)
    from assms(2) Some have "settled (calls s ! p)" by (simp add: can_start_def)
    moreover have ?thesis if "settled (calls s ! p)" "m < p"
    proof -
      have "call_status (calls s ! p) \<noteq> Queued" using \<open>settled (calls s ! p)\<close> by (auto simp: settled_def)
      moreover have "same_session s m p" using m(2) p(2) by (simp add: same_session_def)
      ultimately show ?thesis using in_turnD [OF turn, of p m] that p(1) n(1) by simp
    qed
    ultimately show ?thesis using p(3) [OF m] by (cases "m = p") simp_all
  qed
  have keep: "settled (calls ?t ! m)" if "settled (calls s ! m)" for m
    using that n by (auto simp: settled_set_status settled_def)
  have "in_turn ?t"
    using turn before keep n by (auto simp: in_turn_def)
  moreover have "chained ?t"
    by (rule chained_mono [OF chain]) (use keep n(1) in simp_all)
  moreover have "tail_stored ?t"
    unfolding tail_stored_def
  proof
    fix sid
    from tail have "case operations s sid of
      None \<Rightarrow> \<forall>m < length (calls s). call_session (calls s ! m) = sid \<longrightarrow> settled (calls s ! m)
    | Some n \<Rightarrow> n < length (calls s) \<and> call_session (calls s ! n) = sid
        \<and> call_status (calls s ! n) \<noteq> Left
        \<and> (\<forall>m < length (calls s). call_session (calls s ! m) = sid \<longrightarrow> m \<le> n)"
      by (simp add: tail_stored_def)
    with keep n(1) show "case operations ?t sid of
      None \<Rightarrow> \<forall>m < length (calls ?t). call_session (calls ?t ! m) = sid \<longrightarrow> settled (calls ?t ! m)
    | Some n \<Rightarrow> n < length (calls ?t) \<and> call_session (calls ?t ! n) = sid
        \<and> call_status (calls ?t ! n) \<noteq> Left
        \<and> (\<forall>m < length (calls ?t). call_session (calls ?t ! m) = sid \<longrightarrow> m \<le> n)"
      by (auto split: option.splits)
  qed
  ultimately show ?thesis by (simp add: queue_inv_def)
qed

lemma queue_inv_settle:
  assumes "queue_inv s" "n < length (calls s)" "call_status (calls s ! n) \<noteq> Queued"
    "x = Over \<or> x = Left" "operations s (call_session (calls s ! n)) = Some n \<longrightarrow> x \<noteq> Left"
  shows "queue_inv (set_status n x s)"
proof -
  let ?t = "set_status n x s"
  have turn: "in_turn s" and chain: "chained s" and tail: "tail_stored s"
    using assms by (simp_all add: queue_inv_def)
  have keep: "settled (calls ?t ! m)" if "settled (calls s ! m)" for m
    using that assms(2,4) by (auto simp: settled_set_status)
  have "in_turn ?t" using turn keep assms(2,3) by (auto simp: in_turn_def)
  moreover have "chained ?t"
    by (rule chained_mono [OF chain]) (use keep assms(2) in simp_all)
  moreover have "tail_stored ?t"
    unfolding tail_stored_def
  proof
    fix sid
    from tail have "case operations s sid of
      None \<Rightarrow> \<forall>m < length (calls s). call_session (calls s ! m) = sid \<longrightarrow> settled (calls s ! m)
    | Some n \<Rightarrow> n < length (calls s) \<and> call_session (calls s ! n) = sid
        \<and> call_status (calls s ! n) \<noteq> Left
        \<and> (\<forall>m < length (calls s). call_session (calls s ! m) = sid \<longrightarrow> m \<le> n)"
      by (simp add: tail_stored_def)
    with keep assms(2,5) show "case operations ?t sid of
      None \<Rightarrow> \<forall>m < length (calls ?t). call_session (calls ?t ! m) = sid \<longrightarrow> settled (calls ?t ! m)
    | Some n \<Rightarrow> n < length (calls ?t) \<and> call_session (calls ?t ! n) = sid
        \<and> call_status (calls ?t ! n) \<noteq> Left
        \<and> (\<forall>m < length (calls ?t). call_session (calls ?t ! m) = sid \<longrightarrow> m \<le> n)"
      by (auto split: option.splits)
  qed
  ultimately show ?thesis by (simp add: queue_inv_def)
qed

lemma queue_inv_leave:
  assumes "queue_inv s" "n < length (calls s)" "call_status (calls s ! n) = Over"
  shows "queue_inv (leave n s)"
proof (cases "operations s (call_session (calls s ! n)) = Some n")
  case False
  with queue_inv_settle [OF assms(1,2), of Left] assms(3) show ?thesis by (simp add: leave_def Let_def)
next
  case True
  let ?sid = "call_session (calls s ! n)"
  let ?s' = "s\<lparr>operations := (operations s)(?sid := None)\<rparr>"
  have turn: "in_turn s" and chain: "chained s" and tail: "tail_stored s"
    using assms by (simp_all add: queue_inv_def)
  have all: "settled (calls s ! m)" if m: "m < length (calls s)" "call_session (calls s ! m) = ?sid" for m
  proof (cases "m = n")
    case True
    with assms(3) show ?thesis by (simp add: settled_def)
  next
    case False
    from tail True m have "m \<le> n" by (auto simp: tail_stored_def dest!: spec [of _ ?sid])
    with False turn assms(2,3) m show ?thesis by (auto simp: in_turn_def same_session_def)
  qed
  have "in_turn ?s'" using turn by (simp add: in_turn_def)
  moreover have "chained ?s'" by (rule chained_mono [OF chain]) simp_all
  moreover have "tail_stored ?s'"
    unfolding tail_stored_def
  proof
    fix other
    show "case operations ?s' other of
      None \<Rightarrow> \<forall>m < length (calls ?s'). call_session (calls ?s' ! m) = other \<longrightarrow> settled (calls ?s' ! m)
    | Some n \<Rightarrow> n < length (calls ?s') \<and> call_session (calls ?s' ! n) = other
        \<and> call_status (calls ?s' ! n) \<noteq> Left
        \<and> (\<forall>m < length (calls ?s'). call_session (calls ?s' ! m) = other \<longrightarrow> m \<le> n)"
      using tail [unfolded tail_stored_def, rule_format, of other] all
      by (cases "other = ?sid"; cases "operations s other") auto
  qed
  ultimately have "queue_inv ?s'" by (simp add: queue_inv_def)
  from queue_inv_settle [OF this, of n Left] assms have "queue_inv (set_status n Left ?s')" by simp
  moreover have "set_status n Left ?s' = leave n s"
    using True by (simp add: leave_def Let_def set_status_def)
  ultimately show ?thesis by simp
qed

interpretation session_queue:
  transition_system "\<lambda>s. s = initial_queue" queue_step queue_inv
proof
  fix s t
  assume "queue_inv s" "queue_step s t"
  from this(2,1) show "queue_inv t"
    by cases (auto intro: queue_inv_enqueue queue_inv_start queue_inv_settle queue_inv_leave)
qed (simp add: queue_inv_initial)

inductive_cases queue_step_cases: "queue_step s t"

section \<open>Consequences\<close>

lemma mutual_exclusion:
  assumes "queue_inv s" "m < length (calls s)" "n < length (calls s)" "same_session s m n"
    "call_status (calls s ! m) = Running" "call_status (calls s ! n) = Running"
  shows "m = n"
proof -
  from assms(1) have turn: "in_turn s" by (simp add: queue_inv_def)
  from in_turnD [OF turn, of n m] in_turnD [OF turn, of m n] assms(2-) show ?thesis
    by (cases m n rule: linorder_cases) (auto simp: settled_def same_session_def)
qed

text \<open>A queued call whose predecessors in its session are over can start.\<close>

lemma oldest_can_start:
  assumes "queue_inv s" "n < length (calls s)" "call_status (calls s ! n) = Queued"
    "\<And>m. m < n \<Longrightarrow> same_session s m n \<Longrightarrow> settled (calls s ! m)"
  shows "can_start s n"
proof (cases "call_previous (calls s ! n)")
  case (Some p)
  with assms(1,2) have "p < n" "same_session s p n" by (auto simp: queue_inv_def chained_def)
  with Some assms show ?thesis by (simp add: can_start_def)
qed (use assms in \<open>simp add: can_start_def\<close>)

lemma queue_progress:
  assumes "queue_inv s" "n < length (calls s)" "call_status (calls s ! n) = Queued"
  shows "\<exists>m \<le> n. same_session s m n \<and> (can_start s m \<or> call_status (calls s ! m) = Running)"
  using assms(2,3)
proof (induction n rule: less_induct)
  case (less n)
  show ?case
  proof (cases "\<forall>m < n. same_session s m n \<longrightarrow> settled (calls s ! m)")
    case True
    with oldest_can_start [OF assms(1) less.prems] show ?thesis by (auto simp: same_session_def)
  next
    case False
    then obtain m where m: "m < n" "same_session s m n" "\<not> settled (calls s ! m)" by blast
    then consider "call_status (calls s ! m) = Queued" | "call_status (calls s ! m) = Running"
      by (cases "call_status (calls s ! m)") (auto simp: settled_def)
    then show ?thesis
    proof cases
      case 1
      with less m obtain k where "k \<le> m" "same_session s k m"
        "can_start s k \<or> call_status (calls s ! k) = Running" by fastforce
      with m show ?thesis by (intro exI [of _ k]) (auto simp: same_session_def)
    qed (use m in \<open>auto intro: exI [of _ m]\<close>)
  qed
qed

text \<open>When every call of a session has left, nothing is stored for it.\<close>

lemma queue_forgets:
  assumes "queue_inv s" "\<And>m. m < length (calls s) \<Longrightarrow> call_session (calls s ! m) = sid \<Longrightarrow> call_status (calls s ! m) = Left"
  shows "operations s sid = None"
proof (rule ccontr)
  assume "operations s sid \<noteq> None"
  then obtain n where "operations s sid = Some n" by blast
  with assms(1) have "n < length (calls s)" "call_session (calls s ! n) = sid" "call_status (calls s ! n) \<noteq> Left"
    by (auto simp: queue_inv_def tail_stored_def dest!: spec [of _ sid])
  with assms(2) show False by blast
qed

end
