(* ===== verification/Activity.thy ===== *)
theory Activity
  imports Prelude
begin

text \<open>
  The idle timer of the daemon (\<open>src/daemon/activity.ts\<close>). The tracker reads one clock,
  \<open>clock.now()\<close>, which is the time of day and may be set back and forth, and sleeps on another, the
  timer of the run-time system, which only advances. Both are part of the state, with the
  pending timeouts, the closures that \<open>acquireLease\<close> has returned and the number of calls of
  \<open>onIdle\<close>.
\<close>

section \<open>State and operations\<close>

definition IDLE_TIMEOUT_MILLISECONDS :: int where
  "IDLE_TIMEOUT_MILLISECONDS = 30 * 60000"

text \<open>
  \<open>timer\<close> is the handle in the field of the object. A pending timeout has a due time and the
  generation its callback captured. A closure is \<open>None\<close> when it does nothing, otherwise its flag
  \<open>released\<close>.
\<close>

record tracker =
  generation :: nat
  lastActivity :: int
  leases :: int
  stopped :: bool
  timer :: "nat option"
  clock_now :: int
  elapsed :: int
  pending :: "nat \<Rightarrow> (int \<times> nat) option"
  next_handle :: nat
  closures :: "bool option list"
  idle_calls :: nat

definition clearTimer :: "tracker \<Rightarrow> tracker" where
  "clearTimer t = (case timer t of
     None \<Rightarrow> t
   | Some h \<Rightarrow> t\<lparr>pending := (pending t)(h := None), timer := None\<rparr>)"

definition setTimeout :: "int \<Rightarrow> tracker \<Rightarrow> tracker" where
  "setTimeout milliseconds t =
     t\<lparr>pending := (pending t)(next_handle t \<mapsto> (elapsed t + milliseconds, generation t)),
       timer := Some (next_handle t), next_handle := Suc (next_handle t)\<rparr>"

definition armTimer :: "int \<Rightarrow> tracker \<Rightarrow> tracker" where
  "armTimer milliseconds t = setTimeout milliseconds (clearTimer t)"

definition startTracker :: "int \<Rightarrow> int \<Rightarrow> tracker" where
  "startTracker now steady = armTimer IDLE_TIMEOUT_MILLISECONDS
     \<lparr>generation = 0, lastActivity = now, leases = 0, stopped = False, timer = None, clock_now = now,
      elapsed = steady, pending = (\<lambda>_. None), next_handle = 0, closures = [], idle_calls = 0\<rparr>"

definition touch :: "tracker \<Rightarrow> tracker" where
  "touch t =
     (if stopped t then t
      else let u = t\<lparr>lastActivity := clock_now t, generation := generation t + 1\<rparr>
        in if leases u = 0 then armTimer IDLE_TIMEOUT_MILLISECONDS u else u)"

definition acquireLease :: "tracker \<Rightarrow> tracker" where
  "acquireLease t =
     (if stopped t then t\<lparr>closures := closures t @ [None]\<rparr>
      else let u = clearTimer (t\<lparr>leases := leases t + 1, generation := generation t + 1\<rparr>)
        in u\<lparr>closures := closures u @ [Some False]\<rparr>)"

text \<open>A call of the closure number \<open>i\<close>.\<close>

definition releaseLease :: "nat \<Rightarrow> tracker \<Rightarrow> tracker" where
  "releaseLease i t =
     (case closures t ! i of
        None \<Rightarrow> t
      | Some released \<Rightarrow>
          if released \<or> stopped t then t
          else let u = t\<lparr>closures := (closures t)[i := Some True], leases := leases t - 1\<rparr>
            in if leases u = 0 then touch u else u)"

definition stopTracker :: "tracker \<Rightarrow> tracker" where
  "stopTracker t =
     (if stopped t then t
      else clearTimer (t\<lparr>stopped := True, generation := generation t + 1\<rparr>))"

text \<open>The callback of a timeout; \<open>g\<close> is the generation it captured.\<close>

definition timeoutCallback :: "nat \<Rightarrow> tracker \<Rightarrow> tracker" where
  "timeoutCallback g t =
     (if stopped t \<or> 0 < leases t \<or> g \<noteq> generation t then t
      else let remaining = IDLE_TIMEOUT_MILLISECONDS - (clock_now t - lastActivity t)
        in if 0 < remaining then armTimer remaining t
           else t\<lparr>stopped := True, timer := None, idle_calls := idle_calls t + 1\<rparr>)"

text \<open>The run-time system runs a timeout that is due, once.\<close>

definition runTimeout :: "nat \<Rightarrow> tracker \<Rightarrow> tracker" where
  "runTimeout h t = (case pending t h of
     None \<Rightarrow> t
   | Some (due, g) \<Rightarrow> timeoutCallback g (t\<lparr>pending := (pending t)(h := None)\<rparr>))"

inductive activity_step :: "tracker \<Rightarrow> tracker \<Rightarrow> bool" where
  time_passes: "0 \<le> d \<Longrightarrow> activity_step t (t\<lparr>elapsed := elapsed t + d, clock_now := now\<rparr>)"
| activity: "activity_step t (touch t)"
| lease: "activity_step t (acquireLease t)"
| release: "i < length (closures t) \<Longrightarrow> activity_step t (releaseLease i t)"
| stop: "activity_step t (stopTracker t)"
| timeout: "pending t h = Some (due, g) \<Longrightarrow> due \<le> elapsed t \<Longrightarrow> activity_step t (runTimeout h t)"

inductive_cases activity_step_cases: "activity_step t u"

section \<open>Invariant\<close>

definition open_leases :: "tracker \<Rightarrow> int" where
  "open_leases t = int (count_list (closures t) (Some False))"

text \<open>The one timeout that may be pending is the one in the field.\<close>

definition only_pending :: "tracker \<Rightarrow> bool" where
  "only_pending t \<longleftrightarrow>
     (case timer t of
        None \<Rightarrow> pending t = (\<lambda>_. None)
      | Some h \<Rightarrow> \<exists>due. pending t = [h \<mapsto> (due, generation t)])"

definition activity_inv :: "tracker \<Rightarrow> bool" where
  "activity_inv t \<longleftrightarrow>
     leases t = open_leases t \<and> only_pending t
     \<and> (timer t = None \<longleftrightarrow> stopped t \<or> 0 < leases t)
     \<and> idle_calls t \<le> (if stopped t then 1 else 0)"

lemma open_leases_nonneg [simp]: "0 \<le> open_leases t"
  by (simp add: open_leases_def)

lemma fields_clearTimer [simp]:
  "leases (clearTimer t) = leases t" "stopped (clearTimer t) = stopped t"
  "generation (clearTimer t) = generation t" "lastActivity (clearTimer t) = lastActivity t"
  "idle_calls (clearTimer t) = idle_calls t" "closures (clearTimer t) = closures t"
  "clock_now (clearTimer t) = clock_now t" "elapsed (clearTimer t) = elapsed t"
  "timer (clearTimer t) = None"
  by (simp_all add: clearTimer_def split: option.splits)

text \<open>What \<open>clearTimer\<close> needs of the state before: a pending timeout is the one in the field.\<close>

definition known_pending :: "tracker \<Rightarrow> bool" where
  "known_pending t \<longleftrightarrow> (\<forall>h. pending t h \<noteq> None \<longrightarrow> timer t = Some h)"

lemma known_none [simp]: "pending t = (\<lambda>_. None) \<Longrightarrow> known_pending t"
  by (simp add: known_pending_def)

lemma only_known: "only_pending t \<Longrightarrow> known_pending t"
  by (auto simp: only_pending_def known_pending_def split: option.splits if_splits)

lemma pending_clearTimer [simp]:
  assumes "known_pending t"
  shows "pending (clearTimer t) = (\<lambda>_. None)"
proof
  fix h
  from assms have "pending t h = None \<or> timer t = Some h" by (cases "pending t h") (auto simp: known_pending_def)
  then show "pending (clearTimer t) h = None" by (auto simp: clearTimer_def split: option.splits)
qed

lemma only_pending_time [simp]:
  "only_pending (t\<lparr>elapsed := e, clock_now := n\<rparr>) = only_pending t"
  by (simp add: only_pending_def cong: option.case_cong)

lemma single_pending [simp]: "\<exists>due. [h \<mapsto> (x, g)] = [h \<mapsto> (due, g)]"
  by blast

lemma fields_armTimer [simp]:
  "leases (armTimer ms t) = leases t" "stopped (armTimer ms t) = stopped t"
  "generation (armTimer ms t) = generation t" "lastActivity (armTimer ms t) = lastActivity t"
  "idle_calls (armTimer ms t) = idle_calls t" "closures (armTimer ms t) = closures t"
  "clock_now (armTimer ms t) = clock_now t" "elapsed (armTimer ms t) = elapsed t"
  "timer (armTimer ms t) = Some (next_handle (clearTimer t))"
  by (simp_all add: armTimer_def setTimeout_def)

lemma pending_armTimer [simp]:
  "known_pending t \<Longrightarrow>
     pending (armTimer ms t) = [next_handle (clearTimer t) \<mapsto> (elapsed t + ms, generation t)]"
  by (simp add: armTimer_def setTimeout_def)

lemma known_pending_update [simp]:
  "known_pending (t\<lparr>generation := g\<rparr>) = known_pending t"
  "known_pending (t\<lparr>lastActivity := n\<rparr>) = known_pending t"
  "known_pending (t\<lparr>leases := l\<rparr>) = known_pending t"
  "known_pending (t\<lparr>closures := c\<rparr>) = known_pending t"
  "known_pending (t\<lparr>stopped := b\<rparr>) = known_pending t"
  by (simp_all add: known_pending_def)

lemma known_pending_fired: "known_pending t \<Longrightarrow> known_pending (t\<lparr>pending := (pending t)(h := None)\<rparr>)"
  by (simp add: known_pending_def)

lemma count_list_update:
  assumes "i < length xs" "xs ! i = x" "y \<noteq> x"
  shows "count_list (xs[i := y]) x + 1 = count_list xs x"
  using assms
proof (induction xs arbitrary: i)
  case (Cons a xs)
  then show ?case by (cases i) auto
qed simp

text \<open>The tracker after an operation that (re)arms or clears the timer.\<close>

lemma activity_inv_armed:
  assumes "known_pending t" "open_leases t = 0" "leases t = 0" "\<not> stopped t" "idle_calls t = 0"
  shows "activity_inv (armTimer ms t)"
  using assms by (simp add: activity_inv_def only_pending_def open_leases_def)

lemma activity_inv_cleared:
  assumes "pending t = (\<lambda>_. None)" "timer t = None" "leases t = open_leases t"
    "stopped t \<or> 0 < leases t" "idle_calls t \<le> (if stopped t then 1 else 0)"
  shows "activity_inv t"
  using assms by (simp add: activity_inv_def only_pending_def)

lemma activity_invD:
  assumes "activity_inv t"
  shows "leases t = open_leases t" "known_pending t" "timer t = None \<longleftrightarrow> stopped t \<or> 0 < leases t"
    "idle_calls t \<le> (if stopped t then 1 else 0)" "stopped t \<or> 0 < leases t \<Longrightarrow> pending t = (\<lambda>_. None)"
  using assms by (auto simp: activity_inv_def only_pending_def dest: only_known split: option.splits)
    (auto simp: known_pending_def split: if_splits)

lemma open_leases_update [simp]:
  "open_leases (t\<lparr>generation := g\<rparr>) = open_leases t"
  "open_leases (t\<lparr>lastActivity := n\<rparr>) = open_leases t"
  "open_leases (t\<lparr>leases := l\<rparr>) = open_leases t"
  "open_leases (t\<lparr>stopped := b\<rparr>) = open_leases t"
  "open_leases (t\<lparr>pending := p\<rparr>) = open_leases t"
  "open_leases (t\<lparr>closures := c\<rparr>) = int (count_list c (Some False))"
  "open_leases (clearTimer t) = open_leases t"
  by (simp_all add: open_leases_def)

lemma open_closure: "i < length (closures t) \<Longrightarrow> closures t ! i = Some False \<Longrightarrow> 0 < open_leases t"
  using nth_mem [of i "closures t"] count_notin [of "closures t ! i" "closures t"]
  by (simp add: open_leases_def) (metis count_list_0_iff neq0_conv)

lemma touch_inv:
  assumes "known_pending t" "leases t = open_leases t" "stopped t \<or> 0 < leases t \<Longrightarrow> activity_inv t"
    "\<not> stopped t \<Longrightarrow> idle_calls t = 0"
  shows "activity_inv (touch t)"
proof -
  consider "stopped t" | "\<not> stopped t" "0 < leases t" | "\<not> stopped t" "leases t = 0"
    using assms(2) open_leases_nonneg [of t] by (smt (verit))
  then show ?thesis
  proof cases
    case 2
    with assms(3) activity_invD [of t] show ?thesis
      by (auto simp: touch_def intro!: activity_inv_cleared)
  next
    case 3
    with assms show ?thesis
      by (simp add: touch_def activity_inv_armed)
  qed (use assms(3) in \<open>simp add: touch_def\<close>)
qed

lemma acquireLease_inv:
  assumes "activity_inv t"
  shows "activity_inv (acquireLease t)"
proof (cases "stopped t")
  case True
  with activity_invD [OF assms] show ?thesis
    by (intro activity_inv_cleared) (auto simp: acquireLease_def open_leases_def)
next
  case False
  with activity_invD [OF assms] show ?thesis
    by (intro activity_inv_cleared) (auto simp: acquireLease_def open_leases_def)
qed

lemma stopTracker_inv:
  assumes "activity_inv t"
  shows "activity_inv (stopTracker t)"
proof (cases "stopped t")
  case False
  with activity_invD [OF assms] show ?thesis
    by (intro activity_inv_cleared) (auto simp: stopTracker_def)
qed (use assms in \<open>simp add: stopTracker_def\<close>)

lemma releaseLease_inv:
  assumes "activity_inv t" "i < length (closures t)"
  shows "activity_inv (releaseLease i t)"
proof (cases "closures t ! i = Some False \<and> \<not> stopped t")
  case False
  with assms show ?thesis by (cases "closures t ! i") (auto simp: releaseLease_def)
next
  case True
  let ?u = "t\<lparr>closures := (closures t)[i := Some True], leases := leases t - 1\<rparr>"
  from count_list_update [OF assms(2), of "Some False" "Some True"] True
  have count: "open_leases ?u + 1 = open_leases t" by (simp add: open_leases_def)
  with assms have closed: "timer t = None" "pending t = (\<lambda>_. None)" "leases ?u = open_leases ?u"
    using open_leases_nonneg [of ?u] by (auto simp: activity_inv_def only_pending_def simp del: open_leases_nonneg)
  show ?thesis
  proof (cases "leases ?u = 0")
    case zero: True
    have "activity_inv (touch ?u)"
      using activity_invD(4) [OF assms(1)] closed True zero by (intro touch_inv) simp_all
    with True zero show ?thesis by (simp add: releaseLease_def Let_def)
  next
    case False
    with closed True assms(1) open_leases_nonneg [of ?u] show ?thesis
      by (auto simp: releaseLease_def Let_def activity_inv_def only_pending_def simp del: open_leases_nonneg)
  qed
qed

text \<open>
  A timeout that runs is never out of date: it re-arms the timer for the rest of the half hour
  or ends the daemon.
\<close>

lemma runTimeout_effect:
  assumes "activity_inv t" "pending t h = Some (due, g)"
  obtains (rearmed) u where "\<not> stopped t" "leases t = 0" "clock_now t - lastActivity t < IDLE_TIMEOUT_MILLISECONDS"
    "u = t\<lparr>pending := (pending t)(h := None)\<rparr>" "known_pending u" "pending u = (\<lambda>_. None)"
    "runTimeout h t = armTimer (IDLE_TIMEOUT_MILLISECONDS - (clock_now t - lastActivity t)) u"
  | (idle) "\<not> stopped t" "leases t = 0" "IDLE_TIMEOUT_MILLISECONDS \<le> clock_now t - lastActivity t"
    "runTimeout h t = t\<lparr>pending := \<lambda>_. None, stopped := True, timer := None, idle_calls := 1\<rparr>"
proof -
  from assms have h: "timer t = Some h" "pending t = [h \<mapsto> (due, generation t)]" "g = generation t"
    by (auto simp: activity_inv_def only_pending_def split: option.splits if_splits)
  with assms(1) have calm: "\<not> stopped t" "leases t = 0" "idle_calls t = 0"
    using open_leases_nonneg [of t] by (auto simp: activity_inv_def simp del: open_leases_nonneg)
  show ?thesis
  proof (cases "IDLE_TIMEOUT_MILLISECONDS \<le> clock_now t - lastActivity t")
    case True
    with h calm idle show ?thesis by (simp add: runTimeout_def timeoutCallback_def)
  next
    case False
    with h calm rearmed [OF _ _ _ refl] show ?thesis
      by (simp add: runTimeout_def timeoutCallback_def known_pending_def)
  qed
qed

lemma runTimeout_inv:
  assumes "activity_inv t" "pending t h = Some (due, g)"
  shows "activity_inv (runTimeout h t)"
  using assms
proof (cases rule: runTimeout_effect)
  case (rearmed u)
  with assms(1) show ?thesis by (simp add: activity_inv_def only_pending_def open_leases_def)
next
  case idle
  with assms(1) show ?thesis by (simp add: activity_inv_def only_pending_def open_leases_def)
qed

lemma startTracker_inv: "activity_inv (startTracker now steady)"
  by (simp add: startTracker_def activity_inv_def only_pending_def open_leases_def known_pending_def)

lemma touch_keeps_inv: "activity_inv t \<Longrightarrow> activity_inv (touch t)"
  using activity_invD [of t] by (intro touch_inv) auto

interpretation activity_system:
  transition_system "\<lambda>t. \<exists>now steady. t = startTracker now steady" activity_step activity_inv
proof
  fix t u
  assume "activity_inv t" "activity_step t u"
  from this(2,1) show "activity_inv u"
  proof cases
    case time_passes
    with \<open>activity_inv t\<close> show ?thesis by (simp add: activity_inv_def open_leases_def)
  qed (auto intro: touch_keeps_inv acquireLease_inv releaseLease_inv stopTracker_inv runTimeout_inv)
qed (auto simp: startTracker_inv)

section \<open>Idleness\<close>

text \<open>The only step that calls \<open>onIdle\<close> is a timeout after half an hour without activity or lease.\<close>

lemma idle_calls_steps [simp]:
  "idle_calls (touch t) = idle_calls t" "idle_calls (acquireLease t) = idle_calls t"
  "idle_calls (stopTracker t) = idle_calls t" "idle_calls (releaseLease i t) = idle_calls t"
  by (simp_all add: touch_def acquireLease_def stopTracker_def releaseLease_def Let_def split: option.splits)

lemma idle_after_silence:
  assumes "activity_inv t" "activity_step t u" "idle_calls u \<noteq> idle_calls t"
  shows "\<not> stopped t \<and> open_leases t = 0 \<and> IDLE_TIMEOUT_MILLISECONDS \<le> clock_now t - lastActivity t
     \<and> idle_calls t = 0 \<and> idle_calls u = 1 \<and> stopped u"
  using assms(2)
proof cases
  case (timeout h due g)
  from assms(1) timeout(2) show ?thesis
  proof (cases rule: runTimeout_effect)
    case (rearmed v)
    with timeout assms(3) show ?thesis by simp
  next
    case idle
    with timeout assms(1) show ?thesis by (simp add: activity_inv_def)
  qed
qed (use assms(3) in simp_all)

text \<open>While the tracker runs without leases, a timeout is pending that decides.\<close>

lemma timeout_decides:
  assumes "activity_inv t" "\<not> stopped t" "open_leases t = 0"
  obtains h due g where "pending t h = Some (due, g)"
    "IDLE_TIMEOUT_MILLISECONDS \<le> clock_now t - lastActivity t \<Longrightarrow>
       stopped (runTimeout h t) \<and> idle_calls (runTimeout h t) = 1"
    "clock_now t - lastActivity t < IDLE_TIMEOUT_MILLISECONDS \<Longrightarrow>
       \<exists>h'. pending (runTimeout h t) =
         [h' \<mapsto> (elapsed t + (IDLE_TIMEOUT_MILLISECONDS - (clock_now t - lastActivity t)), generation t)]"
proof -
  from assms have "timer t \<noteq> None" by (auto simp: activity_inv_def)
  then obtain h where "timer t = Some h" by blast
  with assms(1) obtain due where h: "pending t h = Some (due, generation t)"
    by (auto simp: activity_inv_def only_pending_def)
  show thesis
  proof (rule that [OF h])
    assume "IDLE_TIMEOUT_MILLISECONDS \<le> clock_now t - lastActivity t"
    with assms(1) h show "stopped (runTimeout h t) \<and> idle_calls (runTimeout h t) = 1"
      by (cases rule: runTimeout_effect) simp_all
  next
    assume young: "clock_now t - lastActivity t < IDLE_TIMEOUT_MILLISECONDS"
    from assms(1) h show "\<exists>h'. pending (runTimeout h t) =
         [h' \<mapsto> (elapsed t + (IDLE_TIMEOUT_MILLISECONDS - (clock_now t - lastActivity t)), generation t)]"
    proof (cases rule: runTimeout_effect)
      case (rearmed u)
      then show ?thesis by (intro exI [of _ "next_handle (clearTimer u)"]) simp
    qed (use young in simp)
  qed
qed

text \<open>
  With clocks that run together, the pending timeout is due half an hour after the last
  activity at the latest.
\<close>

inductive steady_step :: "tracker \<Rightarrow> tracker \<Rightarrow> bool" where
  steady_time: "0 \<le> d \<Longrightarrow> steady_step t (t\<lparr>elapsed := elapsed t + d, clock_now := clock_now t + d\<rparr>)"
| steady_other: "activity_step t u \<Longrightarrow> elapsed u = elapsed t \<Longrightarrow> clock_now u = clock_now t \<Longrightarrow> steady_step t u"

definition due_in_time :: "tracker \<Rightarrow> bool" where
  "due_in_time t \<longleftrightarrow> activity_inv t \<and>
     (\<forall>h due g. pending t h = Some (due, g) \<longrightarrow>
        due - elapsed t \<le> IDLE_TIMEOUT_MILLISECONDS - (clock_now t - lastActivity t))"

lemma due_in_time_none:
  assumes "activity_inv u" "pending u = (\<lambda>_. None)"
  shows "due_in_time u"
  using assms by (simp add: due_in_time_def)

lemma due_in_time_armed:
  assumes "activity_inv (armTimer ms t)" "known_pending t"
    "ms \<le> IDLE_TIMEOUT_MILLISECONDS - (clock_now t - lastActivity t)"
  shows "due_in_time (armTimer ms t)"
  using assms by (simp add: due_in_time_def)

lemma due_in_time_start: "due_in_time (startTracker now steady)"
  using startTracker_inv [of now steady] unfolding startTracker_def
  by (rule due_in_time_armed) simp_all

lemma touch_due:
  assumes "due_in_time t"
  shows "due_in_time (touch t)"
proof -
  from assms have inv: "activity_inv t" by (simp add: due_in_time_def)
  note facts = activity_invD [OF inv] and after = touch_keeps_inv [OF inv]
  show ?thesis
  proof (cases "stopped t \<or> leases t \<noteq> 0")
    case True
    with facts open_leases_nonneg [of t] have "pending (touch t) = (\<lambda>_. None)"
      by (auto simp: touch_def simp del: open_leases_nonneg)
    with after show ?thesis by (rule due_in_time_none)
  next
    case False
    let ?u = "t\<lparr>lastActivity := clock_now t, generation := generation t + 1\<rparr>"
    from False have "touch t = armTimer IDLE_TIMEOUT_MILLISECONDS ?u" by (simp add: touch_def)
    with after facts(2) show ?thesis by (simp add: due_in_time_armed)
  qed
qed

lemma steady_keeps_due:
  assumes "due_in_time t" "steady_step t u"
  shows "due_in_time u"
  using assms(2)
proof cases
  case (steady_time d)
  have "activity_inv t" using assms(1) by (simp add: due_in_time_def)
  from activity_system.step_inv [OF this activity_step.time_passes [OF steady_time(2)]] steady_time(1)
  have "activity_inv u" by simp
  with assms(1) steady_time show ?thesis by (simp add: due_in_time_def algebra_simps)
next
  case steady_other
  from assms(1) have inv: "activity_inv t" by (simp add: due_in_time_def)
  note facts = activity_invD [OF inv]
  from activity_system.step_inv [OF inv steady_other(1)] have after: "activity_inv u" .
  from steady_other(1) show ?thesis
  proof cases
    case (time_passes d now)
    with steady_other assms(1) show ?thesis by simp
  next
    case activity
    with touch_due [OF assms(1)] show ?thesis by simp
  next
    case lease
    with facts have "pending u = (\<lambda>_. None)" by (simp add: acquireLease_def Let_def)
    with after show ?thesis by (rule due_in_time_none)
  next
    case (release i)
    show ?thesis
    proof (cases "closures t ! i = Some False \<and> \<not> stopped t")
      case False
      with release have "u = t" by (cases "closures t ! i") (auto simp: releaseLease_def)
      with assms(1) show ?thesis by simp
    next
      case True
      let ?v = "t\<lparr>closures := (closures t)[i := Some True], leases := leases t - 1\<rparr>"
      from True release facts open_closure have none: "pending t = (\<lambda>_. None)" by simp
      show ?thesis
      proof (cases "leases ?v = 0")
        case False
        with True none release after show ?thesis by (simp add: releaseLease_def due_in_time_none)
      next
        case zero: True
        let ?w = "?v\<lparr>lastActivity := clock_now t, generation := generation t + 1\<rparr>"
        have "u = armTimer IDLE_TIMEOUT_MILLISECONDS ?w"
          using True zero release by (simp add: releaseLease_def touch_def)
        with after none show ?thesis by (simp add: due_in_time_armed)
      qed
    qed
  next
    case stop
    with facts have "pending u = (\<lambda>_. None)" by (simp add: stopTracker_def)
    with after show ?thesis by (rule due_in_time_none)
  next
    case (timeout h due g)
    from inv timeout(2) show ?thesis
    proof (cases rule: runTimeout_effect)
      case (rearmed v)
      with timeout after show ?thesis by (simp add: due_in_time_armed)
    next
      case idle
      with timeout after show ?thesis by (simp add: due_in_time_none)
    qed
  qed
qed

interpretation steady_activity:
  transition_system "\<lambda>t. \<exists>now steady. t = startTracker now steady" steady_step due_in_time
  by unfold_locales (auto simp: due_in_time_start steady_keeps_due)

end
