(* ===== verification/Control.thy ===== *)
theory Control
  imports Paging_Facts Js_Number
begin

text \<open>
  The control API of the daemon (\<open>src/daemon/control-api.ts\<close>) and its live stream of events. A
  request is its method, the path name and the decoded search parameters of its URL; a reply is
  a constructor per response of the source, with the fields of its JSON body.
\<close>

section \<open>Requests and replies\<close>

record control_request =
  ctl_method :: string
  ctl_pathname :: string
  ctl_search :: "(string \<times> string) list"

record ingest_location =
  loc_appendPath :: string
  loc_ingestUrl :: string
  loc_sessionId :: string

datatype control_reply =
    SessionMissing
  | LiveEvents string
  | SessionList "session_summary list"
  | ProbeInfo ingest_location
  | StatusReply "diagnostic list" event_summary session
  | BadArguments
  | EpochConflict
  | LogsReply "diagnostic list" event_page
  | Removed string
  | Created ingest_location
  | WasReset ingest_location

fun reply_status :: "control_reply \<Rightarrow> nat" where
  "reply_status SessionMissing = 404"
| "reply_status BadArguments = 400"
| "reply_status EpochConflict = 409"
| "reply_status (Created _) = 201"
| "reply_status _ = 200"

text \<open>\<open>searchParams.get\<close> and \<open>getAll\<close>.\<close>

definition search_get :: "string \<Rightarrow> control_request \<Rightarrow> string option" where
  "search_get k req = map_of (ctl_search req) k"

definition search_all :: "string \<Rightarrow> control_request \<Rightarrow> string list" where
  "search_all k req = map snd (filter (\<lambda>p. fst p = k) (ctl_search req))"

section \<open>Routes\<close>

text \<open>\<open>/^prefix([a-zA-Z0-9_-]+)suffix$/\<close>: the captured identifier.\<close>

definition route :: "string \<Rightarrow> string \<Rightarrow> string \<Rightarrow> string option" where
  "route prefix suffix pathname =
     (if starts_with pathname prefix \<and> ends_with (drop (length prefix) pathname) suffix
      then let rest = drop (length prefix) pathname; sid = take (length rest - length suffix) rest
        in if SAFE_ID sid then Some sid else None
      else None)"

definition sessions_path :: string where
  "sessions_path = ''/v1/control/sessions''"

abbreviation session_route :: "string \<Rightarrow> string \<Rightarrow> string option" where
  "session_route suffix pathname \<equiv> route (sessions_path @ ''/'') suffix pathname"

definition live_route :: "string \<Rightarrow> string option" where
  "live_route pathname = route ''/v1/events/'' [] pathname"

lemma route_path:
  assumes "SAFE_ID sid"
  shows "route prefix suffix (prefix @ sid @ suffix) = Some sid"
  using assms by (simp add: route_def Let_def ends_with_iff)

text \<open>Routes with different suffixes do not overlap: an identifier holds no slash.\<close>

lemma route_slash:
  assumes "CHR ''/'' \<in> set rest" "CHR ''/'' \<notin> set suffix"
  shows "route prefix suffix (prefix @ rest) = None"
proof -
  have "\<not> SAFE_ID (take (length rest - length suffix) rest)" if e: "ends_with rest suffix"
  proof -
    from e obtain r where r: "rest = r @ suffix" by (auto simp: ends_with_iff)
    with assms have "CHR ''/'' \<in> set r" by auto
    with r SAFE_ID_no_sep [of r] show ?thesis by auto
  qed
  then show ?thesis by (auto simp: route_def Let_def)
qed

lemma route_other:
  assumes "SAFE_ID sid" "s \<noteq> t" "CHR ''/'' \<notin> set s" "CHR ''/'' \<notin> set t"
  shows "route prefix (CHR ''/'' # s) (prefix @ sid @ CHR ''/'' # t) = None"
proof -
  have "\<not> SAFE_ID (take (length (sid @ CHR ''/'' # t) - length (CHR ''/'' # s)) (sid @ CHR ''/'' # t))"
    if e: "ends_with (sid @ CHR ''/'' # t) (CHR ''/'' # s)"
  proof -
    from e obtain r where "sid @ CHR ''/'' # t = r @ CHR ''/'' # s" by (auto simp: ends_with_iff)
    then have "CHR ''/'' \<in> set sid \<or> t = s \<or> CHR ''/'' \<in> set r"
      using assms(3,4) by (auto simp: append_eq_append_conv2 Cons_eq_append_conv append_eq_Cons_conv)
    with assms(2) SAFE_ID_no_sep [OF assms(1)] \<open>sid @ CHR ''/'' # t = r @ CHR ''/'' # s\<close> show ?thesis
      using SAFE_ID_no_sep [of r] by auto
  qed
  then show ?thesis by (auto simp: route_def Let_def)
qed

section \<open>The handler\<close>

text \<open>
  What the operations use beside the store: the state root, the origin of the server, the collation
  of \<open>localeCompare\<close>, the random identifiers, the size of a sort chunk, the local day
  \<open>[start, end)\<close> and the clock.
\<close>

record control_env =
  env_root :: string
  env_origin :: string
  env_collate :: "string \<Rightarrow> string \<Rightarrow> int"
  env_uuid :: "nat \<Rightarrow> string"
  env_chunk :: nat
  env_day :: "int \<times> int"
  env_now :: int

definition incomingPath :: "control_env \<Rightarrow> string \<Rightarrow> (daemon, string) op" where
  "incomingPath env sid =
     (case sessionFile (env_root env) sid ''incoming.ndjson'' of Inl e \<Rightarrow> throw e | Inr p \<Rightarrow> ret p)"

definition locationOf :: "control_env \<Rightarrow> string \<Rightarrow> (daemon, ingest_location) op" where
  "locationOf env sid = andThen (incomingPath env sid) (\<lambda>p.
     ret \<lparr>loc_appendPath = p, loc_ingestUrl = env_origin env @ ''/ingest/'' @ sid, loc_sessionId = sid\<rparr>)"

text \<open>\<open>if (!session) return 404\<close>, otherwise the rest.\<close>

definition withSession ::
  "string \<Rightarrow> (session \<Rightarrow> (daemon, control_reply) op) \<Rightarrow> (daemon, control_reply) op" where
  "withSession sid rest = andThen (getSession sid) (\<lambda>found.
     case found of None \<Rightarrow> ret SessionMissing | Some ses \<Rightarrow> rest ses)"

definition statusReply :: "string \<Rightarrow> (daemon, control_reply) op" where
  "statusReply sid = withSession sid (\<lambda>current.
     andThen (readDiagnostics sid) (\<lambda>ds.
     andThen (summarize sid) (\<lambda>sum. ret (StatusReply ds sum current))))"

definition natural_arg :: "int \<Rightarrow> jsnum \<Rightarrow> bool" where
  "natural_arg low n \<longleftrightarrow> is_safe_integer n \<and> low \<le> int_of_num n"

definition number_arg :: "string \<Rightarrow> string \<Rightarrow> control_request \<Rightarrow> jsnum" where
  "number_arg k dflt req = js_number (case search_get k req of None \<Rightarrow> dflt | Some v \<Rightarrow> v)"

definition logs_arguments :: "control_request \<Rightarrow> page_options option" where
  "logs_arguments req =
     (let offset = number_arg ''offset'' ''0'' req; limit = number_arg ''limit'' ''100'' req;
          watermark = map_option js_number (search_get ''watermark'' req)
      in if \<not> natural_arg 0 offset \<or> \<not> natural_arg 1 limit
           \<or> (case watermark of None \<Rightarrow> False | Some w \<Rightarrow> \<not> natural_arg 0 w)
         then None
         else Some \<lparr>page_evidenceEpoch = search_get ''evidenceEpoch'' req,
                    page_hypothesisIds = search_all ''hypothesis'' req,
                    page_limit = nat (int_of_num limit), page_offset = nat (int_of_num offset),
                    page_watermark = map_option (nat \<circ> int_of_num) watermark\<rparr>)"

text \<open>The only caught error of \<open>readPage\<close> is the one for a stale epoch.\<close>

definition catchEpoch :: "(daemon, control_reply) op \<Rightarrow> (daemon, control_reply) op" where
  "catchEpoch m = (\<lambda>s. case m s of (Inl EpochMismatch, t) \<Rightarrow> (Inr EpochConflict, t) | q \<Rightarrow> q)"

definition logsReply :: "control_env \<Rightarrow> control_request \<Rightarrow> string \<Rightarrow> (daemon, control_reply) op" where
  "logsReply env req sid = andThen (readDiagnostics sid) (\<lambda>ds.
     case logs_arguments req of
       None \<Rightarrow> ret BadArguments
     | Some opts \<Rightarrow> catchEpoch
         (andThen (readPage (env_collate env) (env_uuid env) (env_chunk env) sid opts)
            (\<lambda>page. ret (LogsReply ds page))))"

definition or_route :: "(daemon, control_reply option) op option \<Rightarrow> (daemon, control_reply option) op
    \<Rightarrow> (daemon, control_reply option) op" where
  "or_route m rest = (case m of None \<Rightarrow> rest | Some f \<Rightarrow> f)"

abbreviation answered :: "(daemon, control_reply) op \<Rightarrow> (daemon, control_reply option) op" where
  "answered m \<equiv> andThen m (\<lambda>r. ret (Some r))"

abbreviation on_route ::
  "string \<Rightarrow> control_request \<Rightarrow> string option \<Rightarrow> (string \<Rightarrow> (daemon, control_reply) op)
     \<Rightarrow> (daemon, control_reply option) op option" where
  "on_route verb req m f \<equiv>
     (if ctl_method req = verb then map_option (\<lambda>sid. answered (f sid)) m else None)"

definition handleControl :: "control_env \<Rightarrow> control_request \<Rightarrow> (daemon, control_reply option) op" where
  "handleControl env req =
     (let path = ctl_pathname req in
      or_route (on_route ''GET'' req (live_route path) (\<lambda>sid.
        withSession sid (\<lambda>ses. ret (LiveEvents (session_id ses)))))
     (if ctl_method req = ''GET'' \<and> path = sessions_path
      then answered (andThen (listSessions
             (if search_get ''all'' req = Some ''true'' then None else Some (env_day env)) None)
             (\<lambda>l. ret (SessionList l)))
      else
      or_route (on_route ''GET'' req (session_route ''/probe'' path) (\<lambda>sid.
        withSession sid (\<lambda>ses. andThen (locationOf env (session_id ses)) (\<lambda>l. ret (ProbeInfo l)))))
     (or_route (on_route ''GET'' req (session_route ''/logs'' path) (\<lambda>sid.
        withSession sid (\<lambda>ses. logsReply env req (session_id ses))))
     (or_route (on_route ''GET'' req (session_route ''/status'' path) (\<lambda>sid.
        withSession sid (\<lambda>ses. statusReply (session_id ses))))
     (or_route (on_route ''DELETE'' req (session_route [] path) (\<lambda>sid.
        andThen (removeSession sid) (\<lambda>removed.
          ret (if removed then Removed sid else SessionMissing))))
     (if ctl_method req \<noteq> ''POST'' then ret None
      else if path = sessions_path
      then answered (andThen (createSession (env_uuid env) (env_now env)) (\<lambda>ses.
             andThen (locationOf env (session_id ses)) (\<lambda>l. ret (Created l))))
      else
      or_route (map_option (\<lambda>sid. answered
          (andThen (resetSession (env_uuid env) sid) (\<lambda>found.
             case found of
               None \<Rightarrow> ret SessionMissing
             | Some ses \<Rightarrow> andThen (locationOf env (session_id ses)) (\<lambda>l. ret (WasReset l)))))
          (session_route ''/reset'' path))
        (ret None)))))))"

end
