(* ===== verification/Control_Facts.thy ===== *)
theory Control_Facts
  imports Control
begin

text \<open>
  Facts about the control API: which request reaches which operation, that \<open>GET\<close> requests leave the
  evidence alone, and what the log endpoint answers.
\<close>

section \<open>Dispatch\<close>

definition session_path :: "string \<Rightarrow> string \<Rightarrow> string" where
  "session_path sid suffix = sessions_path @ ''/'' @ sid @ suffix"

lemma live_route_control [simp]: "live_route (sessions_path @ r) = None"
  by (simp add: live_route_def route_def sessions_path_def)

lemma sessions_path_neq [simp]: "session_path sid suffix \<noteq> sessions_path"
  by (simp add: session_path_def)

lemma session_route_hit: "SAFE_ID sid \<Longrightarrow> session_route suffix (session_path sid suffix) = Some sid"
  using route_path [of sid "sessions_path @ ''/''" suffix] by (simp add: session_path_def)

lemma session_route_miss:
  "SAFE_ID sid \<Longrightarrow> s \<noteq> t \<Longrightarrow> CHR ''/'' \<notin> set s \<Longrightarrow> CHR ''/'' \<notin> set t \<Longrightarrow>
     session_route (CHR ''/'' # s) (session_path sid (CHR ''/'' # t)) = None"
  using route_other [of sid s t "sessions_path @ ''/''"] by (simp add: session_path_def)

lemma or_route_simps [simp]: "or_route None r = r" "or_route (Some f) r = f"
  by (simp_all add: or_route_def)

lemma handle_logs:
  assumes "SAFE_ID sid" "ctl_method req = ''GET''" "ctl_pathname req = session_path sid ''/logs''"
  shows "handleControl env req = answered (withSession sid (\<lambda>ses. logsReply env req (session_id ses)))"
  using assms session_route_hit [of sid "''/logs''"] session_route_miss [of sid "''probe''" "''logs''"]
  by (simp add: handleControl_def session_path_def)

lemma handle_status:
  assumes "SAFE_ID sid" "ctl_method req = ''GET''" "ctl_pathname req = session_path sid ''/status''"
  shows "handleControl env req = answered (withSession sid (\<lambda>ses. statusReply (session_id ses)))"
  using assms session_route_hit [of sid "''/status''"] session_route_miss [of sid "''probe''" "''status''"]
    session_route_miss [of sid "''logs''" "''status''"]
  by (simp add: handleControl_def session_path_def)

lemma handle_reset:
  assumes "SAFE_ID sid" "ctl_method req = ''POST''" "ctl_pathname req = session_path sid ''/reset''"
  shows "handleControl env req = answered (andThen (resetSession (env_uuid env) sid) (\<lambda>found.
      case found of None \<Rightarrow> ret SessionMissing
      | Some ses \<Rightarrow> andThen (locationOf env (session_id ses)) (\<lambda>l. ret (WasReset l))))"
  using assms session_route_hit [of sid "''/reset''"]
  by (simp add: handleControl_def)

lemma handle_delete:
  assumes "SAFE_ID sid" "ctl_method req = ''DELETE''" "ctl_pathname req = session_path sid []"
  shows "handleControl env req = answered (andThen (removeSession sid) (\<lambda>removed.
      ret (if removed then Removed sid else SessionMissing)))"
  using assms session_route_hit [of sid "[]"]
  by (simp add: handleControl_def)

lemma handle_create:
  assumes "ctl_method req = ''POST''" "ctl_pathname req = sessions_path"
  shows "handleControl env req = answered (andThen (createSession (env_uuid env) (env_now env)) (\<lambda>ses.
      andThen (locationOf env (session_id ses)) (\<lambda>l. ret (Created l))))"
  using assms by (simp add: handleControl_def)

section \<open>Reading requests\<close>

text \<open>All that a page leaves behind is in the directory of sort files.\<close>

definition evidence_part :: "session_dir \<Rightarrow> session_dir" where
  "evidence_part d = d\<lparr>log_sorts := []\<rparr>"

definition same_evidence :: "daemon \<Rightarrow> daemon \<Rightarrow> bool" where
  "same_evidence s t \<longleftrightarrow>
     (\<forall>sid. map_option evidence_part (directory_of t sid) = map_option evidence_part (directory_of s sid))"

abbreviation reads_only :: "(daemon, 'a) op \<Rightarrow> bool" where
  "reads_only m \<equiv> \<forall>s0. keeps (same_evidence s0) m"

lemma keepsE: "keeps (same_evidence s) m \<Longrightarrow> same_evidence s (snd (m s))"
  by (simp add: keeps_def same_evidence_def)

lemma keeps_same_state: "(\<And>s. snd (m s) = s) \<Longrightarrow> keeps P m"
  by (simp add: keeps_def)

lemma keeps_requireSafe [inv_intros]: "keeps P (requireSafe sid)"
  by (simp add: keeps_def requireSafe_def)

lemma keeps_readDirectory [inv_intros]: "keeps P (readDirectory sid f)"
  unfolding readDirectory_def
  by (intro keeps_andThen keeps_requireSafe) (simp add: keeps_def)

lemma keeps_getSession [inv_intros]: "keeps P (getSession sid)"
  unfolding getSession_def
  by (intro keeps_andThen keeps_requireSafe) (simp add: keeps_def)

lemma keeps_mapOp [inv_intros]: "(\<And>x. keeps P (f x)) \<Longrightarrow> keeps P (mapOp f xs)"
  by (induction xs) (auto intro!: inv_intros)

lemma keeps_listSessions [inv_intros]: "keeps P (listSessions window limit)"
  unfolding listSessions_def summarize_def by (intro inv_intros)

lemma keeps_randomUUID [inv_intros]: "keeps (same_evidence s0) (randomUUID uuid)"
  by (simp add: keeps_def randomUUID_def same_evidence_def directory_of_def)

lemma same_evidence_put:
  assumes "same_evidence s0 s" "directory_of s sid = Some d" "evidence_part d' = evidence_part d"
  shows "same_evidence s0 (put_directory sid d' s)"
  unfolding same_evidence_def
proof
  fix k
  show "map_option evidence_part (directory_of (put_directory sid d' s) k) =
      map_option evidence_part (directory_of s0 k)"
    using assms unfolding same_evidence_def
    by (cases "k = sid") (auto simp: put_directory_def directory_of_def update_conv dest: spec [of _ sid])
qed

lemma keeps_changeDirectory:
  assumes "\<And>d. evidence_part (f d) = evidence_part d"
  shows "keeps (same_evidence s0) (changeDirectory sid f)"
  unfolding changeDirectory_def
  by (intro keeps_andThen keeps_requireSafe)
    (auto simp: keeps_def intro!: same_evidence_put assms split: option.splits)

lemma keeps_finallyDo [inv_intros]:
  assumes "keeps P m" "keeps P f"
  shows "keeps P (finallyDo m f)"
proof
  fix s
  assume "P s"
  with assms have "P (snd (f (snd (m s))))" by (simp add: keeps_def)
  then show "P (snd (finallyDo m f s))" by (auto simp: finallyDo_def split: prod.splits sum.splits)
qed

lemma keeps_readPage [inv_intros]: "keeps (same_evidence s0) (readPage collate uuid n sid opts)"
proof -
  have sorts: "keeps (same_evidence s0) (initializeLogSortOperation sid i)"
    "keeps (same_evidence s0) (clearLogSortOperation sid i)" for i
    by (auto simp: initializeLogSortOperation_def clearLogSortOperation_def evidence_part_def
        intro!: inv_intros keeps_changeDirectory)
  show ?thesis
    unfolding readPage_def
    by (auto intro!: inv_intros sorts split: sum.split)
qed

lemma snd_catchEpoch [simp]: "snd (catchEpoch m s) = snd (m s)"
  by (simp add: catchEpoch_def split: prod.splits sum.splits failure.splits)

lemma keeps_catchEpoch [inv_intros]: "keeps P m \<Longrightarrow> keeps P (catchEpoch m)"
  by (simp add: keeps_def)

lemma keeps_withSession [inv_intros]: "(\<And>ses. keeps P (f ses)) \<Longrightarrow> keeps P (withSession sid f)"
  unfolding withSession_def by (auto intro!: inv_intros split: option.split)

lemma keeps_locationOf [inv_intros]: "keeps P (locationOf env sid)"
  unfolding locationOf_def incomingPath_def by (auto intro!: inv_intros split: sum.split)

lemma keeps_logsReply [inv_intros]: "keeps (same_evidence s0) (logsReply env req sid)"
  unfolding logsReply_def readDiagnostics_def readDiagnosticFile_def
  by (auto intro!: inv_intros split: option.split)

lemma keeps_statusReply [inv_intros]: "keeps P (statusReply sid)"
  unfolding statusReply_def readDiagnostics_def readDiagnosticFile_def summarize_def
  by (intro inv_intros)

lemma get_reads_only:
  assumes "ctl_method req = ''GET''"
  shows "keeps (same_evidence s0) (handleControl env req)"
  using assms
  by (auto simp: handleControl_def or_route_def Let_def intro!: inv_intros split: option.split)

section \<open>What the endpoints answer\<close>

lemma getSession_found:
  "SAFE_ID sid \<Longrightarrow> directory_of s sid = Some d \<Longrightarrow> session_json d = Doc ses \<Longrightarrow> getSession sid s = (Inr (Some ses), s)"
  by (simp add: getSession_def document_value_def)

lemma getSession_missing: "SAFE_ID sid \<Longrightarrow> directory_of s sid = None \<Longrightarrow> getSession sid s = (Inr None, s)"
  by (simp add: getSession_def)

lemma session_facts:
  assumes "store_inv rnd s" "directory_of s sid = Some d"
  obtains ses where "session_json d = Doc ses" "session_id ses = sid" "SAFE_ID sid" "dir_ok sid d"
    "getSession sid s = (Inr (Some ses), s)"
    "readDiagnostics sid s = (Inr (dir_diagnostics d), s)"
    "summarize sid s = (Inr \<lparr>eventCount = length (dir_events d), summary_watermark = length (dir_events d)\<rparr>, s)"
proof -
  note safe = store_inv_session(1) [OF assms]
  have ok: "dir_ok sid d" using store_inv_session(3) [OF assms] by simp
  then obtain ses where ses: "session_json d = Doc ses" "session_id ses = sid" by (auto simp: dir_ok_def)
  have events: "events_ndjson d = Some (map Rec (dir_events d))" and logs: "intact (diagnostics_ndjson d)"
    using ok by (auto simp: dir_ok_def intact_def)
  have "foldl max 0 (map sequence (dir_events d)) = length (dir_events d)"
    using ok foldl_max_upt by (simp add: dir_ok_def)
  then have "summarize_lines (map Rec (dir_events d)) =
      \<lparr>eventCount = length (dir_events d), summary_watermark = length (dir_events d)\<rparr>"
    by (intro event_summary.equality) simp_all
  moreover have "lines_or_missing (events_ndjson d) = Inr (map Rec (dir_events d))"
    unfolding lines_or_missing_def by (subst events) simp
  ultimately have "summarize sid s =
      (Inr \<lparr>eventCount = length (dir_events d), summary_watermark = length (dir_events d)\<rparr>, s)"
    by (simp add: summarize_def readDirectory_found [OF safe assms(2)])
  with ses safe ok that getSession_found [OF safe assms(2) ses(1)] show thesis
    using logs by (simp add: readDiagnostics_def readDiagnosticFile_def readDirectory_found [OF safe assms(2)])
qed

lemma control_logs_at:
  assumes inv: "store_inv rnd s" and dir: "directory_of s sid = Some d" "session_json d = Doc ses"
    and req: "ctl_method req = ''GET''" "ctl_pathname req = session_path sid ''/logs''"
      "logs_arguments req = Some opts"
    and fresh: "\<not> stale_epoch opts ses" and safe: "SAFE_ID (env_uuid env (draws s))"
  shows "fst (handleControl env req s) =
      Inr (Some (LogsReply (dir_diagnostics d) (expected_page (env_collate env) opts ses (dir_events d))))"
    "snd (handleControl env req s) = snd (readPage (env_collate env) (env_uuid env) (env_chunk env) sid opts s)"
proof -
  obtain ses' where f: "session_json d = Doc ses'" "session_id ses' = sid" "SAFE_ID sid"
    "getSession sid s = (Inr (Some ses'), s)" "readDiagnostics sid s = (Inr (dir_diagnostics d), s)"
    using session_facts [OF inv dir(1)] by metis
  with dir(2) have ses: "ses' = ses" by simp
  obtain t where page: "readPage (env_collate env) (env_uuid env) (env_chunk env) sid opts s =
      (Inr (expected_page (env_collate env) opts ses (dir_events d)), t)"
    using readPage_at(1) [where uuid = "env_uuid env" and s = s and collate = "env_collate env" and n = "env_chunk env",
        OF inv dir fresh safe]
    by (metis prod.collapse)
  have "catchEpoch (andThen (readPage (env_collate env) (env_uuid env) (env_chunk env) sid opts)
      (\<lambda>page. ret (LogsReply (dir_diagnostics d) page))) s =
    (Inr (LogsReply (dir_diagnostics d) (expected_page (env_collate env) opts ses (dir_events d))), t)"
    by (simp add: catchEpoch_def page)
  then have "logsReply env req sid s =
      (Inr (LogsReply (dir_diagnostics d) (expected_page (env_collate env) opts ses (dir_events d))), t)"
    by (simp add: logsReply_def f req(3))
  then have "handleControl env req s =
      (Inr (Some (LogsReply (dir_diagnostics d) (expected_page (env_collate env) opts ses (dir_events d)))), t)"
    by (simp add: handle_logs [OF f(3) req(1,2)] withSession_def f ses [symmetric])
  with page show "fst (handleControl env req s) =
      Inr (Some (LogsReply (dir_diagnostics d) (expected_page (env_collate env) opts ses (dir_events d))))"
    "snd (handleControl env req s) = snd (readPage (env_collate env) (env_uuid env) (env_chunk env) sid opts s)"
    by simp_all
qed

lemma control_logs_stale:
  assumes inv: "store_inv rnd s" and dir: "directory_of s sid = Some d" "session_json d = Doc ses"
    and req: "ctl_method req = ''GET''" "ctl_pathname req = session_path sid ''/logs''"
      "logs_arguments req = Some opts"
    and stale: "stale_epoch opts ses"
  shows "handleControl env req s = (Inr (Some EpochConflict), s)"
proof -
  obtain ses' where f: "session_json d = Doc ses'" "session_id ses' = sid" "SAFE_ID sid"
    "getSession sid s = (Inr (Some ses'), s)" "readDiagnostics sid s = (Inr (dir_diagnostics d), s)"
    using session_facts [OF inv dir(1)] by metis
  have "catchEpoch (andThen (readPage (env_collate env) (env_uuid env) (env_chunk env) sid opts)
      (\<lambda>page. ret (LogsReply (dir_diagnostics d) page))) s = (Inr EpochConflict, s)"
    by (simp add: catchEpoch_def readPage_stale [OF f(3) dir stale])
  then show ?thesis
    by (simp add: handle_logs [OF f(3) req(1,2)] withSession_def f logsReply_def req(3))
qed

lemma control_status_at:
  assumes "store_inv rnd s" "directory_of s sid = Some d" "session_json d = Doc ses"
    and "ctl_method req = ''GET''" "ctl_pathname req = session_path sid ''/status''"
  shows "handleControl env req s =
    (Inr (Some (StatusReply (dir_diagnostics d)
       \<lparr>eventCount = length (dir_events d), summary_watermark = length (dir_events d)\<rparr> ses)), s)"
proof -
  obtain ses' where f: "session_json d = Doc ses'" "session_id ses' = sid" "SAFE_ID sid"
    "getSession sid s = (Inr (Some ses'), s)" "readDiagnostics sid s = (Inr (dir_diagnostics d), s)"
    "summarize sid s = (Inr \<lparr>eventCount = length (dir_events d), summary_watermark = length (dir_events d)\<rparr>, s)"
    using session_facts [OF assms(1,2)] by metis
  with assms show ?thesis
    by (simp add: handle_status withSession_def statusReply_def)
qed

lemma control_missing:
  assumes "SAFE_ID sid" "directory_of s sid = None" "ctl_method req = ''GET''"
    "ctl_pathname req = session_path sid ''/logs'' \<or> ctl_pathname req = session_path sid ''/status''"
  shows "handleControl env req s = (Inr (Some SessionMissing), s)"
  using assms by (auto simp: handle_logs handle_status withSession_def getSession_missing)

section \<open>Live events\<close>

text \<open>
  One round of the stream of \<open>/v1/events/<id>\<close>: the events read from the file are written as
  server-sent events unless their sequence number was written before. The loop repeats the
  round every 50 ms on whatever the file then holds.
\<close>

definition event_json :: "event \<Rightarrow> json" where
  "event_json ev = JObj
     [(''data'', data ev), (''hypothesisId'', JStr (hypothesisId ev)), (''id'', JStr (event_id ev)),
      (''location'', JStr (location ev)), (''message'', JStr (message ev)),
      (''receivedAt'', JNum (num_of_int (receivedAt ev))),
      (''sequence'', JNum (num_of_int (int (sequence ev)))), (''timestamp'', JNum (timestamp ev))]"

definition live_frame :: "event \<Rightarrow> string" where
  "live_frame ev = ''id: '' @ nat_text (sequence ev) @ [CHR 0x0A] @ ''data: '' @ json_text (event_json ev)
     @ [CHR 0x0A, CHR 0x0A]"

fun live_round :: "nat \<Rightarrow> event list \<Rightarrow> string list \<times> nat" where
  "live_round lastSequence [] = ([], lastSequence)"
| "live_round lastSequence (ev # evs) =
     (if sequence ev \<le> lastSequence then live_round lastSequence evs
      else case live_round (sequence ev) evs of (frames, n) \<Rightarrow> (live_frame ev # frames, n))"

fun live_stream :: "nat \<Rightarrow> event list list \<Rightarrow> string list" where
  "live_stream lastSequence [] = []"
| "live_stream lastSequence (evs # reads) =
     (case live_round lastSequence evs of (frames, n) \<Rightarrow> frames @ live_stream n reads)"

definition live_events :: "event list list \<Rightarrow> string list" where
  "live_events reads = ('': connected'' @ [CHR 0x0A, CHR 0x0A]) # live_stream 0 reads"

text \<open>On events numbered in order, a round writes those above the last number, once each.\<close>

lemma live_round_sorted:
  "sorted_wrt (<) (map sequence evs) \<Longrightarrow>
     live_round n evs = (map live_frame (filter (\<lambda>ev. n < sequence ev) evs), foldl max n (map sequence evs))"
proof (induction evs arbitrary: n)
  case (Cons ev evs)
  show ?case
  proof (cases "sequence ev \<le> n")
    case True
    with Cons show ?thesis by (simp add: max_absorb1)
  next
    case False
    have "filter (\<lambda>e. sequence ev < sequence e) evs = filter (\<lambda>e. n < sequence e) evs"
      using Cons.prems False by (intro filter_cong) auto
    with False Cons show ?thesis by (simp add: max_absorb2)
  qed
qed simp

lemma live_round_numbered:
  assumes "map sequence evs = [1..<length evs + 1]"
  shows "live_round n evs = (map live_frame (drop n evs), max n (length evs))"
proof -
  have "sorted_wrt (<) (map sequence evs)" by (simp only: assms sorted_wrt_upt)
  moreover have "filter (\<lambda>ev. n < sequence ev) evs = drop n evs"
    using assms
  proof (induction evs rule: rev_induct)
    case (snoc ev evs)
    from snoc.prems have seqs: "map sequence evs = [1..<length evs + 1]" "sequence ev = length evs + 1" by auto
    from snoc.IH [OF seqs(1)] seqs(2) show ?case by (cases "n \<le> length evs") auto
  qed simp
  moreover have "foldl max n (map sequence evs) = max n (length evs)"
    unfolding assms by (rule foldl_max_upt_from)
  ultimately show ?thesis by (simp add: live_round_sorted)
qed

text \<open>The reads of a file that only grows, \<open>k\<close> lines at a time.\<close>

lemma live_stream_growing:
  assumes "map sequence evs = [1..<length evs + 1]" "sorted ks" "\<And>k. k \<in> set ks \<Longrightarrow> k \<le> length evs"
  shows "live_stream n (map (\<lambda>k. take k evs) ks) = map live_frame (drop n (take (last (0 # ks)) evs))"
  using assms(2,3)
proof (induction ks arbitrary: n)
  case (Cons k ks)
  have "map sequence (take k evs) = [1..<length (take k evs) + 1]"
  proof -
    have "k \<le> length evs" using Cons.prems(2) by simp
    then show ?thesis by (simp add: take_map [symmetric] assms(1) take_upt del: upt_Suc)
  qed
  from live_round_numbered [OF this] Cons.prems(2) [of k]
  have round: "live_round n (take k evs) = (map live_frame (drop n (take k evs)), max n k)" by simp
  have rest: "live_stream (max n k) (map (\<lambda>k. take k evs) ks) = map live_frame (drop (max n k) (take (last (0 # ks)) evs))"
    using Cons by simp
  show ?case
  proof (cases "ks = []")
    case False
    then have "k \<le> last ks" using Cons.prems(1) by simp
    have "drop n (take k evs) @ drop (max n k) (take (last ks) evs) = drop n (take (last ks) evs)"
    proof (cases "n \<le> k")
      case True
      have "take k evs @ drop k (take (last ks) evs) = take (last ks) evs"
        using \<open>k \<le> last ks\<close> by (metis append_take_drop_id min.absorb1 take_take)
      with True have "drop n (take k evs) @ drop k (take (last ks) evs) = drop n (take (last ks) evs)"
        using Cons.prems(2) [of k] by (metis diff_is_0_eq drop_0 drop_append length_take list.set_intros(1) min.absorb2)
      with True show ?thesis by (simp add: max_absorb2)
    qed (simp add: max_absorb1)
    with round rest False show ?thesis by (simp flip: map_append)
  qed (use round in simp)
qed simp

end
