(* ===== verification/Utf8.thy ===== *)
theory Utf8
  imports Json_Codec
begin

text \<open>
  Well-formed UTF-8. Decoding leaves well-formed text alone, \<open>JSON.stringify\<close> of a value whose
  strings are well formed is well-formed text, and no well-formed string holds a surrogate. So
  a value that is written to a file or a cursor and read back as text is the same value.
\<close>

section \<open>Well-formed text\<close>

inductive utf8_text :: "string \<Rightarrow> bool" where
  utf8_nil: "utf8_text []"
| utf8_one: "code b < 128 \<Longrightarrow> utf8_text s \<Longrightarrow> utf8_text (b # s)"
| utf8_two: "194 \<le> code b \<Longrightarrow> code b < 224 \<Longrightarrow> second_ok b c \<Longrightarrow> utf8_text s \<Longrightarrow> utf8_text (b # c # s)"
| utf8_three: "224 \<le> code b \<Longrightarrow> code b < 240 \<Longrightarrow> second_ok b c \<Longrightarrow> continuation_byte d \<Longrightarrow> utf8_text s \<Longrightarrow>
     utf8_text (b # c # d # s)"
| utf8_four: "240 \<le> code b \<Longrightarrow> code b \<le> 244 \<Longrightarrow> second_ok b c \<Longrightarrow> continuation_byte d \<Longrightarrow> continuation_byte e \<Longrightarrow>
     utf8_text s \<Longrightarrow> utf8_text (b # c # d # e # s)"

declare utf8_nil [simp]

lemma utf8_ascii: "list_all (\<lambda>c. code c < 128) s \<Longrightarrow> utf8_text s"
  by (induction s) (auto intro: utf8_one)

lemma utf8_append: "utf8_text s \<Longrightarrow> utf8_text t \<Longrightarrow> utf8_text (s @ t)"
  by (induction rule: utf8_text.induct) (auto intro: utf8_text.intros)

lemma second_ok_continuation: "second_ok b c \<Longrightarrow> 128 \<le> code c \<and> code c < 192"
  by (auto simp: second_ok_def split: if_splits)

lemma utf8_decode_id: "utf8_text s \<Longrightarrow> utf8_decode s = s"
  by (induction rule: utf8_text.induct) simp_all

lemma no_surrogates_low: "code c \<noteq> 237 \<Longrightarrow> no_surrogates s \<Longrightarrow> no_surrogates (c # s)"
  by (cases s) auto

lemma utf8_no_surrogates: "utf8_text s \<Longrightarrow> no_surrogates s"
proof (induction rule: utf8_text.induct)
  case (utf8_three b c d s)
  then have "code c \<noteq> 237" "code d \<noteq> 237"
    by (auto simp: continuation_byte_def dest: second_ok_continuation)
  moreover have "\<not> (code b = 237 \<and> 160 \<le> code c)" using utf8_three(3) by (auto simp: second_ok_def)
  ultimately show ?case using utf8_three.IH by (auto simp: no_surrogates_low)
qed (auto simp: continuation_byte_def intro!: no_surrogates_low dest!: second_ok_continuation)

section \<open>Text of JSON values\<close>

lemma escape_high: "128 \<le> code c \<Longrightarrow> short_escape c = None"
  by (auto simp: short_escape_def)

lemma escape_keep:
  assumes "128 \<le> code b" "code b = 237 \<longrightarrow> s = [] \<or> code (hd s) < 160"
  shows "escape_text (b # s) = b # escape_text s"
  using assms
  by (subst escape_text.simps(2)) (simp add: escape_high del: escape_text.simps, cases s; cases "tl s"; auto simp del: escape_text.simps)

lemma escape_continuation: "128 \<le> code c \<Longrightarrow> code c \<noteq> 237 \<Longrightarrow> escape_text (c # s) = c # escape_text s"
  by (rule escape_keep) simp_all

lemma escape_lead: "128 \<le> code b \<Longrightarrow> code b = 237 \<longrightarrow> code c < 160 \<Longrightarrow>
    escape_text (b # c # s) = b # escape_text (c # s)"
  by (rule escape_keep) simp_all

lemma code_hex_char: "n < 16 \<Longrightarrow> code (hex_char n) < 128"
  by (drule less_16_cases, elim disjE, drule less_10_cases) (auto simp: hex_char_def)

lemma escape_one:
  assumes "code b < 128"
  shows "\<exists>p. list_all (\<lambda>c. code c < 128) p \<and> escape_text (b # s) = p @ escape_text s"
proof (cases "short_escape b")
  case (Some x)
  then have "code x < 128" by (auto simp: short_escape_def split: if_splits)
  with Some show ?thesis
    by (intro exI [of _ "[CHR 0x5C, x]"]) (simp add: escape_text.simps(2) del: escape_text.simps(1))
next
  case None
  show ?thesis
  proof (cases "code b < 32")
    case True
    then have "code b div 16 < 16" "code b mod 16 < 16" by auto
    with None True show ?thesis
      by (intro exI [of _ "CHR 0x5C # ''u00'' @ [hex_char (code b div 16), hex_char (code b mod 16)]"])
        (simp add: code_hex_char)
  next
    case False
    have "escape_text (b # s) = b # escape_text s"
      using None False assms
      by (subst escape_text.simps(2)) (cases s; cases "tl s"; simp del: escape_text.simps)
    with assms show ?thesis by (intro exI [of _ "[b]"]) simp
  qed
qed

lemma utf8_escape: "utf8_text s \<Longrightarrow> utf8_text (escape_text s)"
proof (induction rule: utf8_text.induct)
  case (utf8_one b s)
  from escape_one [OF utf8_one(1), of s] obtain p where
    "list_all (\<lambda>c. code c < 128) p" "escape_text (b # s) = p @ escape_text s" by blast
  with utf8_one.IH show ?case by (simp add: utf8_append utf8_ascii del: escape_text.simps)
next
  case (utf8_two b c s)
  then have "escape_text (b # c # s) = b # c # escape_text s"
    using second_ok_continuation [OF utf8_two(3)] by (simp add: escape_continuation del: escape_text.simps)
  with utf8_two show ?case by (simp add: utf8_text.utf8_two)
next
  case (utf8_three b c d s)
  have "escape_text (b # c # d # s) = b # escape_text (c # d # s)"
    using utf8_three by (intro escape_lead) (auto simp: second_ok_def)
  then have "escape_text (b # c # d # s) = b # c # d # escape_text s"
    using second_ok_continuation [OF utf8_three(3)] utf8_three(4)
    by (simp add: escape_continuation continuation_byte_def del: escape_text.simps)
  with utf8_three show ?case by (simp add: utf8_text.utf8_three)
next
  case (utf8_four b c d e s)
  then have "escape_text (b # c # d # e # s) = b # c # d # e # escape_text s"
    using second_ok_continuation [OF utf8_four(3)]
    by (simp add: escape_continuation continuation_byte_def del: escape_text.simps)
  with utf8_four show ?case by (simp add: utf8_text.utf8_four)
qed simp

lemma utf8_quote: "utf8_text s \<Longrightarrow> utf8_text (quote_text s)"
  using utf8_escape [of s] by (auto simp: quote_text_def intro!: utf8_append utf8_one)

fun utf8_json :: "json \<Rightarrow> bool" where
  "utf8_json (JStr s) \<longleftrightarrow> utf8_text s"
| "utf8_json (JArr xs) \<longleftrightarrow> list_all utf8_json xs"
| "utf8_json (JObj es) \<longleftrightarrow> list_all (\<lambda>p. utf8_text (fst p) \<and> utf8_json (snd p)) es"
| "utf8_json _ \<longleftrightarrow> True"

lemma nat_text_ascii: "list_all (\<lambda>c. code c < 128) (nat_text n)"
  using nat_text_digits [of n] by (auto simp: list_all_iff is_digit_def)

lemma dec_text_ascii: "list_all (\<lambda>c. code c < 128) (dec_text m e)"
  using nat_text_ascii by (auto simp: dec_text_def Let_def list_all_iff dest: in_set_takeD in_set_dropD)

lemma utf8_join: "list_all utf8_text ps \<Longrightarrow> utf8_text sep \<Longrightarrow> utf8_text (join_with sep ps)"
  by (induction sep ps rule: join_with.induct) (auto intro: utf8_append)

lemma utf8_json_text: "utf8_json v \<Longrightarrow> utf8_text (json_text v)"
proof (induction v rule: json_text.induct)
  case (3 n)
  show ?case
  proof (cases n)
    case (Dec m e)
    then show ?thesis using dec_text_ascii by (simp add: utf8_ascii)
  qed (simp_all add: utf8_ascii)
next
  case (5 xs)
  then have "list_all utf8_text (map json_text xs)" by (auto simp: list_all_iff)
  then show ?case by (auto intro!: utf8_append utf8_join utf8_one)
next
  case (6 es)
  then have "list_all utf8_text (map (\<lambda>p. quote_text (fst p) @ '':'' @ json_text (snd p)) es)"
    by (fastforce simp: list_all_iff intro!: utf8_append utf8_quote utf8_one)
  then show ?case by (auto intro!: utf8_append utf8_join utf8_one)
qed (simp_all add: utf8_ascii utf8_quote)

section \<open>Values read back from their text\<close>

text \<open>Numbers and the order of properties; the strings are covered by \<open>utf8_json\<close>.\<close>

fun numbers_ok :: "json \<Rightarrow> bool" where
  "numbers_ok (JNum n) \<longleftrightarrow> integer_num n"
| "numbers_ok (JArr xs) \<longleftrightarrow> list_all numbers_ok xs"
| "numbers_ok (JObj es) \<longleftrightarrow> list_all (\<lambda>p. numbers_ok (snd p)) es \<and> foldl obj_put [] es = es"
| "numbers_ok _ \<longleftrightarrow> True"

lemma storable_utf8: "utf8_json v \<Longrightarrow> numbers_ok v \<Longrightarrow> storable v"
proof (induction v rule: storable.induct)
  case (4 es)
  then show ?case by (force simp: list_all_iff utf8_no_surrogates)
qed (auto simp: list_all_iff utf8_no_surrogates)

lemma parse_decoded: "utf8_json v \<Longrightarrow> numbers_ok v \<Longrightarrow> parse_json (utf8_decode (json_text v)) = Some v"
  by (simp add: utf8_decode_id utf8_json_text parse_json_text storable_utf8)

end
