(* ===== verification/Cursor.thy ===== *)
theory Cursor
  imports Utf8 Validation
begin

text \<open>
  The signed cursors of paged commands (\<open>src/cli/snapshot-cursor.ts\<close>): a JSON payload in base64url,
  a full stop, and the HMAC of the encoded payload. The HMAC is the argument \<open>hmac\<close> (key and
  message to raw bytes); \<open>Buffer\<close>'s base64url and UTF-8 conversions are modelled.
\<close>

section \<open>base64url\<close>

definition b64_char :: "nat \<Rightarrow> char" where
  "b64_char n = (if n < 26 then char_of (65 + n) else if n < 52 then char_of (71 + n)
     else if n < 62 then char_of (n - 4) else if n = 62 then CHR ''-'' else CHR ''_'')"

fun base64url :: "string \<Rightarrow> string" where
  "base64url [] = []"
| "base64url [a] = [b64_char (code a div 4), b64_char (code a mod 4 * 16)]"
| "base64url [a, b] =
     [b64_char (code a div 4), b64_char (code a mod 4 * 16 + code b div 16), b64_char (code b mod 16 * 4)]"
| "base64url (a # b # c # s) =
     b64_char (code a div 4) # b64_char (code a mod 4 * 16 + code b div 16)
     # b64_char (code b mod 16 * 4 + code c div 64) # b64_char (code c mod 64) # base64url s"

text \<open>\<open>Buffer.from(s, "base64url")\<close> takes both alphabets, skips other characters and stops at \<open>=\<close>.\<close>

definition b64_value :: "char \<Rightarrow> nat option" where
  "b64_value c =
     (if is_upper c then Some (code c - 65) else if is_lower c then Some (code c - 71)
      else if is_digit c then Some (code c + 4)
      else if c = CHR ''-'' \<or> c = CHR ''+'' then Some 62
      else if c = CHR ''_'' \<or> c = CHR ''/'' then Some 63 else None)"

fun sextets_bytes :: "nat list \<Rightarrow> string" where
  "sextets_bytes (w # x # y # z # r) =
     char_of (w * 4 + x div 16) # char_of (x mod 16 * 16 + y div 4) # char_of (y mod 4 * 64 + z)
     # sextets_bytes r"
| "sextets_bytes [w, x, y] = [char_of (w * 4 + x div 16), char_of (x mod 16 * 16 + y div 4)]"
| "sextets_bytes [w, x] = [char_of (w * 4 + x div 16)]"
| "sextets_bytes _ = []"

definition from_base64url :: "string \<Rightarrow> string" where
  "from_base64url s = sextets_bytes (List.map_filter b64_value (takeWhile (\<lambda>c. c \<noteq> CHR ''='') s))"

lemma sextet_bounds: "code a div 4 < 64" "code b div 16 < 16" "code c div 64 < 4"
  by (rule less_mult_imp_div_less, simp)+

lemma b64_value_char [simp]: "n < 64 \<Longrightarrow> b64_value (b64_char n) = Some n"
  by (auto simp: b64_char_def b64_value_def char_class_defs)

lemma b64_char_plain: "n < 64 \<Longrightarrow> b64_char n \<noteq> CHR ''='' \<and> b64_char n \<noteq> CHR ''.'' \<and> code (b64_char n) < 128"
  by (auto simp: b64_char_def dest: arg_cong [of _ _ code])

lemma base64url_shape: "\<exists>ns. base64url s = map b64_char ns \<and> list_all (\<lambda>n. n < 64) ns \<and> sextets_bytes ns = s
    \<and> (s = [] \<longleftrightarrow> ns = [])"
proof (induction s rule: base64url.induct)
  case (2 a)
  show ?case
    using sextet_bounds by (intro exI [of _ "[code a div 4, code a mod 4 * 16]"]) (simp add: mult.commute)
next
  case (3 a b)
  show ?case
    using sextet_bounds (1) [of a] sextet_bounds(2) [of b]
    by (intro exI [of _ "[code a div 4, code a mod 4 * 16 + code b div 16, code b mod 16 * 4]"])
      (auto simp: mult.commute)
next
  case (4 a b c s)
  then obtain ns where ns: "base64url s = map b64_char ns" "list_all (\<lambda>n. n < 64) ns" "sextets_bytes ns = s"
    by blast
  with sextet_bounds(1) [of a] sextet_bounds(2) [of b] sextet_bounds(3) [of c] show ?case
    by (intro exI [of _ "code a div 4 # (code a mod 4 * 16 + code b div 16)
          # (code b mod 16 * 4 + code c div 64) # (code c mod 64) # ns"]) (auto simp: mult.commute)
qed simp

lemma base64url_chars: "c \<in> set (base64url s) \<Longrightarrow> c \<noteq> CHR ''.''"
proof -
  assume "c \<in> set (base64url s)"
  moreover obtain ns where "base64url s = map b64_char ns" "list_all (\<lambda>n. n < 64) ns"
    using base64url_shape by blast
  ultimately obtain n where "n < 64" "c = b64_char n" by (auto simp: list_all_iff)
  with b64_char_plain [of n] show ?thesis by simp
qed

lemma base64url_Nil [simp]: "base64url s = [] \<longleftrightarrow> s = []"
  using base64url_shape [of s] by auto

lemma from_base64url [simp]: "from_base64url (base64url s) = s"
proof -
  obtain ns where ns: "base64url s = map b64_char ns" "list_all (\<lambda>n. n < 64) ns" "sextets_bytes ns = s"
    using base64url_shape by blast
  have "\<forall>c \<in> set (map b64_char ns). c \<noteq> CHR ''=''"
    using ns(2) b64_char_plain by (auto simp: list_all_iff)
  then have tw: "takeWhile (\<lambda>c. c \<noteq> CHR ''='') (map b64_char ns) = map b64_char ns"
    by (simp only: takeWhile_eq_all_conv)
  from ns(2) have mf: "List.map_filter b64_value (map b64_char ns) = ns"
    by (induction ns) (simp_all add: List.map_filter_simps)
  show ?thesis by (simp only: from_base64url_def ns(1) tw mf ns(3))
qed

section \<open>Payloads\<close>

text \<open>\<open>SnapshotCursorPayload\<close>, \<open>QueryContinuation\<close> and \<open>QueryCursorPayload\<close>.\<close>

record snapshot_payload =
  cursor_epoch :: string
  cursor_issuedAt :: jsnum
  cursor_session :: string
  cursor_watermark :: jsnum

datatype continuation =
    Stream (stream_offset: jsnum) (stream_ordinal: jsnum)
  | Spool (spool_offset: jsnum) (spool_id: string)

record query_payload = snapshot_payload +
  cursor_continuation :: continuation
  cursor_hypotheses :: "string list"
  cursor_asJson :: bool
  cursor_limit :: jsnum
  cursor_program :: string
  cursor_slurp :: bool
  cursor_timeout :: jsnum

datatype cursor_error =
  InvalidSnapshotCursor | SnapshotScope | InvalidQueryCursor | QueryScope | QueryCursorStale

definition signature :: "(string \<Rightarrow> string \<Rightarrow> string) \<Rightarrow> string \<Rightarrow> string \<Rightarrow> string" where
  "signature hmac secret payload = base64url (hmac secret payload)"

text \<open>The entries that \<open>{ ...payload, version: 1 }\<close> lists, in the order of the callers' literals.\<close>

definition snapshot_entries :: "snapshot_payload \<Rightarrow> (string \<times> json) list" where
  "snapshot_entries p =
     [(''evidenceEpoch'', JStr (cursor_epoch p)), (''issuedAt'', JNum (cursor_issuedAt p)),
      (''sessionId'', JStr (cursor_session p)), (''watermark'', JNum (cursor_watermark p)),
      (''version'', JNum (Dec 1 0))]"

fun continuation_json :: "continuation \<Rightarrow> json" where
  "continuation_json (Stream offset ordinal) = JObj
     [(''byteOffset'', JNum offset), (''kind'', JStr ''stream''), (''outputOrdinal'', JNum ordinal)]"
| "continuation_json (Spool offset spool) = JObj
     [(''byteOffset'', JNum offset), (''kind'', JStr ''spool''), (''spoolId'', JStr spool)]"

definition query_entries :: "query_payload \<Rightarrow> (string \<times> json) list" where
  "query_entries p =
     [(''continuation'', continuation_json (cursor_continuation p)),
      (''evidenceEpoch'', JStr (cursor_epoch p)),
      (''hypotheses'', JArr (map JStr (cursor_hypotheses p))),
      (''issuedAt'', JNum (cursor_issuedAt p)), (''json'', JBool (cursor_asJson p)),
      (''limit'', JNum (cursor_limit p)), (''program'', JStr (cursor_program p)),
      (''sessionId'', JStr (cursor_session p)), (''slurp'', JBool (cursor_slurp p)),
      (''timeoutMs'', JNum (cursor_timeout p)), (''watermark'', JNum (cursor_watermark p)),
      (''version'', JNum (Dec 1 0))]"

definition sealed :: "(string \<Rightarrow> string \<Rightarrow> string) \<Rightarrow> string \<Rightarrow> json \<Rightarrow> string" where
  "sealed hmac secret v =
     (let encoded = base64url (json_text v) in encoded @ ''.'' @ signature hmac secret encoded)"

definition createSnapshotCursor ::
  "(string \<Rightarrow> string \<Rightarrow> string) \<Rightarrow> string \<Rightarrow> snapshot_payload \<Rightarrow> string" where
  "createSnapshotCursor hmac secret p = sealed hmac secret (JObj (snapshot_entries p))"

definition createQueryCursor ::
  "(string \<Rightarrow> string \<Rightarrow> string) \<Rightarrow> string \<Rightarrow> query_payload \<Rightarrow> string" where
  "createQueryCursor hmac secret p = sealed hmac secret (JObj (query_entries p))"

section \<open>Verification\<close>

text \<open>
  The part both functions share: two non-empty parts, the signature of the first, and a payload
  that is a JSON object. \<open>None\<close> is the \<open>Error\<close> "Invalid ... cursor".
\<close>

definition opened :: "(string \<Rightarrow> string \<Rightarrow> string) \<Rightarrow> string \<Rightarrow> string \<Rightarrow> (string \<times> json) list option" where
  "opened hmac secret cursor =
     (case split_on CHR ''.'' cursor of
        [encoded, provided] \<Rightarrow>
          if encoded = [] \<or> provided = [] then None
          else let expected = signature hmac secret encoded
            in if length provided \<noteq> length expected \<or> provided \<noteq> expected then None
               else (case parse_json (utf8_decode (from_base64url encoded)) of
                   Some (JObj payload) \<Rightarrow> Some payload
                 | _ \<Rightarrow> None)
      | _ \<Rightarrow> None)"

definition safe_at_least :: "int \<Rightarrow> jsnum option \<Rightarrow> bool" where
  "safe_at_least low n = (case n of None \<Rightarrow> False | Some x \<Rightarrow> is_safe_integer x \<and> low \<le> int_of_num x)"

definition verifySnapshotCursor ::
  "(string \<Rightarrow> string \<Rightarrow> string) \<Rightarrow> string \<Rightarrow> string \<Rightarrow> string \<Rightarrow> cursor_error + snapshot_payload" where
  "verifySnapshotCursor hmac secret cursor sid =
     (case opened hmac secret cursor of
        None \<Rightarrow> Inl InvalidSnapshotCursor
      | Some payload \<Rightarrow>
          if field ''version'' payload \<noteq> Some (JNum (Dec 1 0))
            \<or> string_field ''evidenceEpoch'' payload = None
            \<or> number_field ''issuedAt'' payload = None
            \<or> string_field ''sessionId'' payload = None
            \<or> \<not> safe_at_least 0 (number_field ''watermark'' payload)
          then Inl InvalidSnapshotCursor
          else if string_field ''sessionId'' payload \<noteq> Some sid then Inl SnapshotScope
          else Inr \<lparr>cursor_epoch = the (string_field ''evidenceEpoch'' payload),
                    cursor_issuedAt = the (number_field ''issuedAt'' payload),
                    cursor_session = the (string_field ''sessionId'' payload),
                    cursor_watermark = the (number_field ''watermark'' payload)\<rparr>)"

text \<open>\<open>/^[0-9a-f-]{36}$/\<close>\<close>

definition spool_id_ok :: "string \<Rightarrow> bool" where
  "spool_id_ok s \<longleftrightarrow> length s = 36 \<and> list_all (\<lambda>c. is_hex_lower c \<or> c = CHR ''-'') s"

text \<open>\<open>isQueryContinuation\<close>: the continuation an accepted object stands for.\<close>

definition isQueryContinuation :: "json option \<Rightarrow> continuation option" where
  "isQueryContinuation v =
     (case v of
        Some (JObj c) \<Rightarrow>
          if \<not> safe_at_least 0 (number_field ''byteOffset'' c) then None
          else let offset = the (number_field ''byteOffset'' c)
            in if field ''kind'' c = Some (JStr ''stream'') then
                 if safe_at_least 0 (number_field ''outputOrdinal'' c)
                 then Some (Stream offset (the (number_field ''outputOrdinal'' c))) else None
               else if field ''kind'' c = Some (JStr ''spool'') then
                 (case string_field ''spoolId'' c of
                    Some s \<Rightarrow> if spool_id_ok s then Some (Spool offset s) else None
                  | None \<Rightarrow> None)
               else None
      | _ \<Rightarrow> None)"

definition bool_field :: "string \<Rightarrow> (string \<times> json) list \<Rightarrow> bool option" where
  "bool_field k raw = (case field k raw of Some (JBool b) \<Rightarrow> Some b | _ \<Rightarrow> None)"

fun text_of :: "json \<Rightarrow> string option" where
  "text_of (JStr s) = Some s"
| "text_of _ = None"

text \<open>An array all of whose items are strings.\<close>

definition strings_field :: "string \<Rightarrow> (string \<times> json) list \<Rightarrow> string list option" where
  "strings_field k raw = (case field k raw of
     Some (JArr xs) \<Rightarrow> if list_all (\<lambda>x. text_of x \<noteq> None) xs then Some (map (the \<circ> text_of) xs) else None
   | _ \<Rightarrow> None)"

definition program_ok :: "string option \<Rightarrow> bool" where
  "program_ok s = (case s of None \<Rightarrow> False | Some p \<Rightarrow> 1 \<le> js_length p \<and> js_length p \<le> 4096)"

definition continuation_fits :: "bool option \<Rightarrow> continuation option \<Rightarrow> bool" where
  "continuation_fits slurp c = (case (slurp, c) of
     (Some s, Some (Spool _ _)) \<Rightarrow> s
   | (Some s, Some (Stream _ _)) \<Rightarrow> \<not> s
   | _ \<Rightarrow> False)"

definition query_payload_ok :: "(string \<times> json) list \<Rightarrow> bool" where
  "query_payload_ok payload \<longleftrightarrow>
     field ''version'' payload = Some (JNum (Dec 1 0))
     \<and> number_field ''issuedAt'' payload \<noteq> None
     \<and> string_field ''sessionId'' payload \<noteq> None
     \<and> safe_at_least 0 (number_field ''watermark'' payload)
     \<and> string_field ''evidenceEpoch'' payload \<noteq> None
     \<and> safe_at_least 1 (number_field ''limit'' payload)
     \<and> safe_at_least 1 (number_field ''timeoutMs'' payload)
     \<and> program_ok (string_field ''program'' payload)
     \<and> bool_field ''json'' payload \<noteq> None
     \<and> strings_field ''hypotheses'' payload \<noteq> None
     \<and> continuation_fits (bool_field ''slurp'' payload) (isQueryContinuation (field ''continuation'' payload))"

definition query_payload_of :: "(string \<times> json) list \<Rightarrow> query_payload" where
  "query_payload_of payload =
     \<lparr>cursor_epoch = the (string_field ''evidenceEpoch'' payload),
      cursor_issuedAt = the (number_field ''issuedAt'' payload),
      cursor_session = the (string_field ''sessionId'' payload),
      cursor_watermark = the (number_field ''watermark'' payload),
      cursor_continuation = the (isQueryContinuation (field ''continuation'' payload)),
      cursor_hypotheses = the (strings_field ''hypotheses'' payload),
      cursor_asJson = the (bool_field ''json'' payload),
      cursor_limit = the (number_field ''limit'' payload),
      cursor_program = the (string_field ''program'' payload),
      cursor_slurp = the (bool_field ''slurp'' payload),
      cursor_timeout = the (number_field ''timeoutMs'' payload)\<rparr>"

definition verifyQueryCursor ::
  "(string \<Rightarrow> string \<Rightarrow> string) \<Rightarrow> string \<Rightarrow> string \<Rightarrow> string \<Rightarrow> string \<Rightarrow> cursor_error + query_payload" where
  "verifyQueryCursor hmac secret cursor epoch sid =
     (case opened hmac secret cursor of
        None \<Rightarrow> Inl InvalidQueryCursor
      | Some payload \<Rightarrow>
          if \<not> query_payload_ok payload then Inl InvalidQueryCursor
          else if string_field ''sessionId'' payload \<noteq> Some sid then Inl QueryScope
          else if string_field ''evidenceEpoch'' payload \<noteq> Some epoch then Inl QueryCursorStale
          else Inr (query_payload_of payload))"

section \<open>What a cursor gives back\<close>

lemma opened_sealed:
  assumes "utf8_json (JObj es)" "numbers_ok (JObj es)" "hmac secret (base64url (json_text (JObj es))) \<noteq> []"
  shows "opened hmac secret (sealed hmac secret (JObj es)) = Some es"
proof -
  let ?e = "base64url (json_text (JObj es))"
  have "CHR ''.'' \<notin> set ?e" "CHR ''.'' \<notin> set (signature hmac secret ?e)"
    using base64url_chars by (auto simp: signature_def)
  then have "split_on CHR ''.'' (sealed hmac secret (JObj es)) = [?e, signature hmac secret ?e]"
    by (simp add: sealed_def Let_def split_on_append_sep split_on_no_sep del: json_text.simps)
  moreover have "?e \<noteq> []" "signature hmac secret ?e \<noteq> []"
    using assms(3) by (simp_all add: signature_def)
  moreover have "parse_json (utf8_decode (from_base64url ?e)) = Some (JObj es)"
    by (simp only: from_base64url parse_decoded [OF assms(1,2)])
  ultimately show ?thesis by (simp add: opened_def Let_def del: json_text.simps)
qed

text \<open>An accepted cursor is its payload and the signature of that payload.\<close>

lemma opened_authentic:
  assumes "opened hmac secret cursor = Some es"
  obtains encoded where "cursor = encoded @ ''.'' @ signature hmac secret encoded"
    "parse_json (utf8_decode (from_base64url encoded)) = Some (JObj es)"
proof -
  from assms obtain encoded provided where parts: "split_on CHR ''.'' cursor = [encoded, provided]"
    "provided = signature hmac secret encoded"
    "parse_json (utf8_decode (from_base64url encoded)) = Some (JObj es)"
    by (auto simp: opened_def Let_def split: list.splits if_splits option.splits json.splits)
  from parts(1) join_split [of "CHR ''.''" cursor] have "cursor = encoded @ ''.'' @ provided" by simp
  with parts that show thesis by blast
qed

text \<open>Payloads that survive: integers, well-formed text, and what verification asks for.\<close>

definition natural_num :: "jsnum \<Rightarrow> bool" where
  "natural_num n \<longleftrightarrow> integer_num n \<and> is_safe_integer n \<and> 0 \<le> int_of_num n"

definition snapshot_fits :: "snapshot_payload \<Rightarrow> bool" where
  "snapshot_fits p \<longleftrightarrow> utf8_text (cursor_epoch p) \<and> utf8_text (cursor_session p)
     \<and> integer_num (cursor_issuedAt p) \<and> natural_num (cursor_watermark p)"

fun continuation_fine :: "bool \<Rightarrow> continuation \<Rightarrow> bool" where
  "continuation_fine slurp (Stream offset ordinal) \<longleftrightarrow> \<not> slurp \<and> natural_num offset \<and> natural_num ordinal"
| "continuation_fine slurp (Spool offset spool) \<longleftrightarrow> slurp \<and> natural_num offset \<and> spool_id_ok spool"

definition query_fits :: "query_payload \<Rightarrow> bool" where
  "query_fits p \<longleftrightarrow> utf8_text (cursor_epoch p) \<and> utf8_text (cursor_session p)
     \<and> integer_num (cursor_issuedAt p) \<and> natural_num (cursor_watermark p)
     \<and> continuation_fine (cursor_slurp p) (cursor_continuation p)
     \<and> list_all utf8_text (cursor_hypotheses p) \<and> utf8_text (cursor_program p)
     \<and> program_ok (Some (cursor_program p))
     \<and> natural_num (cursor_limit p) \<and> 1 \<le> int_of_num (cursor_limit p)
     \<and> natural_num (cursor_timeout p) \<and> 1 \<le> int_of_num (cursor_timeout p)"

lemma obj_put_fresh: "k \<notin> fst ` set es \<Longrightarrow> \<not> is_index_key k \<Longrightarrow> obj_put es (k, v) = es @ [(k, v)]"
  by (simp add: obj_put_def Let_def)

lemma foldl_obj_put:
  "distinct (map fst es) \<Longrightarrow> list_all (\<lambda>k. \<not> is_index_key k) (map fst es) \<Longrightarrow> foldl obj_put [] es = es"
proof (induction es rule: rev_induct)
  case (snoc kv es)
  then show ?case by (cases kv) (auto simp: obj_put_fresh)
qed simp

lemma not_index_key: "\<not> is_digit (hd k) \<Longrightarrow> \<not> is_index_key k"
  by (cases k) (auto simp: is_index_key_def)

lemma letter_key: "k \<in> set [''evidenceEpoch'', ''issuedAt'', ''sessionId'', ''watermark'', ''version'',
    ''continuation'', ''hypotheses'', ''json'', ''limit'', ''program'', ''slurp'', ''timeoutMs'',
    ''byteOffset'', ''kind'', ''outputOrdinal'', ''spoolId''] \<Longrightarrow>
    \<not> is_index_key k \<and> utf8_text k"
  by (auto intro!: not_index_key utf8_ascii simp: is_digit_def)

lemma letter_keys_put:
  "distinct (map fst es) \<Longrightarrow> set (map fst es) \<subseteq> set [''evidenceEpoch'', ''issuedAt'', ''sessionId'',
    ''watermark'', ''version'', ''continuation'', ''hypotheses'', ''json'', ''limit'', ''program'', ''slurp'',
    ''timeoutMs'', ''byteOffset'', ''kind'', ''outputOrdinal'', ''spoolId''] \<Longrightarrow> foldl obj_put [] es = es"
  by (rule foldl_obj_put) (use letter_key in \<open>auto simp only: list_all_iff\<close>)

lemma version_num: "integer_num (Dec 1 0)"
  by (simp add: norm_dec.simps nat_text.simps)

lemma snapshot_storable:
  assumes "snapshot_fits p"
  shows "utf8_json (JObj (snapshot_entries p))" "numbers_ok (JObj (snapshot_entries p))"
proof -
  have "foldl obj_put [] (snapshot_entries p) = snapshot_entries p"
    by (rule letter_keys_put) (simp_all add: snapshot_entries_def)
  with assms show "numbers_ok (JObj (snapshot_entries p))"
    using version_num by (simp add: snapshot_entries_def snapshot_fits_def natural_num_def del: integer_num.simps)
  show "utf8_json (JObj (snapshot_entries p))"
    using assms by (simp add: snapshot_entries_def snapshot_fits_def letter_key)
qed

lemma continuation_storable:
  assumes "continuation_fine slurp c"
  shows "utf8_json (continuation_json c)" "numbers_ok (continuation_json c)"
proof -
  have ascii: "utf8_text ''stream''" "utf8_text ''spool''" by (simp_all add: utf8_ascii)
  have spool: "utf8_text s" if "spool_id_ok s" for s
    using that by (intro utf8_ascii) (auto simp: spool_id_ok_def list_all_iff is_hex_lower_def is_digit_def)
  show "utf8_json (continuation_json c)"
    using assms ascii spool by (cases c) (simp_all add: letter_key)
  have put: "foldl obj_put [] [(''byteOffset'', a), (''kind'', b), (x, v)] = [(''byteOffset'', a), (''kind'', b), (x, v)]"
    if "x \<in> {''outputOrdinal'', ''spoolId''}" for a b x v
    using that by (intro letter_keys_put) auto
  show "numbers_ok (continuation_json c)"
    using assms by (cases c) (simp_all add: put natural_num_def del: integer_num.simps foldl.simps)
qed

lemma query_storable:
  assumes "query_fits p"
  shows "utf8_json (JObj (query_entries p))" "numbers_ok (JObj (query_entries p))"
proof -
  have "foldl obj_put [] (query_entries p) = query_entries p"
    by (rule letter_keys_put) (simp_all add: query_entries_def)
  moreover have "list_all numbers_ok (map JStr xs)" for xs by (simp add: list_all_iff)
  moreover have "numbers_ok (continuation_json (cursor_continuation p))"
    using assms by (auto simp: query_fits_def intro: continuation_storable(2))
  ultimately show "numbers_ok (JObj (query_entries p))"
    using assms version_num
    by (simp add: query_entries_def query_fits_def natural_num_def del: integer_num.simps foldl.simps)
  have "list_all utf8_json (map JStr xs)" if "list_all utf8_text xs" for xs
    using that by (simp add: list_all_iff)
  moreover have "utf8_json (continuation_json (cursor_continuation p))"
    using assms by (auto simp: query_fits_def intro: continuation_storable(1))
  ultimately show "utf8_json (JObj (query_entries p))"
    using assms by (simp add: query_entries_def query_fits_def letter_key)
qed

lemma natural_safe [simp]: "natural_num n \<Longrightarrow> safe_at_least 0 (Some n)"
  by (simp add: natural_num_def safe_at_least_def)

lemma isQueryContinuation_json:
  "continuation_fine slurp c \<Longrightarrow> isQueryContinuation (Some (continuation_json c)) = Some c"
  by (cases c) (simp_all add: isQueryContinuation_def number_field_def string_field_def field_def Let_def)

lemma strings_field_json: "strings_field k ((k, JArr (map JStr xs)) # es) = Some xs"
  by (simp add: strings_field_def field_def comp_def list_all_iff)

text \<open>\<open>hmac\<close> yields 32 bytes; all that is needed is that it yields some.\<close>

lemma snapshot_round_trip:
  assumes "snapshot_fits p" "[] \<notin> range (hmac secret)"
  shows "verifySnapshotCursor hmac secret (createSnapshotCursor hmac secret p) (cursor_session p) = Inr p"
proof -
  have "opened hmac secret (createSnapshotCursor hmac secret p) = Some (snapshot_entries p)"
    unfolding createSnapshotCursor_def using snapshot_storable [OF assms(1)] assms(2) by (intro opened_sealed) (auto dest: sym)
  with assms(1) show ?thesis
    by (simp add: verifySnapshotCursor_def snapshot_entries_def string_field_def number_field_def field_def
        snapshot_fits_def)
qed

lemmas field_defs = string_field_def number_field_def bool_field_def field_def

lemma query_entries_fields [simp]:
  "field ''version'' (query_entries p) = Some (JNum (Dec 1 0))"
  "number_field ''issuedAt'' (query_entries p) = Some (cursor_issuedAt p)"
  "string_field ''sessionId'' (query_entries p) = Some (cursor_session p)"
  "number_field ''watermark'' (query_entries p) = Some (cursor_watermark p)"
  "string_field ''evidenceEpoch'' (query_entries p) = Some (cursor_epoch p)"
  "number_field ''limit'' (query_entries p) = Some (cursor_limit p)"
  "number_field ''timeoutMs'' (query_entries p) = Some (cursor_timeout p)"
  "string_field ''program'' (query_entries p) = Some (cursor_program p)"
  "bool_field ''json'' (query_entries p) = Some (cursor_asJson p)"
  "bool_field ''slurp'' (query_entries p) = Some (cursor_slurp p)"
  "field ''continuation'' (query_entries p) = Some (continuation_json (cursor_continuation p))"
  "strings_field ''hypotheses'' (query_entries p) = Some (cursor_hypotheses p)"
  by (simp_all add: query_entries_def field_defs strings_field_def comp_def list_all_iff)

lemma query_payload_valid:
  assumes "query_fits p"
  shows "query_payload_ok (query_entries p)" "query_payload_of (query_entries p) = p"
proof -
  have "isQueryContinuation (Some (continuation_json (cursor_continuation p))) = Some (cursor_continuation p)"
    using assms by (auto simp: query_fits_def intro: isQueryContinuation_json)
  moreover have "continuation_fits (Some (cursor_slurp p)) (Some (cursor_continuation p))"
    using assms by (cases "cursor_continuation p") (auto simp: query_fits_def continuation_fits_def)
  ultimately show "query_payload_of (query_entries p) = p" "query_payload_ok (query_entries p)"
    using assms by (simp_all add: query_payload_of_def query_payload_ok_def query_fits_def natural_num_def
        safe_at_least_def)
qed

lemma opened_query:
  assumes "query_fits p" "[] \<notin> range (hmac secret)"
  shows "opened hmac secret (createQueryCursor hmac secret p) = Some (query_entries p)"
  unfolding createQueryCursor_def using query_storable [OF assms(1)] assms(2) by (intro opened_sealed) (auto dest: sym)

lemma query_round_trip:
  assumes "query_fits p" "[] \<notin> range (hmac secret)"
  shows "verifyQueryCursor hmac secret (createQueryCursor hmac secret p) epoch sid =
    (if sid \<noteq> cursor_session p then Inl QueryScope
     else if epoch \<noteq> cursor_epoch p then Inl QueryCursorStale else Inr p)"
  using opened_query [where hmac = hmac and secret = secret, OF assms] query_payload_valid [OF assms(1)] by (simp add: verifyQueryCursor_def)

text \<open>A query cursor also passes for a snapshot cursor of its session.\<close>

lemma query_cursor_as_snapshot:
  assumes "query_fits p" "[] \<notin> range (hmac secret)"
  shows "verifySnapshotCursor hmac secret (createQueryCursor hmac secret p) (cursor_session p) =
    Inr \<lparr>cursor_epoch = cursor_epoch p, cursor_issuedAt = cursor_issuedAt p,
         cursor_session = cursor_session p, cursor_watermark = cursor_watermark p\<rparr>"
  using opened_query [where hmac = hmac and secret = secret, OF assms] assms(1) by (simp add: verifySnapshotCursor_def query_fits_def)

text \<open>Whatever is accepted is signed with the secret and is for the session asked for.\<close>

lemma snapshot_accepted:
  assumes "verifySnapshotCursor hmac secret cursor sid = Inr p"
  obtains encoded es where "cursor = encoded @ ''.'' @ signature hmac secret encoded"
    "parse_json (utf8_decode (from_base64url encoded)) = Some (JObj es)"
    "cursor_session p = sid" "is_safe_integer (cursor_watermark p)" "0 \<le> int_of_num (cursor_watermark p)"
proof -
  from assms obtain es where es: "opened hmac secret cursor = Some es"
    by (auto simp: verifySnapshotCursor_def split: option.splits)
  from opened_authentic [OF es] obtain encoded where e:
    "cursor = encoded @ ''.'' @ signature hmac secret encoded"
    "parse_json (utf8_decode (from_base64url encoded)) = Some (JObj es)" .
  from assms es have p: "string_field ''sessionId'' es = Some sid" "cursor_session p = sid"
    "number_field ''watermark'' es = Some (cursor_watermark p)" "safe_at_least 0 (number_field ''watermark'' es)"
    by (auto simp: verifySnapshotCursor_def safe_at_least_def split: if_splits option.splits)
  show thesis
    by (rule that [OF e]) (use p in \<open>auto simp: safe_at_least_def\<close>)
qed

end
