(* ===== verification/Client.thy ===== *)
theory Client
  imports Control_Facts Cursor
begin

text \<open>
  The client side shared by the commands: the errors they meet, requests to the control API
  (\<open>src/cli/daemon-client.ts\<close>), the mapping of errors to command errors and exit codes
  (\<open>src/commands/errors.ts\<close>, \<open>src/cli/exit-codes.ts\<close>), and the path segment of a session
  (\<open>src/cli/session-path.ts\<close>).

  The transport is the daemon's handler itself: \<open>handle\<close> is \<open>handleControl\<close> of some environment
  when a command runs against the daemon of this development.
\<close>

section \<open>Errors\<close>

datatype thrown =
    VersionIncompatible string
  | InvalidSessionIdError
  | ControlFailure (failure_code: string) nat string
  | CursorFailure cursor_error
  | EvidenceMalformedError string
  | QueryTimeoutError jsnum
  | QuerySpoolUnavailableError string
  | OtherError string "string option"
  | NotAnError

text \<open>\<open>OtherError\<close> is an \<open>Error\<close> of the runtime with its \<open>code\<close>, when it has one.\<close>

fun cursor_message :: "cursor_error \<Rightarrow> string" where
  "cursor_message InvalidSnapshotCursor = ''Invalid snapshot cursor''"
| "cursor_message SnapshotScope = ''Snapshot cursor scope does not match''"
| "cursor_message InvalidQueryCursor = ''Invalid query cursor''"
| "cursor_message QueryScope = ''Query cursor scope does not match''"
| "cursor_message QueryCursorStale = ''Query cursor is stale because the session evidence was reset.''"

fun thrown_message :: "thrown \<Rightarrow> string option" where
  "thrown_message (VersionIncompatible m) = Some m"
| "thrown_message InvalidSessionIdError = Some ''Session ID must be a canonical UUID.''"
| "thrown_message (ControlFailure c status m) = Some m"
| "thrown_message (CursorFailure e) = Some (cursor_message e)"
| "thrown_message (EvidenceMalformedError m) = Some m"
| "thrown_message (QueryTimeoutError ms) = Some (''Query exceeded the '' @ num_text ms @ ''ms execution timeout'')"
| "thrown_message (QuerySpoolUnavailableError m) = Some m"
| "thrown_message (OtherError m c) = Some m"
| "thrown_message NotAnError = None"

fun thrown_code :: "thrown \<Rightarrow> string option" where
  "thrown_code (ControlFailure c status m) = Some c"
| "thrown_code InvalidSessionIdError = Some ''INVALID_ARGUMENTS''"
| "thrown_code (CursorFailure QueryCursorStale) = Some ''CURSOR_STALE''"
| "thrown_code (EvidenceMalformedError m) = Some ''EVIDENCE_MALFORMED''"
| "thrown_code (QuerySpoolUnavailableError m) = Some ''QUERY_RESOURCE_EXHAUSTED''"
| "thrown_code (OtherError m c) = c"
| "thrown_code _ = None"

record command_error =
  err_code :: string
  err_message :: string
  err_hint :: "string option"

definition commandError :: "thrown \<Rightarrow> string \<Rightarrow> string \<Rightarrow> command_error" where
  "commandError e fallbackCode fallbackMessage =
     \<lparr>err_code = (case e of
          VersionIncompatible _ \<Rightarrow> ''VERSION_INCOMPATIBLE''
        | InvalidSessionIdError \<Rightarrow> ''INVALID_ARGUMENTS''
        | ControlFailure c _ _ \<Rightarrow> c
        | _ \<Rightarrow> fallbackCode),
      err_message = (case thrown_message e of Some m \<Rightarrow> m | None \<Rightarrow> fallbackMessage),
      err_hint = None\<rparr>"

section \<open>Exit codes\<close>

definition ERROR_EXIT_CODES :: "(string \<times> nat) list" where
  "ERROR_EXIT_CODES =
     [(''COLLECTION_REQUIRED'', 2), (''DAEMON_UNAVAILABLE'', 4), (''EVIDENCE_MALFORMED'', 6),
      (''INVALID_ARGUMENTS'', 2), (''SESSION_AMBIGUOUS'', 5), (''SESSION_NOT_FOUND'', 5),
      (''UNSUPPORTED_LANGUAGE'', 2), (''UNSUPPORTED_TEMPLATE'', 2), (''VERSION_INCOMPATIBLE'', 3)]"

text \<open>A property of \<open>Object.prototype\<close> is found in the table, and is no number.\<close>

definition exitCodeForError :: "string \<Rightarrow> nat option" where
  "exitCodeForError errorCode =
     (case map_of ERROR_EXIT_CODES errorCode of
        Some n \<Rightarrow> Some n
      | None \<Rightarrow> if errorCode \<in> set prototype_keys then None else Some 1)"

section \<open>Requests\<close>

type_synonym 'a client_op = "daemon \<Rightarrow> (thrown + 'a) \<times> daemon"

definition attempt :: "'a client_op \<Rightarrow> ('a \<Rightarrow> 'b client_op) \<Rightarrow> 'b client_op" where
  "attempt m f = (\<lambda>s. case m s of (Inl e, t) \<Rightarrow> (Inl e, t) | (Inr x, t) \<Rightarrow> f x t)"

definition give :: "'a \<Rightarrow> 'a client_op" where
  "give x = (\<lambda>s. (Inr x, s))"

definition raise :: "thrown + 'a \<Rightarrow> 'a client_op" where
  "raise r = (\<lambda>s. (r, s))"

lemma client_simps [simp]:
  "give x s = (Inr x, s)" "raise r s = (r, s)"
  "m s = (Inr x, t) \<Longrightarrow> attempt m f s = f x t"
  "m s = (Inl e, t) \<Longrightarrow> attempt m f s = (Inl e, t)"
  by (simp_all add: give_def raise_def attempt_def)

text \<open>The \<open>code\<close> and \<open>message\<close> of the body of an error response.\<close>

fun reply_code :: "control_reply \<Rightarrow> string option" where
  "reply_code SessionMissing = Some ''SESSION_NOT_FOUND''"
| "reply_code BadArguments = Some ''INVALID_ARGUMENTS''"
| "reply_code EpochConflict = Some ''CURSOR_STALE''"
| "reply_code _ = None"

fun reply_message :: "control_reply \<Rightarrow> string option" where
  "reply_message EpochConflict = Some ''Evidence cursor is stale because the session was reset.''"
| "reply_message _ = None"

definition request_failure :: "nat \<Rightarrow> string option \<Rightarrow> string option \<Rightarrow> thrown" where
  "request_failure status c m = ControlFailure
     (case c of Some x \<Rightarrow> x | None \<Rightarrow> ''DAEMON_UNAVAILABLE'') status
     (case m of Some x \<Rightarrow> x
      | None \<Rightarrow> ''Daemon control request failed with status '' @ nat_text status @ ''.'')"

text \<open>The server answers 500 when the handler throws and 404 when it has no reply.\<close>

definition requestDaemonControl ::
  "(control_request \<Rightarrow> (daemon, control_reply option) op) \<Rightarrow> control_request \<Rightarrow> control_reply client_op" where
  "requestDaemonControl handle req = (\<lambda>s. case handle req s of
       (Inl e, t) \<Rightarrow> (Inl (request_failure 500 None None), t)
     | (Inr None, t) \<Rightarrow> (Inl (request_failure 404 None None), t)
     | (Inr (Some r), t) \<Rightarrow>
         if 200 \<le> reply_status r \<and> reply_status r < 300 then (Inr r, t)
         else (Inl (request_failure (reply_status r) (reply_code r) (reply_message r)), t))"

definition sessionPathSegment :: "string \<Rightarrow> thrown + string" where
  "sessionPathSegment sid = (if isCanonicalSessionId sid then Inr sid else Inl InvalidSessionIdError)"

definition get_request :: "string \<Rightarrow> (string \<times> string) list \<Rightarrow> control_request" where
  "get_request path search = \<lparr>ctl_method = ''GET'', ctl_pathname = path, ctl_search = search\<rparr>"

definition plain_request :: "string \<Rightarrow> string \<Rightarrow> control_request" where
  "plain_request verb path = \<lparr>ctl_method = verb, ctl_pathname = path, ctl_search = []\<rparr>"

text \<open>The outcome of a command: the error it prints, or its result.\<close>

definition settle :: "string \<Rightarrow> string \<Rightarrow> 'a client_op \<Rightarrow> daemon \<Rightarrow> (command_error + 'a) \<times> daemon" where
  "settle fallbackCode fallbackMessage m = (\<lambda>s. case m s of
       (Inl e, t) \<Rightarrow> (Inl (commandError e fallbackCode fallbackMessage), t)
     | (Inr x, t) \<Rightarrow> (Inr x, t))"

lemma settle_simps [simp]:
  "m s = (Inr x, t) \<Longrightarrow> settle c f m s = (Inr x, t)"
  "m s = (Inl e, t) \<Longrightarrow> settle c f m s = (Inl (commandError e c f), t)"
  by (simp_all add: settle_def)

lemma request_reply:
  "handle req s = (Inr (Some r), t) \<Longrightarrow> reply_status r \<in> {200, 201} \<Longrightarrow>
     requestDaemonControl handle req s = (Inr r, t)"
  by (auto simp: requestDaemonControl_def)

end
