(* ===== verification/Retry.thy ===== *)
theory Retry
  imports Main
begin

text \<open>
  The bounded retry loops: \<open>retryOnWindowsLock\<close> and \<open>renameWithRetry\<close> (\<open>src/platform\<close>) and
  \<open>withTransientDaemonRetry\<close> (\<open>src/cli/daemon-manager.ts\<close>). An action is a state transformer
  that returns or throws; \<open>pause n\<close> is the sleep after the attempt with index \<open>n\<close>.
\<close>

section \<open>The loop\<close>

text \<open>\<open>n\<close> is the index of the next attempt and \<open>k\<close> the number of attempts that are left.\<close>

fun retry_from ::
  "('e \<Rightarrow> bool) \<Rightarrow> (nat \<Rightarrow> 's \<Rightarrow> 's) \<Rightarrow> 'e \<Rightarrow> ('s \<Rightarrow> ('e + 'a) \<times> 's) \<Rightarrow> nat \<Rightarrow> nat \<Rightarrow> 's \<Rightarrow> ('e + 'a) \<times> 's" where
  "retry_from retryable pause exhausted action n 0 s = (Inl exhausted, s)"
| "retry_from retryable pause exhausted action n (Suc k) s =
     (case action s of
        (Inr x, t) \<Rightarrow> (Inr x, t)
      | (Inl e, t) \<Rightarrow>
          if \<not> retryable e \<or> k = 0 then (Inl e, t)
          else retry_from retryable pause exhausted action (Suc n) k (pause n t))"

section \<open>Its instances\<close>

text \<open>\<open>code\<close> is the \<open>code\<close> property of an error; the last error is thrown again on the last attempt.\<close>

definition WINDOWS_LOCK_RETRY_CODES :: "string list" where
  "WINDOWS_LOCK_RETRY_CODES = [''EPERM'', ''EACCES'', ''EBUSY'', ''EFAULT'']"

definition windows_retryable :: "string \<Rightarrow> ('e \<Rightarrow> string option) \<Rightarrow> 'e \<Rightarrow> bool" where
  "windows_retryable platform code e \<longleftrightarrow> platform = ''win32''
     \<and> (case code e of None \<Rightarrow> False | Some c \<Rightarrow> c \<in> set WINDOWS_LOCK_RETRY_CODES)"

text \<open>The backoff; \<open>jitter\<close> is \<open>Math.floor(Math.random() * 10)\<close>.\<close>

definition lock_backoff :: "nat \<Rightarrow> nat \<Rightarrow> nat" where
  "lock_backoff attempt jitter = min (10 * (attempt + 1)) 200 + jitter"

definition retryOnWindowsLock ::
  "string \<Rightarrow> ('e \<Rightarrow> string option) \<Rightarrow> (nat \<Rightarrow> 's \<Rightarrow> 's) \<Rightarrow> (nat \<Rightarrow> nat) \<Rightarrow> 'e \<Rightarrow> nat
     \<Rightarrow> ('s \<Rightarrow> ('e + 'a) \<times> 's) \<Rightarrow> 's \<Rightarrow> ('e + 'a) \<times> 's" where
  "retryOnWindowsLock platform code sleep jitter exhausted attempts operation =
     retry_from (windows_retryable platform code) (\<lambda>n. sleep (lock_backoff n (jitter n))) exhausted operation 0 attempts"

definition renameWithRetry ::
  "string \<Rightarrow> ('e \<Rightarrow> string option) \<Rightarrow> (nat \<Rightarrow> 's \<Rightarrow> 's) \<Rightarrow> (nat \<Rightarrow> nat) \<Rightarrow> 'e \<Rightarrow> nat
     \<Rightarrow> ('p \<Rightarrow> 'p \<Rightarrow> 's \<Rightarrow> ('e + unit) \<times> 's) \<Rightarrow> 'p \<Rightarrow> 'p \<Rightarrow> 's \<Rightarrow> ('e + unit) \<times> 's" where
  "renameWithRetry platform code sleep jitter exhausted attempts rename from to =
     retryOnWindowsLock platform code sleep jitter exhausted attempts (rename from to)"

definition withTransientDaemonRetry ::
  "('e \<Rightarrow> bool) \<Rightarrow> (nat \<Rightarrow> 's \<Rightarrow> 's) \<Rightarrow> 'e \<Rightarrow> nat \<Rightarrow> ('s \<Rightarrow> ('e + 'a) \<times> 's) \<Rightarrow> 's \<Rightarrow> ('e + 'a) \<times> 's" where
  "withTransientDaemonRetry transient sleep undefinedError attempts action =
     retry_from transient (\<lambda>n. sleep (25 * (n + 1))) undefinedError action 0 attempts"

section \<open>Which attempt decides\<close>

text \<open>The state before the attempt with index \<open>n + i\<close>, had every earlier one failed and been retried.\<close>

fun before_attempt :: "(nat \<Rightarrow> 's \<Rightarrow> 's) \<Rightarrow> ('s \<Rightarrow> ('e + 'a) \<times> 's) \<Rightarrow> nat \<Rightarrow> nat \<Rightarrow> 's \<Rightarrow> 's" where
  "before_attempt pause action n 0 s = s"
| "before_attempt pause action n (Suc i) s = before_attempt pause action (Suc n) i (pause n (snd (action s)))"

definition retried :: "('e \<Rightarrow> bool) \<Rightarrow> ('e + 'a) \<Rightarrow> bool" where
  "retried retryable r \<longleftrightarrow> (case r of Inl e \<Rightarrow> retryable e | Inr _ \<Rightarrow> False)"

text \<open>
  The outcome is that of one attempt: the first that succeeds or fails for good, or the last
  one. All attempts before it failed with a retryable error.
\<close>

lemma retry_from_decided:
  assumes "0 < k"
  obtains i where "i < k"
    "retry_from retryable pause exhausted action n k s = action (before_attempt pause action n i s)"
    "\<And>j. j < i \<Longrightarrow> retried retryable (fst (action (before_attempt pause action n j s)))"
    "Suc i = k \<or> \<not> retried retryable (fst (action (before_attempt pause action n i s)))"
  using assms
proof (induction k arbitrary: n s thesis)
  case (Suc k)
  obtain r t where a: "action s = (r, t)" by fastforce
  show ?case
  proof (cases "retried retryable r \<and> k \<noteq> 0")
    case False
    with a have "retry_from retryable pause exhausted action n (Suc k) s = action s"
      by (auto simp: retried_def split: sum.splits)
    with False a show ?thesis by (intro Suc.prems(1) [of 0]) auto
  next
    case True
    then obtain e where e: "r = Inl e" "retryable e" by (auto simp: retried_def split: sum.splits)
    have step: "retry_from retryable pause exhausted action n (Suc k) s =
        retry_from retryable pause exhausted action (Suc n) k (pause n t)"
      using True a e by simp
    obtain i where i: "i < k"
      "retry_from retryable pause exhausted action (Suc n) k (pause n t) =
         action (before_attempt pause action (Suc n) i (pause n t))"
      "\<And>j. j < i \<Longrightarrow> retried retryable (fst (action (before_attempt pause action (Suc n) j (pause n t))))"
      "Suc i = k \<or> \<not> retried retryable (fst (action (before_attempt pause action (Suc n) i (pause n t))))"
      using Suc.IH [of "Suc n" "pause n t"] True by blast
    show ?thesis
    proof (rule Suc.prems(1) [of "Suc i"])
      fix j
      assume "j < Suc i"
      with i(3) [of "j - 1"] True a
      show "retried retryable (fst (action (before_attempt pause action n j s)))" by (cases j) auto
    qed (use i step a in auto)
  qed
qed simp

lemma retry_from_result:
  assumes "0 < k"
  shows "fst (retry_from retryable pause exhausted action n k s) =
    fst (action (before_attempt pause action n
      (LEAST i. Suc i = k \<or> \<not> retried retryable (fst (action (before_attempt pause action n i s)))) s))"
proof -
  let ?P = "\<lambda>i. Suc i = k \<or> \<not> retried retryable (fst (action (before_attempt pause action n i s)))"
  obtain i where i: "i < k"
    "retry_from retryable pause exhausted action n k s = action (before_attempt pause action n i s)"
    "\<And>j. j < i \<Longrightarrow> retried retryable (fst (action (before_attempt pause action n j s)))" "?P i"
    using retry_from_decided [OF assms, of retryable pause exhausted action n s] by metis
  have "(LEAST i. ?P i) = i"
    proof (rule Least_equality)
    show "?P i" by (rule i(4))
    fix j
    assume "?P j"
    with i(1,3) show "i \<le> j" by (cases "j < i") auto
  qed
  with i(2) show ?thesis by simp
qed

lemma posix_never_retries:
  assumes "platform \<noteq> ''win32''" "0 < attempts"
  shows "retryOnWindowsLock platform code sleep jitter exhausted attempts operation s = operation s"
  using assms
  by (cases attempts) (auto simp: retryOnWindowsLock_def windows_retryable_def split: prod.splits sum.splits)

end
