(* ===== verification/Commands.thy ===== *)
theory Commands
  imports Client Retry
begin

text \<open>
  The commands that talk to the daemon (\<open>src/commands\<close>): \<open>logs\<close> with its signed snapshots and page
  hints, \<open>status\<close>, \<open>sessions\<close>, \<open>create\<close>, \<open>reset\<close> and \<open>clean\<close>. A result has the fields of the
  command's JSON output that depend on its input. \<open>connect\<close> is \<open>ensureDaemon\<close>: it gives
  the control token or throws. The duration of the command is left out.
\<close>

section \<open>Output\<close>

record hint =
  hint_action :: string
  hint_command :: string
  hint_message :: string

record warning =
  warn_code :: string
  warn_message :: string

definition is_malformed :: "diagnostic \<Rightarrow> bool" where
  "is_malformed d \<longleftrightarrow> reason d = INVALID_JSON \<or> reason d = INVALID_SCHEMA"

definition count_malformed :: "diagnostic list \<Rightarrow> nat" where
  "count_malformed ds = length (filter is_malformed ds)"

definition diagnosticsWarnings :: "diagnostic list \<Rightarrow> warning list" where
  "diagnosticsWarnings ds =
     (let malformed = count_malformed ds; redacted = length (filter (\<lambda>d. reason d = SECRET_REDACTED) ds)
      in (if 0 < malformed
          then [\<lparr>warn_code = ''MALFORMED_RECORDS'', warn_message = nat_text malformed
                  @ '' malformed records were excluded; run debug-mode status for diagnostics.''\<rparr>] else [])
       @ (if 0 < redacted
          then [\<lparr>warn_code = ''SECRET_REDACTED'', warn_message = nat_text redacted
                  @ '' events contained fields that were redacted.''\<rparr>] else []))"

section \<open>logs\<close>

record logs_options =
  lo_session :: string
  lo_hypotheses :: "string list"
  lo_offset :: nat
  lo_limit :: nat
  lo_snapshot :: "string option"

record logs_result =
  lr_hasNext :: bool
  lr_hasPrevious :: bool
  lr_nextOffset :: "nat option"
  lr_previousOffset :: "nat option"
  lr_snapshot :: string
  lr_records :: "event list"
  lr_hints :: "hint list"
  lr_hypothesisFilter :: "string list option"
  lr_malformedRecords :: nat
  lr_recordsByHypothesis :: "string \<Rightarrow> tally option"
  lr_totalRecords :: nat
  lr_validRecords :: nat
  lr_warnings :: "warning list"

definition pageCommand :: "logs_options \<Rightarrow> bool \<Rightarrow> nat \<Rightarrow> string \<Rightarrow> string" where
  "pageCommand options json offset snapshot = join_with '' ''
     ([''debug-mode logs'', ''--session '' @ lo_session options, ''--offset '' @ nat_text offset,
       ''--limit '' @ nat_text (lo_limit options), ''--snapshot '' @ snapshot]
      @ map (\<lambda>h. ''--hypothesis '' @ h) (lo_hypotheses options)
      @ (if json then [''--json''] else []))"

text \<open>\<open>options.snapshot ? verifySnapshotCursor(...) : undefined\<close>\<close>

definition requested_cursor ::
  "(string \<Rightarrow> string \<Rightarrow> string) \<Rightarrow> string \<Rightarrow> logs_options \<Rightarrow> thrown + snapshot_payload option" where
  "requested_cursor hmac token options =
     (case lo_snapshot options of
        None \<Rightarrow> Inr None
      | Some c \<Rightarrow> if c = [] then Inr None
          else map_sum CursorFailure Some (verifySnapshotCursor hmac token c (lo_session options)))"

definition logs_search :: "logs_options \<Rightarrow> snapshot_payload option \<Rightarrow> (string \<times> string) list" where
  "logs_search options cursor =
     [(''limit'', num_text (num_of_int (int (lo_limit options)))),
      (''offset'', num_text (num_of_int (int (lo_offset options))))]
     @ map (\<lambda>h. (''hypothesis'', h)) (lo_hypotheses options)
     @ (case cursor of None \<Rightarrow> []
        | Some p \<Rightarrow> [(''watermark'', num_text (cursor_watermark p)), (''evidenceEpoch'', cursor_epoch p)])"

definition logs_hints :: "logs_options \<Rightarrow> bool \<Rightarrow> string \<Rightarrow> diagnostic list \<Rightarrow> event_page \<Rightarrow> hint list" where
  "logs_hints options json snapshot ds page =
     (let offset = lo_offset options; limit = lo_limit options
      in (if 0 < offset
          then [\<lparr>hint_action = ''previous-page'',
                 hint_command = pageCommand options json (offset - limit) snapshot,
                 hint_message = ''Read the previous page.''\<rparr>] else [])
       @ (if offset + length (epage_records page) < epage_totalRecords page
          then [\<lparr>hint_action = ''next-page'',
                 hint_command = pageCommand options json (offset + limit) snapshot,
                 hint_message = ''Read the next page.''\<rparr>] else [])
       @ (if ds \<noteq> []
          then [\<lparr>hint_action = ''status'',
                 hint_command = ''debug-mode status --session '' @ lo_session options,
                 hint_message = ''Inspect all malformed and abnormal evidence diagnostics.''\<rparr>] else [])
       @ (if epage_totalRecords page = 0 \<and> ds = []
          then [\<lparr>hint_action = ''verify-ingest'',
                 hint_command = ''debug-mode reset --session '' @ lo_session options,
                 hint_message = ''No evidence captured. An unexecuted path or a failed run is one cause; another is a stale probe endpoint ''
                   @ utf8_code 8212 @ '' if the service restarted since the probes were inserted, reset prints the current Ingest URL and Append Path, then update the probes and reproduce.''\<rparr>]
          else []))"

definition logs_result_of ::
  "logs_options \<Rightarrow> bool \<Rightarrow> string \<Rightarrow> diagnostic list \<Rightarrow> event_page \<Rightarrow> logs_result" where
  "logs_result_of options json snapshot ds page =
     (let offset = lo_offset options; limit = lo_limit options;
          hasPrevious = (0 < offset);
          hasNext = (offset + length (epage_records page) < epage_totalRecords page)
      in \<lparr>lr_hasNext = hasNext, lr_hasPrevious = hasPrevious,
          lr_nextOffset = (if hasNext then Some (offset + limit) else None),
          lr_previousOffset = (if hasPrevious then Some (offset - limit) else None),
          lr_snapshot = snapshot, lr_records = epage_records page,
          lr_hints = logs_hints options json snapshot ds page,
          lr_hypothesisFilter = (if lo_hypotheses options = [] then None else Some (lo_hypotheses options)),
          lr_malformedRecords = count_malformed ds,
          lr_recordsByHypothesis = epage_recordsByHypothesis page,
          lr_totalRecords = epage_totalRecords page + count_malformed ds,
          lr_validRecords = epage_totalRecords page,
          lr_warnings = diagnosticsWarnings ds\<rparr>)"

text \<open>
  The log endpoint only answers \<open>LogsReply\<close> with a status of success; the last case is not reached.
\<close>

definition logsCommand ::
  "(string \<Rightarrow> string \<Rightarrow> string) \<Rightarrow> (control_request \<Rightarrow> (daemon, control_reply option) op) \<Rightarrow> string client_op
     \<Rightarrow> int \<Rightarrow> logs_options \<Rightarrow> bool \<Rightarrow> daemon \<Rightarrow> (command_error + logs_result) \<times> daemon" where
  "logsCommand hmac handle connect now options json =
     settle ''SESSION_NOT_FOUND'' ''The session was not found.''
       (attempt (raise (sessionPathSegment (lo_session options))) (\<lambda>segment.
        attempt connect (\<lambda>token.
        attempt (raise (requested_cursor hmac token options)) (\<lambda>cursor.
        attempt (requestDaemonControl handle
            (get_request (session_path segment ''/logs'') (logs_search options cursor))) (\<lambda>reply.
          case reply of
            LogsReply ds page \<Rightarrow>
              let watermark = (case cursor of Some p \<Rightarrow> cursor_watermark p
                    | None \<Rightarrow> num_of_int (int (epage_watermark page)));
                  snapshot = (case lo_snapshot options of Some c \<Rightarrow> c
                    | None \<Rightarrow> createSnapshotCursor hmac token
                        \<lparr>cursor_epoch = epage_evidenceEpoch page, cursor_issuedAt = num_of_int now,
                         cursor_session = lo_session options, cursor_watermark = watermark\<rparr>)
              in give (logs_result_of options json snapshot ds page)
          | _ \<Rightarrow> raise (Inl NotAnError))))))"

section \<open>status, sessions, create, reset, clean\<close>

record status_result =
  st_diagnostics :: "diagnostic list"
  st_ingestion :: string
  st_session :: session
  st_hints :: "hint list"
  st_eventCount :: nat
  st_malformedRecords :: nat
  st_totalRecords :: nat
  st_warnings :: "warning list"

definition status_result_of :: "string \<Rightarrow> diagnostic list \<Rightarrow> event_summary \<Rightarrow> session \<Rightarrow> status_result" where
  "status_result_of sid ds summary ses =
     \<lparr>st_diagnostics = ds,
      st_ingestion = (if ds = [] then ''healthy'' else ''degraded''),
      st_session = ses,
      st_hints = (if ds = [] then []
        else [\<lparr>hint_action = ''reset'', hint_command = ''debug-mode reset --session '' @ sid,
               hint_message = ''Fix the listed emitters, reset this session, and reproduce.''\<rparr>]),
      st_eventCount = eventCount summary,
      st_malformedRecords = count_malformed ds,
      st_totalRecords = eventCount summary + count_malformed ds,
      st_warnings = (if ds = [] then []
        else [\<lparr>warn_code = ''EVIDENCE_DIAGNOSTICS'',
               warn_message = nat_text (length ds) @ '' evidence diagnostics require attention.''\<rparr>])\<rparr>"

definition statusCommand ::
  "(control_request \<Rightarrow> (daemon, control_reply option) op) \<Rightarrow> string client_op \<Rightarrow> string
     \<Rightarrow> daemon \<Rightarrow> (command_error + status_result) \<times> daemon" where
  "statusCommand handle connect sid =
     settle ''SESSION_NOT_FOUND'' ''The session was not found.''
       (attempt (raise (sessionPathSegment sid)) (\<lambda>segment.
        attempt connect (\<lambda>token.
        attempt (requestDaemonControl handle (get_request (session_path segment ''/status'') [])) (\<lambda>reply.
          case reply of
            StatusReply ds summary ses \<Rightarrow> give (status_result_of sid ds summary ses)
          | _ \<Rightarrow> raise (Inl NotAnError)))))"

definition sessionsCommand ::
  "(control_request \<Rightarrow> (daemon, control_reply option) op) \<Rightarrow> string client_op \<Rightarrow> bool
     \<Rightarrow> daemon \<Rightarrow> (command_error + session_summary list) \<times> daemon" where
  "sessionsCommand handle connect all_sessions =
     settle ''DAEMON_UNAVAILABLE'' ''The daemon is unavailable.''
       (attempt connect (\<lambda>token.
        attempt (requestDaemonControl handle
            (get_request sessions_path [(''all'', if all_sessions then ''true'' else ''false'')])) (\<lambda>reply.
          case reply of
            SessionList sessions \<Rightarrow> give sessions
          | _ \<Rightarrow> raise (Inl NotAnError))))"

text \<open>
  The pattern of lost connections, whose alternatives are plain text matched without regard to
  case; it is tried on the message and the \<open>code\<close> of the error.
\<close>

definition lost_connection_texts :: "string list" where
  "lost_connection_texts =
     [''socket connection'', ''connection closed'', ''connection was closed'', ''connection reset'',
      ''econnrefused'', ''econnreset'', ''epipe'', ''unable to connect'', ''failed to connect'', ''fetch failed'']"

definition isTransientDaemonError :: "thrown \<Rightarrow> bool" where
  "isTransientDaemonError e =
     (case e of
        ControlFailure c _ _ \<Rightarrow> c = ''DAEMON_UNAVAILABLE''
      | _ \<Rightarrow> (case thrown_message e of
          None \<Rightarrow> False
        | Some m \<Rightarrow> list_ex (includes_text (map ascii_lower
            (m @ '' '' @ (case thrown_code e of Some c \<Rightarrow> c | None \<Rightarrow> [])))) lost_connection_texts))"

definition hidden_service :: string where
  "hidden_service = ''The hidden service is unavailable.''"

definition createCommand ::
  "(control_request \<Rightarrow> (daemon, control_reply option) op) \<Rightarrow> string client_op
     \<Rightarrow> daemon \<Rightarrow> (command_error + ingest_location) \<times> daemon" where
  "createCommand handle connect =
     settle ''DAEMON_UNAVAILABLE'' hidden_service
       (withTransientDaemonRetry isTransientDaemonError (\<lambda>_ s. s) NotAnError 3
         (attempt connect (\<lambda>token.
          attempt (requestDaemonControl handle (plain_request ''POST'' sessions_path)) (\<lambda>reply.
            case reply of Created l \<Rightarrow> give l | _ \<Rightarrow> raise (Inl NotAnError)))))"

definition resetCommand ::
  "(control_request \<Rightarrow> (daemon, control_reply option) op) \<Rightarrow> string client_op \<Rightarrow> string
     \<Rightarrow> daemon \<Rightarrow> (command_error + ingest_location) \<times> daemon" where
  "resetCommand handle connect sid =
     settle ''DAEMON_UNAVAILABLE'' hidden_service
       (attempt (raise (sessionPathSegment sid)) (\<lambda>segment.
        attempt connect (\<lambda>token.
        attempt (requestDaemonControl handle (plain_request ''POST'' (session_path segment ''/reset''))) (\<lambda>reply.
          case reply of WasReset l \<Rightarrow> give l | _ \<Rightarrow> raise (Inl NotAnError)))))"

definition cleanCommand ::
  "(control_request \<Rightarrow> (daemon, control_reply option) op) \<Rightarrow> string client_op \<Rightarrow> string
     \<Rightarrow> daemon \<Rightarrow> (command_error + string) \<times> daemon" where
  "cleanCommand handle connect sid =
     settle ''DAEMON_UNAVAILABLE'' hidden_service
       (attempt (raise (sessionPathSegment sid)) (\<lambda>segment.
        attempt connect (\<lambda>token.
        attempt (requestDaemonControl handle (plain_request ''DELETE'' (session_path segment []))) (\<lambda>reply.
          case reply of Removed i \<Rightarrow> give i | _ \<Rightarrow> raise (Inl NotAnError)))))"

end
