(* ===== verification/Commands_Facts.thy ===== *)
theory Commands_Facts
  imports Commands
begin

text \<open>
  What the commands do against the daemon: the requests they send reach the endpoint they mean
  with the arguments they mean, and the pages of \<open>logs\<close> that share a snapshot make up the sorted
  evidence of the moment the snapshot was taken.
\<close>

section \<open>The log request\<close>

definition num_arg :: "nat \<Rightarrow> jsnum" where
  "num_arg n = num_of_int (int n)"

lemma num_arg_facts [simp]:
  "int_of_num (num_arg n) = int n"
  "n \<le> max_safe_integer \<Longrightarrow> integer_num (num_arg n)"
  "n \<le> max_safe_integer \<Longrightarrow> is_safe_integer (num_arg n)"
  "n \<le> max_safe_integer \<Longrightarrow> natural_num (num_arg n)"
  by (simp_all add: num_arg_def num_of_int_integer natural_num_def)

lemma logs_search_get:
  "search_get ''limit'' (get_request p (logs_search options c)) = Some (num_text (num_arg (lo_limit options)))"
  "search_get ''offset'' (get_request p (logs_search options c)) = Some (num_text (num_arg (lo_offset options)))"
  by (simp_all add: search_get_def get_request_def logs_search_def num_arg_def)

lemma map_of_other_key: "k \<noteq> h \<Longrightarrow> map_of (map (Pair h) xs) k = None"
  by (induction xs) auto

lemma logs_search_optional:
  "search_get ''watermark'' (get_request p (logs_search options c)) = map_option (num_text \<circ> cursor_watermark) c"
  "search_get ''evidenceEpoch'' (get_request p (logs_search options c)) = map_option cursor_epoch c"
  by (cases c; simp add: search_get_def get_request_def logs_search_def map_of_other_key map_add_def)+

lemma logs_search_hypotheses:
  "search_all ''hypothesis'' (get_request p (logs_search options c)) = lo_hypotheses options"
  by (cases c) (simp_all add: search_all_def get_request_def logs_search_def comp_def)

definition logs_page_options :: "logs_options \<Rightarrow> (string \<times> nat) option \<Rightarrow> page_options" where
  "logs_page_options options snap =
     \<lparr>page_evidenceEpoch = map_option fst snap, page_hypothesisIds = lo_hypotheses options,
      page_limit = lo_limit options, page_offset = lo_offset options, page_watermark = map_option snd snap\<rparr>"

definition options_ok :: "logs_options \<Rightarrow> bool" where
  "options_ok options \<longleftrightarrow> isCanonicalSessionId (lo_session options) \<and> lo_offset options \<le> max_safe_integer
     \<and> 1 \<le> lo_limit options \<and> lo_limit options \<le> max_safe_integer"

lemma natural_arg_num: "n \<le> max_safe_integer \<Longrightarrow> natural_arg low (num_arg n) \<longleftrightarrow> low \<le> int n"
  by (simp add: natural_arg_def num_arg_def num_of_int_integer)

text \<open>The endpoint reads back the numbers the command wrote.\<close>

lemma logs_arguments_sent:
  assumes "options_ok options"
    and "c = map_option (\<lambda>(e, w). \<lparr>cursor_epoch = e, cursor_issuedAt = i, cursor_session = sid, cursor_watermark = num_arg w\<rparr>) snap"
    and "\<And>e w. snap = Some (e, w) \<Longrightarrow> w \<le> max_safe_integer"
  shows "logs_arguments (get_request p (logs_search options c)) = Some (logs_page_options options snap)"
proof -
  have nums: "js_number (num_text (num_arg n)) = num_arg n" if "n \<le> max_safe_integer" for n
    using js_number_nat [OF that] by (simp add: num_arg_def)
  have whole: "nat (int_of_num (num_arg n)) = n" for n by (simp add: num_arg_def)
  from assms(1) have lims: "lo_offset options \<le> max_safe_integer" "1 \<le> lo_limit options" "lo_limit options \<le> max_safe_integer"
    by (auto simp: options_ok_def)
  show ?thesis
  proof (cases snap)
    case None
    with assms lims show ?thesis
      by (simp add: logs_arguments_def number_arg_def logs_search_get logs_search_optional logs_search_hypotheses
          nums natural_arg_num whole logs_page_options_def)
  next
    case (Some ew)
    obtain e w where ew: "snap = Some (e, w)" using Some by (cases ew) auto
    with assms lims show ?thesis
      by (simp add: logs_arguments_def number_arg_def logs_search_get logs_search_optional logs_search_hypotheses
          nums natural_arg_num whole logs_page_options_def)
  qed
qed

lemma canonical_utf8: "isCanonicalSessionId s \<Longrightarrow> utf8_text s"
  by (rule utf8_ascii, unfold list_all_iff, rule ballI, drule (1) canonical_chars)
    (auto simp: is_hex_lower_def is_digit_def)

lemma logsCommand_at:
  assumes inv: "store_inv rnd s" and dir: "directory_of s (lo_session options) = Some d" "session_json d = Doc ses"
    and ok: "options_ok options" and cursor: "requested_cursor hmac token options =
      Inr (map_option (\<lambda>(e, w). \<lparr>cursor_epoch = e, cursor_issuedAt = i, cursor_session = lo_session options,
        cursor_watermark = num_arg w\<rparr>) snap)"
    and bound: "\<And>e w. snap = Some (e, w) \<Longrightarrow> w \<le> max_safe_integer"
    and fresh: "\<not> stale_epoch (logs_page_options options snap) ses"
    and safe: "SAFE_ID (env_uuid env (draws s))"
  shows "fst (logsCommand hmac (handleControl env) (give token) now options json s) =
    Inr (logs_result_of options json
      (case lo_snapshot options of Some c \<Rightarrow> c
       | None \<Rightarrow> createSnapshotCursor hmac token
           \<lparr>cursor_epoch = evidenceEpoch ses, cursor_issuedAt = num_of_int now, cursor_session = lo_session options,
            cursor_watermark = (case snap of Some (e, w) \<Rightarrow> num_arg w | None \<Rightarrow> num_arg (length (dir_events d)))\<rparr>)
      (dir_diagnostics d) (expected_page (env_collate env) (logs_page_options options snap) ses (dir_events d)))"
proof -
  let ?c = "map_option (\<lambda>(e, w). \<lparr>cursor_epoch = e, cursor_issuedAt = i, cursor_session = lo_session options,
        cursor_watermark = num_arg w\<rparr>) snap"
  let ?req = "get_request (session_path (lo_session options) ''/logs'') (logs_search options ?c)"
  let ?page = "expected_page (env_collate env) (logs_page_options options snap) ses (dir_events d)"
  have args: "logs_arguments ?req = Some (logs_page_options options snap)"
    by (rule logs_arguments_sent [OF ok refl bound])
  have "fst (handleControl env ?req s) = Inr (Some (LogsReply (dir_diagnostics d) ?page))"
    by (rule control_logs_at(1) [OF inv dir _ _ args fresh safe]) (simp_all add: get_request_def)
  then obtain t where "handleControl env ?req s = (Inr (Some (LogsReply (dir_diagnostics d) ?page)), t)"
    by (metis prod.collapse)
  from request_reply [where handle = "handleControl env", OF this]
  have reply: "requestDaemonControl (handleControl env) ?req s = (Inr (LogsReply (dir_diagnostics d) ?page), t)"
    by simp
  have segment: "sessionPathSegment (lo_session options) = Inr (lo_session options)"
    using ok by (simp add: sessionPathSegment_def options_ok_def)
  have page: "epage_evidenceEpoch ?page = evidenceEpoch ses"
    "epage_watermark ?page = (case snap of Some (e, w) \<Rightarrow> w | None \<Rightarrow> length (dir_events d))"
    by (auto simp: expected_page_def logs_page_options_def split: option.splits)
  show ?thesis
  proof (cases snap)
    case None
    with reply cursor page show ?thesis by (simp add: logsCommand_def segment Let_def num_arg_def split: option.split)
  next
    case (Some ew)
    with reply cursor page show ?thesis
      by (cases ew) (simp add: logsCommand_def segment Let_def num_arg_def split: option.split)
  qed
qed

section \<open>Pages of a snapshot\<close>

text \<open>The evidence a query for the hypotheses sees at a moment, in the order of the pages.\<close>

definition selected_events :: "(string \<Rightarrow> string \<Rightarrow> int) \<Rightarrow> string list \<Rightarrow> event list \<Rightarrow> event list" where
  "selected_events collate hs es =
     sort_by (compareEvents collate) (filter (\<lambda>ev. hs = [] \<or> hypothesisId ev \<in> set hs) es)"

lemma length_selected: "length (selected_events collate hs es) =
    length (filter (\<lambda>ev. hs = [] \<or> hypothesisId ev \<in> set hs) es)"
  using mset_sort_by_any [of "compareEvents collate"] by (metis selected_events_def size_mset)

lemma in_page_snapshot:
  assumes "map sequence (es @ new) = [1..<length (es @ new) + 1]"
  shows "filter (in_page (logs_page_options options (Some (e, length es)))) (es @ new) =
    filter (\<lambda>ev. lo_hypotheses options = [] \<or> hypothesisId ev \<in> set (lo_hypotheses options)) es"
proof -
  let ?o = "logs_page_options options (Some (e, length es))"
  have "filter (in_page ?o) (es @ new) = filter (in_page ?o) es"
    by (rule filter_watermark [of _ "length es"])
      (auto simp: logs_page_options_def intro: later_sequences [OF assms])
  also have "\<dots> = filter (\<lambda>ev. lo_hypotheses options = [] \<or> hypothesisId ev \<in> set (lo_hypotheses options)) es"
  proof (rule filter_cong [OF refl])
    fix ev
    assume "ev \<in> set es"
    then have "sequence ev \<in> set (map sequence (es @ new))" by simp
    then have "sequence ev \<in> set (map sequence es)" using \<open>ev \<in> set es\<close> by simp
    moreover have "map sequence es = take (length es) [1..<length (es @ new) + 1]"
      using assms by (metis append_eq_conv_conj length_map map_append)
    then have "map sequence es = [1..<length es + 1]" by (simp add: take_upt del: upt_Suc)
    ultimately have "sequence ev \<le> length es" by auto
    then show "in_page ?o ev \<longleftrightarrow> lo_hypotheses options = [] \<or> hypothesisId ev \<in> set (lo_hypotheses options)"
      by (simp add: in_page_def logs_page_options_def)
  qed
  finally show ?thesis .
qed

lemma expected_snapshot_page:
  assumes "map sequence (es @ new) = [1..<length (es @ new) + 1]"
  shows "epage_records (expected_page collate (logs_page_options options (Some (e, length es))) ses (es @ new)) =
      take (lo_limit options) (drop (lo_offset options) (selected_events collate (lo_hypotheses options) es))"
    "epage_totalRecords (expected_page collate (logs_page_options options (Some (e, length es))) ses (es @ new)) =
      length (selected_events collate (lo_hypotheses options) es)"
  unfolding expected_page_def sorted_page_def in_page_snapshot [OF assms(1)]
  by (simp_all add: selected_events_def logs_page_options_def length_selected [unfolded selected_events_def])

lemma expected_first_page:
  "epage_records (expected_page collate (logs_page_options options None) ses es) =
     take (lo_limit options) (drop (lo_offset options) (selected_events collate (lo_hypotheses options) es))"
  "epage_totalRecords (expected_page collate (logs_page_options options None) ses es) =
     length (selected_events collate (lo_hypotheses options) es)"
proof -
  have "in_page (logs_page_options options None) =
      (\<lambda>ev. lo_hypotheses options = [] \<or> hypothesisId ev \<in> set (lo_hypotheses options))"
    by (simp add: in_page_def logs_page_options_def fun_eq_iff)
  then show "epage_records (expected_page collate (logs_page_options options None) ses es) =
     take (lo_limit options) (drop (lo_offset options) (selected_events collate (lo_hypotheses options) es))"
    "epage_totalRecords (expected_page collate (logs_page_options options None) ses es) =
     length (selected_events collate (lo_hypotheses options) es)"
    by (simp_all add: expected_page_def sorted_page_def selected_events_def logs_page_options_def
        length_selected [unfolded selected_events_def])
qed

text \<open>The cursor the command makes, and that it takes back.\<close>

definition snapshot_of :: "(string \<Rightarrow> string \<Rightarrow> string) \<Rightarrow> string \<Rightarrow> int \<Rightarrow> string \<Rightarrow> string \<Rightarrow> nat \<Rightarrow> string" where
  "snapshot_of hmac token now sid epoch n = createSnapshotCursor hmac token
     \<lparr>cursor_epoch = epoch, cursor_issuedAt = num_of_int now, cursor_session = sid, cursor_watermark = num_arg n\<rparr>"

lemma snapshot_not_empty [simp]: "snapshot_of hmac token now sid epoch n \<noteq> []"
  by (simp add: snapshot_of_def createSnapshotCursor_def sealed_def Let_def)

lemma requested_snapshot:
  assumes "isCanonicalSessionId sid" "utf8_text epoch" "integer_num (num_of_int now)" "n \<le> max_safe_integer"
    "[] \<notin> range (hmac token)" "lo_session options = sid" "lo_snapshot options = Some (snapshot_of hmac token now sid epoch n)"
  shows "requested_cursor hmac token options = Inr (Some
    \<lparr>cursor_epoch = epoch, cursor_issuedAt = num_of_int now, cursor_session = sid, cursor_watermark = num_arg n\<rparr>)"
proof -
  let ?p = "\<lparr>cursor_epoch = epoch, cursor_issuedAt = num_of_int now, cursor_session = sid, cursor_watermark = num_arg n\<rparr>"
  have "snapshot_fits ?p"
    using assms by (simp add: snapshot_fits_def natural_num_def canonical_utf8 num_arg_def num_of_int_integer)
  from snapshot_round_trip [where hmac = hmac and secret = token, OF this assms(5)]
  have "verifySnapshotCursor hmac token (snapshot_of hmac token now sid epoch n) sid = Inr ?p"
    by (simp add: snapshot_of_def)
  then show ?thesis using assms by (simp add: requested_cursor_def)
qed

lemma logs_first_page:
  assumes "store_inv rnd s" "directory_of s sid = Some d" "session_json d = Doc ses"
    and "options_ok options" "lo_session options = sid" "lo_snapshot options = None"
    and "SAFE_ID (env_uuid env (draws s))"
  shows "fst (logsCommand hmac (handleControl env) (give token) now options json s) =
    Inr (logs_result_of options json (snapshot_of hmac token now sid (evidenceEpoch ses) (length (dir_events d)))
      (dir_diagnostics d) (expected_page (env_collate env) (logs_page_options options None) ses (dir_events d)))"
proof -
  have "requested_cursor hmac token options = Inr None" using assms(6) by (simp add: requested_cursor_def)
  with logsCommand_at [where snap = None and s = s and env = env, OF assms(1) _ assms(3,4) _ _ _ assms(7),
      of hmac token "num_of_int 0" now json] assms(2,5,6)
  show ?thesis by (simp add: stale_epoch_def logs_page_options_def snapshot_of_def)
qed

lemma logs_later_page:
  assumes "store_inv rnd s" "directory_of s sid = Some d" "session_json d = Doc ses"
    and "options_ok options" "lo_session options = sid"
      "lo_snapshot options = Some (snapshot_of hmac token made sid (evidenceEpoch ses) n)"
    and "SAFE_ID (env_uuid env (draws s))" "utf8_text (evidenceEpoch ses)" "integer_num (num_of_int made)"
      "n \<le> max_safe_integer" "[] \<notin> range (hmac token)"
  shows "fst (logsCommand hmac (handleControl env) (give token) now options json s) =
    Inr (logs_result_of options json (snapshot_of hmac token made sid (evidenceEpoch ses) n)
      (dir_diagnostics d) (expected_page (env_collate env) (logs_page_options options (Some (evidenceEpoch ses, n)))
        ses (dir_events d)))"
proof -
  have canonical: "isCanonicalSessionId sid" using assms(4,5) by (simp add: options_ok_def)
  have fresh: "\<not> stale_epoch (logs_page_options options (Some (evidenceEpoch ses, n))) ses"
    by (simp add: stale_epoch_def logs_page_options_def)
  from logsCommand_at [where snap = "Some (evidenceEpoch ses, n)" and s = s and env = env and i = "num_of_int made"
      and hmac = hmac and token = token, OF assms(1) _ assms(3,4) _ _ fresh assms(7)]
    requested_snapshot [where hmac = hmac and token = token, OF canonical assms(8-11) assms(5,6)] assms(2,5,6,10)
  show ?thesis by simp
qed

text \<open>A snapshot of an made epoch is refused.\<close>

lemma logs_stale_page:
  assumes "store_inv rnd s" "directory_of s sid = Some d" "session_json d = Doc ses"
    and "options_ok options" "lo_session options = sid"
      "lo_snapshot options = Some (snapshot_of hmac token made sid epoch n)"
    and "utf8_text epoch" "integer_num (num_of_int made)" "n \<le> max_safe_integer" "[] \<notin> range (hmac token)"
    and "epoch \<noteq> []" "epoch \<noteq> evidenceEpoch ses"
  shows "logsCommand hmac (handleControl env) (give token) now options json s =
    (Inl \<lparr>err_code = ''CURSOR_STALE'', err_message = ''Evidence cursor is stale because the session was reset.'',
       err_hint = None\<rparr>, s)"
proof -
  let ?c = "Some \<lparr>cursor_epoch = epoch, cursor_issuedAt = num_of_int made, cursor_session = sid, cursor_watermark = num_arg n\<rparr>"
  let ?req = "get_request (session_path sid ''/logs'') (logs_search options ?c)"
  have canonical: "isCanonicalSessionId sid" using assms(4,5) by (simp add: options_ok_def)
  have cursor: "requested_cursor hmac token options = Inr ?c"
    by (rule requested_snapshot [where hmac = hmac and token = token, OF canonical assms(7-10) assms(5,6)])
  have args: "logs_arguments ?req = Some (logs_page_options options (Some (epoch, n)))"
    by (rule logs_arguments_sent [OF assms(4)]) (use assms(9) in auto)
  have "stale_epoch (logs_page_options options (Some (epoch, n))) ses"
    using assms(11,12) by (simp add: stale_epoch_def logs_page_options_def)
  from control_logs_stale [OF assms(1-3) _ _ args this]
  have "handleControl env ?req s = (Inr (Some EpochConflict), s)" by (simp add: get_request_def)
  with cursor canonical assms(5) show ?thesis
    by (simp add: logsCommand_def sessionPathSegment_def requestDaemonControl_def request_failure_def commandError_def)
qed

end
