(* ===== verification/Query.thy ===== *)
theory Query
  imports Commands
begin

text \<open>
  The \<open>query\<close> command (\<open>src/commands/query.ts\<close>) and its binding to the native query engine
  (\<open>src/native/query.ts\<close>). The engine is not part of the model: \<open>native\<close> takes the arguments of a call
  and gives the text of its response, or the message of an exception; it may change the state of
  the disk (its spool). \<open>afterPreflight\<close> and \<open>afterNative\<close> are the hooks of the source: what
  other processes do to the daemon meanwhile.
\<close>

section \<open>The native calls\<close>

datatype native_call =
    RunJaqFilePage string string string jsnum jsnum jsnum jsnum jsnum
  | RunJaqSlurpPage string string string jsnum string jsnum jsnum jsnum

text \<open>The fields of a page other than its continuation are those of the response.\<close>

record query_page =
  qp_fields :: "(string \<times> json) list"
  qp_hasNext :: bool
  qp_nextByteOffset :: "json option"
  qp_nextOutputOrdinal :: "json option"

definition failure_code_of :: "json \<Rightarrow> string option" where
  "failure_code_of response =
     (case response of
        JObj es \<Rightarrow>
          if field ''ok'' es \<noteq> Some (JBool False) then None
          else (case field ''error'' es of
              Some (JObj err) \<Rightarrow> (case string_field ''code'' err of
                  Some c \<Rightarrow> if c \<in> set [''QUERY_TIMEOUT'', ''EVIDENCE_MALFORMED'', ''QUERY_SPOOL_UNAVAILABLE''] then Some c else None
                | None \<Rightarrow> None)
            | _ \<Rightarrow> None)
      | _ \<Rightarrow> None)"

definition failure_text :: "json \<Rightarrow> string \<Rightarrow> string" where
  "failure_text response dflt =
     (case response of
        JObj es \<Rightarrow> (case field ''error'' es of
            Some (JObj err) \<Rightarrow> (case string_field ''message'' err of Some m \<Rightarrow> m | None \<Rightarrow> dflt)
          | _ \<Rightarrow> dflt)
      | _ \<Rightarrow> dflt)"

text \<open>
  The engine answers with an object; a response that is none has no fields. A missing
  \<open>nextByteOffset\<close> is \<open>undefined\<close>, which is not \<open>null\<close>.
\<close>

definition not_null :: "json option \<Rightarrow> json option" where
  "not_null v = (if v = Some JNull then None else v)"

definition parsePage :: "string \<Rightarrow> jsnum \<Rightarrow> thrown + query_page" where
  "parsePage responseJson timeoutMs =
     (case parse_json responseJson of
        None \<Rightarrow> Inl (OtherError ''JSON Parse error'' None)
      | Some response \<Rightarrow>
          (case failure_code_of response of
             Some c \<Rightarrow> Inl (
               if c = ''EVIDENCE_MALFORMED''
               then EvidenceMalformedError (failure_text response ''Canonical evidence is malformed.'')
               else if c = ''QUERY_SPOOL_UNAVAILABLE''
               then QuerySpoolUnavailableError (failure_text response ''The private query spool is unavailable.'')
               else QueryTimeoutError timeoutMs)
           | None \<Rightarrow>
               (case response of
                  JNull \<Rightarrow> Inl (OtherError ''null is not an object'' None)
                | _ \<Rightarrow>
                    let es = (case response of JObj es \<Rightarrow> es | _ \<Rightarrow> [])
                    in Inr \<lparr>qp_fields = filter (\<lambda>e. fst e \<notin> set [''nextByteOffset'', ''nextOutputOrdinal'']) es,
                            qp_hasNext = (field ''nextByteOffset'' es \<noteq> Some JNull),
                            qp_nextByteOffset = not_null (field ''nextByteOffset'' es),
                            qp_nextOutputOrdinal = not_null (field ''nextOutputOrdinal'' es)\<rparr>)))"

type_synonym native_engine = "native_call \<Rightarrow> daemon \<Rightarrow> (string + string) \<times> daemon"

fun call_timeout :: "native_call \<Rightarrow> jsnum" where
  "call_timeout (RunJaqFilePage p f h w b n l t) = t"
| "call_timeout (RunJaqSlurpPage p f h w sp b l t) = t"

definition runNative :: "native_engine \<Rightarrow> native_call \<Rightarrow> query_page client_op" where
  "runNative native c = (\<lambda>s. case native c s of
       (Inl m, t) \<Rightarrow> (Inl (OtherError m None), t)
     | (Inr text, t) \<Rightarrow> (parsePage text (call_timeout c), t))"

section \<open>What a query runs\<close>

record query_options =
  qo_program :: "string option"
  qo_cursor :: "string option"
  qo_session :: string
  qo_slurp :: bool
  qo_limit :: nat
  qo_timeoutMs :: nat

text \<open>\<open>value ?? ""\<close>, and the test of a string for being falsy.\<close>

definition text_or_empty :: "string option \<Rightarrow> string" where
  "text_or_empty v = (case v of None \<Rightarrow> [] | Some x \<Rightarrow> x)"

record query_plan =
  plan_program :: string
  plan_slurp :: bool
  plan_hypotheses :: "string list"
  plan_watermark :: jsnum
  plan_limit :: jsnum
  plan_timeout :: jsnum
  plan_json :: bool
  plan_continuation :: continuation

definition fresh_plan :: "query_options \<Rightarrow> bool \<Rightarrow> nat \<Rightarrow> query_plan" where
  "fresh_plan options json watermark =
     \<lparr>plan_program = text_or_empty (qo_program options), plan_slurp = qo_slurp options, plan_hypotheses = [],
      plan_watermark = num_of_int (int watermark), plan_limit = num_of_int (int (qo_limit options)),
      plan_timeout = num_of_int (int (qo_timeoutMs options)), plan_json = json,
      plan_continuation = Stream (num_of_int 0) (num_of_int 0)\<rparr>"

definition cursor_plan :: "query_payload \<Rightarrow> query_plan" where
  "cursor_plan p =
     \<lparr>plan_program = cursor_program p, plan_slurp = cursor_slurp p, plan_hypotheses = cursor_hypotheses p,
      plan_watermark = cursor_watermark p, plan_limit = cursor_limit p, plan_timeout = cursor_timeout p,
      plan_json = cursor_asJson p, plan_continuation = cursor_continuation p\<rparr>"

definition query_plan_of ::
  "(string \<Rightarrow> string \<Rightarrow> string) \<Rightarrow> string \<Rightarrow> query_options \<Rightarrow> bool \<Rightarrow> string \<Rightarrow> nat \<Rightarrow> thrown + query_plan" where
  "query_plan_of hmac token options json epoch watermark =
     (if text_or_empty (qo_cursor options) = [] then Inr (fresh_plan options json watermark)
      else case verifyQueryCursor hmac token (text_or_empty (qo_cursor options)) epoch (qo_session options) of
          Inl e \<Rightarrow> Inl (CursorFailure e)
        | Inr p \<Rightarrow>
            if text_or_empty (qo_program options) \<noteq> [] \<and> text_or_empty (qo_program options) \<noteq> cursor_program p
            then Inl (OtherError ''Query cursor program does not match the requested program'' None)
            else Inr (cursor_plan p))"

text \<open>The identifier of the spool of a slurping query: the one of the cursor, or a new one.\<close>

definition spool_of :: "query_plan \<Rightarrow> string \<Rightarrow> string" where
  "spool_of plan fresh = (case plan_continuation plan of Spool offset i \<Rightarrow> i | Stream _ _ \<Rightarrow> fresh)"

definition call_of :: "query_plan \<Rightarrow> string \<Rightarrow> string \<Rightarrow> native_call" where
  "call_of plan evidencePath spoolPath =
     (let hypotheses = json_text (JArr (map JStr (plan_hypotheses plan)))
      in if plan_slurp plan
         then RunJaqSlurpPage (plan_program plan) evidencePath hypotheses (plan_watermark plan) spoolPath
           (case plan_continuation plan of Spool offset i \<Rightarrow> offset | Stream _ _ \<Rightarrow> num_of_int 0)
           (plan_limit plan) (plan_timeout plan)
         else (case plan_continuation plan of
             Stream offset ordinal \<Rightarrow>
               RunJaqFilePage (plan_program plan) evidencePath hypotheses (plan_watermark plan) offset ordinal
                 (plan_limit plan) (plan_timeout plan)
           | Spool _ _ \<Rightarrow>
               RunJaqFilePage (plan_program plan) evidencePath hypotheses (plan_watermark plan) (num_of_int 0)
                 (num_of_int 0) (plan_limit plan) (plan_timeout plan)))"

text \<open>
  The continuation after a page. The engine answers with numbers; \<open>as_number\<close> is the number of such a
  field.
\<close>

definition as_number :: "json option \<Rightarrow> jsnum option" where
  "as_number v = (case v of Some (JNum n) \<Rightarrow> Some n | _ \<Rightarrow> None)"

definition next_continuation :: "query_plan \<Rightarrow> string \<Rightarrow> query_page \<Rightarrow> continuation option" where
  "next_continuation plan spoolId page =
     (case as_number (qp_nextByteOffset page) of
        None \<Rightarrow> None
      | Some offset \<Rightarrow> Some (if plan_slurp plan then Spool offset spoolId
          else Stream offset (case as_number (qp_nextOutputOrdinal page) of Some n \<Rightarrow> n | None \<Rightarrow> num_of_int 0)))"

definition next_payload :: "query_plan \<Rightarrow> string \<Rightarrow> string \<Rightarrow> int \<Rightarrow> continuation \<Rightarrow> query_payload" where
  "next_payload plan sid epoch now c =
     \<lparr>cursor_epoch = epoch, cursor_issuedAt = num_of_int now, cursor_session = sid,
      cursor_watermark = plan_watermark plan, cursor_continuation = c, cursor_hypotheses = plan_hypotheses plan,
      cursor_asJson = plan_json plan, cursor_limit = plan_limit plan, cursor_program = plan_program plan,
      cursor_slurp = plan_slurp plan, cursor_timeout = plan_timeout plan\<rparr>"

section \<open>Output\<close>

definition nextPageCommand :: "string \<Rightarrow> string \<Rightarrow> query_plan \<Rightarrow> string" where
  "nextPageCommand sid cursor plan = join_with '' ''
     ([''debug-mode query'', ''--session '' @ sid, ''--cursor '' @ cursor,
       ''--limit '' @ num_text (plan_limit plan), ''--timeout-ms '' @ num_text (plan_timeout plan)]
      @ (if plan_slurp plan then [''--slurp''] else [])
      @ (if plan_json plan then [''--json''] else []))"

definition queryWarnings :: "diagnostic list \<Rightarrow> warning list" where
  "queryWarnings ds =
     (let malformed = count_malformed ds; redacted = length (filter (\<lambda>d. reason d = SECRET_REDACTED) ds)
      in (if 0 < malformed
          then [\<lparr>warn_code = ''MALFORMED_RECORDS'', warn_message = nat_text malformed
                  @ '' malformed records were excluded; run debug-mode status for diagnostics.''\<rparr>] else [])
       @ (if 0 < redacted
          then [\<lparr>warn_code = ''SECRET_REDACTED'', warn_message = nat_text redacted
                  @ '' events contained fields that were redacted.''\<rparr>] else []))"

record query_result =
  qr_slurp :: bool
  qr_hasNext :: bool
  qr_nextCursor :: "string option"
  qr_page :: "(string \<times> json) list"
  qr_hints :: "hint list"
  qr_hypothesisFilter :: "string list option"
  qr_malformedRecords :: nat
  qr_totalRecords :: nat
  qr_validRecords :: nat
  qr_warnings :: "warning list"

definition query_result_of ::
  "string \<Rightarrow> query_plan \<Rightarrow> diagnostic list \<Rightarrow> event_summary \<Rightarrow> query_page \<Rightarrow> string option \<Rightarrow> query_result" where
  "query_result_of sid plan ds summary page nextCursor =
     \<lparr>qr_slurp = plan_slurp plan, qr_hasNext = qp_hasNext page, qr_nextCursor = nextCursor,
      qr_page = qp_fields page,
      qr_hints =
        (if queryWarnings ds = [] then []
         else [\<lparr>hint_action = ''status'', hint_command = ''debug-mode status --session '' @ sid,
                hint_message = ''Inspect all evidence diagnostics.''\<rparr>])
        @ (case nextCursor of None \<Rightarrow> []
           | Some c \<Rightarrow> [\<lparr>hint_action = ''next-page'', hint_command = nextPageCommand sid c plan,
                          hint_message = ''Continue the same query.''\<rparr>]),
      qr_hypothesisFilter = (if plan_hypotheses plan = [] then None else Some (plan_hypotheses plan)),
      qr_malformedRecords = count_malformed ds,
      qr_totalRecords = eventCount summary + count_malformed ds,
      qr_validRecords = eventCount summary,
      qr_warnings = queryWarnings ds\<rparr>"

section \<open>Errors\<close>

definition is_word :: "char \<Rightarrow> bool" where
  "is_word c \<longleftrightarrow> is_alnum c \<or> c = CHR ''_''"

text \<open>\<open>/\bw\b/\<close> for a word \<open>w\<close>; \<open>inside\<close> tells whether the character before is one of a word.\<close>

fun has_word :: "bool \<Rightarrow> string \<Rightarrow> string \<Rightarrow> bool" where
  "has_word inside [] w = False"
| "has_word inside (c # cs) w =
     (\<not> inside \<and> starts_with (c # cs) w
        \<and> (case drop (length w) (c # cs) of [] \<Rightarrow> True | d # _ \<Rightarrow> \<not> is_word d)
      \<or> has_word (is_word c) cs w)"

definition needs_collection :: "string \<Rightarrow> bool" where
  "needs_collection program = list_ex (has_word False program) [''sort_by'', ''group_by'', ''reduce'']"

definition shape_message :: "string \<Rightarrow> bool" where
  "shape_message m = list_ex (includes_text (map ascii_lower m))
     [''array'', ''iterate'', ''index'', ''cannot'', ''expected'', ''invalid'', ''runtime'']"

definition fail_with :: "string \<Rightarrow> string \<Rightarrow> string \<Rightarrow> command_error" where
  "fail_with c hint m = \<lparr>err_code = c, err_message = m, err_hint = Some hint\<rparr>"

definition query_error :: "string \<Rightarrow> string \<Rightarrow> bool \<Rightarrow> thrown \<Rightarrow> command_error" where
  "query_error sid program slurp e =
     (let message = (case thrown_message e of Some m \<Rightarrow> m | None \<Rightarrow> ''The jaq query failed.'');
          general = (if \<not> slurp \<and> needs_collection program \<and> shape_message message
            then fail_with ''COLLECTION_REQUIRED''
              (''Re-run with --slurp: debug-mode query --session '' @ sid @ '' --slurp '' @ quote_text program)
              ''This jaq program requires the complete record collection.''
            else commandError e ''INVALID_ARGUMENTS'' ''The jaq query failed.'')
      in case e of
          QueryTimeoutError _ \<Rightarrow> fail_with ''QUERY_RESOURCE_EXHAUSTED''
            ''Narrow the filter, lower --limit, or increase --timeout-ms.'' message
        | QuerySpoolUnavailableError _ \<Rightarrow> fail_with ''QUERY_RESOURCE_EXHAUSTED''
            ''Narrow the filter, lower --limit, or increase --timeout-ms.'' message
        | EvidenceMalformedError _ \<Rightarrow> fail_with ''EVIDENCE_MALFORMED''
            ''Reset the session after preserving any needed diagnostics, then reproduce.'' message
        | CursorFailure QueryCursorStale \<Rightarrow> fail_with ''CURSOR_STALE''
            ''Run the query again without --cursor.'' message
        | _ \<Rightarrow> general)"

definition drops_spool :: "thrown \<Rightarrow> bool" where
  "drops_spool e = (case e of
       EvidenceMalformedError _ \<Rightarrow> True | CursorFailure QueryCursorStale \<Rightarrow> True | QueryTimeoutError _ \<Rightarrow> True
     | _ \<Rightarrow> False)"

section \<open>The command\<close>

text \<open>
  Making the directory of the spools also makes the directory of the session when that is gone.
\<close>

definition initializeQuerySpoolDirectory :: "string \<Rightarrow> unit client_op" where
  "initializeQuerySpoolDirectory sid = (\<lambda>s.
     (Inr (), if directory_of s sid = None then put_directory sid empty_directory s else s))"

definition removeSpool :: "string \<Rightarrow> string \<Rightarrow> daemon \<Rightarrow> daemon" where
  "removeSpool sid i s = (case directory_of s sid of
       None \<Rightarrow> s
     | Some d \<Rightarrow> put_directory sid (d\<lparr>query_spools := filter (\<lambda>p. fst p \<noteq> i) (query_spools d)\<rparr>) s)"

fun path_error :: "failure \<Rightarrow> thrown" where
  "path_error (InvalidSessionId i) = OtherError (''Invalid session ID: '' @ i) None"
| "path_error (InvalidFilename f) = OtherError (''Invalid session filename: '' @ f) None"
| "path_error (InvalidSpoolId i) = OtherError (''Invalid query spool ID: '' @ i) None"
| "path_error _ = NotAnError"

definition query_paths :: "string \<Rightarrow> string \<Rightarrow> query_plan \<Rightarrow> string \<Rightarrow> (string \<times> string) client_op" where
  "query_paths root sid plan spoolId =
     attempt (raise (map_sum path_error id (sessionFile root sid ''events.ndjson''))) (\<lambda>evidencePath.
       if plan_slurp plan
       then attempt (initializeQuerySpoolDirectory sid) (\<lambda>_.
         attempt (raise (map_sum path_error id (querySpoolFile root sid spoolId))) (\<lambda>spoolPath.
           give (evidencePath, spoolPath)))
       else give (evidencePath, []))"

definition status_of :: "(control_request \<Rightarrow> (daemon, control_reply option) op) \<Rightarrow> string
    \<Rightarrow> (diagnostic list \<times> event_summary \<times> session) client_op" where
  "status_of handle segment =
     attempt (requestDaemonControl handle (get_request (session_path segment ''/status'') [])) (\<lambda>reply.
       case reply of StatusReply ds summary ses \<Rightarrow> give (ds, summary, ses) | _ \<Rightarrow> raise (Inl NotAnError))"

text \<open>The check after the engine has run; \<open>answer\<close> is the page or the error of the engine.\<close>

definition postflight ::
  "(control_request \<Rightarrow> (daemon, control_reply option) op) \<Rightarrow> string \<Rightarrow> string \<Rightarrow> thrown + query_page
     \<Rightarrow> query_page client_op" where
  "postflight handle segment epoch answer = (\<lambda>s. case status_of handle segment s of
       (Inl e, t) \<Rightarrow> (Inl (case e of
           ControlFailure c _ _ \<Rightarrow> if c = ''SESSION_NOT_FOUND'' then CursorFailure QueryCursorStale else e
         | _ \<Rightarrow> e), t)
     | (Inr (_, _, ses), t) \<Rightarrow>
         (if evidenceEpoch ses \<noteq> epoch then Inl (CursorFailure QueryCursorStale) else answer, t))"

text \<open>What has been read before the engine runs.\<close>

record query_start =
  qs_token :: string
  qs_plan :: query_plan
  qs_diagnostics :: "diagnostic list"
  qs_summary :: event_summary
  qs_epoch :: string

definition begin_query ::
  "(string \<Rightarrow> string \<Rightarrow> string) \<Rightarrow> (control_request \<Rightarrow> (daemon, control_reply option) op) \<Rightarrow> string client_op
     \<Rightarrow> query_options \<Rightarrow> bool \<Rightarrow> query_start client_op" where
  "begin_query hmac handle connect options json =
     attempt (raise (sessionPathSegment (qo_session options))) (\<lambda>segment.
     attempt connect (\<lambda>token.
     attempt (status_of handle segment) (\<lambda>(ds, summary, ses).
     attempt (raise (query_plan_of hmac token options json (evidenceEpoch ses) (summary_watermark summary))) (\<lambda>plan.
       give \<lparr>qs_token = token, qs_plan = plan, qs_diagnostics = ds, qs_summary = summary,
             qs_epoch = evidenceEpoch ses\<rparr>))))"

record query_hooks =
  afterPreflight :: "daemon \<Rightarrow> daemon"
  afterNative :: "daemon \<Rightarrow> daemon"

definition finish_query ::
  "(string \<Rightarrow> string \<Rightarrow> string) \<Rightarrow> (control_request \<Rightarrow> (daemon, control_reply option) op) \<Rightarrow> native_engine
     \<Rightarrow> query_hooks \<Rightarrow> int \<Rightarrow> string \<Rightarrow> query_start \<Rightarrow> string \<Rightarrow> string \<Rightarrow> string \<Rightarrow> query_result client_op" where
  "finish_query hmac handle native hooks now sid start evidencePath spoolPath spoolId = (\<lambda>s.
     let plan = qs_plan start
     in case runNative native (call_of plan evidencePath spoolPath) s of
       (answer, t) \<Rightarrow> (case postflight handle sid (qs_epoch start) answer (afterNative hooks t) of
         (Inl e, u) \<Rightarrow> (Inl e, if plan_slurp plan \<and> drops_spool e then removeSpool sid spoolId u else u)
       | (Inr page, u) \<Rightarrow>
           let nextCursor = map_option (\<lambda>c. createQueryCursor hmac (qs_token start)
                 (next_payload plan sid (qs_epoch start) now c)) (next_continuation plan spoolId page)
           in (Inr (query_result_of sid plan (qs_diagnostics start) (qs_summary start) page nextCursor),
               if nextCursor = None \<and> plan_slurp plan then removeSpool sid spoolId u else u)))"

definition query_arguments_ok :: "query_options \<Rightarrow> bool" where
  "query_arguments_ok options \<longleftrightarrow>
     (text_or_empty (qo_program options) \<noteq> [] \<or> text_or_empty (qo_cursor options) \<noteq> [])
     \<and> js_length (text_or_empty (qo_program options)) \<le> 4096"

definition queryCommand ::
  "(string \<Rightarrow> string \<Rightarrow> string) \<Rightarrow> (control_request \<Rightarrow> (daemon, control_reply option) op) \<Rightarrow> string client_op
     \<Rightarrow> native_engine \<Rightarrow> query_hooks \<Rightarrow> string \<Rightarrow> string \<Rightarrow> int \<Rightarrow> query_options \<Rightarrow> bool
     \<Rightarrow> daemon \<Rightarrow> (command_error + query_result) \<times> daemon" where
  "queryCommand hmac handle connect native hooks root fresh now options json s =
     (let sid = qo_session options
      in if \<not> query_arguments_ok options
         then (Inl (fail_with ''INVALID_ARGUMENTS'' ''Provide --session and one bounded jaq program.''
                 ''The query command is missing a valid scope or program.''), s)
         else case begin_query hmac handle connect options json s of
           (Inl e, t) \<Rightarrow> (Inl (query_error sid (text_or_empty (qo_program options)) (qo_slurp options) e), t)
         | (Inr start, t) \<Rightarrow>
             let plan = qs_plan start; spoolId = spool_of plan fresh;
                 fails = (\<lambda>e. query_error sid (plan_program plan) (plan_slurp plan) e)
             in (case query_paths root sid plan spoolId (afterPreflight hooks t) of
                 (Inl e, u) \<Rightarrow> (Inl (fails e), u)
               | (Inr (evidencePath, spoolPath), u) \<Rightarrow>
                   (case finish_query hmac handle native hooks now sid start evidencePath spoolPath spoolId u of
                      (Inl e, v) \<Rightarrow> (Inl (fails e), v)
                    | (Inr result, v) \<Rightarrow> (Inr result, v))))"

end
