(* ===== verification/Query_Facts.thy ===== *)
theory Query_Facts
  imports Query Commands_Facts
begin

text \<open>
  What \<open>query\<close> does against the daemon: the call of the engine it makes, that a result is only given
  when the session was not reset meanwhile, that a cursor continues the same query, and what
  happens to the spool.
\<close>

section \<open>The status before and after\<close>

lemma status_of_at:
  assumes "store_inv rnd s" "directory_of s sid = Some d" "session_json d = Doc ses"
  shows "status_of (handleControl env) sid s =
    (Inr (dir_diagnostics d, \<lparr>eventCount = length (dir_events d), summary_watermark = length (dir_events d)\<rparr>, ses), s)"
proof -
  have "handleControl env (get_request (session_path sid ''/status'') []) s =
      (Inr (Some (StatusReply (dir_diagnostics d)
        \<lparr>eventCount = length (dir_events d), summary_watermark = length (dir_events d)\<rparr> ses)), s)"
    by (rule control_status_at [OF assms]) (simp_all add: get_request_def)
  from request_reply [where handle = "handleControl env", OF this] show ?thesis by (simp add: status_of_def)
qed

lemma getSession_absent:
  assumes "SAFE_ID sid" "case directory_of s sid of None \<Rightarrow> True | Some d \<Rightarrow> session_json d = Absent"
  shows "getSession sid s = (Inr None, s)"
  using assms by (cases "directory_of s sid") (simp_all add: getSession_def document_value_def)

lemma status_of_gone:
  assumes "SAFE_ID sid" "case directory_of s sid of None \<Rightarrow> True | Some d \<Rightarrow> session_json d = Absent"
  shows "\<exists>n m. status_of (handleControl env) sid s = (Inl (ControlFailure ''SESSION_NOT_FOUND'' n m), s)"
proof -
  have "handleControl env (get_request (session_path sid ''/status'') []) s = (Inr (Some SessionMissing), s)"
    using handle_status [OF assms(1), of "get_request (session_path sid ''/status'') []" env] getSession_absent [OF assms]
    by (simp add: get_request_def withSession_def)
  then show ?thesis by (simp add: status_of_def requestDaemonControl_def request_failure_def)
qed

section \<open>From the command to the engine\<close>

text \<open>The state the engine starts on, and the call it gets.\<close>

definition prepared :: "query_plan \<Rightarrow> string \<Rightarrow> daemon \<Rightarrow> daemon" where
  "prepared plan sid s =
     (if plan_slurp plan \<and> directory_of s sid = None then put_directory sid empty_directory s else s)"

definition session_path_of :: "string \<Rightarrow> string \<Rightarrow> string" where
  "session_path_of root sid = join_path (sessionsDirectory root) sid"

definition evidence_path :: "string \<Rightarrow> string \<Rightarrow> string" where
  "evidence_path root sid = join_path (session_path_of root sid) ''events.ndjson''"

definition spool_path :: "string \<Rightarrow> string \<Rightarrow> query_plan \<Rightarrow> string \<Rightarrow> string" where
  "spool_path root sid plan i =
     (if plan_slurp plan then join_path (join_path (session_path_of root sid) ''query-spools'') (i @ ''.ndjson'') else [])"

definition engine_call :: "string \<Rightarrow> string \<Rightarrow> query_plan \<Rightarrow> string \<Rightarrow> native_call" where
  "engine_call root sid plan i = call_of plan (evidence_path root sid) (spool_path root sid plan i)"

lemma query_paths_at:
  assumes "SAFE_ID sid" "SAFE_ID i"
  shows "query_paths root sid plan i s =
    (Inr (evidence_path root sid, spool_path root sid plan i), prepared plan sid s)"
proof -
  have "SAFE_FILENAME ''events.ndjson''"
    by (simp add: SAFE_FILENAME_def SAFE_ID_def safe_id_char_def char_class_defs)
  then have ev: "sessionFile root sid ''events.ndjson'' = Inr (evidence_path root sid)"
    using assms(1) by (simp add: sessionFile_def below_session_def sessionDirectory_def evidence_path_def session_path_of_def)
  have sp: "querySpoolFile root sid i = Inr (join_path (join_path (session_path_of root sid) ''query-spools'') (i @ ''.ndjson''))"
    using assms by (simp add: querySpoolFile_def below_session_def sessionDirectory_def session_path_of_def)
  show ?thesis
    by (cases "plan_slurp plan")
      (simp_all add: query_paths_def ev sp prepared_def spool_path_def initializeQuerySpoolDirectory_def)
qed

definition started :: "string \<Rightarrow> query_plan \<Rightarrow> session_dir \<Rightarrow> session \<Rightarrow> query_start" where
  "started token plan d ses =
     \<lparr>qs_token = token, qs_plan = plan, qs_diagnostics = dir_diagnostics d,
      qs_summary = \<lparr>eventCount = length (dir_events d), summary_watermark = length (dir_events d)\<rparr>,
      qs_epoch = evidenceEpoch ses\<rparr>"

lemma started_fields [simp]:
  "qs_plan (started token plan d ses) = plan" "qs_epoch (started token plan d ses) = evidenceEpoch ses"
  "qs_token (started token plan d ses) = token"
  by (simp_all add: started_def)

lemma queryCommand_at:
  assumes "store_inv rnd s" "directory_of s sid = Some d" "session_json d = Doc ses"
    and "isCanonicalSessionId sid" "qo_session options = sid" "query_arguments_ok options"
    and "query_plan_of hmac token options json (evidenceEpoch ses) (length (dir_events d)) = Inr plan"
    and "SAFE_ID (spool_of plan fresh)"
  shows "queryCommand hmac (handleControl env) (give token) native hooks root fresh now options json s =
    (case finish_query hmac (handleControl env) native hooks now sid (started token plan d ses)
        (evidence_path root sid) (spool_path root sid plan (spool_of plan fresh)) (spool_of plan fresh)
        (prepared plan sid (afterPreflight hooks s)) of
      (Inl e, v) \<Rightarrow> (Inl (query_error sid (plan_program plan) (plan_slurp plan) e), v)
    | (Inr r, v) \<Rightarrow> (Inr r, v))"
proof -
  have "begin_query hmac (handleControl env) (give token) options json s = (Inr (started token plan d ses), s)"
    using assms(4,5,7) status_of_at [OF assms(1-3), of env]
    by (simp add: begin_query_def sessionPathSegment_def started_def)
  with assms(5,6) query_paths_at [OF canonical_SAFE_ID [OF assms(4)] assms(8)] show ?thesis
    by (simp add: queryCommand_def Let_def)
qed

section \<open>Results only for an unchanged epoch\<close>

lemma postflight_stale:
  assumes "SAFE_ID sid"
    and "(case directory_of s sid of None \<Rightarrow> True | Some d \<Rightarrow> session_json d = Absent)
      \<or> (\<exists>rnd d ses. store_inv rnd s \<and> directory_of s sid = Some d \<and> session_json d = Doc ses \<and> evidenceEpoch ses \<noteq> epoch)"
  shows "postflight (handleControl env) sid epoch answer s = (Inl (CursorFailure QueryCursorStale), s)"
  using assms(2)
proof
  assume "case directory_of s sid of None \<Rightarrow> True | Some d \<Rightarrow> session_json d = Absent"
  from status_of_gone [OF assms(1) this, of env] show ?thesis by (auto simp: postflight_def)
next
  assume "\<exists>rnd d ses. store_inv rnd s \<and> directory_of s sid = Some d \<and> session_json d = Doc ses \<and> evidenceEpoch ses \<noteq> epoch"
  then obtain rnd d ses where "store_inv rnd s" "directory_of s sid = Some d" "session_json d = Doc ses" "evidenceEpoch ses \<noteq> epoch"
    by blast
  with status_of_at [of rnd s sid d ses env] show ?thesis by (simp add: postflight_def)
qed

lemma finish_query_stale:
  assumes "runNative native (call_of (qs_plan start) ev sp) s = (answer, t)"
    and "postflight handle sid (qs_epoch start) answer (afterNative hooks t) = (Inl (CursorFailure QueryCursorStale), u)"
  shows "finish_query hmac handle native hooks now sid start ev sp i s =
    (Inl (CursorFailure QueryCursorStale), if plan_slurp (qs_plan start) then removeSpool sid i u else u)"
  using assms by (simp add: finish_query_def drops_spool_def)

definition stale_query_error :: command_error where
  "stale_query_error = fail_with ''CURSOR_STALE'' ''Run the query again without --cursor.''
     ''Query cursor is stale because the session evidence was reset.''"

lemma query_error_stale: "query_error sid program slurp (CursorFailure QueryCursorStale) = stale_query_error"
  by (simp add: query_error_def stale_query_error_def Let_def)

lemma finish_query_result:
  assumes "finish_query hmac handle native hooks now sid start ev sp i s = (Inr r, v)"
  obtains page t u where "runNative native (call_of (qs_plan start) ev sp) s = (Inr page, t)"
    "postflight handle sid (qs_epoch start) (Inr page) (afterNative hooks t) = (Inr page, u)"
    "r = query_result_of sid (qs_plan start) (qs_diagnostics start) (qs_summary start) page
       (map_option (\<lambda>c. createQueryCursor hmac (qs_token start) (next_payload (qs_plan start) sid (qs_epoch start) now c))
         (next_continuation (qs_plan start) i page))"
    "v = (if next_continuation (qs_plan start) i page = None \<and> plan_slurp (qs_plan start) then removeSpool sid i u else u)"
proof -
  obtain answer t where n: "runNative native (call_of (qs_plan start) ev sp) s = (answer, t)" by fastforce
  obtain q u where p: "postflight handle sid (qs_epoch start) answer (afterNative hooks t) = (q, u)" by fastforce
  from assms n p obtain page where page: "q = Inr page"
    by (cases q) (auto simp: finish_query_def)
  then have "answer = Inr page"
    using p by (auto simp: postflight_def split: prod.splits sum.splits if_splits)
  with n p page assms show thesis
    by (intro that [of page t u]) (auto simp: finish_query_def Let_def)
qed

lemma postflight_same_epoch:
  assumes "postflight handle sid epoch answer s = (Inr page, u)"
  obtains ds sm ses where "status_of handle sid s = (Inr (ds, sm, ses), u)" "evidenceEpoch ses = epoch" "answer = Inr page"
  using assms by (auto simp: postflight_def split: prod.splits sum.splits if_splits)

section \<open>Continuing a query\<close>

lemma query_result_cursor [simp]:
  "qr_nextCursor (query_result_of sid plan ds sm page c) = c"
  by (simp add: query_result_of_def)

lemma sealed_not_empty [simp]: "createQueryCursor hmac token p \<noteq> []"
  by (simp add: createQueryCursor_def sealed_def Let_def)

lemma query_plan_continued:
  assumes "query_fits (next_payload plan sid epoch now c)" "[] \<notin> range (hmac token)"
    and "qo_session options = sid"
      "qo_cursor options = Some (createQueryCursor hmac token (next_payload plan sid epoch now c))"
    and "text_or_empty (qo_program options) = [] \<or> text_or_empty (qo_program options) = plan_program plan"
  shows "query_plan_of hmac token options json epoch w = Inr (plan\<lparr>plan_continuation := c\<rparr>)"
proof -
  let ?p = "next_payload plan sid epoch now c"
  have "verifyQueryCursor hmac token (createQueryCursor hmac token ?p) epoch sid = Inr ?p"
    using query_round_trip [where hmac = hmac and secret = token, OF assms(1,2), of epoch sid]
    by (simp add: next_payload_def)
  moreover have "cursor_plan ?p = plan\<lparr>plan_continuation := c\<rparr>"
    by (simp add: cursor_plan_def next_payload_def)
  moreover have "cursor_program ?p = plan_program plan" by (simp add: next_payload_def)
  ultimately show ?thesis using assms(3-5) by (auto simp: query_plan_of_def text_or_empty_def)
qed

section \<open>Spools\<close>

lemma removeSpool_gone:
  "directory_of (removeSpool sid i s) sid = Some d \<Longrightarrow> i \<notin> fst ` set (query_spools d)"
  by (auto simp: removeSpool_def split: option.splits if_splits)

text \<open>
  A slurping query whose session is removed before it makes its spool directory brings the
  directory of the session back, without a session document; removing the session does not find
  it.
\<close>

lemma ghost_directory:
  assumes "SAFE_ID sid" "directory_of s sid = None" "plan_slurp plan"
  shows "directory_of (prepared plan sid s) sid = Some empty_directory"
    "removeSession sid (prepared plan sid s) = (Inr False, prepared plan sid s)"
proof -
  show dir: "directory_of (prepared plan sid s) sid = Some empty_directory"
    using assms by (simp add: prepared_def)
  have "getSession sid (prepared plan sid s) = (Inr None, prepared plan sid s)"
    by (rule getSession_absent [OF assms(1)]) (simp add: dir empty_directory_def)
  moreover have "rejectSessionSymbolicLinks sid (prepared plan sid s) = (Inr (), prepared plan sid s)"
    using assms(1) by (simp add: rejectSessionSymbolicLinks_def dir empty_directory_def)
  ultimately show "removeSession sid (prepared plan sid s) = (Inr False, prepared plan sid s)"
    by (simp add: removeSession_def)
qed

end
