(* ===== verification/Protocol.thy ===== *)
theory Protocol
  imports Main
begin

text \<open>
  The description a daemon gives of itself (\<open>src/daemon/protocol.ts\<close>), shared by the server and by the
  client that starts it.
\<close>

section \<open>Metadata of a daemon\<close>

definition DAEMON_HOST :: string where
  "DAEMON_HOST = ''127.0.0.1''"

definition DAEMON_PROTOCOL_VERSION :: nat where
  "DAEMON_PROTOCOL_VERSION = 1"

record process_identity =
  id_executable :: "string option"
  id_startTime :: "int option"

record daemon_metadata =
  meta_activeSessions :: "nat option"
  meta_binaryVersion :: string
  meta_host :: string
  meta_nonce :: string
  meta_pid :: nat
  meta_port :: nat
  meta_processIdentity :: process_identity
  meta_protocolVersion :: nat
  meta_startedAt :: int

end
