(* ===== verification/Request_Target.thy ===== *)
theory Request_Target
  imports Utf8 Domain
begin

text \<open>
  The raw target of a request and the ingestion endpoint (\<open>src/daemon/raw-request-target.ts\<close>):
  percent decoding, the test whether a target resembles an ingestion path, and the verdict.
\<close>

section \<open>decodeURIComponent\<close>

text \<open>An escape at the front: its byte and the rest.\<close>

fun percent :: "string \<Rightarrow> (char \<times> string) option" where
  "percent (p # h # l # r) =
     (if p \<noteq> CHR ''%'' then None
      else case (hex_value h, hex_value l) of
        (Some a, Some b) \<Rightarrow> Some (char_of (16 * a + b), r)
      | _ \<Rightarrow> None)"
| "percent _ = None"

lemma percent_shorter: "percent s = Some (b, r) \<Longrightarrow> length r < length s"
  by (cases s rule: percent.cases) (auto split: if_splits option.splits)

text \<open>\<open>decodeURIComponent\<close>, \<open>None\<close> when it throws a \<open>URIError\<close>: escapes must spell well-formed UTF-8.\<close>

function decode_uri :: "string \<Rightarrow> string option" where
  "decode_uri [] = Some []"
| "decode_uri (x # s) =
     (if x \<noteq> CHR ''%'' then map_option (Cons x) (decode_uri s)
      else case percent (x # s) of
        None \<Rightarrow> None
      | Some (b, r) \<Rightarrow>
          if code b < 128 then map_option (Cons b) (decode_uri r)
          else if code b < 194 \<or> 244 < code b then None
          else (case percent r of
              None \<Rightarrow> None
            | Some (c, r1) \<Rightarrow>
                if \<not> second_ok b c then None
                else if code b < 224 then map_option (\<lambda>t. b # c # t) (decode_uri r1)
                else (case percent r1 of
                    None \<Rightarrow> None
                  | Some (d, r2) \<Rightarrow>
                      if \<not> continuation_byte d then None
                      else if code b < 240 then map_option (\<lambda>t. b # c # d # t) (decode_uri r2)
                      else (case percent r2 of
                          None \<Rightarrow> None
                        | Some (e, r3) \<Rightarrow>
                            if \<not> continuation_byte e then None
                            else map_option (\<lambda>t. b # c # d # e # t) (decode_uri r3)))))"
  by pat_completeness auto
termination
  by (relation "measure length") (auto dest!: percent_shorter)

declare decode_uri.simps(2) [simp del]

lemma decode_uri_plain: "CHR ''%'' \<notin> set s \<Longrightarrow> decode_uri s = Some s"
  by (induction s) (auto simp: decode_uri.simps(2))

section \<open>Paths\<close>

definition lower_text :: "string \<Rightarrow> string" where
  "lower_text = map ascii_lower"

text \<open>
  The line terminators \<open>.\<close> does not match: LF, CR, U+2028 and U+2029.
\<close>

definition line_terminators :: "string list" where
  "line_terminators = [[CHR 0x0A], [CHR 0x0D], [CHR 0xE2, CHR 0x80, CHR 0xA8], [CHR 0xE2, CHR 0x80, CHR 0xA9]]"

definition scheme_rest :: "string \<Rightarrow> string option" where
  "scheme_rest target =
     (let low = lower_text target
      in if starts_with low ''http://'' then Some (drop 7 target)
         else if starts_with low ''https://'' then Some (drop 8 target) else None)"

definition rawPath :: "string \<Rightarrow> string option" where
  "rawPath target =
     (if starts_with target ''/'' then Some target
      else case scheme_rest target of
        None \<Rightarrow> None
      | Some rest \<Rightarrow>
          let authority = takeWhile (\<lambda>c. c \<notin> set ''/?#'') rest; path = drop (length authority) rest
          in if authority = [] then None
             else if path = [] then Some ''/''
             else if starts_with path ''/'' \<and> \<not> list_ex (includes_text path) line_terminators then Some path
             else None)"

definition dot_segment :: "string \<Rightarrow> bool" where
  "dot_segment path \<longleftrightarrow> list_ex (\<lambda>s. s = ''.'' \<or> s = ''..'') (split_on CHR ''/'' path)"

text \<open>
  \<open>toLowerCase\<close> also changes letters outside ASCII, but the two that become ASCII letters (U+0130,
  U+212A) do not affect the texts looked for: U+0130 becomes \<open>i\<close> with a combining dot, and no text
  has a \<open>k\<close>. When decoding fails the path has a percent sign, which is what the source tests.
\<close>

definition resemblesIngestion :: "string \<Rightarrow> bool" where
  "resemblesIngestion path =
     (case decode_uri path of
        None \<Rightarrow> CHR ''%'' \<in> set path
      | Some d \<Rightarrow>
          let lower = lower_text path; decoded = lower_text d
          in starts_with lower ''/ingest'' \<or> starts_with decoded ''/ingest''
             \<or> ((dot_segment decoded \<or> includes_text lower ''%2e'') \<and> includes_text decoded ''/ingest/''))"

section \<open>The verdict\<close>

definition target_prefix :: string where
  "target_prefix = ''/ingest/''"

datatype raw_target = IngestionTarget string | InvalidTarget | OtherTarget

definition ambiguous :: "string \<Rightarrow> bool" where
  "ambiguous path \<longleftrightarrow> list_ex (includes_text path) [''?'', ''#'', [CHR 0x5C]]
     \<or> list_ex (includes_text (lower_text path)) [''%2e'', ''%2f'', ''%5c'', ''%25'']"

definition parseRawIngestionTarget :: "string \<Rightarrow> raw_target" where
  "parseRawIngestionTarget target =
     (case rawPath target of
        None \<Rightarrow> OtherTarget
      | Some path \<Rightarrow>
          if \<not> resemblesIngestion path then OtherTarget
          else if ambiguous path then InvalidTarget
          else if \<not> starts_with path target_prefix then InvalidTarget
          else if \<not> isCanonicalSessionId (drop (length target_prefix) path) then InvalidTarget
          else IngestionTarget path)"

section \<open>What is accepted\<close>

lemma ingestion_target_path:
  assumes "parseRawIngestionTarget target = IngestionTarget path"
  obtains sid where "isCanonicalSessionId sid" "path = target_prefix @ sid" "rawPath target = Some path"
proof (rule that)
  show "isCanonicalSessionId (drop (length target_prefix) path)" "rawPath target = Some path"
    using assms by (auto simp: parseRawIngestionTarget_def split: option.splits if_splits)
  have "starts_with path target_prefix"
    using assms by (auto simp: parseRawIngestionTarget_def split: option.splits if_splits)
  then show "path = target_prefix @ drop (length target_prefix) path" by (rule starts_with_drop)
qed

lemma starts_with_lower: "starts_with s p \<Longrightarrow> starts_with (lower_text s) (lower_text p)"
  by (auto simp: starts_with_iff lower_text_def)

lemma resembles_prefix:
  assumes "starts_with (lower_text path) ''/ingest''"
  shows "resemblesIngestion path"
proof (cases "decode_uri path")
  case None
  then show ?thesis using decode_uri_plain [of path] by (auto simp: resemblesIngestion_def)
next
  case (Some d)
  with assms show ?thesis by (simp add: resemblesIngestion_def)
qed

lemma ingest_paths_judged:
  assumes "rawPath target = Some path" "starts_with (lower_text path) ''/ingest''"
  shows "parseRawIngestionTarget target = InvalidTarget \<or> parseRawIngestionTarget target = IngestionTarget path"
  using assms resembles_prefix [OF assms(2)] by (simp add: parseRawIngestionTarget_def)

lemma includes_text_iff: "includes_text s p \<longleftrightarrow> (\<exists>a b. s = a @ p @ b)"
proof (induction s)
  case (Cons c s)
  have "(\<exists>a b. c # s = a @ p @ b) \<longleftrightarrow> starts_with (c # s) p \<or> (\<exists>a b. s = a @ p @ b)"
  proof
    assume "\<exists>a b. c # s = a @ p @ b"
    then obtain a b where ab: "c # s = a @ p @ b" by blast
    then show "starts_with (c # s) p \<or> (\<exists>a b. s = a @ p @ b)"
      by (cases a) (auto simp: starts_with_iff)
  next
    assume "starts_with (c # s) p \<or> (\<exists>a b. s = a @ p @ b)"
    then show "\<exists>a b. c # s = a @ p @ b"
    proof
      assume "starts_with (c # s) p"
      then show ?thesis by (metis append_Nil starts_with_iff)
    next
      assume "\<exists>a b. s = a @ p @ b"
      then show ?thesis by (metis append_Cons)
    qed
  qed
  with Cons show ?case by simp
qed auto

lemma includes_text_chars: "includes_text s p \<Longrightarrow> set p \<subseteq> set s"
  by (auto simp: includes_text_iff)

lemma lower_text_low:
  assumes "x \<in> set (lower_text s)" "\<not> is_lower x"
  shows "x \<in> set s"
proof -
  from assms(1) obtain y where y: "y \<in> set s" "x = ascii_lower y" by (auto simp: lower_text_def)
  with assms(2) have "\<not> is_upper y" using code_ascii_lower [of y] by (auto simp: is_lower_def is_upper_def)
  with y show ?thesis by (simp add: ascii_lower_id)
qed

lemma no_percent: "CHR ''%'' \<notin> set s \<Longrightarrow> \<not> includes_text (lower_text s) (CHR ''%'' # r)"
  using includes_text_chars [of "lower_text s" "CHR ''%'' # r"] lower_text_low [of "CHR ''%''" s]
  by (auto simp: is_lower_def)

lemma unambiguous: "set s \<inter> set [CHR ''?'', CHR ''#'', CHR 0x5C, CHR ''%''] = {} \<Longrightarrow> \<not> ambiguous s"
  using includes_text_chars [of s "[x]" for x] by (auto simp: ambiguous_def no_percent)

lemma canonical_plain:
  "isCanonicalSessionId sid \<Longrightarrow> x \<in> set sid \<Longrightarrow> x \<notin> set [CHR ''?'', CHR ''#'', CHR 0x5C, CHR ''%'', CHR ''/'', CHR ''.'']"
  using canonical_chars [of sid x] by (auto simp: is_hex_lower_def is_digit_def)

lemma canonical_target:
  assumes "isCanonicalSessionId sid"
  shows "parseRawIngestionTarget (target_prefix @ sid) = IngestionTarget (target_prefix @ sid)"
proof -
  let ?p = "target_prefix @ sid"
  have "\<not> ambiguous ?p"
    using canonical_plain [OF assms] by (intro unambiguous) (auto simp: target_prefix_def)
  moreover have "rawPath ?p = Some ?p" by (simp add: rawPath_def target_prefix_def)
  moreover have "resemblesIngestion ?p" by (rule resembles_prefix) (simp add: lower_text_def target_prefix_def)
  ultimately show ?thesis using assms by (simp add: parseRawIngestionTarget_def)
qed

text \<open>
  The test for dot segments does not look at backslashes, which a URL parser takes for slashes:
  this target is passed on as if it had nothing to do with ingestion.
\<close>

definition backslash_prefix :: string where
  "backslash_prefix = ''/.'' @ [CHR 0x5C] @ ''ingest/''"

lemma backslash_target:
  assumes "isCanonicalSessionId sid"
  shows "parseRawIngestionTarget (backslash_prefix @ sid) = OtherTarget"
proof -
  let ?p = "backslash_prefix @ sid"
  have no: "CHR ''%'' \<notin> set ?p" using canonical_plain [OF assms] by (auto simp: backslash_prefix_def)
  have "lower_text ?p = backslash_prefix @ lower_text sid" by (simp add: lower_text_def backslash_prefix_def is_upper_def)
  moreover have "split_on CHR ''/'' (backslash_prefix @ lower_text sid) =
      [[], CHR ''.'' # CHR 0x5C # ''ingest'', lower_text sid]"
  proof -
    have "CHR ''/'' \<notin> set (lower_text sid)"
      using lower_text_low [of "CHR ''/''" sid] canonical_plain [OF assms] by (auto simp: is_lower_def)
    from split_on_no_sep [OF this] show ?thesis by (simp add: backslash_prefix_def)
  qed
  moreover have "length (lower_text sid) = 36" using canonical_length [OF assms] by (simp add: lower_text_def)
  ultimately have "\<not> dot_segment (lower_text ?p)" by (auto simp: dot_segment_def)
  moreover have "\<not> includes_text (lower_text ?p) ''%2e''" by (rule no_percent [OF no])
  moreover have "\<not> starts_with (lower_text ?p) ''/ingest''"
    by (simp add: lower_text_def backslash_prefix_def is_upper_def)
  ultimately have "\<not> resemblesIngestion ?p"
    unfolding resemblesIngestion_def decode_uri_plain [OF no] by (simp only: option.case Let_def simp_thms)
  moreover have "rawPath ?p = Some ?p" by (simp add: rawPath_def backslash_prefix_def)
  ultimately show ?thesis by (simp add: parseRawIngestionTarget_def)
qed

end
