(* ===== verification/Server.thy ===== *)
theory Server
  imports Protocol Request_Target Control_Facts Activity Ingest_Facts
begin

text \<open>
  The HTTP server of the daemon (\<open>src/daemon/server.ts\<close>): the path of a request from its raw
  target to the ingestion endpoint, the authorization (\<open>isAuthorized\<close>, \<open>src/daemon/auth.ts\<close>), the health and shutdown endpoints
  and the control API, with the activity tracker it touches. \<open>parse_url\<close> is the \<open>URL\<close>
  constructor of the run-time system.
\<close>

section \<open>Requests\<close>

record url =
  url_protocol :: string
  url_hostname :: string
  url_pathname :: string
  url_search :: "(string \<times> string) list"

text \<open>\<open>raw_headers\<close> are the pairs of \<open>request.rawHeaders\<close>, \<open>raw_chunks\<close> the chunks of the body.\<close>

record server_request =
  raw_url :: string
  raw_method :: "string option"
  raw_headers :: "(string \<times> string) list"
  raw_chunks :: "string list"

text \<open>
  The \<open>Headers\<close> of the request: names without regard to case, pairs with an empty name or value
  left out, values of equal names joined.
\<close>

definition incomingHeaders :: "server_request \<Rightarrow> (string \<times> string) list" where
  "incomingHeaders req = filter (\<lambda>(n, v). n \<noteq> [] \<and> v \<noteq> []) (raw_headers req)"

definition header_get :: "string \<Rightarrow> (string \<times> string) list \<Rightarrow> string option" where
  "header_get name hs =
     (case map snd (filter (\<lambda>h. lower_text (fst h) = name) hs) of
        [] \<Rightarrow> None
      | vs \<Rightarrow> Some (join_with '', '' vs))"

text \<open>\<open>incoming.headers.host\<close> and \<open>content-length\<close>: the first value counts.\<close>

definition first_header :: "string \<Rightarrow> server_request \<Rightarrow> string option" where
  "first_header name req = map_of (map (\<lambda>(n, v). (lower_text n, v)) (raw_headers req)) name"

definition MAX_REQUEST_BODY_BYTES :: nat where
  "MAX_REQUEST_BODY_BYTES = 128 * 1024"

fun read_chunks :: "nat \<Rightarrow> string list \<Rightarrow> string option" where
  "read_chunks n [] = Some []"
| "read_chunks n (c # cs) =
     (if MAX_REQUEST_BODY_BYTES < n + length c then None
      else map_option ((@) c) (read_chunks (n + length c) cs))"

definition declared_length :: "server_request \<Rightarrow> jsnum" where
  "declared_length req =
     js_number (case first_header ''content-length'' req of None \<Rightarrow> ''0'' | Some v \<Rightarrow> v)"

text \<open>\<open>None\<close> for \<open>RequestBodyTooLargeError\<close>.\<close>

definition requestBody :: "server_request \<Rightarrow> string option" where
  "requestBody req =
     (if is_finite (declared_length req)
         \<and> \<not> num_le (declared_length req) (num_of_int (int MAX_REQUEST_BODY_BYTES)) then None
      else read_chunks 0 (raw_chunks req))"

text \<open>\<open>request.text()\<close> drops a byte order mark and decodes.\<close>

definition body_text :: "string \<Rightarrow> string" where
  "body_text body = utf8_decode
     (if starts_with body [CHR 0xEF, CHR 0xBB, CHR 0xBF] then drop 3 body else body)"

text \<open>The \<open>Request\<close> constructor normalises these methods and refuses some others.\<close>

definition upper_text :: "string \<Rightarrow> string" where
  "upper_text = map ascii_upper"

definition request_method :: "string \<Rightarrow> string option" where
  "request_method m =
     (let u = upper_text m
      in if u \<in> set [''CONNECT'', ''TRACE'', ''TRACK''] then None
         else if u \<in> set [''DELETE'', ''GET'', ''HEAD'', ''OPTIONS'', ''POST'', ''PUT''] then Some u
         else Some m)"

definition absolute_target :: "server_request \<Rightarrow> string" where
  "absolute_target req =
     (if scheme_rest (raw_url req) \<noteq> None then raw_url req
      else ''http://'' @ (case first_header ''host'' req of None \<Rightarrow> DAEMON_HOST | Some h \<Rightarrow> h)
        @ (if starts_with (raw_url req) ''/'' then raw_url req else ''/''))"

definition isAuthorized :: "(string \<times> string) list \<Rightarrow> string \<Rightarrow> bool" where
  "isAuthorized hs controlToken =
     (case header_get ''authorization'' hs of
        None \<Rightarrow> False
      | Some a \<Rightarrow> starts_with a ''Bearer '' \<and> drop (length ''Bearer '') a = controlToken)"

section \<open>The handler of a request\<close>

datatype server_reply =
    JsonReply nat string string
  | IngestAnswer http_response
  | HealthAnswer daemon_metadata
  | ShutdownAccepted
  | ControlAnswer control_reply

fun answer_status :: "server_reply \<Rightarrow> nat" where
  "answer_status (JsonReply status k v) = status"
| "answer_status (IngestAnswer r) = resp_status r"
| "answer_status (HealthAnswer m) = 200"
| "answer_status ShutdownAccepted = 202"
| "answer_status (ControlAnswer r) = reply_status r"

text \<open>\<open>srv_stops\<close> counts the calls of \<open>stop\<close> that shutdown requests have scheduled.\<close>

record server_state =
  srv_daemon :: daemon
  srv_activity :: tracker
  srv_stops :: nat

record server_env =
  se_control :: control_env
  se_token :: string
  se_metadata :: daemon_metadata
  se_parse_url :: "string \<Rightarrow> url option"
  se_clock :: "nat \<Rightarrow> int"

definition origin_parts :: "(string \<Rightarrow> url option) \<Rightarrow> string \<Rightarrow> (string \<times> string) option" where
  "origin_parts parse_url o' = map_option (\<lambda>u. (url_protocol u, url_hostname u)) (parse_url o')"

definition ingest_request :: "server_request \<Rightarrow> string \<Rightarrow> string \<Rightarrow> string \<Rightarrow> http_request" where
  "ingest_request req verb pathname body =
     \<lparr>req_method = verb, req_pathname = pathname, req_origin = header_get ''origin'' (incomingHeaders req),
      req_contentType = header_get ''content-type'' (incomingHeaders req),
      req_body = (if verb = ''GET'' \<or> verb = ''HEAD'' then [] else body_text body)\<rparr>"

definition server_origin :: "daemon_metadata \<Rightarrow> string" where
  "server_origin m = ''http://'' @ meta_host m @ '':'' @ nat_text (meta_port m)"

text \<open>A response with an event stream holds a lease while it is written.\<close>

definition send :: "server_reply \<Rightarrow> server_state \<Rightarrow> server_reply \<times> server_state" where
  "send r s = (r, case r of
       ControlAnswer (LiveEvents sid) \<Rightarrow> s\<lparr>srv_activity := acquireLease (srv_activity s)\<rparr>
     | _ \<Rightarrow> s)"

definition internal_error :: server_reply where
  "internal_error = JsonReply 500 ''error'' ''internal-server-error''"

text \<open>The part after authorization.\<close>

definition serve_control :: "server_env \<Rightarrow> url \<Rightarrow> string \<Rightarrow> server_state \<Rightarrow> server_reply \<times> server_state" where
  "serve_control env u verb s =
     (if verb = ''GET'' \<and> url_pathname u = ''/v1/control/health''
      then case listSessions None None (srv_daemon s) of
          (Inl e, d) \<Rightarrow> (internal_error, s\<lparr>srv_daemon := d\<rparr>)
        | (Inr l, d) \<Rightarrow> send (HealthAnswer ((se_metadata env)\<lparr>meta_activeSessions := Some (length l)\<rparr>)) (s\<lparr>srv_daemon := d\<rparr>)
      else if verb = ''POST'' \<and> url_pathname u = ''/v1/control/shutdown''
      then send ShutdownAccepted (s\<lparr>srv_stops := srv_stops s + 1\<rparr>)
      else case handleControl ((se_control env)\<lparr>env_origin := server_origin (se_metadata env)\<rparr>)
            \<lparr>ctl_method = verb, ctl_pathname = url_pathname u, ctl_search = url_search u\<rparr> (srv_daemon s) of
          (Inl e, d) \<Rightarrow> (internal_error, s\<lparr>srv_daemon := d\<rparr>)
        | (Inr None, d) \<Rightarrow> (JsonReply 404 ''error'' ''not-found'', s\<lparr>srv_daemon := d\<rparr>)
        | (Inr (Some r), d) \<Rightarrow> send (ControlAnswer r) (s\<lparr>srv_daemon := d\<rparr>))"

definition serve_request ::
  "server_env \<Rightarrow> server_request \<Rightarrow> url \<Rightarrow> string \<Rightarrow> string \<Rightarrow> string \<Rightarrow> server_state \<Rightarrow> server_reply \<times> server_state" where
  "serve_request env req u pathname verb body s =
     (case handleIngest (origin_parts (se_parse_url env)) (env_uuid (se_control env)) (se_clock env)
          (ingest_request req verb pathname body) (srv_daemon s) of
        (Inl e, d) \<Rightarrow> (internal_error, s\<lparr>srv_daemon := d\<rparr>)
      | (Inr (Some r), d) \<Rightarrow> send (IngestAnswer r) (s\<lparr>srv_daemon := d\<rparr>)
      | (Inr None, d) \<Rightarrow>
          if \<not> isAuthorized (incomingHeaders req) (se_token env)
          then (JsonReply 401 ''error'' ''unauthorized'', s\<lparr>srv_daemon := d\<rparr>)
          else serve_control env u verb (s\<lparr>srv_daemon := d\<rparr>))"

definition bad_target :: server_reply where
  "bad_target = JsonReply 400 ''code'' ''INVALID_ARGUMENTS''"

definition serve :: "server_env \<Rightarrow> server_request \<Rightarrow> server_state \<Rightarrow> server_reply \<times> server_state" where
  "serve env req s0 =
     (let s = s0\<lparr>srv_activity := touch (srv_activity s0)\<rparr>; ingestionTarget = parseRawIngestionTarget (raw_url req)
      in if ingestionTarget = InvalidTarget then (bad_target, s)
         else case se_parse_url env (absolute_target req) of
           None \<Rightarrow> (bad_target, s)
         | Some u \<Rightarrow> (case requestBody req of
               None \<Rightarrow> (JsonReply 413 ''error'' ''payload-too-large'', s)
             | Some body \<Rightarrow> (case request_method (case raw_method req of None \<Rightarrow> ''GET'' | Some m \<Rightarrow> m) of
                   None \<Rightarrow> (internal_error, s)
                 | Some verb \<Rightarrow>
                     serve_request env req u
                       (case ingestionTarget of IngestionTarget p \<Rightarrow> p | _ \<Rightarrow> url_pathname u) verb body s)))"

section \<open>Bodies\<close>

lemma read_chunks_iff:
  "read_chunks n cs = (if n + length (concat cs) \<le> MAX_REQUEST_BODY_BYTES \<or> cs = [] then Some (concat cs) else None)"
proof (induction cs arbitrary: n)
  case (Cons c cs)
  show ?case
    by (cases "cs = []") (auto simp: Cons add.assoc)
qed simp

lemma requestBody_bounded:
  "requestBody req = Some body \<Longrightarrow> body = concat (raw_chunks req) \<and> length body \<le> MAX_REQUEST_BODY_BYTES"
  by (auto simp: requestBody_def read_chunks_iff split: if_splits)

section \<open>Who can change the evidence\<close>

lemma hasSession_state: "snd (hasSession sid s) = s"
proof -
  have "keeps (\<lambda>t. t = s) (hasSession sid)"
    unfolding hasSession_def by (intro inv_intros)
  then show ?thesis by (simp add: keeps_def)
qed

lemma handleIngest_changes:
  assumes "snd (handleIngest parse uuid clock req s) \<noteq> s"
  obtains sid where "req_pathname req = ingest_prefix @ sid" "isCanonicalSessionId sid"
    "isAllowedOrigin parse (req_origin req)" "req_method req = ''POST''"
proof -
  define sid where "sid = drop (length ingest_prefix) (req_pathname req)"
  have c: "starts_with (req_pathname req) ingest_prefix" "isCanonicalSessionId sid"
    "isAllowedOrigin parse (req_origin req)" "req_method req = ''POST''"
    using assms by (auto simp: handleIngest_def Let_def sid_def split: if_splits)
  from starts_with_drop [OF c(1)] have "req_pathname req = ingest_prefix @ sid" by (simp add: sid_def)
  with c show thesis by (intro that)
qed

lemma handleIngest_other:
  "handleIngest parse uuid clock req s = (Inr None, t) \<Longrightarrow> t = s \<and> \<not> starts_with (req_pathname req) ingest_prefix"
  by (cases "hasSession (drop (length ingest_prefix) (req_pathname req)) s")
    (auto simp: handleIngest_def Let_def andThen_def split: if_splits sum.splits prod.splits)

lemma send_daemon [simp]: "srv_daemon (snd (send r s)) = srv_daemon s" "fst (send r s) = r"
  by (simp_all add: send_def split: server_reply.split control_reply.split)

lemma serve_request_unauthorized:
  assumes "\<not> isAuthorized (incomingHeaders req) (se_token env)"
  shows "srv_daemon (snd (serve_request env req u pathname verb body s)) =
    snd (handleIngest (origin_parts (se_parse_url env)) (env_uuid (se_control env)) (se_clock env)
      (ingest_request req verb pathname body) (srv_daemon s))"
  using assms by (auto simp: serve_request_def split: prod.splits sum.splits option.splits)

lemma serve_cases:
  obtains (refused) r where "serve env req s = (r, s\<lparr>srv_activity := touch (srv_activity s)\<rparr>)"
      "answer_status r \<in> {400, 413, 500}"
  | (passed) u body verb where
      "parseRawIngestionTarget (raw_url req) \<noteq> InvalidTarget"
      "se_parse_url env (absolute_target req) = Some u" "requestBody req = Some body"
      "request_method (case raw_method req of None \<Rightarrow> ''GET'' | Some m \<Rightarrow> m) = Some verb"
      "serve env req s = serve_request env req u
        (case parseRawIngestionTarget (raw_url req) of IngestionTarget p \<Rightarrow> p | _ \<Rightarrow> url_pathname u) verb body
        (s\<lparr>srv_activity := touch (srv_activity s)\<rparr>)"
proof -
  let ?s = "s\<lparr>srv_activity := touch (srv_activity s)\<rparr>"
  show thesis
  proof (cases "parseRawIngestionTarget (raw_url req) = InvalidTarget \<or> se_parse_url env (absolute_target req) = None")
    case True
    then show thesis by (intro refused [of bad_target]) (auto simp: serve_def Let_def bad_target_def)
  next
    case False
    then obtain u where u: "se_parse_url env (absolute_target req) = Some u" by auto
    show thesis
    proof (cases "requestBody req")
      case None
      with False u show thesis
        by (intro refused [of "JsonReply 413 ''error'' ''payload-too-large''"]) (simp_all add: serve_def Let_def)
    next
      case (Some body)
      show thesis
      proof (cases "request_method (case raw_method req of None \<Rightarrow> ''GET'' | Some m \<Rightarrow> m)")
        case None
        with Some False u show thesis
          by (intro refused [of internal_error]) (simp_all add: serve_def Let_def internal_error_def)
      next
        case verb: (Some verb)
        with Some False u show thesis by (intro passed [of u body verb]) (simp_all add: serve_def Let_def)
      qed
    qed
  qed
qed

lemma serve_unauthorized:
  assumes "\<not> isAuthorized (incomingHeaders req) (se_token env)"
    and "srv_daemon (snd (serve env req s)) \<noteq> srv_daemon s"
  obtains u sid where "se_parse_url env (absolute_target req) = Some u" "isCanonicalSessionId sid"
    "parseRawIngestionTarget (raw_url req) = IngestionTarget (ingest_prefix @ sid)
      \<or> parseRawIngestionTarget (raw_url req) = OtherTarget \<and> url_pathname u = ingest_prefix @ sid"
    "isAllowedOrigin (origin_parts (se_parse_url env)) (header_get ''origin'' (incomingHeaders req))"
    "request_method (case raw_method req of None \<Rightarrow> ''GET'' | Some m \<Rightarrow> m) = Some ''POST''"
    "length (concat (raw_chunks req)) \<le> MAX_REQUEST_BODY_BYTES"
proof (cases rule: serve_cases [of env req s])
  case (refused r)
  with assms(2) show thesis by simp
next
  case (passed u body verb)
  let ?path = "case parseRawIngestionTarget (raw_url req) of IngestionTarget p \<Rightarrow> p | _ \<Rightarrow> url_pathname u"
  from assms(2) passed(5) serve_request_unauthorized [OF assms(1), of u ?path verb body]
  have "snd (handleIngest (origin_parts (se_parse_url env)) (env_uuid (se_control env)) (se_clock env)
      (ingest_request req verb ?path body) (srv_daemon s)) \<noteq> srv_daemon s" by simp
  from handleIngest_changes [OF this] obtain sid where sid: "?path = ingest_prefix @ sid" "isCanonicalSessionId sid"
    "isAllowedOrigin (origin_parts (se_parse_url env)) (header_get ''origin'' (incomingHeaders req))" "verb = ''POST''"
    by (auto simp: ingest_request_def)
  show thesis
  proof (rule that [OF passed(2) sid(2) _ sid(3)])
    show "parseRawIngestionTarget (raw_url req) = IngestionTarget (ingest_prefix @ sid)
      \<or> parseRawIngestionTarget (raw_url req) = OtherTarget \<and> url_pathname u = ingest_prefix @ sid"
      using passed(1) sid(1) by (cases "parseRawIngestionTarget (raw_url req)") auto
    show "length (concat (raw_chunks req)) \<le> MAX_REQUEST_BODY_BYTES" using requestBody_bounded [OF passed(3)] by metis
  qed (use passed(4) sid(4) in simp)
qed

section \<open>Requests with the token\<close>

lemma serve_authorized:
  assumes "isAuthorized (incomingHeaders req) (se_token env)"
    and "parseRawIngestionTarget (raw_url req) = OtherTarget" "se_parse_url env (absolute_target req) = Some u"
    and "requestBody req = Some body" "request_method (case raw_method req of None \<Rightarrow> ''GET'' | Some m \<Rightarrow> m) = Some verb"
    and "\<not> starts_with (url_pathname u) ingest_prefix"
  shows "serve env req s = serve_control env u verb (s\<lparr>srv_activity := touch (srv_activity s)\<rparr>)"
proof -
  have "handleIngest parse uuid clock (ingest_request req verb (url_pathname u) body) d = (Inr None, d)" for parse uuid clock d
    using assms(6) by (simp add: handleIngest_def ingest_request_def)
  with assms show ?thesis by (simp add: serve_def serve_request_def Let_def)
qed

lemma serve_control_reply:
  assumes "handleControl ((se_control env)\<lparr>env_origin := server_origin (se_metadata env)\<rparr>)
      \<lparr>ctl_method = verb, ctl_pathname = url_pathname u, ctl_search = url_search u\<rparr> (srv_daemon s) = (r, d)"
    and "url_pathname u \<notin> {''/v1/control/health'', ''/v1/control/shutdown''}"
  shows "fst (serve_control env u verb s) = (case r of
      Inl e \<Rightarrow> internal_error | Inr None \<Rightarrow> JsonReply 404 ''error'' ''not-found'' | Inr (Some x) \<Rightarrow> ControlAnswer x)"
    "srv_daemon (snd (serve_control env u verb s)) = d"
  using assms by (auto simp: serve_control_def split: sum.splits option.splits)

section \<open>Activity\<close>

lemma send_activity:
  "srv_activity (snd (send r s)) = (case r of ControlAnswer (LiveEvents sid) \<Rightarrow> acquireLease (srv_activity s) | _ \<Rightarrow> srv_activity s)"
  by (simp add: send_def split: server_reply.split control_reply.split)

end
