(* ===== verification/Polling.thy ===== *)
theory Polling
  imports Main
begin

text \<open>
  The polling loops of the client: a body is repeated, with a pause after each round, while the
  clock shows less than a deadline. A loop that does not end has the value \<open>None\<close>; the interface
  \<open>steady_loop\<close> states what a loop needs to end, and what then holds of its result.
\<close>

partial_function (option) poll_until ::
  "('m \<Rightarrow> int) \<Rightarrow> ('m \<Rightarrow> 'm) \<Rightarrow> int \<Rightarrow> ('m \<Rightarrow> ('r option \<times> 'm) option) \<Rightarrow> 'm \<Rightarrow> ('r option \<times> 'm) option" where
  "poll_until now pause deadline body m =
     (if now m < deadline
      then Option.bind (body m) (\<lambda>(r, t).
        case r of
          Some x \<Rightarrow> Some (Some x, t)
        | None \<Rightarrow> poll_until now pause deadline body (pause t))
      else Some (None, m))"

lemma poll_until_over: "\<not> now m < deadline \<Longrightarrow> poll_until now pause deadline body m = Some (None, m)"
  by (simp add: poll_until.simps [of now pause deadline body m])

lemma poll_until_found:
  "now m < deadline \<Longrightarrow> body m = Some (Some x, t) \<Longrightarrow> poll_until now pause deadline body m = Some (Some x, t)"
  by (simp add: poll_until.simps [of now pause deadline body m])

lemma poll_until_next:
  "now m < deadline \<Longrightarrow> body m = Some (None, t) \<Longrightarrow>
     poll_until now pause deadline body m = poll_until now pause deadline body (pause t)"
  by (simp add: poll_until.simps [of now pause deadline body m])

locale steady_loop =
  fixes now :: "'m \<Rightarrow> int"
    and pause :: "'m \<Rightarrow> 'm"
    and body :: "'m \<Rightarrow> ('r option \<times> 'm) option"
  assumes body_returns: "\<exists>q t. body m = Some (q, t)"
    and time_advances: "body m = Some (None, t) \<Longrightarrow> now m < now (pause t)"
begin

text \<open>Induction over the rounds of a loop.\<close>

lemma rounds_induct [case_names over found again]:
  assumes over: "\<And>m. \<not> now m < deadline \<Longrightarrow> P m"
    and found: "\<And>m x t. now m < deadline \<Longrightarrow> body m = Some (Some x, t) \<Longrightarrow> P m"
    and further: "\<And>m t. now m < deadline \<Longrightarrow> body m = Some (None, t) \<Longrightarrow> P (pause t) \<Longrightarrow> P m"
  shows "P m"
proof (induction "nat (deadline - now m)" arbitrary: m rule: less_induct)
  case less
  show ?case
  proof (cases "now m < deadline")
    case True
    obtain q t where b: "body m = Some (q, t)" using body_returns by blast
    show ?thesis
    proof (cases q)
      case None
      with b time_advances have "now m < now (pause t)" by blast
      with True have "nat (deadline - now (pause t)) < nat (deadline - now m)" by simp
      from less [OF this] True b None further show ?thesis by blast
    qed (use True b found in blast)
  qed (use over in blast)
qed

lemma loop_returns: "\<exists>r t. poll_until now pause deadline body m = Some (r, t)"
  by (induction m rule: rounds_induct [of deadline])
    (auto simp: poll_until_over poll_until_found poll_until_next)

text \<open>
  A fact that every round without a result keeps holds when the deadline is over; a result
  comes from a round that starts with it, before the deadline.
\<close>

lemma loop_cases:
  assumes "poll_until now pause deadline body m = Some (r, t)" "P m"
    and "\<And>u v. P u \<Longrightarrow> now u < deadline \<Longrightarrow> body u = Some (None, v) \<Longrightarrow> P (pause v)"
  obtains (timeout) "r = None" "P t" "deadline \<le> now t"
  | (result) u x where "r = Some x" "P u" "now u < deadline" "body u = Some (Some x, t)"
proof -
  have "r = None \<and> P t \<and> deadline \<le> now t \<or> (\<exists>u x. r = Some x \<and> P u \<and> now u < deadline \<and> body u = Some (Some x, t))"
    using assms(1,2)
  proof (induction m rule: rounds_induct [of deadline])
    case (over m)
    then show ?case by (simp add: poll_until_over)
  next
    case (found m x u)
    then show ?case by (auto simp: poll_until_found)
  next
    case (again m v)
    then show ?case using assms(3) by (simp add: poll_until_next)
  qed
  then show thesis using timeout result by blast
qed

lemma loop_keeps:
  assumes "poll_until now pause deadline body m = Some (r, t)" "P m"
    and "\<And>u q v. P u \<Longrightarrow> body u = Some (q, v) \<Longrightarrow> P v" "\<And>u. P u \<Longrightarrow> P (pause u)"
  shows "P t"
  using assms(1,2)
proof (rule loop_cases)
  show "P (pause v)" if "P u" "body u = Some (None, v)" for u v
    using that assms(3,4) by blast
qed (use assms(3) in blast)+

end

end
