(* ===== verification/Startup.thy ===== *)
theory Startup
  imports Polling Protocol Js_Number Paths
begin

text \<open>
  The files of the state root that daemons and clients share, and the operations on them:
  \<open>src/daemon/state-file.ts\<close>, the startup lock (\<open>src/daemon/startup-lock.ts\<close>) and the control token
  (\<open>src/daemon/auth.ts\<close>). Other processes act on the same files: at every point where an operation
  waits they may change any file, as \<open>he_world\<close> says. The clock is steady: it never goes back,
  and a pause of some milliseconds moves it by at least as much.
\<close>

section \<open>The machine\<close>

datatype 'a state_document = NoFile | BadFile | FileOf 'a

record lock_owner =
  owner_nonce :: string
  owner_pid :: nat
  owner_deadline :: int

record process_inspection =
  proc_exists :: bool
  proc_executable :: "string option"
  proc_startTime :: "int option"
  proc_zombie :: bool

text \<open>What a process has done to others; it has no influence on the code.\<close>

datatype deed =
    Answered nat daemon_metadata
  | NoAnswer nat
  | Signalled nat process_identity bool
  | ShutdownAsked nat
  | Launched string

text \<open>
  The lock is a directory with its time of modification, the token file has the number of its
  inode.
\<close>

record machine =
  mclock :: int
  daemon_file :: "daemon_metadata state_document"
  candidates :: "string \<Rightarrow> daemon_metadata state_document"
  lock_dir :: "(lock_owner state_document \<times> int) option"
  token_file :: "(nat \<times> string) option"
  inodes :: nat
  drawn :: nat
  deeds :: "deed list"

record host_env =
  he_world :: "machine \<Rightarrow> machine"
  he_delay :: "machine \<Rightarrow> nat"
  he_inspect :: "nat \<Rightarrow> machine \<Rightarrow> process_inspection"
  he_signal :: "nat \<Rightarrow> process_identity \<Rightarrow> bool \<Rightarrow> machine \<Rightarrow> bool"
  he_answer :: "nat \<Rightarrow> machine \<Rightarrow> daemon_metadata option"
  he_shutdown :: "nat \<Rightarrow> machine \<Rightarrow> nat option"
  he_launch :: "string \<Rightarrow> machine \<Rightarrow> string + nat"
  he_uuid :: "nat \<Rightarrow> string"
  he_token :: "nat \<Rightarrow> string"
  he_version :: string
  he_pid :: nat
  he_windows :: bool

text \<open>A point where the process waits and others act.\<close>

definition act :: "host_env \<Rightarrow> machine \<Rightarrow> machine" where
  "act env m = (he_world env m)
     \<lparr>mclock := mclock m + int (he_delay env m), drawn := drawn m, deeds := deeds m\<rparr>"

definition sleepFor :: "host_env \<Rightarrow> nat \<Rightarrow> machine \<Rightarrow> machine" where
  "sleepFor env ms m = (let t = act env m in t\<lparr>mclock := mclock t + int ms\<rparr>)"

definition record_deed :: "deed \<Rightarrow> machine \<Rightarrow> machine" where
  "record_deed x m = m\<lparr>deeds := deeds m @ [x]\<rparr>"

section \<open>Operations\<close>

datatype startup_error =
    FileGone
  | FileSyntax
  | IncompatibleDaemon
  | ChildExited
  | NotReady bool bool
  | NoLock
  | SurvivedSignal
  | RequestFailed
  | ShutdownRefused nat
  | ShutdownLate
  | LaunchFailed string
  | UndefinedThrown

text \<open>An operation returns or throws, or does not end.\<close>

type_synonym 'a mop = "machine \<Rightarrow> ((startup_error + 'a) \<times> machine) option"

definition mret :: "'a \<Rightarrow> 'a mop" where
  "mret x = (\<lambda>m. Some (Inr x, m))"

definition mthrow :: "startup_error \<Rightarrow> 'a mop" where
  "mthrow e = (\<lambda>m. Some (Inl e, m))"

definition mdo :: "(machine \<Rightarrow> 'a \<times> machine) \<Rightarrow> 'a mop" where
  "mdo f = (\<lambda>m. case f m of (x, t) \<Rightarrow> Some (Inr x, t))"

definition chain :: "'a mop \<Rightarrow> ('a \<Rightarrow> 'b mop) \<Rightarrow> 'b mop" where
  "chain op f = (\<lambda>m. Option.bind (op m) (\<lambda>(r, t). case r of Inl e \<Rightarrow> Some (Inl e, t) | Inr x \<Rightarrow> f x t))"

text \<open>\<open>try { op } finally { cleanup }\<close> and \<open>try { op } catch (e) { handler e }\<close>.\<close>

definition and_finally :: "'a mop \<Rightarrow> unit mop \<Rightarrow> 'a mop" where
  "and_finally op cleanup = (\<lambda>m. Option.bind (op m) (\<lambda>(r, t).
     Option.bind (cleanup t) (\<lambda>(q, u). case q of Inl e \<Rightarrow> Some (Inl e, u) | Inr _ \<Rightarrow> Some (r, u))))"

definition on_error :: "'a mop \<Rightarrow> (startup_error \<Rightarrow> 'a mop) \<Rightarrow> 'a mop" where
  "on_error op handler = (\<lambda>m. Option.bind (op m) (\<lambda>(r, t).
     case r of Inl e \<Rightarrow> handler e t | Inr x \<Rightarrow> Some (Inr x, t)))"

lemma mop_simps [simp]:
  "mret x m = Some (Inr x, m)" "mthrow e m = Some (Inl e, m)"
  "mdo f m = (case f m of (x, t) \<Rightarrow> Some (Inr x, t))"
  "op m = Some (Inr x, t) \<Longrightarrow> chain op k m = k x t"
  "op m = Some (Inl e, t) \<Longrightarrow> chain op k m = Some (Inl e, t)"
  "op m = Some (Inr x, t) \<Longrightarrow> on_error op h m = Some (Inr x, t)"
  "op m = Some (Inl e, t) \<Longrightarrow> on_error op h m = h e t"
  by (simp_all add: mret_def mthrow_def mdo_def chain_def on_error_def)

text \<open>Operations that end, and that do not turn the clock back.\<close>

named_theorems ending \<open>operations that end\<close>

definition ends :: "(machine \<Rightarrow> ('r \<times> machine) option) \<Rightarrow> bool" where
  "ends op \<longleftrightarrow> (\<forall>m. \<exists>r t. op m = Some (r, t) \<and> mclock m \<le> mclock t)"

lemma endsI: "(\<And>m. \<exists>r t. op m = Some (r, t) \<and> mclock m \<le> mclock t) \<Longrightarrow> ends op"
  by (simp add: ends_def)

lemma endsE:
  assumes "ends op"
  obtains r t where "op m = Some (r, t)" "mclock m \<le> mclock t"
  using assms unfolding ends_def by metis

lemma ends_mret [ending]: "ends (mret x)"
  by (simp add: ends_def)

lemma ends_mthrow [ending]: "ends (mthrow e)"
  by (simp add: ends_def)

lemma ends_if [ending]: "(b \<Longrightarrow> ends f) \<Longrightarrow> (\<not> b \<Longrightarrow> ends g) \<Longrightarrow> ends (if b then f else g)"
  by simp

lemma ends_mdo [ending]: "(\<And>m. mclock m \<le> mclock (snd (f m))) \<Longrightarrow> ends (mdo f)"
  unfolding ends_def mdo_def by (metis (no_types, lifting) case_prod_beta)

lemma ends_chain [ending]:
  assumes "ends op" "\<And>x. ends (f x)"
  shows "ends (chain op f)"
proof (rule endsI)
  fix m
  obtain r t where 1: "op m = Some (r, t)" "mclock m \<le> mclock t" using assms(1) by (rule endsE)
  show "\<exists>r t. chain op f m = Some (r, t) \<and> mclock m \<le> mclock t"
  proof (cases r)
    case (Inr x)
    obtain q u where "f x t = Some (q, u)" "mclock t \<le> mclock u" using assms(2) by (rule endsE)
    with 1 Inr show ?thesis by auto
  qed (use 1 in auto)
qed

lemma ends_finally [ending]:
  assumes "ends op" "ends cleanup"
  shows "ends (and_finally op cleanup)"
proof (rule endsI)
  fix m
  obtain r t where 1: "op m = Some (r, t)" "mclock m \<le> mclock t" using assms(1) by (rule endsE)
  obtain q u where 2: "cleanup t = Some (q, u)" "mclock t \<le> mclock u" using assms(2) by (rule endsE)
  show "\<exists>r t. and_finally op cleanup m = Some (r, t) \<and> mclock m \<le> mclock t"
    using 1 2 by (cases q) (auto simp: and_finally_def)
qed

lemma ends_on_error [ending]:
  assumes "ends op" "\<And>e. ends (h e)"
  shows "ends (on_error op h)"
proof (rule endsI)
  fix m
  obtain r t where 1: "op m = Some (r, t)" "mclock m \<le> mclock t" using assms(1) by (rule endsE)
  show "\<exists>r t. on_error op h m = Some (r, t) \<and> mclock m \<le> mclock t"
  proof (cases r)
    case (Inl e)
    obtain q u where "h e t = Some (q, u)" "mclock t \<le> mclock u" using assms(2) by (rule endsE)
    with 1 Inl show ?thesis by auto
  qed (use 1 in auto)
qed

lemma ends_map [ending]:
  assumes "ends op"
  shows "ends (\<lambda>m. map_option (\<lambda>(r, t). (f r, t)) (op m))"
proof (rule endsI)
  fix m
  obtain r t where "op m = Some (r, t)" "mclock m \<le> mclock t" using assms by (rule endsE)
  then show "\<exists>r t. map_option (\<lambda>(r, t). (f r, t)) (op m) = Some (r, t) \<and> mclock m \<le> mclock t" by simp
qed

lemma clock_act [simp]: "mclock (act env m) = mclock m + int (he_delay env m)"
  "deeds (act env m) = deeds m" "drawn (act env m) = drawn m"
  by (simp_all add: act_def)

lemma clock_sleep [simp]: "mclock (sleepFor env ms m) = mclock m + int (he_delay env m) + int ms"
  "deeds (sleepFor env ms m) = deeds m"
  by (simp_all add: sleepFor_def Let_def)

text \<open>A loop whose body is an operation that ends is a steady loop, and an operation that ends.\<close>

lemma steady_machine: "ends body \<Longrightarrow> 0 < ms \<Longrightarrow> steady_loop mclock (sleepFor env ms) body"
proof unfold_locales
  fix m t
  assume "ends body"
  then obtain q v where b: "body m = Some (q, v)" "mclock m \<le> mclock v" by (rule endsE)
  then show "\<exists>q t. body m = Some (q, t)" by blast
  assume "0 < ms" "body m = Some (None, t)"
  with b show "mclock m < mclock (sleepFor env ms t)" by simp
qed

lemma ends_loop [ending]:
  assumes "ends body" "0 < ms"
  shows "ends (poll_until mclock (sleepFor env ms) deadline body)"
proof (rule endsI)
  fix m
  note steady = steady_machine [OF assms, of env]
  obtain r t where p: "poll_until mclock (sleepFor env ms) deadline body m = Some (r, t)"
    using steady_loop.loop_returns [OF steady] by blast
  have time: "mclock u \<le> mclock v" if "body u = Some (q, v)" for u q v
    using assms(1) that by (auto elim: endsE [of body u])
  have "mclock m \<le> mclock t"
    by (rule steady_loop.loop_keeps [OF steady p]) (auto dest: time)
  with p show "\<exists>r t. poll_until mclock (sleepFor env ms) deadline body m = Some (r, t) \<and> mclock m \<le> mclock t" by blast
qed

section \<open>The state files\<close>

definition document_of :: "'a state_document \<Rightarrow> 'a option" where
  "document_of d = (case d of FileOf x \<Rightarrow> Some x | _ \<Rightarrow> None)"

definition readDaemonState :: "host_env \<Rightarrow> daemon_metadata option mop" where
  "readDaemonState env = mdo (\<lambda>m. let t = act env m in (document_of (daemon_file t), t))"

definition writeDaemonState :: "host_env \<Rightarrow> daemon_metadata \<Rightarrow> unit mop" where
  "writeDaemonState env x = mdo (\<lambda>m. ((), (act env m)\<lparr>daemon_file := FileOf x\<rparr>))"

definition readReadyCandidate :: "host_env \<Rightarrow> string \<Rightarrow> daemon_metadata option mop" where
  "readReadyCandidate env nonce = mdo (\<lambda>m. let t = act env m in (document_of (candidates t nonce), t))"

definition publishReadyCandidate :: "host_env \<Rightarrow> daemon_metadata \<Rightarrow> unit mop" where
  "publishReadyCandidate env x = mdo (\<lambda>m. let t = act env m
     in ((), t\<lparr>candidates := (candidates t)(meta_nonce x := FileOf x)\<rparr>))"

definition removeReadyCandidate :: "host_env \<Rightarrow> string \<Rightarrow> unit mop" where
  "removeReadyCandidate env nonce = mdo (\<lambda>m. let t = act env m
     in ((), t\<lparr>candidates := (candidates t)(nonce := NoFile)\<rparr>))"

text \<open>Only a missing file is tolerated here: one that does not parse makes the operation throw.\<close>

definition removeOwnedDaemonState :: "host_env \<Rightarrow> string \<Rightarrow> unit mop" where
  "removeOwnedDaemonState env nonce =
     chain (mdo (\<lambda>m. let t = act env m in (daemon_file t, t))) (\<lambda>doc.
       case doc of
         NoFile \<Rightarrow> mret ()
       | BadFile \<Rightarrow> mthrow FileSyntax
       | FileOf x \<Rightarrow>
           if meta_nonce x = nonce then mdo (\<lambda>m. ((), (act env m)\<lparr>daemon_file := NoFile\<rparr>)) else mret ())"

text \<open>What \<open>stop\<close> of the server does to the files (the rest of it is in the theory Activity).\<close>

definition removeDaemonFiles :: "host_env \<Rightarrow> string \<Rightarrow> unit mop" where
  "removeDaemonFiles env nonce = chain (removeOwnedDaemonState env nonce) (\<lambda>_. removeReadyCandidate env nonce)"

lemma ends_files [ending]:
  "ends (readDaemonState env)" "ends (writeDaemonState env x)" "ends (readReadyCandidate env nonce)"
  "ends (publishReadyCandidate env x)" "ends (removeReadyCandidate env nonce)"
  unfolding readDaemonState_def writeDaemonState_def readReadyCandidate_def publishReadyCandidate_def
    removeReadyCandidate_def
  by (auto intro!: ending simp: Let_def)

lemma ends_owned [ending]: "ends (removeOwnedDaemonState env nonce)" "ends (removeDaemonFiles env nonce)"
  unfolding removeDaemonFiles_def removeOwnedDaemonState_def
  by (auto intro!: ending simp: Let_def split: state_document.split)

section \<open>The startup lock\<close>

text \<open>
  Making the directory is atomic; the owner is written after another wait. Removing the lock removes
  the directory with whatever it then holds.
\<close>

definition tryAcquire :: "host_env \<Rightarrow> lock_owner \<Rightarrow> bool mop" where
  "tryAcquire env owner = (\<lambda>m. let t = act env m in
     case lock_dir t of
       Some _ \<Rightarrow> Some (Inr False, t)
     | None \<Rightarrow>
         let u = act env (t\<lparr>lock_dir := Some (NoFile, mclock t)\<rparr>)
         in case lock_dir u of
              None \<Rightarrow> Some (Inl FileGone, u)
            | Some _ \<Rightarrow> Some (Inr True, u\<lparr>lock_dir := Some (FileOf owner, mclock u)\<rparr>))"

definition readOwner :: "host_env \<Rightarrow> lock_owner option mop" where
  "readOwner env = mdo (\<lambda>m. let t = act env m
     in (case lock_dir t of None \<Rightarrow> None | Some (d, _) \<Rightarrow> document_of d, t))"

definition remove_lock :: "host_env \<Rightarrow> unit mop" where
  "remove_lock env = mdo (\<lambda>m. ((), (act env m)\<lparr>lock_dir := None\<rparr>))"

definition breakIfOwnedBy :: "host_env \<Rightarrow> lock_owner \<Rightarrow> bool mop" where
  "breakIfOwnedBy env expected = chain (readOwner env) (\<lambda>current.
     if current \<noteq> Some expected then mret False
     else chain (remove_lock env) (\<lambda>_. mret True))"

text \<open>\<open>Date.now()\<close> is read before the file status.\<close>

definition breakIfUnownedAndOlderThan :: "host_env \<Rightarrow> int \<Rightarrow> bool mop" where
  "breakIfUnownedAndOlderThan env ageMilliseconds =
     chain (mdo (\<lambda>m. let t = act env m in (map_option (\<lambda>(_, mtime). mclock m - mtime) (lock_dir t), t))) (\<lambda>age.
       case age of
         None \<Rightarrow> mret False
       | Some a \<Rightarrow>
           if a < ageMilliseconds then mret False
           else chain (readOwner env) (\<lambda>owner.
             if owner \<noteq> None then mret False
             else chain (remove_lock env) (\<lambda>_. mret True)))"

definition releaseLock :: "host_env \<Rightarrow> lock_owner \<Rightarrow> unit mop" where
  "releaseLock env own = chain (readOwner env) (\<lambda>owner.
     if map_option owner_nonce owner = Some (owner_nonce own) then remove_lock env else mret ())"

lemma ends_tryAcquire [ending]: "ends (tryAcquire env owner)"
  by (auto simp: ends_def tryAcquire_def Let_def split: option.split)

lemma ends_lock_reads [ending]: "ends (readOwner env)" "ends (remove_lock env)"
  unfolding readOwner_def remove_lock_def by (auto intro!: ending simp: Let_def)

lemma ends_lock [ending]:
  "ends (breakIfOwnedBy env expected)" "ends (breakIfUnownedAndOlderThan env age)" "ends (releaseLock env own)"
  unfolding breakIfOwnedBy_def breakIfUnownedAndOlderThan_def releaseLock_def
  by (auto intro!: ending simp: Let_def split: option.split)

text \<open>A process that waits alone (nobody acts) gets a free lock, and releasing it frees it.\<close>

definition alone :: "host_env \<Rightarrow> bool" where
  "alone env \<longleftrightarrow> (\<forall>m. act env m = m)"

lemma lock_alone:
  assumes "alone env" "lock_dir m = None"
  shows "tryAcquire env owner m = Some (Inr True, m\<lparr>lock_dir := Some (FileOf owner, mclock m)\<rparr>)"
    "chain (tryAcquire env owner) (\<lambda>_. releaseLock env owner) m = Some (Inr (), m)"
  using assms
  by (simp_all add: alone_def tryAcquire_def releaseLock_def readOwner_def remove_lock_def document_of_def Let_def)

text \<open>
  Reading the owner and removing the lock are two steps. When the lock is broken by another
  process and acquired again in between, the removal takes the new owner's lock away.
\<close>

lemma break_removes_new_lock:
  assumes "document_of d = Some expected" "lock_dir (act env m) = Some (d, mt)"
    and "lock_dir (act env (act env m)) = Some (FileOf fresh, mt')"
  shows "breakIfOwnedBy env expected m = Some (Inr True, (act env (act env m))\<lparr>lock_dir := None\<rparr>)"
  using assms by (simp add: breakIfOwnedBy_def readOwner_def remove_lock_def Let_def)

section \<open>The control token\<close>

definition token_ok :: "string \<Rightarrow> bool" where
  "token_ok t \<longleftrightarrow> SAFE_ID t \<and> length t = 43"

text \<open>
  The loop of \<open>readPublishedToken\<close>: for a second the file is read every 10 ms until it holds a token.
  A missing file makes it throw.
\<close>

definition token_round :: "host_env \<Rightarrow> machine \<Rightarrow> ((startup_error + string) option \<times> machine) option" where
  "token_round env m = (let t = act env m in
     case token_file t of
       None \<Rightarrow> Some (Some (Inl FileGone), t)
     | Some (_, contents) \<Rightarrow>
         Some (if token_ok (js_trim contents) then Some (Inr (js_trim contents)) else None, t))"

definition readPublishedToken :: "host_env \<Rightarrow> string option mop" where
  "readPublishedToken env m =
     map_option (\<lambda>(r, t). (case r of None \<Rightarrow> Inr None | Some (Inl e) \<Rightarrow> Inl e | Some (Inr x) \<Rightarrow> Inr (Some x), t))
       (poll_until mclock (sleepFor env 10) (mclock m + 1000) (token_round env) m)"

lemma ends_token_round: "ends (token_round env)"
  by (auto simp: ends_def token_round_def Let_def split: option.split prod.split)

interpretation token_loop: steady_loop mclock "sleepFor env 10" "token_round env" for env
  by (rule steady_machine [OF ends_token_round]) simp

definition token_line :: "string \<Rightarrow> string" where
  "token_line token = token @ [CHR 0x0A]"

text \<open>
  \<open>open(path, "wx")\<close> makes the file unless it is there. The token is written to the file that was
  opened, whatever its name is by then. An incomplete token file is moved away and the operation starts again.
\<close>

definition write_token :: "nat \<Rightarrow> string \<Rightarrow> machine \<Rightarrow> machine" where
  "write_token i token m = (case token_file m of
       Some (j, _) \<Rightarrow> if j = i then m\<lparr>token_file := Some (i, token_line token)\<rparr> else m
     | None \<Rightarrow> m)"

partial_function (option) getOrCreateControlToken ::
  "host_env \<Rightarrow> machine \<Rightarrow> ((startup_error + string) \<times> machine) option" where
  "getOrCreateControlToken env m =
     (let token = he_token env (drawn m); t = act env (m\<lparr>drawn := drawn m + 1\<rparr>)
      in case token_file t of
           None \<Rightarrow>
             let i = inodes t;
                 u = write_token i token (act env (t\<lparr>token_file := Some (i, []), inodes := inodes t + 1\<rparr>))
             in if \<not> he_windows env \<and> token_file (act env u) = None then Some (Inl FileGone, act env u)
                else Some (Inr token, act env u)
         | Some _ \<Rightarrow>
             Option.bind (readPublishedToken env t) (\<lambda>(r, u).
               case r of
                 Inl e \<Rightarrow> Some (Inl e, u)
               | Inr (Some published) \<Rightarrow> Some (Inr published, u)
               | Inr None \<Rightarrow> getOrCreateControlToken env ((act env u)\<lparr>token_file := None\<rparr>)))"

text \<open>A token that is already there is the one everybody gets.\<close>

lemma published_token:
  assumes "alone env" "token_file m = Some (i, contents)" "token_ok (js_trim contents)"
  shows "getOrCreateControlToken env m = Some (Inr (js_trim contents), m\<lparr>drawn := drawn m + 1\<rparr>)"
proof -
  let ?m = "m\<lparr>drawn := drawn m + 1\<rparr>"
  have act: "act env u = u" for u using assms(1) by (simp add: alone_def)
  have "token_round env ?m = Some (Some (Inr (js_trim contents)), ?m)"
    using assms(2,3) by (simp add: token_round_def act)
  then have "poll_until mclock (sleepFor env 10) (mclock ?m + 1000) (token_round env) ?m = Some (Some (Inr (js_trim contents)), ?m)"
    by (intro poll_until_found) simp_all
  then have "readPublishedToken env ?m = Some (Inr (Some (js_trim contents)), ?m)"
    by (simp add: readPublishedToken_def)
  then show ?thesis
    using assms(2) by (simp add: getOrCreateControlToken.simps [of env m] act Let_def)
qed

end
