(* ===== verification/Manager.thy ===== *)
theory Manager
  imports Startup
begin

text \<open>
  How a client finds or starts the daemon (\<open>src/cli/daemon-manager.ts\<close>), with the requests for health
  and shutdown (\<open>src/cli/daemon-client.ts\<close>). Processes, signals and answers are those of the
  environment \<open>he_inspect\<close>, \<open>he_signal\<close>, \<open>he_launch\<close>, \<open>he_answer\<close> and \<open>he_shutdown\<close>; what the client does to
  others is noted in \<open>deeds\<close>.
\<close>

section \<open>Requests and processes\<close>

definition isCompatible :: "host_env \<Rightarrow> daemon_metadata \<Rightarrow> bool" where
  "isCompatible env x \<longleftrightarrow> meta_protocolVersion x = DAEMON_PROTOCOL_VERSION \<and> meta_binaryVersion x = he_version env"

definition readDaemonHealth :: "host_env \<Rightarrow> daemon_metadata \<Rightarrow> daemon_metadata option mop" where
  "readDaemonHealth env x = mdo (\<lambda>m. let t = act env m; h = he_answer env (meta_port x) t
     in (h, record_deed (case h of None \<Rightarrow> NoAnswer (meta_port x) | Some y \<Rightarrow> Answered (meta_port x) y) t))"

definition process_gone :: "host_env \<Rightarrow> nat \<Rightarrow> machine \<Rightarrow> bool" where
  "process_gone env pid m \<longleftrightarrow> (let p = he_inspect env pid m in \<not> proc_exists p \<or> proc_zombie p)"

definition other_process :: "host_env \<Rightarrow> daemon_metadata \<Rightarrow> machine \<Rightarrow> bool" where
  "other_process env x m \<longleftrightarrow> (let p = he_inspect env (meta_pid x) m
     in process_gone env (meta_pid x) m \<or> proc_startTime p \<noteq> id_startTime (meta_processIdentity x)
        \<or> proc_executable p \<noteq> id_executable (meta_processIdentity x))"

definition terminateIfIdentityMatches :: "host_env \<Rightarrow> nat \<Rightarrow> process_identity \<Rightarrow> bool \<Rightarrow> bool mop" where
  "terminateIfIdentityMatches env pid identity force =
     mdo (\<lambda>m. (he_signal env pid identity force m, record_deed (Signalled pid identity force) m))"

text \<open>A loop that waits for a condition, every 20 ms until a deadline.\<close>

definition wait_round :: "(machine \<Rightarrow> bool) \<Rightarrow> machine \<Rightarrow> (unit option \<times> machine) option" where
  "wait_round over m = Some (if over m then Some () else None, m)"

definition wait_until :: "host_env \<Rightarrow> int \<Rightarrow> (machine \<Rightarrow> bool) \<Rightarrow> bool mop" where
  "wait_until env deadline over m =
     map_option (\<lambda>(r, t). (Inr (r \<noteq> None), t)) (poll_until mclock (sleepFor env 20) deadline (wait_round over) m)"

definition wait_for :: "host_env \<Rightarrow> nat \<Rightarrow> (machine \<Rightarrow> bool) \<Rightarrow> bool mop" where
  "wait_for env ms over m = wait_until env (mclock m + int ms) over m"

definition waitForRecordedProcessExit :: "host_env \<Rightarrow> daemon_metadata \<Rightarrow> int \<Rightarrow> unit mop" where
  "waitForRecordedProcessExit env x deadline =
     (if \<not> he_windows env \<or> meta_pid x = he_pid env then mret ()
      else chain (wait_until env deadline (other_process env x)) (\<lambda>_. mret ()))"

definition shutdown_round ::
  "host_env \<Rightarrow> daemon_metadata \<Rightarrow> int \<Rightarrow> machine \<Rightarrow> ((startup_error + unit) option \<times> machine) option" where
  "shutdown_round env x deadline m =
     Option.bind (readDaemonHealth env x m) (\<lambda>(h, t).
       case h of
         Inr (Some y) \<Rightarrow> Some (None, t)
       | _ \<Rightarrow> map_option (\<lambda>(r, u). (Some r, u)) (waitForRecordedProcessExit env x deadline t))"

definition requestDaemonShutdown :: "host_env \<Rightarrow> daemon_metadata \<Rightarrow> unit mop" where
  "requestDaemonShutdown env x =
     chain (mdo (\<lambda>m. let t = act env m in (he_shutdown env (meta_port x) t, record_deed (ShutdownAsked (meta_port x)) t)))
       (\<lambda>status.
         if status = None then mthrow RequestFailed
         else if status \<noteq> Some 202 then mthrow (ShutdownRefused (the status))
         else (\<lambda>m. map_option (\<lambda>(r, t). (case r of None \<Rightarrow> Inl ShutdownLate | Some q \<Rightarrow> q, t))
             (poll_until mclock (sleepFor env 20) (mclock m + 5000) (shutdown_round env x (mclock m + 5000)) m)))"

section \<open>A daemon that is there\<close>

definition readReusableConnection :: "host_env \<Rightarrow> daemon_metadata option mop" where
  "readReusableConnection env =
     chain (readDaemonState env) (\<lambda>state.
       case state of
         None \<Rightarrow> mret None
       | Some x \<Rightarrow> chain (readDaemonHealth env x) (\<lambda>health.
           case health of
             None \<Rightarrow> mret None
           | Some h \<Rightarrow>
               if meta_nonce h \<noteq> meta_nonce x \<or> meta_pid h \<noteq> meta_pid x \<or> \<not> isCompatible env h then mret None
               else if \<not> isCompatible env x then chain (writeDaemonState env h) (\<lambda>_. mret (Some h))
               else mret (Some h)))"

fun probeDaemonHealth :: "host_env \<Rightarrow> daemon_metadata \<Rightarrow> nat \<Rightarrow> daemon_metadata option mop" where
  "probeDaemonHealth env x 0 = mret None"
| "probeDaemonHealth env x (Suc k) = chain (readDaemonHealth env x) (\<lambda>health.
     if health \<noteq> None then mret health
     else if k = 0 then mret None
     else chain (mdo (\<lambda>m. ((), sleepFor env 100 m))) (\<lambda>_. probeDaemonHealth env x k))"

definition ensureRecordedProcessGone :: "host_env \<Rightarrow> daemon_metadata \<Rightarrow> unit mop" where
  "ensureRecordedProcessGone env x =
     chain (mdo (\<lambda>m. (other_process env x m, m))) (\<lambda>other.
       if other then mret ()
       else chain (terminateIfIdentityMatches env (meta_pid x) (meta_processIdentity x) False) (\<lambda>terminated.
         if \<not> terminated then mret ()
         else chain (wait_for env 2000 (process_gone env (meta_pid x))) (\<lambda>gone.
           if gone then mret ()
           else chain (terminateIfIdentityMatches env (meta_pid x) (meta_processIdentity x) True) (\<lambda>forced.
             if \<not> forced then mret ()
             else chain (wait_for env 2000 (process_gone env (meta_pid x))) (\<lambda>gone.
               if gone then mret () else mthrow SurvivedSignal)))))"

definition retireVerifiedStaleProcess :: "host_env \<Rightarrow> daemon_metadata option mop" where
  "retireVerifiedStaleProcess env =
     chain (readDaemonState env) (\<lambda>state.
       case state of
         None \<Rightarrow> mret None
       | Some x \<Rightarrow> chain (probeDaemonHealth env x 5) (\<lambda>health.
           case health of
             Some h \<Rightarrow>
               if isCompatible env h
               then mret (if meta_nonce h = meta_nonce x \<and> meta_pid h = meta_pid x then Some h else None)
               else if 0 < (case meta_activeSessions h of None \<Rightarrow> 0 | Some n \<Rightarrow> n) then mthrow IncompatibleDaemon
               else chain (requestDaemonShutdown env x) (\<lambda>_. mret None)
           | None \<Rightarrow> chain (ensureRecordedProcessGone env x) (\<lambda>_. mret None)))"

section \<open>Starting a daemon\<close>

record spawned =
  sp_pid :: nat
  sp_identity :: "process_identity option"

definition spawnDaemon :: "host_env \<Rightarrow> string \<Rightarrow> spawned mop" where
  "spawnDaemon env nonce m = (case he_launch env nonce m of
       Inl e \<Rightarrow> Some (Inl (LaunchFailed e), m)
     | Inr pid \<Rightarrow>
         let t = record_deed (Launched nonce) m; p = he_inspect env pid t
         in Some (Inr \<lparr>sp_pid = pid, sp_identity =
              (if proc_exists p \<and> \<not> proc_zombie p \<and> proc_executable p \<notin> {None, Some []} \<and> proc_startTime p \<noteq> None
               then Some \<lparr>id_executable = proc_executable p, id_startTime = proc_startTime p\<rparr> else None)\<rparr>, t))"

definition retireSpawned :: "host_env \<Rightarrow> spawned \<Rightarrow> unit mop" where
  "retireSpawned env sp = (case sp_identity sp of
       None \<Rightarrow> mret ()
     | Some identity \<Rightarrow>
         chain (terminateIfIdentityMatches env (sp_pid sp) identity False) (\<lambda>_.
         chain (wait_for env 1000 (process_gone env (sp_pid sp))) (\<lambda>gone.
           if gone then mret ()
           else chain (terminateIfIdentityMatches env (sp_pid sp) identity True) (\<lambda>_. mret ()))))"

text \<open>A candidate that answers for itself becomes the recorded daemon.\<close>

definition adopt :: "host_env \<Rightarrow> string \<Rightarrow> daemon_metadata \<Rightarrow> daemon_metadata mop" where
  "adopt env nonce h = chain (writeDaemonState env h) (\<lambda>_. chain (removeReadyCandidate env nonce) (\<lambda>_. mret h))"

definition speaks_for :: "host_env \<Rightarrow> string \<Rightarrow> daemon_metadata \<Rightarrow> daemon_metadata \<Rightarrow> bool" where
  "speaks_for env nonce candidate h \<longleftrightarrow> meta_nonce h = nonce \<and> meta_pid h = meta_pid candidate \<and> isCompatible env h"

text \<open>One round of \<open>awaitReadyCandidate\<close>; the flags are \<open>candidateSeen\<close> and \<open>healthSeen\<close>.\<close>

definition ready_round ::
  "host_env \<Rightarrow> string \<Rightarrow> spawned \<Rightarrow> machine \<times> bool \<times> bool
     \<Rightarrow> ((startup_error + daemon_metadata) option \<times> (machine \<times> bool \<times> bool)) option" where
  "ready_round env nonce sp = (\<lambda>(m, candidateSeen, healthSeen).
     let check = (\<lambda>t c h. Some (if process_gone env (sp_pid sp) t then Some (Inl ChildExited) else None, (t, c, h)))
     in Option.bind (readReadyCandidate env nonce m) (\<lambda>(r, t).
        case r of
          Inr (Some candidate) \<Rightarrow> Option.bind (readDaemonHealth env candidate t) (\<lambda>(q, u).
            case q of
              Inr (Some h) \<Rightarrow>
                if speaks_for env nonce candidate h
                then map_option (\<lambda>(a, v). (Some a, (v, True, True))) (adopt env nonce h u)
                else check u True True
            | _ \<Rightarrow> check u True healthSeen)
        | _ \<Rightarrow> check t candidateSeen healthSeen))"

definition awaitReadyCandidate :: "host_env \<Rightarrow> string \<Rightarrow> spawned \<Rightarrow> nat \<Rightarrow> daemon_metadata mop" where
  "awaitReadyCandidate env nonce sp timeoutMilliseconds m =
     map_option (\<lambda>(r, (t, c, h)). (case r of None \<Rightarrow> Inl (NotReady c h) | Some q \<Rightarrow> q, t))
       (poll_until (\<lambda>x. mclock (fst x)) (\<lambda>(t, c, h). (sleepFor env 20 t, c, h)) (mclock m + int timeoutMilliseconds)
         (ready_round env nonce sp) (m, False, False))"

definition tryAdoptReadyCandidate :: "host_env \<Rightarrow> string \<Rightarrow> daemon_metadata option mop" where
  "tryAdoptReadyCandidate env nonce =
     chain (readReadyCandidate env nonce) (\<lambda>found.
       case found of
         None \<Rightarrow> mret None
       | Some candidate \<Rightarrow>
           if \<not> isCompatible env candidate then mret None
           else chain (readDaemonHealth env candidate) (\<lambda>health.
             case health of
               None \<Rightarrow> mret None
             | Some h \<Rightarrow> if speaks_for env nonce candidate h
                 then chain (adopt env nonce h) (\<lambda>y. mret (Some y)) else mret None))"

text \<open>The three attempts to start; \<open>failed\<close> is \<open>lastStartupError\<close>.\<close>

fun startAttempts :: "host_env \<Rightarrow> string \<Rightarrow> nat \<Rightarrow> nat \<Rightarrow> startup_error \<Rightarrow> daemon_metadata mop" where
  "startAttempts env nonce attempt 0 failed = mthrow failed"
| "startAttempts env nonce attempt (Suc k) failed =
     (let again = (\<lambda>e. chain (mdo (\<lambda>m. ((), sleepFor env (25 * (attempt + 1)) m)))
            (\<lambda>_. startAttempts env nonce (attempt + 1) k e))
      in chain (on_error (chain (spawnDaemon env nonce) (\<lambda>sp. mret (Inr sp))) (\<lambda>e. mret (Inl e))) (\<lambda>started.
           case started of
             Inl e \<Rightarrow> again e
           | Inr sp \<Rightarrow> on_error (awaitReadyCandidate env nonce sp 10000) (\<lambda>e.
               chain (retireSpawned env sp) (\<lambda>_. if e = ChildExited then again e else mthrow e))))"

text \<open>With the lock held.\<close>

definition locked_start :: "host_env \<Rightarrow> string \<Rightarrow> daemon_metadata mop" where
  "locked_start env nonce =
     chain (readReusableConnection env) (\<lambda>rechecked.
       case rechecked of
         Some h \<Rightarrow> mret h
       | None \<Rightarrow> chain (retireVerifiedStaleProcess env) (\<lambda>revived.
           case revived of
             Some h \<Rightarrow> mret h
           | None \<Rightarrow> startAttempts env nonce 0 3 UndefinedThrown))"

text \<open>While another process holds the lock.\<close>

definition wait_for_owner :: "host_env \<Rightarrow> daemon_metadata option mop" where
  "wait_for_owner env =
     chain (readOwner env) (\<lambda>owner.
       case owner of
         None \<Rightarrow> chain (breakIfUnownedAndOlderThan env 250) (\<lambda>_. mret None)
       | Some own \<Rightarrow> chain (mdo (\<lambda>m. (process_gone env (owner_pid own) m, m))) (\<lambda>gone.
           if \<not> gone then mret None
           else chain (tryAdoptReadyCandidate env (owner_nonce own)) (\<lambda>adopted.
             case adopted of
               Some h \<Rightarrow> chain (breakIfOwnedBy env own) (\<lambda>_. mret (Some h))
             | None \<Rightarrow> chain (mdo (\<lambda>m. (owner_deadline own < mclock m, m))) (\<lambda>late.
                 if late then chain (breakIfOwnedBy env own) (\<lambda>_. mret None) else mret None))))"

definition start_round :: "host_env \<Rightarrow> int \<Rightarrow> daemon_metadata option mop" where
  "start_round env deadline =
     chain (readReusableConnection env) (\<lambda>reusable.
       case reusable of
         Some h \<Rightarrow> mret (Some h)
       | None \<Rightarrow> chain (mdo (\<lambda>m. (he_uuid env (drawn m), m\<lparr>drawn := drawn m + 1\<rparr>))) (\<lambda>nonce.
           let own = \<lparr>owner_nonce = nonce, owner_pid = he_pid env, owner_deadline = deadline\<rparr>
           in chain (tryAcquire env own) (\<lambda>acquired.
             if acquired
             then and_finally (chain (locked_start env nonce) (\<lambda>h. mret (Some h))) (releaseLock env own)
             else wait_for_owner env)))"

definition once_round ::
  "host_env \<Rightarrow> int \<Rightarrow> machine \<Rightarrow> ((startup_error + daemon_metadata) option \<times> machine) option" where
  "once_round env deadline m =
     map_option (\<lambda>(r, t). (case r of Inl e \<Rightarrow> Some (Inl e) | Inr None \<Rightarrow> None | Inr (Some h) \<Rightarrow> Some (Inr h), t))
       (start_round env deadline m)"

definition startup_loop :: "host_env \<Rightarrow> daemon_metadata mop" where
  "startup_loop env m =
     map_option (\<lambda>(r, t). (case r of None \<Rightarrow> Inl NoLock | Some q \<Rightarrow> q, t))
       (poll_until mclock (sleepFor env 20) (mclock m + 15000) (once_round env (mclock m + 15000)) m)"

definition ensureDaemonOnce :: "host_env \<Rightarrow> (daemon_metadata \<times> string) mop" where
  "ensureDaemonOnce env = chain (getOrCreateControlToken env) (\<lambda>controlToken.
     chain (startup_loop env) (\<lambda>h. mret (h, controlToken)))"

section \<open>stop\<close>

definition stopDaemon :: "host_env \<Rightarrow> unit mop" where
  "stopDaemon env =
     chain (readDaemonState env) (\<lambda>state.
       case state of
         None \<Rightarrow> mret ()
       | Some x \<Rightarrow> chain (getOrCreateControlToken env) (\<lambda>_.
           on_error (requestDaemonShutdown env x) (\<lambda>e.
             chain (probeDaemonHealth env x 5) (\<lambda>health.
               if health \<noteq> None then mthrow e else ensureRecordedProcessGone env x))))"

section \<open>Every loop ends\<close>

lemma ends_health [ending]: "ends (readDaemonHealth env x)"
  unfolding readDaemonHealth_def by (auto intro!: ending simp: Let_def record_deed_def)

lemma ends_signal [ending]: "ends (terminateIfIdentityMatches env pid identity force)"
  unfolding terminateIfIdentityMatches_def by (auto intro!: ending simp: record_deed_def)

lemma ends_wait_round: "ends (wait_round over)"
  by (simp add: ends_def wait_round_def)

interpretation wait_loop: steady_loop mclock "sleepFor env 20" "wait_round over" for env over
  by (rule steady_machine [OF ends_wait_round]) simp

lemma ends_at: "(\<And>d. ends (f d)) \<Longrightarrow> ends (\<lambda>m. f (g m) m)"
  by (simp add: ends_def)

lemma ends_wait [ending]: "ends (wait_until env deadline over)" "ends (wait_for env ms over)"
proof -
  show until: "ends (wait_until env deadline over)" for deadline
    unfolding wait_until_def by (intro ending ends_wait_round) simp
  show "ends (wait_for env ms over)"
    unfolding wait_for_def using until by (rule ends_at)
qed

lemma ends_exit [ending]: "ends (waitForRecordedProcessExit env x deadline)"
  unfolding waitForRecordedProcessExit_def by (auto intro!: ending)

lemma ends_shutdown_round: "ends (shutdown_round env x deadline)"
proof (rule endsI)
  fix m
  obtain h t where 1: "readDaemonHealth env x m = Some (h, t)" "mclock m \<le> mclock t" using ends_health by (rule endsE)
  obtain r u where 2: "waitForRecordedProcessExit env x deadline t = Some (r, u)" "mclock t \<le> mclock u"
    using ends_exit by (rule endsE)
  show "\<exists>r t. shutdown_round env x deadline m = Some (r, t) \<and> mclock m \<le> mclock t"
    using 1 2 by (auto simp: shutdown_round_def split: sum.split option.split)
qed

lemma ends_shutdown [ending]: "ends (requestDaemonShutdown env x)"
proof -
  have "ends (\<lambda>m. map_option (\<lambda>(r, t). (case r of None \<Rightarrow> Inl ShutdownLate | Some q \<Rightarrow> q, t))
      (poll_until mclock (sleepFor env 20) (mclock m + 5000) (shutdown_round env x (mclock m + 5000)) m))"
    by (rule ends_at [of "\<lambda>d m. map_option (\<lambda>(r, t). (case r of None \<Rightarrow> Inl ShutdownLate | Some q \<Rightarrow> q, t))
      (poll_until mclock (sleepFor env 20) d (shutdown_round env x d) m)"]) (intro ending ends_shutdown_round, simp)
  then show ?thesis unfolding requestDaemonShutdown_def
    by (auto intro!: ending simp: Let_def record_deed_def)
qed

lemma ends_reusable [ending]: "ends (readReusableConnection env)"
  unfolding readReusableConnection_def by (auto intro!: ending split: option.split)

lemma ends_probe [ending]: "ends (probeDaemonHealth env x k)"
proof (induction k)
  case (Suc k)
  show ?case unfolding probeDaemonHealth.simps
    by (intro ending Suc) simp
qed (simp add: ends_def)

lemma ends_gone [ending]: "ends (ensureRecordedProcessGone env x)"
  unfolding ensureRecordedProcessGone_def by (auto intro!: ending)

lemma ends_retire [ending]: "ends (retireVerifiedStaleProcess env)"
  unfolding retireVerifiedStaleProcess_def by (auto intro!: ending split: option.split)

lemma ends_spawn [ending]: "ends (spawnDaemon env nonce)"
  by (auto simp: ends_def spawnDaemon_def Let_def record_deed_def split: sum.split)

lemma ends_retireSpawned [ending]: "ends (retireSpawned env sp)"
  unfolding retireSpawned_def by (auto intro!: ending split: option.split)

lemma ends_adopt [ending]: "ends (adopt env nonce h)"
  unfolding adopt_def by (auto intro!: ending)

text \<open>The rounds of \<open>awaitReadyCandidate\<close> carry two flags beside the machine.\<close>

lemma ready_round_ends:
  "\<exists>q v. ready_round env nonce sp u = Some (q, v) \<and> mclock (fst u) \<le> mclock (fst v)"
proof -
  obtain m c h where u: "u = (m, c, h)" by (cases u)
  obtain r t where 1: "readReadyCandidate env nonce m = Some (r, t)" "mclock m \<le> mclock t"
    using ends_files(3) by (rule endsE)
  show ?thesis
  proof (cases "\<exists>x. r = Inr (Some x)")
    case True
    then obtain x where x: "r = Inr (Some x)" by blast
    obtain q v where 2: "readDaemonHealth env x t = Some (q, v)" "mclock t \<le> mclock v" using ends_health by (rule endsE)
    show ?thesis
    proof (cases "\<exists>y. q = Inr (Some y)")
      case True
      then obtain y where y: "q = Inr (Some y)" by blast
      obtain a w where "adopt env nonce y v = Some (a, w)" "mclock v \<le> mclock w" using ends_adopt by (rule endsE)
      with u 1 2 x y show ?thesis by (auto simp: ready_round_def)
    next
      case False
      with u 1 2 x show ?thesis by (auto simp: ready_round_def split: sum.split option.split)
    qed
  next
    case False
    with u 1 show ?thesis by (auto simp: ready_round_def split: sum.split option.split)
  qed
qed

interpretation ready_loop:
  steady_loop "\<lambda>x. mclock (fst x)" "\<lambda>(t, c, h). (sleepFor env 20 t, c, h)" "ready_round env nonce sp" for env nonce sp
proof
  fix m t
  obtain q v where r: "ready_round env nonce sp m = Some (q, v)" "mclock (fst m) \<le> mclock (fst v)"
    using ready_round_ends by blast
  then show "\<exists>q t. ready_round env nonce sp m = Some (q, t)" by blast
  assume "ready_round env nonce sp m = Some (None, t)"
  with r show "mclock (fst m) < mclock (fst (case t of (t, c, h) \<Rightarrow> (sleepFor env 20 t, c, h)))"
    by (cases t) auto
qed

lemma ends_ready [ending]: "ends (awaitReadyCandidate env nonce sp ms)"
proof (rule endsI)
  fix m :: machine
  let ?d = "mclock m + int ms"
  obtain r z where p: "poll_until (\<lambda>x. mclock (fst x)) (\<lambda>(t, c, h). (sleepFor env 20 t, c, h)) ?d (ready_round env nonce sp)
      (m, False, False) = Some (r, z)"
    using ready_loop.loop_returns by blast
  have time: "mclock (fst u) \<le> mclock (fst v)" if "ready_round env nonce sp u = Some (q, v)" for u q v
    using ready_round_ends [of env nonce sp u] that by auto
  have "mclock m \<le> mclock (fst z)"
    by (rule ready_loop.loop_keeps [OF p]) (auto dest: time)
  with p show "\<exists>r t. awaitReadyCandidate env nonce sp ms m = Some (r, t) \<and> mclock m \<le> mclock t"
    by (cases z) (simp add: awaitReadyCandidate_def)
qed

lemma ends_adopt_candidate [ending]: "ends (tryAdoptReadyCandidate env nonce)"
  unfolding tryAdoptReadyCandidate_def by (auto intro!: ending split: option.split)

lemma ends_attempts [ending]: "ends (startAttempts env nonce attempt k failed)"
  by (induction k arbitrary: attempt failed) (auto intro!: ending split: sum.split)

lemma ends_locked [ending]: "ends (locked_start env nonce)"
  unfolding locked_start_def by (auto intro!: ending split: option.split)

lemma ends_waiting [ending]: "ends (wait_for_owner env)"
  unfolding wait_for_owner_def by (auto intro!: ending split: option.split)

lemma ends_round [ending]: "ends (start_round env deadline)" "ends (once_round env deadline)"
proof -
  show "ends (start_round env deadline)"
    unfolding start_round_def by (auto intro!: ending simp: Let_def split: option.split)
  then show "ends (once_round env deadline)"
    unfolding once_round_def by (rule ends_map)
qed

interpretation startup_rounds: steady_loop mclock "sleepFor env 20" "once_round env deadline" for env deadline
  by (rule steady_machine [OF ends_round(2)]) simp

lemma ends_startup [ending]: "ends (startup_loop env)"
  unfolding startup_loop_def
  by (rule ends_at [of "\<lambda>d m. map_option (\<lambda>(r, t). (case r of None \<Rightarrow> Inl NoLock | Some q \<Rightarrow> q, t))
      (poll_until mclock (sleepFor env 20) d (once_round env d) m)"]) (intro ending, simp)

end
