(* ===== verification/Manager_Facts.thy ===== *)
theory Manager_Facts
  imports Manager
begin

text \<open>
  What a client does to the daemons it finds: the connection it returns has answered, and the
  recorded process is only signalled when it stayed silent. The facts are stated by
  preconditions and postconditions of the operations.
\<close>

section \<open>Conditions\<close>

named_theorems conditions \<open>conditions of operations\<close>

definition holds :: "(machine \<Rightarrow> bool) \<Rightarrow> (machine \<Rightarrow> ('r \<times> machine) option) \<Rightarrow> ('r \<Rightarrow> machine \<Rightarrow> bool) \<Rightarrow> bool" where
  "holds P op Q \<longleftrightarrow> (\<forall>m r t. P m \<longrightarrow> op m = Some (r, t) \<longrightarrow> Q r t)"

lemma holdsI: "(\<And>m r t. P m \<Longrightarrow> op m = Some (r, t) \<Longrightarrow> Q r t) \<Longrightarrow> holds P op Q"
  by (simp add: holds_def)

lemma holdsD: "holds P op Q \<Longrightarrow> P m \<Longrightarrow> op m = Some (r, t) \<Longrightarrow> Q r t"
  by (simp add: holds_def)

lemma holds_weaken: "holds P op Q \<Longrightarrow> (\<And>m. P' m \<Longrightarrow> P m) \<Longrightarrow> (\<And>r t. Q r t \<Longrightarrow> Q' r t) \<Longrightarrow> holds P' op Q'"
  by (simp add: holds_def) blast

lemma holds_mret [conditions]: "(\<And>m. P m \<Longrightarrow> Q (Inr x) m) \<Longrightarrow> holds P (mret x) Q"
  by (simp add: holds_def)

lemma holds_mthrow [conditions]: "(\<And>m. P m \<Longrightarrow> Q (Inl e) m) \<Longrightarrow> holds P (mthrow e) Q"
  by (simp add: holds_def)

lemma holds_mdo: "(\<And>m. P m \<Longrightarrow> Q (Inr (fst (f m))) (snd (f m))) \<Longrightarrow> holds P (mdo f) Q"
  unfolding holds_def mdo_def by (metis (no_types, lifting) case_prod_beta option.inject prod.inject)

lemma holds_if [conditions]: "(b \<Longrightarrow> holds P f Q) \<Longrightarrow> (\<not> b \<Longrightarrow> holds P g Q) \<Longrightarrow> holds P (if b then f else g) Q"
  by simp

lemma holds_chain:
  assumes "holds P op R" "\<And>x. holds (R (Inr x)) (k x) Q" "\<And>e t. R (Inl e) t \<Longrightarrow> Q (Inl e) t"
  shows "holds P (chain op k) Q"
proof (rule holdsI)
  fix m r t
  assume P: "P m" and c: "chain op k m = Some (r, t)"
  then obtain q u where op: "op m = Some (q, u)" by (auto simp: chain_def split: Option.bind_splits)
  with holdsD [OF assms(1) P] have R: "R q u" by blast
  show "Q r t"
  proof (cases q)
    case (Inl e)
    with op c have "r = Inl e" "t = u" by (auto simp: chain_def)
    with R Inl assms(3) show ?thesis by simp
  next
    case (Inr x)
    with op c have "k x u = Some (r, t)" by (simp add: chain_def)
    with holdsD [OF assms(2)] R Inr show ?thesis by blast
  qed
qed

lemma holds_finally:
  assumes "holds P op R" "\<And>q. holds (R q) cleanup (\<lambda>z t. case z of Inl e \<Rightarrow> Q (Inl e) t | Inr _ \<Rightarrow> Q q t)"
  shows "holds P (and_finally op cleanup) Q"
proof (rule holdsI)
  fix m r t
  assume P: "P m" and c: "and_finally op cleanup m = Some (r, t)"
  then obtain q u where op: "op m = Some (q, u)" by (auto simp: and_finally_def split: Option.bind_splits)
  with c obtain z v where z: "cleanup u = Some (z, v)" by (auto simp: and_finally_def split: Option.bind_splits)
  from holdsD [OF assms(1) P op] have "R q u" .
  from holdsD [OF assms(2) this z] op z c show "Q r t" by (cases z) (simp_all add: and_finally_def)
qed

lemma holds_on_error:
  assumes "holds P op R" "\<And>e. holds (R (Inl e)) (h e) Q" "\<And>x t. R (Inr x) t \<Longrightarrow> Q (Inr x) t"
  shows "holds P (on_error op h) Q"
proof (rule holdsI)
  fix m r t
  assume P: "P m" and c: "on_error op h m = Some (r, t)"
  then obtain q u where op: "op m = Some (q, u)" by (auto simp: on_error_def split: Option.bind_splits)
  with holdsD [OF assms(1) P] have R: "R q u" by blast
  show "Q r t"
  proof (cases q)
    case (Inr x)
    with op c have "r = Inr x" "t = u" by (auto simp: on_error_def)
    with R Inr assms(3) show ?thesis by simp
  next
    case (Inl e)
    with op c have "h e u = Some (r, t)" by (simp add: on_error_def)
    with holdsD [OF assms(2)] R Inl show ?thesis by blast
  qed
qed

section \<open>Operations without deeds\<close>

definition quietly :: "(machine \<Rightarrow> ('r \<times> machine) option) \<Rightarrow> bool" where
  "quietly op \<longleftrightarrow> (\<forall>ds. holds (\<lambda>m. deeds m = ds) op (\<lambda>_ t. deeds t = ds))"

named_theorems quiet \<open>operations without deeds\<close>

lemma quietlyD: "quietly op \<Longrightarrow> op m = Some (r, t) \<Longrightarrow> deeds t = deeds m"
  by (auto simp: quietly_def holds_def)

lemma quietlyI: "(\<And>m r t. op m = Some (r, t) \<Longrightarrow> deeds t = deeds m) \<Longrightarrow> quietly op"
  by (auto simp: quietly_def holds_def)

lemma quietly_mret [quiet]: "quietly (mret x)" and quietly_mthrow [quiet]: "quietly (mthrow e)"
  by (auto intro: quietlyI)

lemma quietly_mdo [quiet]: "(\<And>m. deeds (snd (f m)) = deeds m) \<Longrightarrow> quietly (mdo f)"
  by (rule quietlyI) (metis (no_types, lifting) case_prod_beta mop_simps(3) option.inject prod.inject)

lemma quietly_if [quiet]: "(b \<Longrightarrow> quietly f) \<Longrightarrow> (\<not> b \<Longrightarrow> quietly g) \<Longrightarrow> quietly (if b then f else g)"
  by simp

lemma quietly_chain [quiet]: "quietly op \<Longrightarrow> (\<And>x. quietly (k x)) \<Longrightarrow> quietly (chain op k)"
  unfolding quietly_def by (blast intro: holds_chain)

lemma quietly_files [quiet]:
  "quietly (readDaemonState env)" "quietly (writeDaemonState env x)" "quietly (readReadyCandidate env nonce)"
  "quietly (removeReadyCandidate env nonce)" "quietly (readOwner env)" "quietly (remove_lock env)"
  unfolding readDaemonState_def writeDaemonState_def readReadyCandidate_def removeReadyCandidate_def readOwner_def
    remove_lock_def
  by (auto intro!: quiet simp: Let_def)

lemma quietly_lock [quiet]:
  "quietly (breakIfOwnedBy env own)" "quietly (breakIfUnownedAndOlderThan env age)" "quietly (releaseLock env own)"
  unfolding breakIfOwnedBy_def breakIfUnownedAndOlderThan_def releaseLock_def
  by (auto intro!: quiet simp: Let_def split: option.split)

lemma quietly_acquire [quiet]: "quietly (tryAcquire env own)"
  by (rule quietlyI) (auto simp: tryAcquire_def Let_def split: option.splits)

lemma quietly_wait [quiet]: "quietly (wait_until env deadline over)" "quietly (wait_for env ms over)"
proof -
  show until: "quietly (wait_until env deadline over)" for deadline
  proof (rule quietlyI)
    fix m r t
    assume "wait_until env deadline over m = Some (r, t)"
    then obtain q where "poll_until mclock (sleepFor env 20) deadline (wait_round over) m = Some (q, t)"
      by (auto simp: wait_until_def)
    then show "deeds t = deeds m"
      by (rule wait_loop.loop_keeps [where P = "\<lambda>u. deeds u = deeds m"]) (auto simp: wait_round_def)
  qed
  then show "quietly (wait_for env ms over)" unfolding wait_for_def quietly_def holds_def by blast
qed

lemma quietly_exit [quiet]: "quietly (waitForRecordedProcessExit env x deadline)"
  unfolding waitForRecordedProcessExit_def by (intro quiet)

lemma quietly_adopt [quiet]: "quietly (adopt env nonce h)"
  unfolding adopt_def by (intro quiet)

section \<open>Who answered\<close>

text \<open>A daemon that has answered and is compatible.\<close>

definition vouched :: "host_env \<Rightarrow> daemon_metadata \<Rightarrow> machine \<Rightarrow> bool" where
  "vouched env h t \<longleftrightarrow> isCompatible env h \<and> (\<exists>port. Answered port h \<in> set (deeds t))"

lemma quietly_vouched: "quietly op \<Longrightarrow> holds (vouched env h) op (\<lambda>_. vouched env h)"
  by (auto simp: holds_def vouched_def dest!: quietlyD)

lemma health_answered:
  "readDaemonHealth env x m = Some (r, t) \<Longrightarrow>
     (\<exists>h. r = Inr (Some h) \<and> deeds t = deeds m @ [Answered (meta_port x) h]) \<or> r = Inr None \<and> deeds t = deeds m @ [NoAnswer (meta_port x)]"
  by (auto simp: readDaemonHealth_def Let_def record_deed_def split: option.splits)

text \<open>An operation whose result, when it is a daemon, is one that has answered.\<close>

definition vouches :: "host_env \<Rightarrow> daemon_metadata option mop \<Rightarrow> bool" where
  "vouches env op \<longleftrightarrow> (\<forall>m h t. op m = Some (Inr (Some h), t) \<longrightarrow> vouched env h t)"

lemma vouchesI: "(\<And>m h t. op m = Some (Inr (Some h), t) \<Longrightarrow> vouched env h t) \<Longrightarrow> vouches env op"
  by (simp add: vouches_def)

named_theorems vouching \<open>operations that only return daemons that answered\<close>

lemma vouches_none [vouching]: "vouches env (mret None)" "vouches env (mthrow e)"
  by (auto simp: vouches_def)

lemma vouches_if [vouching]: "(b \<Longrightarrow> vouches env f) \<Longrightarrow> (\<not> b \<Longrightarrow> vouches env g) \<Longrightarrow> vouches env (if b then f else g)"
  by simp

lemma vouches_chain [vouching]: "(\<And>x. vouches env (k x)) \<Longrightarrow> vouches env (chain op k)"
  unfolding vouches_def chain_def by (auto split: Option.bind_splits sum.splits)

lemma vouches_daemon:
  assumes "vouches env op" "\<And>h. quietly (k (Some h))"
    "\<And>h m y t. k (Some h) m = Some (Inr (Some y), t) \<Longrightarrow> y = h" "vouches env (k None)"
  shows "vouches env (chain op k)"
proof (rule vouchesI)
  fix m y t
  assume "chain op k m = Some (Inr (Some y), t)"
  then obtain q u where op: "op m = Some (Inr q, u)" "k q u = Some (Inr (Some y), t)"
    by (auto simp: chain_def split: Option.bind_splits sum.splits)
  show "vouched env y t"
  proof (cases q)
    case None
    with op assms(4) show ?thesis by (auto simp: vouches_def)
  next
    case (Some h)
    with op assms(1) have "vouched env h u" by (auto simp: vouches_def)
    moreover have "y = h" "deeds t = deeds u" using op Some assms(3) quietlyD [OF assms(2)] by auto
    ultimately show ?thesis by (simp add: vouched_def)
  qed
qed

text \<open>After a health request, a compatible answer may be returned.\<close>

lemma vouches_health:
  assumes "\<And>h. quietly (k (Some h))"
    "\<And>h m y t. k (Some h) m = Some (Inr (Some y), t) \<Longrightarrow> y = h \<and> isCompatible env h" "vouches env (k None)"
  shows "vouches env (chain (readDaemonHealth env x) k)"
proof (rule vouchesI)
  fix m y t
  assume "chain (readDaemonHealth env x) k m = Some (Inr (Some y), t)"
  then obtain q u where op: "readDaemonHealth env x m = Some (Inr q, u)" "k q u = Some (Inr (Some y), t)"
    by (auto simp: chain_def split: Option.bind_splits sum.splits)
  show "vouched env y t"
  proof (cases q)
    case None
    with op assms(3) show ?thesis by (auto simp: vouches_def)
  next
    case (Some h)
    with health_answered [OF op(1)] have "Answered (meta_port x) h \<in> set (deeds u)" by auto
    moreover have "y = h \<and> isCompatible env h" "deeds t = deeds u"
      using op Some assms(2) quietlyD [OF assms(1)] by auto
    ultimately show ?thesis by (auto simp: vouched_def)
  qed
qed

lemma chain_Inr: "chain op k m = Some (Inr y, t) \<Longrightarrow> \<exists>x u. op m = Some (Inr x, u) \<and> k x u = Some (Inr y, t)"
  by (auto simp: chain_def split: Option.bind_splits sum.splits)

lemma chainE:
  assumes "chain op k m = Some (Inr y, t)"
  obtains x u where "op m = Some (Inr x, u)" "k x u = Some (Inr y, t)"
  using chain_Inr [OF assms] by (elim exE conjE)

lemma adopt_result: "adopt env nonce h m = Some (Inr y, t) \<Longrightarrow> y = h"
  unfolding adopt_def by (auto dest!: chain_Inr)

lemma vouches_reusable [vouching]: "vouches env (readReusableConnection env)"
proof -
  have "vouches env (case s of None \<Rightarrow> mret None
     | Some x \<Rightarrow> chain (readDaemonHealth env x) (\<lambda>health.
         case health of
           None \<Rightarrow> mret None
         | Some h \<Rightarrow>
             if meta_nonce h \<noteq> meta_nonce x \<or> meta_pid h \<noteq> meta_pid x \<or> \<not> isCompatible env h then mret None
             else if \<not> isCompatible env x then chain (writeDaemonState env h) (\<lambda>_. mret (Some h))
             else mret (Some h)))" for s
  proof (cases s)
    case (Some x)
    show ?thesis unfolding Some option.case
      by (rule vouches_health) (auto intro!: quiet vouches_none dest!: chain_Inr split: if_splits)
  qed (simp add: vouches_none)
  then show ?thesis unfolding readReusableConnection_def by (rule vouches_chain)
qed

lemma vouches_adopt_candidate [vouching]: "vouches env (tryAdoptReadyCandidate env nonce)"
proof -
  have "vouches env (chain (readDaemonHealth env candidate) (\<lambda>health.
       case health of
         None \<Rightarrow> mret None
       | Some h \<Rightarrow> if speaks_for env nonce candidate h
           then chain (adopt env nonce h) (\<lambda>y. mret (Some y)) else mret None))" for candidate
    by (rule vouches_health)
      (auto intro!: quiet vouches_none dest!: chain_Inr adopt_result simp: speaks_for_def split: if_splits)
  then show ?thesis unfolding tryAdoptReadyCandidate_def
    by (auto intro!: vouches_chain vouches_none vouches_if split: option.split)
qed
lemma vouches_waiting [vouching]: "vouches env (wait_for_owner env)"
proof -
  have late: "vouches env (if b then chain (breakIfOwnedBy env own) (\<lambda>_. mret None) else mret None)" for b own
    by (intro vouches_if vouches_chain vouches_none)
  have dead: "vouches env (chain (tryAdoptReadyCandidate env (owner_nonce own)) (\<lambda>adopted.
             case adopted of
               Some h \<Rightarrow> chain (breakIfOwnedBy env own) (\<lambda>_. mret (Some h))
             | None \<Rightarrow> chain (mdo (\<lambda>m. (owner_deadline own < mclock m, m))) (\<lambda>late.
                 if late then chain (breakIfOwnedBy env own) (\<lambda>_. mret None) else mret None)))" for own
    by (rule vouches_daemon)
      (auto intro!: vouches_adopt_candidate quiet vouches_chain late dest!: chain_Inr)
  show ?thesis unfolding wait_for_owner_def
  proof (rule vouches_chain)
    fix owner
    show "vouches env (case owner of
         None \<Rightarrow> chain (breakIfUnownedAndOlderThan env 250) (\<lambda>_. mret None)
       | Some own \<Rightarrow> chain (mdo (\<lambda>m. (process_gone env (owner_pid own) m, m))) (\<lambda>gone.
           if \<not> gone then mret None
           else chain (tryAdoptReadyCandidate env (owner_nonce own)) (\<lambda>adopted.
             case adopted of
               Some h \<Rightarrow> chain (breakIfOwnedBy env own) (\<lambda>_. mret (Some h))
             | None \<Rightarrow> chain (mdo (\<lambda>m. (owner_deadline own < mclock m, m))) (\<lambda>late.
                 if late then chain (breakIfOwnedBy env own) (\<lambda>_. mret None) else mret None))))"
      by (cases owner) (simp_all only: option.case, (intro vouches_chain vouches_if vouches_none dead)+)
  qed
qed

text \<open>The same for an operation that always returns a daemon.\<close>

definition vouches_one :: "host_env \<Rightarrow> daemon_metadata mop \<Rightarrow> bool" where
  "vouches_one env op \<longleftrightarrow> vouches env (chain op (\<lambda>h. mret (Some h)))"

lemma vouches_oneI: "(\<And>m h t. op m = Some (Inr h, t) \<Longrightarrow> vouched env h t) \<Longrightarrow> vouches_one env op"
  by (auto simp: vouches_one_def vouches_def dest!: chain_Inr)

lemma vouches_oneD: "vouches_one env op \<Longrightarrow> op m = Some (Inr h, t) \<Longrightarrow> vouched env h t"
  unfolding vouches_one_def vouches_def by (metis mop_simps(1) mop_simps(4))

lemma vouches_one_throw: "vouches_one env (mthrow e)"
  by (rule vouches_oneI) simp

lemma vouches_one_chain: "(\<And>x. vouches_one env (k x)) \<Longrightarrow> vouches_one env (chain op k)"
  by (rule vouches_oneI) (auto dest!: chain_Inr dest: vouches_oneD)

lemma vouches_one_error:
  assumes "vouches_one env op" "\<And>e. vouches_one env (h e)"
  shows "vouches_one env (on_error op h)"
proof (rule vouches_oneI)
  fix m y t
  assume "on_error op h m = Some (Inr y, t)"
  then obtain q u where op: "op m = Some (q, u)" "(case q of Inl e \<Rightarrow> h e u | Inr x \<Rightarrow> Some (Inr x, u)) = Some (Inr y, t)"
    by (auto simp: on_error_def split: Option.bind_splits)
  then show "vouched env y t"
    by (cases q) (use vouches_oneD [OF assms(1)] vouches_oneD [OF assms(2)] in auto)
qed

text \<open>An operation that may return a daemon, and one that returns a daemon otherwise.\<close>

lemma vouches_one_or:
  assumes "vouches env op" "vouches_one env f"
  shows "vouches_one env (chain op (\<lambda>found. case found of Some h \<Rightarrow> mret h | None \<Rightarrow> f))"
proof (rule vouches_oneI)
  fix m h t
  assume "chain op (\<lambda>found. case found of Some h \<Rightarrow> mret h | None \<Rightarrow> f) m = Some (Inr h, t)"
  then obtain q u where "op m = Some (Inr q, u)" "(case q of Some h \<Rightarrow> mret h | None \<Rightarrow> f) u = Some (Inr h, t)"
    by (rule chainE)
  then show "vouched env h t"
    using assms(1) vouches_oneD [OF assms(2)] by (cases q) (auto simp: vouches_def)
qed

lemma vouches_ready: "vouches_one env (awaitReadyCandidate env nonce sp ms)"
proof (rule vouches_oneI)
  fix m y t
  assume "awaitReadyCandidate env nonce sp ms m = Some (Inr y, t)"
  then obtain r c h where poll:
    "poll_until (\<lambda>x. mclock (fst x)) (\<lambda>(t, c, h). (sleepFor env 20 t, c, h)) (mclock m + int ms)
         (ready_round env nonce sp) (m, False, False) = Some (r, (t, c, h))" and r: "r = Some (Inr y)"
    by (auto simp: awaitReadyCandidate_def split: option.splits)
  obtain u where round: "ready_round env nonce sp u = Some (Some (Inr y), (t, c, h))"
  proof (rule ready_loop.loop_cases [OF poll, where P = "\<lambda>_. True"])
    fix u x
    assume "r = Some x" "ready_round env nonce sp u = Some (Some x, (t, c, h))"
    with r that show ?thesis by (simp only: option.inject)
  next
    assume "r = None"
    with r show ?thesis by (simp only: option.distinct)
  qed (rule TrueI)+
  obtain u1 u2 u3 where u: "u = (u1, u2, u3)" by (cases u)
  obtain q v where read: "readReadyCandidate env nonce u1 = Some (q, v)" using ends_files(3) by (rule endsE)
  with round u obtain candidate where q: "q = Inr (Some candidate)"
    by (auto simp: ready_round_def Let_def split: sum.splits option.splits if_splits)
  obtain p w where health: "readDaemonHealth env candidate v = Some (p, w)" using ends_health by (rule endsE)
  with round u read q obtain x where p: "p = Inr (Some x)" "speaks_for env nonce candidate x"
      "map_option (\<lambda>(a, v). (Some a, (v, True, True))) (adopt env nonce x w) = Some (Some (Inr y), (t, c, h))"
    by (auto simp: ready_round_def Let_def split: sum.splits option.splits if_splits)
  then have adopt: "adopt env nonce x w = Some (Inr y, t)" by auto
  with adopt_result have "y = x" by blast
  moreover have "deeds t = deeds w" using quietlyD [OF quietly_adopt adopt] .
  moreover have "Answered (meta_port candidate) x \<in> set (deeds w)"
    using health_answered [OF health] p(1) by auto
  ultimately show "vouched env y t" using p(2) by (auto simp: vouched_def speaks_for_def)
qed

lemma vouches_attempts: "vouches_one env (startAttempts env nonce attempt k failed)"
proof (induction k arbitrary: attempt failed)
  case (Suc k)
  have again: "vouches_one env (chain (mdo f) (\<lambda>_. startAttempts env nonce (attempt + 1) k e))" for f :: "machine \<Rightarrow> unit \<times> machine" and e
    by (rule vouches_one_chain) (rule Suc)
  show ?case unfolding startAttempts.simps Let_def
    by (auto intro!: vouches_one_chain [of env "\<lambda>_. startAttempts env nonce (Suc attempt) k e" for e]
      vouches_one_chain vouches_one_error vouches_ready Suc vouches_one_throw split: sum.split)
qed (simp add: vouches_one_throw)

section \<open>The deeds of an operation\<close>

text \<open>What an operation adds to the deeds, for every way in which it ends.\<close>

definition adds :: "(machine \<Rightarrow> ('r \<times> machine) option) \<Rightarrow> ('r \<Rightarrow> deed list \<Rightarrow> bool) \<Rightarrow> bool" where
  "adds op Q \<longleftrightarrow> (\<forall>m r t. op m = Some (r, t) \<longrightarrow> (\<exists>ds. deeds t = deeds m @ ds \<and> Q r ds))"

lemma addsI: "(\<And>m r t. op m = Some (r, t) \<Longrightarrow> \<exists>ds. deeds t = deeds m @ ds \<and> Q r ds) \<Longrightarrow> adds op Q"
  by (simp add: adds_def)

lemma addsE:
  assumes "adds op Q" "op m = Some (r, t)"
  obtains ds where "deeds t = deeds m @ ds" "Q r ds"
  using assms unfolding adds_def by metis

lemma adds_mret: "Q (Inr x) [] \<Longrightarrow> adds (mret x) Q"
  by (rule addsI) simp

lemma adds_mthrow: "Q (Inl e) [] \<Longrightarrow> adds (mthrow e) Q"
  by (rule addsI) simp

lemma adds_quietly: "quietly op \<Longrightarrow> (\<And>r. Q r []) \<Longrightarrow> adds op Q"
  by (rule addsI) (simp add: quietlyD)

lemma adds_chain:
  assumes "adds op R" "\<And>e ds. R (Inl e) ds \<Longrightarrow> Q (Inl e) ds"
    and "\<And>x ds. R (Inr x) ds \<Longrightarrow> adds (k x) (\<lambda>r es. Q r (ds @ es))"
  shows "adds (chain op k) Q"
proof (rule addsI)
  fix m r t
  assume c: "chain op k m = Some (r, t)"
  then obtain q u where op: "op m = Some (q, u)" by (auto simp: chain_def split: Option.bind_splits)
  obtain ds where ds: "deeds u = deeds m @ ds" "R q ds" using assms(1) op by (rule addsE)
  show "\<exists>ds. deeds t = deeds m @ ds \<and> Q r ds"
  proof (cases q)
    case (Inl e)
    with op c have "r = Inl e" "t = u" by (auto simp: chain_def)
    with ds Inl assms(2) show ?thesis by blast
  next
    case (Inr x)
    with op c have k: "k x u = Some (r, t)" by (simp add: chain_def)
    from ds Inr assms(3) have "adds (k x) (\<lambda>r es. Q r (ds @ es))" by blast
    then obtain es where "deeds t = deeds u @ es" "Q r (ds @ es)" using k by (rule addsE)
    with ds show ?thesis by auto
  qed
qed

lemma adds_quiet_chain: "quietly op \<Longrightarrow> (\<And>e. Q (Inl e) []) \<Longrightarrow> (\<And>x. adds (k x) Q) \<Longrightarrow> adds (chain op k) Q"
  by (rule adds_chain [where R = "\<lambda>_ ds. ds = []"]) (auto intro: adds_quietly)

lemma adds_if: "(b \<Longrightarrow> adds f Q) \<Longrightarrow> (\<not> b \<Longrightarrow> adds g Q) \<Longrightarrow> adds (if b then f else g) Q"
  by simp

lemma adds_health:
  "adds (readDaemonHealth env x) (\<lambda>r ds. (\<exists>h. r = Inr (Some h) \<and> ds = [Answered (meta_port x) h]) \<or> r = Inr None \<and> ds = [NoAnswer (meta_port x)])"
  by (rule addsI) (auto dest: health_answered)

text \<open>\<open>k\<close> requests without an answer, or fewer and then one with an answer.\<close>

definition probed :: "nat \<Rightarrow> nat \<Rightarrow> (startup_error + daemon_metadata option) \<Rightarrow> deed list \<Rightarrow> bool" where
  "probed port k r ds \<longleftrightarrow> r = Inr None \<and> ds = replicate k (NoAnswer port) \<or>
     (\<exists>h n. n < k \<and> r = Inr (Some h) \<and> ds = replicate n (NoAnswer port) @ [Answered port h])"

lemma probed_again: "probed port k r ds \<Longrightarrow> probed port (Suc k) r (NoAnswer port # ds)"
  unfolding probed_def by (elim disjE exE conjE) (auto intro: exI [of _ "Suc n" for n] simp flip: replicate_Suc)

lemma adds_probe: "adds (probeDaemonHealth env x k) (probed (meta_port x) k)"
proof (induction k)
  case 0
  show ?case by (rule addsI) (simp add: probed_def)
next
  case (Suc k)
  show ?case unfolding probeDaemonHealth.simps
  proof (rule adds_chain [OF adds_health], goal_cases)
    case (2 health ds)
    then consider (answer) h where "health = Some h" "ds = [Answered (meta_port x) h]"
      | (silence) "health = None" "ds = [NoAnswer (meta_port x)]" by blast
    then show ?case
    proof cases
      case answer
      then show ?thesis by (auto intro!: adds_mret exI [of _ "0::nat"] simp: probed_def)
    next
      case silence
      have "adds (chain (mdo (\<lambda>m. ((), sleepFor env 100 m))) (\<lambda>_. probeDaemonHealth env x k))
          (\<lambda>r es. probed (meta_port x) (Suc k) r ([NoAnswer (meta_port x)] @ es))" if "k \<noteq> 0"
      proof (rule adds_chain [where R = "\<lambda>r ds. ds = [] \<and> (\<exists>x. r = Inr x)"], goal_cases)
        case (3 y ds)
        then show ?case using Suc probed_again by (fastforce simp: adds_def)
      qed (auto intro: addsI)
      with silence show ?thesis by (auto intro!: adds_mret simp: probed_def)
    qed
  qed blast
qed

text \<open>Signals to one process: at most a gentle one and then a forced one.\<close>

definition signalled :: "daemon_metadata \<Rightarrow> deed list \<Rightarrow> bool" where
  "signalled x ds \<longleftrightarrow> (\<exists>n\<le>2. ds = map (Signalled (meta_pid x) (meta_processIdentity x)) (take n [False, True]))"

lemma adds_signal:
  "adds (terminateIfIdentityMatches env pid identity force) (\<lambda>r ds. ds = [Signalled pid identity force] \<and> (\<exists>b. r = Inr b))"
  by (rule addsI) (auto simp: terminateIfIdentityMatches_def record_deed_def)

lemma signalled_simps: "signalled x []" "signalled x [Signalled (meta_pid x) (meta_processIdentity x) False]"
  "signalled x [Signalled (meta_pid x) (meta_processIdentity x) False, Signalled (meta_pid x) (meta_processIdentity x) True]"
  unfolding signalled_def by (auto intro: exI [of _ "0::nat"] exI [of _ "1::nat"] exI [of _ "2::nat"])

lemma quietly_look: "quietly (mdo (\<lambda>m. (f m, m)))"
  by (rule quietly_mdo) simp

lemma adds_gone: "adds (ensureRecordedProcessGone env x) (\<lambda>_. signalled x)"
  unfolding ensureRecordedProcessGone_def
  apply (rule adds_quiet_chain [OF quietly_look])
   apply (rule signalled_simps)
  apply (rule adds_if)
   apply (rule adds_mret, rule signalled_simps)
  apply (rule adds_chain [OF adds_signal])
   apply blast
  apply (rule adds_if)
   apply (rule adds_mret, simp add: signalled_simps)
  apply (rule adds_quiet_chain [OF quietly_wait(2)])
   apply (simp add: signalled_simps)
  apply (rule adds_if)
   apply (rule adds_mret, simp add: signalled_simps)
  apply (rule adds_chain [OF adds_signal])
   apply blast
  apply (rule adds_if)
   apply (rule adds_mret, simp add: signalled_simps)
  apply (rule adds_quiet_chain [OF quietly_wait(2)])
   apply (simp add: signalled_simps)
  apply (rule adds_if)
   apply (rule adds_mret, simp add: signalled_simps)
  apply (rule adds_mthrow, simp add: signalled_simps)
  done

text \<open>A shutdown request, followed by requests for health.\<close>

definition asked :: "nat \<Rightarrow> deed list \<Rightarrow> bool" where
  "asked port ds \<longleftrightarrow> (\<exists>es. ds = ShutdownAsked port # es \<and> (\<forall>d \<in> set es. \<exists>h. d = NoAnswer port \<or> d = Answered port h))"

lemma shutdown_round_deeds:
  assumes "shutdown_round env x deadline u = Some (q, v)"
  shows "deeds v = deeds u @ [NoAnswer (meta_port x)] \<or> (\<exists>h. deeds v = deeds u @ [Answered (meta_port x) h])"
proof -
  obtain r w where health: "readDaemonHealth env x u = Some (r, w)" using ends_health by (rule endsE)
  then have w: "deeds w = deeds u @ [NoAnswer (meta_port x)] \<or> (\<exists>h. deeds w = deeds u @ [Answered (meta_port x) h])"
    using health_answered by blast
  have "deeds v = deeds w"
  proof (cases "\<exists>y. r = Inr (Some y)")
    case True
    with assms health show ?thesis by (auto simp: shutdown_round_def)
  next
    case False
    with assms health have "map_option (\<lambda>(r, u). (Some r, u)) (waitForRecordedProcessExit env x deadline w) = Some (q, v)"
      by (auto simp: shutdown_round_def split: sum.splits option.splits)
    then obtain z where "waitForRecordedProcessExit env x deadline w = Some (z, v)" by auto
    then show ?thesis by (rule quietlyD [OF quietly_exit])
  qed
  with w show ?thesis by simp
qed

interpretation shutdown_loop: steady_loop mclock "sleepFor env 20" "shutdown_round env x deadline" for env x deadline
  by (rule steady_machine [OF ends_shutdown_round]) simp

lemma adds_shutdown: "adds (requestDaemonShutdown env x) (\<lambda>_. asked (meta_port x))"
proof -
  let ?A = "\<lambda>es. \<forall>d \<in> set es. \<exists>h. d = NoAnswer (meta_port x) \<or> d = Answered (meta_port x) h"
  have rounds: "adds (\<lambda>m. map_option (\<lambda>(r, t). (case r of None \<Rightarrow> Inl ShutdownLate | Some q \<Rightarrow> q, t))
             (poll_until mclock (sleepFor env 20) (mclock m + 5000) (shutdown_round env x (mclock m + 5000)) m)) (\<lambda>_. ?A)"
  proof (rule addsI)
    fix m and r :: "startup_error + unit" and t
    assume "map_option (\<lambda>(r, t). (case r of None \<Rightarrow> Inl ShutdownLate | Some q \<Rightarrow> q, t))
             (poll_until mclock (sleepFor env 20) (mclock m + 5000) (shutdown_round env x (mclock m + 5000)) m) = Some (r, t)"
    then obtain q where "poll_until mclock (sleepFor env 20) (mclock m + 5000) (shutdown_round env x (mclock m + 5000)) m = Some (q, t)"
      by auto
    then show "\<exists>ds. deeds t = deeds m @ ds \<and> ?A ds"
    proof (rule shutdown_loop.loop_keeps [where P = "\<lambda>u. \<exists>ds. deeds u = deeds m @ ds \<and> ?A ds"])
      fix u q v
      assume "\<exists>ds. deeds u = deeds m @ ds \<and> ?A ds" and round: "shutdown_round env x (mclock m + 5000) u = Some (q, v)"
      then obtain ds where u: "deeds u = deeds m @ ds" "?A ds" by blast
      from shutdown_round_deeds [OF round] obtain d where
        d: "deeds v = deeds u @ [d]" "d = NoAnswer (meta_port x) \<or> (\<exists>h. d = Answered (meta_port x) h)" by blast
      with u show "\<exists>ds. deeds v = deeds m @ ds \<and> ?A ds" by (intro exI [of _ "ds @ [d]"]) auto
    qed auto
  qed
  have "adds (\<lambda>m. Some (Inr (he_shutdown env (meta_port x) (act env m)), record_deed (ShutdownAsked (meta_port x)) (act env m)))
      (\<lambda>r ds. ds = [ShutdownAsked (meta_port x)] \<and> (\<exists>s. r = Inr s))"
    by (rule addsI) (auto simp: record_deed_def)
  then have ask: "adds (mdo (\<lambda>m. let t = act env m in (he_shutdown env (meta_port x) t, record_deed (ShutdownAsked (meta_port x)) t)))
      (\<lambda>r ds. ds = [ShutdownAsked (meta_port x)] \<and> (\<exists>s. r = Inr s))"
    by (simp add: mdo_def Let_def)
  show ?thesis unfolding requestDaemonShutdown_def
  proof (rule adds_chain [OF ask], goal_cases)
    case (2 s ds)
    have "adds (\<lambda>m. map_option (\<lambda>(r, t). (case r of None \<Rightarrow> Inl ShutdownLate | Some q \<Rightarrow> q, t))
             (poll_until mclock (sleepFor env 20) (mclock m + 5000) (shutdown_round env x (mclock m + 5000)) m)) (\<lambda>r es. asked (meta_port x) (ds @ es))"
      using rounds 2 by (auto simp: adds_def asked_def)
    then show ?case using 2 by (auto intro!: adds_if adds_mthrow simp: asked_def)
  qed blast
qed

section \<open>Retiring a recorded daemon\<close>

definition idle_answer :: "host_env \<Rightarrow> daemon_metadata \<Rightarrow> bool" where
  "idle_answer env h \<longleftrightarrow> \<not> isCompatible env h \<and> meta_activeSessions h \<in> {None, Some 0}"

text \<open>What is done to the recorded daemon \<open>x\<close>: nothing after an answer, unless it is incompatible and idle.\<close>

definition fair :: "host_env \<Rightarrow> daemon_metadata \<Rightarrow> deed list \<Rightarrow> bool" where
  "fair env x ds \<longleftrightarrow>
     (\<exists>es. ds = replicate 5 (NoAnswer (meta_port x)) @ es \<and> signalled x es)
     \<or> (\<exists>n h. n < 5 \<and> ds = replicate n (NoAnswer (meta_port x)) @ [Answered (meta_port x) h])
     \<or> (\<exists>n h es. n < 5 \<and> ds = replicate n (NoAnswer (meta_port x)) @ [Answered (meta_port x) h] @ es
          \<and> idle_answer env h \<and> asked (meta_port x) es)"

lemma fair_answer: "n < 5 \<Longrightarrow> fair env x (replicate n (NoAnswer (meta_port x)) @ [Answered (meta_port x) h])"
  unfolding fair_def by blast

lemma adds_retire_daemon:
  "adds (chain (probeDaemonHealth env x 5) (\<lambda>health.
           case health of
             Some h \<Rightarrow>
               if isCompatible env h
               then mret (if meta_nonce h = meta_nonce x \<and> meta_pid h = meta_pid x then Some h else None)
               else if 0 < (case meta_activeSessions h of None \<Rightarrow> 0 | Some n \<Rightarrow> n) then mthrow IncompatibleDaemon
               else chain (requestDaemonShutdown env x) (\<lambda>_. mret None)
           | None \<Rightarrow> chain (ensureRecordedProcessGone env x) (\<lambda>_. mret None))) (\<lambda>_. fair env x)"
proof (rule adds_chain [OF adds_probe], goal_cases)
  case (1 e ds)
  then show ?case by (simp add: probed_def)
next
  case (2 health ds)
  then consider (silence) "health = None" "ds = replicate 5 (NoAnswer (meta_port x))"
    | (answer) n h where "n < 5" "health = Some h" "ds = replicate n (NoAnswer (meta_port x)) @ [Answered (meta_port x) h]"
    unfolding probed_def by auto
  then show ?case
  proof cases
    case silence
    have "adds (chain (ensureRecordedProcessGone env x) (\<lambda>_. mret None)) (\<lambda>r es. fair env x (ds @ es))"
      by (rule adds_chain [OF adds_gone]) (auto intro!: adds_mret simp: fair_def silence)
    with silence show ?thesis by simp
  next
    case answer
    have ask: "adds (chain (requestDaemonShutdown env x) (\<lambda>_. mret None)) (\<lambda>r es. fair env x (ds @ es))"
      if "idle_answer env h"
      by (rule adds_chain [OF adds_shutdown]) (use that answer in \<open>auto intro!: adds_mret simp: fair_def\<close>)
    show ?thesis unfolding answer(2) option.case
    proof (rule adds_if)
      assume "\<not> isCompatible env h"
      then show "adds (if 0 < (case meta_activeSessions h of None \<Rightarrow> 0 | Some n \<Rightarrow> n) then mthrow IncompatibleDaemon
               else chain (requestDaemonShutdown env x) (\<lambda>_. mret None)) (\<lambda>r es. fair env x (ds @ es))"
        using ask fair_answer [OF answer(1), of env x h]
        by (auto intro!: adds_if adds_mthrow simp: idle_answer_def answer(3) split: option.splits)
    qed (simp add: adds_mret answer(3) fair_answer [OF answer(1), simplified])
  qed
qed

lemma retire_deeds:
  assumes "retireVerifiedStaleProcess env m = Some (r, t)"
  obtains "deeds t = deeds m" | x ds where "daemon_file (act env m) = FileOf x" "deeds t = deeds m @ ds" "fair env x ds"
proof -
  have read: "readDaemonState env m = Some (Inr (document_of (daemon_file (act env m))), act env m)"
    by (simp add: readDaemonState_def Let_def)
  show thesis
  proof (cases "document_of (daemon_file (act env m))")
    case None
    with read assms have "deeds t = deeds m" by (auto simp: retireVerifiedStaleProcess_def)
    then show ?thesis by (rule that(1))
  next
    case (Some x)
    then have doc: "daemon_file (act env m) = FileOf x" by (simp add: document_of_def split: state_document.splits)
    obtain ds where "deeds t = deeds (act env m) @ ds" "fair env x ds"
      by (rule addsE [OF adds_retire_daemon [of env x], of "act env m" r t])
        (use assms read Some in \<open>auto simp: retireVerifiedStaleProcess_def\<close>)
    with doc show ?thesis by (intro that(2)) simp_all
  qed
qed

lemma fair_signal:
  assumes "fair env x ds" "Signalled pid identity force \<in> set ds"
  shows "pid = meta_pid x \<and> identity = meta_processIdentity x \<and> take 5 ds = replicate 5 (NoAnswer (meta_port x))
    \<and> (\<forall>port h. Answered port h \<notin> set ds)"
  using assms unfolding fair_def asked_def signalled_def by (fastforce dest: in_set_takeD)

lemma fair_shutdown:
  assumes "fair env x ds" "ShutdownAsked port \<in> set ds"
  shows "port = meta_port x \<and> (\<exists>h. Answered (meta_port x) h \<in> set ds \<and> idle_answer env h)"
  using assms unfolding fair_def asked_def signalled_def by (fastforce dest: in_set_takeD)

text \<open>A daemon that the retirement returns has answered.\<close>

lemma vouches_probe_retire: "vouches env (retireVerifiedStaleProcess env)"
proof -
  have "vouches env (chain (probeDaemonHealth env x 5) (\<lambda>health.
           case health of
             Some h \<Rightarrow>
               if isCompatible env h
               then mret (if meta_nonce h = meta_nonce x \<and> meta_pid h = meta_pid x then Some h else None)
               else if 0 < (case meta_activeSessions h of None \<Rightarrow> 0 | Some n \<Rightarrow> n) then mthrow IncompatibleDaemon
               else chain (requestDaemonShutdown env x) (\<lambda>_. mret None)
           | None \<Rightarrow> chain (ensureRecordedProcessGone env x) (\<lambda>_. mret None)))" (is "vouches env (chain _ ?k)") for x
  proof (rule vouchesI)
    fix m y t
    assume "chain (probeDaemonHealth env x 5) ?k m = Some (Inr (Some y), t)"
    then obtain q u where op: "probeDaemonHealth env x 5 m = Some (Inr q, u)" "?k q u = Some (Inr (Some y), t)"
      by (rule chainE)
    obtain ds where ds: "deeds u = deeds m @ ds" "probed (meta_port x) 5 (Inr q) ds"
      using adds_probe op(1) by (rule addsE)
    show "vouched env y t"
    proof (cases q)
      case None
      with op(2) show ?thesis by (auto dest!: chain_Inr)
    next
      case (Some h)
      with op(2) have "y = h \<and> isCompatible env h \<and> t = u" by (auto dest!: chain_Inr split: if_splits)
      with ds Some show ?thesis by (auto simp: vouched_def probed_def)
    qed
  qed
  then show ?thesis unfolding retireVerifiedStaleProcess_def
    by (auto intro!: vouches_chain vouches_none split: option.split)
qed

section \<open>Finding or starting a daemon\<close>

lemma vouches_locked: "vouches_one env (locked_start env nonce)"
  unfolding locked_start_def
  by (intro vouches_one_or vouches_reusable vouches_probe_retire vouches_attempts)

lemma vouches_round: "vouches env (start_round env deadline)"
proof -
  have held: "vouches env (and_finally (chain (locked_start env nonce) (\<lambda>h. mret (Some h))) (releaseLock env own))" for nonce own
  proof (rule vouchesI)
    fix m h t
    assume c: "and_finally (chain (locked_start env nonce) (\<lambda>h. mret (Some h))) (releaseLock env own) m = Some (Inr (Some h), t)"
    then obtain q u z v where op: "chain (locked_start env nonce) (\<lambda>h. mret (Some h)) m = Some (q, u)"
      and rel: "releaseLock env own u = Some (z, v)"
      by (auto simp: and_finally_def split: Option.bind_splits)
    with c have "q = Inr (Some h)" "v = t" by (auto simp: and_finally_def split: sum.splits)
    with op have "vouched env h u" using vouches_locked unfolding vouches_one_def vouches_def by blast
    with quietlyD [OF quietly_lock(3) rel] \<open>v = t\<close> show "vouched env h t" by (simp add: vouched_def)
  qed
  show ?thesis unfolding start_round_def
  proof (rule vouches_daemon [OF vouches_reusable], goal_cases)
    case 3
    show ?case unfolding option.case Let_def by (intro vouches_chain vouches_if held vouches_waiting)
  qed (auto intro: quiet)
qed

lemma startup_vouched:
  assumes "startup_loop env m = Some (Inr h, t)"
  shows "vouched env h t"
proof -
  from assms obtain q where
    poll: "poll_until mclock (sleepFor env 20) (mclock m + 15000) (once_round env (mclock m + 15000)) m = Some (q, t)" and q: "q = Some (Inr h)"
    by (auto simp: startup_loop_def split: option.splits)
  obtain u where "once_round env (mclock m + 15000) u = Some (Some (Inr h), t)"
  proof (rule startup_rounds.loop_cases [OF poll, where P = "\<lambda>_. True"])
    fix u x
    assume "q = Some x" "once_round env (mclock m + 15000) u = Some (Some x, t)"
    with q that show ?thesis by (simp only: option.inject)
  next
    assume "q = None"
    with q show ?thesis by (simp only: option.distinct)
  qed (rule TrueI)+
  then obtain z where "start_round env (mclock m + 15000) u = Some (z, t)"
      "(case z of Inl e \<Rightarrow> Some (Inl e) | Inr None \<Rightarrow> None | Inr (Some h) \<Rightarrow> Some (Inr h)) = Some (Inr h)"
    by (auto simp: once_round_def)
  then have "start_round env (mclock m + 15000) u = Some (Inr (Some h), t)"
    by (cases z) (simp_all split: option.splits)
  with vouches_round show ?thesis unfolding vouches_def by blast
qed

text \<open>The token loop does nothing to others.\<close>

lemma quietly_published: "quietly (readPublishedToken env)"
proof (rule quietlyI)
  fix m r t
  assume "readPublishedToken env m = Some (r, t)"
  then obtain q where "poll_until mclock (sleepFor env 10) (mclock m + 1000) (token_round env) m = Some (q, t)"
    by (auto simp: readPublishedToken_def)
  then show "deeds t = deeds m"
    by (rule token_loop.loop_keeps [where P = "\<lambda>u. deeds u = deeds m"])
      (auto simp: token_round_def Let_def split: option.splits)
qed

lemma write_token_deeds [simp]: "deeds (write_token i token m) = deeds m"
  by (simp add: write_token_def split: option.split)

lemma token_deeds:
  assumes "getOrCreateControlToken env m = Some y"
  shows "deeds (snd y) = deeds m"
proof (rule getOrCreateControlToken.raw_induct [where P = "\<lambda>env m y. deeds (snd y) = deeds m", OF _ assms], goal_cases)
  case (1 rec env m y)
  let ?t = "act env (m\<lparr>drawn := drawn m + 1\<rparr>)"
  show ?case
  proof (cases "token_file ?t")
    case None
    with 1(2) show ?thesis by (auto simp: Let_def split: if_splits)
  next
    case (Some f)
    with 1(2) obtain r u where read: "readPublishedToken env ?t = Some (r, u)"
      and k: "(case r of Inl e \<Rightarrow> Some (Inl e, u) | Inr (Some published) \<Rightarrow> Some (Inr published, u)
         | Inr None \<Rightarrow> rec env ((act env u)\<lparr>token_file := None\<rparr>)) = Some y"
      by (auto simp: Let_def split: Option.bind_splits)
    have u: "deeds u = deeds m" using quietlyD [OF quietly_published read] by simp
    show ?thesis
    proof (cases "r = Inr None")
      case True
      with k 1(1) u show ?thesis by simp
    next
      case False
      with k u show ?thesis by (auto split: sum.splits option.splits)
    qed
  qed
qed

text \<open>What a started client returns has answered to it.\<close>

lemma ensure_vouched:
  assumes "ensureDaemonOnce env m = Some (Inr (h, token), t)"
  shows "vouched env h t \<and> (\<exists>u. getOrCreateControlToken env m = Some (Inr token, u) \<and> deeds u = deeds m)"
proof -
  from assms obtain k u where token: "getOrCreateControlToken env m = Some (Inr k, u)"
    and "chain (startup_loop env) (\<lambda>h. mret (h, k)) u = Some (Inr (h, token), t)"
    unfolding ensureDaemonOnce_def by (rule chainE)
  then have "startup_loop env u = Some (Inr h, t)" "k = token" by (auto dest!: chain_Inr)
  with startup_vouched [of env u h t] token token_deeds [OF token] show ?thesis by auto
qed

end
