(* ===== verification/Js_Date.thy ===== *)
theory Js_Date
  imports Json
begin

text \<open>
  \<open>new Date(t)\<close> and \<open>toISOString\<close> of the JavaScript standard library: time values, the Gregorian
  calendar of ECMA-262 (days from year, year from time, month and date from time) and the text
  with a year of four digits, or of a sign and six digits.
\<close>

section \<open>Time values\<close>

definition MS_PER_DAY :: int where
  "MS_PER_DAY = 86400000"

fun truncate_num :: "jsnum \<Rightarrow> int" where
  "truncate_num (Dec m e) = (if 0 \<le> e then m * 10 ^ nat e else sgn m * (\<bar>m\<bar> div 10 ^ nat (- e)))"
| "truncate_num _ = 0"

text \<open>\<open>None\<close> is the invalid date.\<close>

definition time_clip :: "jsnum \<Rightarrow> int option" where
  "time_clip t =
     (if is_finite t \<and> num_le t (Dec 864 13) \<and> num_le (Dec (-864) 13) t then Some (truncate_num t) else None)"

section \<open>The calendar\<close>

definition day_from_year :: "int \<Rightarrow> int" where
  "day_from_year y = 365 * (y - 1970) + (y - 1969) div 4 - (y - 1901) div 100 + (y - 1601) div 400"

text \<open>The year of a day: an estimate from the mean length of a year, corrected by at most one.\<close>

definition year_from_day :: "int \<Rightarrow> int" where
  "year_from_day d =
     (let y = 1970 + (400 * d) div 146097
      in if d < day_from_year y then y - 1
         else if day_from_year (y + 1) \<le> d then y + 1 else y)"

definition leap_year :: "int \<Rightarrow> bool" where
  "leap_year y \<longleftrightarrow> y mod 4 = 0 \<and> (y mod 100 \<noteq> 0 \<or> y mod 400 = 0)"

definition month_lengths :: "int \<Rightarrow> int list" where
  "month_lengths y = [31, if leap_year y then 29 else 28, 31, 30, 31, 30, 31, 31, 30, 31, 30, 31]"

fun month_and_date :: "int list \<Rightarrow> int \<Rightarrow> nat \<times> int" where
  "month_and_date [] d = (0, d)"
| "month_and_date (l # ls) d =
     (if d < l then (0, d) else case month_and_date ls (d - l) of (m, r) \<Rightarrow> (m + 1, r))"

text \<open>Year, month from 1 and date from 1.\<close>

definition civil_date :: "int \<Rightarrow> int \<times> nat \<times> nat" where
  "civil_date d = (let y = year_from_day d
     in case month_and_date (month_lengths y) (d - day_from_year y) of (m, r) \<Rightarrow> (y, m + 1, nat r + 1))"

lemma div_bounds:
  fixes a k :: int
  assumes "0 < k"
  shows "k * (a div k) \<le> a" "a < k * (a div k) + k"
  using assms pos_mod_bound [of k a] pos_mod_sign [of k a] mult_div_mod_eq [of k a] by linarith+

lemma div_step: "0 < k \<Longrightarrow> (a + 1) div k = a div k + (if k dvd a + 1 then 1 else 0)" for a k :: int
proof -
  assume k: "0 < k"
  show ?thesis
  proof (cases "k dvd a + 1")
    case True
    then obtain q where q: "a + 1 = k * q" by blast
    have "a div k = q - 1"
      by (rule int_div_pos_eq [of _ _ _ "k - 1"]) (use q k in \<open>auto simp: algebra_simps\<close>)
    with q k True show ?thesis by simp
  next
    case False
    let ?q = "a div k"
    have "a + 1 \<noteq> k * ?q + k" using False by (metis dvd_add_triv_right_iff dvd_triv_left)
    with div_bounds(1) [OF k, of a] div_bounds(2) [OF k, of a] have "(a + 1) div k = ?q"
      by (intro int_div_pos_eq [of _ _ _ "a + 1 - k * ?q"]) auto
    with False show ?thesis by simp
  qed
qed

lemma day_from_year_bounds:
  "146097 * (y - 1970) - 800 \<le> 400 * day_from_year y" "400 * day_from_year y \<le> 146097 * (y - 1970) + 800"
proof -
  have arith: "146097 * (y - 1970) - 800 \<le> 400 * (365 * (y - 1970) + a - b + c)
      \<and> 400 * (365 * (y - 1970) + a - b + c) \<le> 146097 * (y - 1970) + 800"
    if "4 * a \<le> y - 1969" "y - 1969 < 4 * a + 4" "100 * b \<le> y - 1901" "y - 1901 < 100 * b + 100"
      "400 * c \<le> y - 1601" "y - 1601 < 400 * c + 400" for a b c :: int
    using that by (simp add: algebra_simps)
  show "146097 * (y - 1970) - 800 \<le> 400 * day_from_year y" "400 * day_from_year y \<le> 146097 * (y - 1970) + 800"
    unfolding day_from_year_def
    using arith [OF div_bounds [OF zero_less_numeral] div_bounds [OF zero_less_numeral] div_bounds [OF zero_less_numeral]]
    by blast+
qed

lemma year_step: "day_from_year (y + 1) = day_from_year y + (if leap_year y then 366 else 365)"
proof -
  have steps: "(y - 1968) div 4 = (y - 1969) div 4 + (if 4 dvd y then 1 else 0)"
    "(y - 1900) div 100 = (y - 1901) div 100 + (if 100 dvd y then 1 else 0)"
    "(y - 1600) div 400 = (y - 1601) div 400 + (if 400 dvd y then 1 else 0)"
  proof -
    have "4 dvd y - 1968 \<longleftrightarrow> 4 dvd y" "100 dvd y - 1900 \<longleftrightarrow> 100 dvd y" "400 dvd y - 1600 \<longleftrightarrow> 400 dvd y"
      by (simp_all add: dvd_diff_left_iff)
    then show "(y - 1968) div 4 = (y - 1969) div 4 + (if 4 dvd y then 1 else 0)"
      "(y - 1900) div 100 = (y - 1901) div 100 + (if 100 dvd y then 1 else 0)"
      "(y - 1600) div 400 = (y - 1601) div 400 + (if 400 dvd y then 1 else 0)"
      using div_step [of 4 "y - 1969"] div_step [of 100 "y - 1901"] div_step [of 400 "y - 1601"] by simp_all
  qed
  have "400 dvd y \<Longrightarrow> 100 dvd y" "100 dvd y \<Longrightarrow> 4 dvd y"
    using dvd_trans [of 100 400 y] dvd_trans [of 4 100 y] by simp_all
  moreover have "365 * (y - 1969) + a - b + c = 365 * (y - 1970) + a' - b' + c' + (if 4 dvd y \<and> (\<not> 100 dvd y \<or> 400 dvd y) then 366 else 365)"
    if "a = a' + (if 4 dvd y then 1 else 0)" "b = b' + (if 100 dvd y then 1 else 0)" "c = c' + (if 400 dvd y then 1 else 0)"
      "400 dvd y \<Longrightarrow> 100 dvd y" "100 dvd y \<Longrightarrow> 4 dvd y" for a b c a' b' c' :: int
    using that by (cases "4 dvd y"; cases "100 dvd y"; cases "400 dvd y") simp_all
  moreover have "day_from_year (y + 1) = 365 * (y - 1969) + (y - 1968) div 4 - (y - 1900) div 100 + (y - 1600) div 400"
    by (simp add: day_from_year_def)
  ultimately show ?thesis
    using steps unfolding leap_year_def mod_eq_0_iff_dvd day_from_year_def [of y] by metis
qed

lemma year_from_day_correct: "day_from_year (year_from_day d) \<le> d \<and> d < day_from_year (year_from_day d + 1)"
proof -
  define q where "q = (400 * d) div 146097"
  define y where "y = 1970 + q"
  have "146097 * q \<le> 400 * d" "400 * d < 146097 * q + 146097"
    unfolding q_def by (rule div_bounds [OF zero_less_numeral])+
  then have y: "146097 * (y - 1970) \<le> 400 * d" "400 * d < 146097 * (y - 1970) + 146097"
    by (simp_all add: y_def)
  have low: "day_from_year (y - 1) \<le> d" and high: "d < day_from_year (y + 2)"
    using y day_from_year_bounds [of "y - 1"] day_from_year_bounds [of "y + 2"] by (simp_all add: algebra_simps)
  have year: "year_from_day d = (if d < day_from_year y then y - 1
         else if day_from_year (y + 1) \<le> d then y + 1 else y)"
    by (simp only: year_from_day_def y_def q_def Let_def)
  show ?thesis
    unfolding year using low high by (simp add: algebra_simps)
qed

lemma sum_month_lengths: "sum_list (month_lengths y) = (if leap_year y then 366 else 365)"
  by (simp add: month_lengths_def)

lemma month_and_date_correct:
  assumes "0 \<le> d" "d < sum_list ls" "month_and_date ls d = (m, r)"
  shows "m < length ls \<and> 0 \<le> r \<and> r < ls ! m \<and> sum_list (take m ls) + r = d"
  using assms
proof (induction ls arbitrary: d m r)
  case (Cons l ls)
  show ?case
  proof (cases "d < l")
    case False
    obtain k s where k: "month_and_date ls (d - l) = (k, s)" by fastforce
    with False Cons.prems have "m = Suc k" "r = s" by auto
    with Cons.IH [of "d - l" k s] Cons.prems False k show ?thesis by auto
  qed (use Cons.prems in auto)
qed simp

text \<open>The date of a day is a date of the calendar, and the day can be computed from it.\<close>

theorem civil_date_correct:
  assumes "civil_date d = (y, m, r)"
  shows "1 \<le> m \<and> m \<le> 12 \<and> 1 \<le> r \<and> int r \<le> month_lengths y ! (m - 1)
    \<and> day_from_year y + sum_list (take (m - 1) (month_lengths y)) + int (r - 1) = d"
proof -
  obtain k s where k: "month_and_date (month_lengths (year_from_day d)) (d - day_from_year (year_from_day d)) = (k, s)"
    by fastforce
  from assms k have eq: "y = year_from_day d" "m = k + 1" "r = nat s + 1" by (auto simp: civil_date_def Let_def)
  have "0 \<le> d - day_from_year y" "d - day_from_year y < sum_list (month_lengths y)"
    using year_from_day_correct [of d] year_step [of y] by (auto simp: eq(1) sum_month_lengths split: if_splits)
  from month_and_date_correct [OF this k [folded eq(1)]] eq show ?thesis
    by (auto simp: month_lengths_def)
qed

section \<open>toISOString\<close>

definition digits_of :: "nat \<Rightarrow> nat \<Rightarrow> string" where
  "digits_of k n = map (\<lambda>i. digit_char (n div 10 ^ (k - 1 - i) mod 10)) [0..<k]"

definition year_text :: "int \<Rightarrow> string" where
  "year_text y = (if 0 \<le> y \<and> y \<le> 9999 then digits_of 4 (nat y)
     else (if y < 0 then ''-'' else ''+'') @ digits_of 6 (nat \<bar>y\<bar>))"

definition date_text :: "int \<Rightarrow> string" where
  "date_text t = (case civil_date (t div MS_PER_DAY) of (y, m, r) \<Rightarrow>
     year_text y @ ''-'' @ digits_of 2 m @ ''-'' @ digits_of 2 r)"

definition clock_text :: "int \<Rightarrow> string" where
  "clock_text t = (let ms = nat (t mod MS_PER_DAY)
     in digits_of 2 (ms div 3600000) @ '':'' @ digits_of 2 (ms div 60000 mod 60) @ '':''
        @ digits_of 2 (ms div 1000 mod 60) @ ''.'' @ digits_of 3 (ms mod 1000))"

definition iso_text :: "int \<Rightarrow> string" where
  "iso_text t = date_text t @ ''T'' @ clock_text t @ ''Z''"

lemma length_digits_of [simp]: "length (digits_of k n) = k"
  by (simp add: digits_of_def)

lemma length_clock_text [simp]: "length (clock_text t) = 12"
  by (simp add: clock_text_def Let_def)

text \<open>Evaluation at numerals.\<close>

lemma digits_of_Suc: "digits_of (Suc k) n = digit_char (n div 10 ^ k mod 10) # digits_of k n"
proof -
  have "map (\<lambda>i. digit_char (n div 10 ^ (Suc k - 1 - i) mod 10)) [0..<Suc k]
      = digit_char (n div 10 ^ k mod 10) # map (\<lambda>i. digit_char (n div 10 ^ (k - 1 - i) mod 10)) [0..<k]"
    by (subst upt_conv_Cons) (simp_all add: map_Suc_upt [symmetric] comp_def del: upt_Suc)
  then show ?thesis by (simp only: digits_of_def)
qed

lemma digits_of_numeral: "digits_of (numeral k) n = digit_char (n div 10 ^ pred_numeral k mod 10) # digits_of (pred_numeral k) n"
  using digits_of_Suc [of "pred_numeral k" n] by (simp only: numeral_eq_Suc [of k, symmetric])

lemma digits_of_0: "digits_of 0 n = []"
  by (simp add: digits_of_def)

lemma digits_of_1: "digits_of (Suc 0) n = [digit_char (n mod 10)]"
  by (simp add: digits_of_def)

lemmas digits_eval = digits_of_numeral digits_of_0 digits_of_1 digit_char_def

text \<open>The year of a time between the years 0 and 9999 has four digits.\<close>

definition four_digit_year :: "int \<Rightarrow> bool" where
  "four_digit_year t \<longleftrightarrow> 0 \<le> year_from_day (t div MS_PER_DAY) \<and> year_from_day (t div MS_PER_DAY) \<le> 9999"

lemma length_date_text: "four_digit_year t \<Longrightarrow> length (date_text t) = 10"
  by (auto simp: four_digit_year_def date_text_def civil_date_def year_text_def Let_def split: prod.split)

lemma length_date_text_other: "\<not> four_digit_year t \<Longrightarrow> length (date_text t) = 13"
  by (auto simp: four_digit_year_def date_text_def civil_date_def year_text_def Let_def split: prod.split)

end
