(* ===== verification/Render.thy ===== *)
theory Render
  imports Validation Js_Date
begin

text \<open>
  The text that the commands print without \<open>--json\<close> (\<open>src/cli/pretty-renderer.ts\<close>). The data of a result
  is a JSON value, its statistics are scalars or objects of scalars. Upper-casing by the rules of
  Unicode, and the text of a member that an object has from its prototype, are arguments.
\<close>

section \<open>Values as text\<close>

record render_env =
  to_upper :: "string \<Rightarrow> string"
  inherited_text :: "string \<Rightarrow> string"

definition newline_text :: string where
  "newline_text = [CHR 0x0A]"

definition bullet :: string where
  "bullet = ''  '' @ utf8_code 8226 @ ''  ''"

fun number_text :: "jsnum \<Rightarrow> string" where
  "number_text (Dec m e) = dec_text m e"
| "number_text (Inf b) = (if b then ''-Infinity'' else ''Infinity'')"
| "number_text NaN = ''NaN''"

fun isScalar :: "json \<Rightarrow> bool" where
  "isScalar (JArr xs) = False"
| "isScalar (JObj es) = False"
| "isScalar _ = True"

text \<open>\<open>String(value)\<close>; an array is the join of its elements, where \<open>null\<close> is empty.\<close>

fun string_of_value :: "json \<Rightarrow> string" where
  "string_of_value JNull = ''null''"
| "string_of_value (JBool b) = (if b then ''true'' else ''false'')"
| "string_of_value (JNum n) = number_text n"
| "string_of_value (JStr s) = s"
| "string_of_value (JArr xs) = join_with '','' (map (\<lambda>x. if x = JNull then [] else string_of_value x) xs)"
| "string_of_value (JObj es) = ''[object Object]''"

definition scalarText :: "json \<Rightarrow> string" where
  "scalarText v = (if v = JNull then ''null'' else string_of_value v)"

definition scalarValueText :: "json \<Rightarrow> string" where
  "scalarValueText v = (case v of JStr s \<Rightarrow> json_text v | _ \<Rightarrow> scalarText v)"

text \<open>\<open>JSON.stringify(value, null, 2)\<close>, with the indentation that a nested value starts from.\<close>

fun json_lines :: "string \<Rightarrow> json \<Rightarrow> string" where
  "json_lines ind (JArr xs) =
     (if xs = [] then ''[]''
      else ''['' @ newline_text
        @ join_with ('','' @ newline_text) (map (\<lambda>x. (ind @ ''  '') @ json_lines (ind @ ''  '') x) xs)
        @ newline_text @ ind @ '']'')"
| "json_lines ind (JObj es) =
     (if es = [] then ''{}''
      else ''{'' @ newline_text
        @ join_with ('','' @ newline_text)
            (map (\<lambda>p. (ind @ ''  '') @ quote_text (fst p) @ '': '' @ json_lines (ind @ ''  '') (snd p)) es)
        @ newline_text @ ind @ ''}'')"
| "json_lines ind v = json_text v"

definition value_lines :: "json \<Rightarrow> string list" where
  "value_lines v = split_on CHR 0x0A (json_lines [] v)"

definition renderValue :: "string \<Rightarrow> json \<Rightarrow> string list" where
  "renderValue indentation v =
     (case v of
        JArr xs \<Rightarrow> concat (map (\<lambda>x. case x of JStr s \<Rightarrow> [indentation @ s]
          | _ \<Rightarrow> map ((@) indentation) (value_lines x)) xs)
      | JStr s \<Rightarrow> [indentation @ s]
      | _ \<Rightarrow> map ((@) indentation) (value_lines v))"

section \<open>Columns\<close>

text \<open>\<open>padEnd\<close> counts UTF-16 code units.\<close>

definition pad_end :: "string \<Rightarrow> nat \<Rightarrow> string" where
  "pad_end s n = s @ replicate (n - js_length s) CHR '' ''"

text \<open>\<open>Math.max(header.length, ...rows.map((row) => row[index]?.length ?? 0))\<close>\<close>

definition column_width :: "string list \<Rightarrow> string list list \<Rightarrow> nat \<Rightarrow> nat" where
  "column_width headers rows i =
     foldl max (js_length (headers ! i)) (map (\<lambda>row. if i < length row then js_length (row ! i) else 0) rows)"

definition column_widths :: "string list \<Rightarrow> string list list \<Rightarrow> nat list" where
  "column_widths headers rows = map (column_width headers rows) [0..<length headers]"

text \<open>The cells of a row, all but the last padded, with \<open>widths[index] ?? value.length\<close>.\<close>

fun padded_cells :: "nat list \<Rightarrow> string list \<Rightarrow> string list" where
  "padded_cells ws [] = []"
| "padded_cells ws [c] = [c]"
| "padded_cells ws (c # d # cs) =
     (case ws of [] \<Rightarrow> c # padded_cells [] (d # cs) | w # ws \<Rightarrow> pad_end c w # padded_cells ws (d # cs))"

definition render_row :: "nat list \<Rightarrow> string list \<Rightarrow> string" where
  "render_row ws row = join_with ''  '' (padded_cells ws row)"

definition renderRows :: "string list \<Rightarrow> string list list \<Rightarrow> string list" where
  "renderRows headers rows = map (render_row (column_widths headers rows)) (headers # rows)"

section \<open>logs\<close>

record log_record =
  lrec_sequence :: jsnum
  lrec_timestamp :: jsnum
  lrec_hypothesisId :: string
  lrec_location :: string
  lrec_message :: string
  lrec_data :: json

text \<open>\<open>isLogRecord\<close>, with the record it recognises.\<close>

definition log_record_of :: "json \<Rightarrow> log_record option" where
  "log_record_of v =
     (case v of
        JObj es \<Rightarrow>
          (case (string_field ''id'' es, number_field ''sequence'' es, number_field ''timestamp'' es,
              number_field ''receivedAt'' es, string_field ''hypothesisId'' es, string_field ''location'' es,
              string_field ''message'' es, field ''data'' es) of
             (Some _, Some sq, Some at, Some _, Some h, Some l, Some m, Some d) \<Rightarrow>
               Some \<lparr>lrec_sequence = sq, lrec_timestamp = at, lrec_hypothesisId = h, lrec_location = l,
                     lrec_message = m, lrec_data = d\<rparr>
           | _ \<Rightarrow> None)
      | _ \<Rightarrow> None)"

definition formatTimestamp :: "jsnum \<Rightarrow> string" where
  "formatTimestamp t = (case time_clip t of None \<Rightarrow> number_text t | Some n \<Rightarrow> iso_text n)"

definition formatCompactTime :: "jsnum \<Rightarrow> string" where
  "formatCompactTime t = (case time_clip t of None \<Rightarrow> number_text t | Some n \<Rightarrow> take 12 (drop 11 (iso_text n)))"

definition formatUtcDate :: "jsnum \<Rightarrow> string" where
  "formatUtcDate t = (case time_clip t of None \<Rightarrow> number_text t | Some n \<Rightarrow> take 10 (iso_text n))"

definition log_headers :: "string list" where
  "log_headers = [''SEQ'', ''TIME'', ''HYP'', ''LOCATION'', ''MESSAGE'', ''DATA'']"

definition log_row :: "log_record \<Rightarrow> string list" where
  "log_row r = [number_text (lrec_sequence r), formatCompactTime (lrec_timestamp r), lrec_hypothesisId r,
     lrec_location r, lrec_message r, json_text (lrec_data r)]"

text \<open>The loop over the records; a line marks each change of the date.\<close>

fun log_lines :: "nat list \<Rightarrow> string \<Rightarrow> log_record list \<Rightarrow> string list" where
  "log_lines ws currentDate [] = []"
| "log_lines ws currentDate (r # rs) =
     (let recordDate = formatUtcDate (lrec_timestamp r)
      in (if recordDate \<noteq> currentDate then [''-- '' @ recordDate @ '' --''] else [])
         @ render_row ws (log_row r) # log_lines ws recordDate rs)"

definition renderLogTable :: "log_record list \<Rightarrow> string list" where
  "renderLogTable records =
     (case records of
        [] \<Rightarrow> [''records'', ''  (none)'']
      | r # _ \<Rightarrow>
          let ws = column_widths log_headers (map log_row records);
              currentDate = formatUtcDate (lrec_timestamp r)
          in [''date '' @ currentDate, ''records'', render_row ws log_headers] @ log_lines ws currentDate records)"

section \<open>query\<close>

text \<open>\<open>key in object\<close> and \<open>object[key]\<close> also find what the object inherits.\<close>

definition in_object :: "string \<Rightarrow> (string \<times> json) list \<Rightarrow> bool" where
  "in_object key es \<longleftrightarrow> field key es \<noteq> None \<or> key \<in> set prototype_keys"

definition member_text :: "render_env \<Rightarrow> (string \<times> json) list \<Rightarrow> string \<Rightarrow> string" where
  "member_text env es key = (case field key es of Some v \<Rightarrow> scalarText v | None \<Rightarrow> inherited_text env key)"

fun flat_object :: "json \<Rightarrow> (string \<times> json) list option" where
  "flat_object (JObj es) = (if list_all (\<lambda>p. isScalar (snd p)) es then Some es else None)"
| "flat_object _ = None"

definition result_blocks :: "json list \<Rightarrow> string list" where
  "result_blocks results =
     concat (map (\<lambda>(index, v). (''RESULT '' @ nat_text (index + 1) @ '' OF '' @ nat_text (length results))
        # value_lines v) (zip [0..<length results] results))"

definition renderQueryResults :: "render_env \<Rightarrow> json list \<Rightarrow> string list" where
  "renderQueryResults env results =
     (if results = [] then [''No values produced'']
      else if list_all isScalar results
      then renderRows [''INDEX'', ''VALUE'']
        (map (\<lambda>(index, v). [nat_text (index + 1), scalarValueText v]) (zip [0..<length results] results))
      else case those (map flat_object results) of
             None \<Rightarrow> result_blocks results
           | Some objects \<Rightarrow>
               let keys = map fst (hd objects)
               in if list_all (\<lambda>es. length es = length keys \<and> list_all (\<lambda>key. in_object key es) keys) objects
                  then renderRows (map (to_upper env) keys) (map (\<lambda>es. map (member_text env es) keys) objects)
                  else result_blocks results)"

section \<open>create, reset, template, status, sessions\<close>

definition renderEntries :: "(string \<times> json) list \<Rightarrow> string list" where
  "renderEntries es = concat (map (\<lambda>(key, v). key # renderValue ''  '' v) es)"

definition renderIngestData :: "(string \<times> json) list \<Rightarrow> string list" where
  "renderIngestData es =
     (let lines = (case string_field ''ingestUrl'' es of Some u \<Rightarrow> [''Ingest URL   '' @ u] | None \<Rightarrow> [])
            @ (case string_field ''appendPath'' es of Some p \<Rightarrow> [''Append Path  '' @ p] | None \<Rightarrow> [])
      in if lines \<noteq> [] then lines else renderEntries es)"

text \<open>\<open>isStringRecord\<close> and \<open>isPlacement\<close>, with what they recognise.\<close>

definition string_entry :: "string \<times> json \<Rightarrow> (string \<times> string) option" where
  "string_entry p = (case snd p of JStr s \<Rightarrow> Some (fst p, s) | _ \<Rightarrow> None)"

definition string_record :: "json option \<Rightarrow> (string \<times> string) list option" where
  "string_record v = (case v of Some (JObj es) \<Rightarrow> those (map string_entry es) | _ \<Rightarrow> None)"

definition placement_of :: "json option \<Rightarrow> (string \<times> string) option" where
  "placement_of v =
     (case v of
        Some (JObj es) \<Rightarrow> (case (string_field ''helper'' es, string_field ''call'' es) of
            (Some h, Some c) \<Rightarrow> Some (h, c) | _ \<Rightarrow> None)
      | _ \<Rightarrow> None)"

definition name_width :: "(string \<times> string) list \<Rightarrow> nat" where
  "name_width es = foldl max 0 (map (\<lambda>p. js_length (fst p)) es)"

definition renderTemplateData :: "(string \<times> json) list \<Rightarrow> string list option" where
  "renderTemplateData es =
     (case (string_field ''helperTemplate'' es, string_field ''callTemplate'' es, string_field ''dataEncoding'' es,
         string_record (field ''placeholders'' es), string_record (field ''eventSchema'' es),
         placement_of (field ''placement'' es)) of
        (Some helper, Some call, Some encoding, Some placeholders, Some schema, Some (place_helper, place_call)) \<Rightarrow>
          Some ([''HELPER TEMPLATE''] @ split_on CHR 0x0A helper
            @ [[], ''CALL TEMPLATE''] @ split_on CHR 0x0A call
            @ [[], ''DATA ENCODING'', encoding, [], ''PLACEMENT'', ''Helper  '' @ place_helper, ''Call    '' @ place_call,
               [], ''PLACEHOLDERS'']
            @ map (\<lambda>(name, meaning). pad_end name (name_width placeholders) @ ''  '' @ meaning) placeholders
            @ [[], ''EVENT SCHEMA''] @ map (\<lambda>(k, t). k @ ''  '' @ t) schema)
      | _ \<Rightarrow> None)"

text \<open>\<open>${value}\<close> of a member that may be missing, and \<open>filter(Boolean)\<close> of one.\<close>

definition member_string :: "string \<Rightarrow> (string \<times> json) list \<Rightarrow> string" where
  "member_string k es = (case field k es of None \<Rightarrow> ''undefined'' | Some v \<Rightarrow> string_of_value v)"

definition truthy :: "json option \<Rightarrow> bool" where
  "truthy v = (case v of None \<Rightarrow> False | Some JNull \<Rightarrow> False | Some (JBool b) \<Rightarrow> b | Some (JStr s) \<Rightarrow> s \<noteq> []
     | Some (JNum n) \<Rightarrow> n \<noteq> NaN \<and> (case n of Dec m e \<Rightarrow> m \<noteq> 0 | _ \<Rightarrow> True) | Some _ \<Rightarrow> True)"

definition members_of :: "json option \<Rightarrow> (string \<times> json) list" where
  "members_of v = (case v of Some (JObj es) \<Rightarrow> es | _ \<Rightarrow> [])"

definition diagnostic_source :: "(string \<times> json) list \<Rightarrow> string" where
  "diagnostic_source es =
     (let rec = members_of (field ''recoverable'' es)
      in join_with bullet
        ((if truthy (field ''location'' rec) then [member_string ''location'' rec] else [])
         @ (if truthy (field ''hypothesisId'' rec) then [''Hypothesis '' @ member_string ''hypothesisId'' rec] else [])))"

definition diagnostic_lines :: "(string \<times> json) list \<Rightarrow> string list" where
  "diagnostic_lines es =
     (let source = diagnostic_source es
      in [[], ''  '' @ member_string ''diagnosticId'' es @ ''  '' @ member_string ''reason'' es]
        @ (if source \<noteq> [] then [''  Source    '' @ source] else [])
        @ [''  Problem   '' @ member_string ''message'' es, ''  Preview   '' @ member_string ''redactedPreview'' es,
           ''  Fix       '' @ member_string ''suggestedAction'' es])"

text \<open>\<open>isEvidenceHealth\<close>, with the texts of the service, the ingestion and the query engine.\<close>

definition health_of :: "json option \<Rightarrow> (string \<times> string \<times> string) option" where
  "health_of v =
     (let health = members_of v
      in case (string_field ''daemon'' health, string_field ''ingestion'' health, string_field ''queryEngine'' health) of
           (Some service, Some ingestion, Some engine) \<Rightarrow> Some (service, ingestion, engine)
         | _ \<Rightarrow> None)"

text \<open>The diagnostics are objects, as the daemon sends them.\<close>

definition renderStatusData :: "(string \<times> json) list \<Rightarrow> string list option" where
  "renderStatusData es =
     map_option (\<lambda>(service, ingestion, engine).
       (''Service '' @ service @ bullet @ ''Ingestion '' @ ingestion @ bullet @ ''Query engine '' @ engine)
         # (case field ''diagnostics'' es of
              Some (JArr (d # ds)) \<Rightarrow>
                [[], ''MALFORMED RECORDS''] @ concat (map (\<lambda>x. diagnostic_lines (members_of (Some x))) (d # ds))
            | _ \<Rightarrow> [])) (health_of (field ''health'' es))"

definition session_row :: "json \<Rightarrow> string list option" where
  "session_row v =
     (let es = members_of (Some v)
      in case (string_field ''id'' es, number_field ''createdAt'' es, number_field ''eventCount'' es) of
           (Some i, Some at, Some n) \<Rightarrow> Some [i, formatTimestamp at, number_text n]
         | _ \<Rightarrow> None)"

definition renderSessionsData :: "(string \<times> json) list \<Rightarrow> string list option" where
  "renderSessionsData es =
     (case field ''sessions'' es of
        Some (JArr xs) \<Rightarrow>
          map_option (\<lambda>rows. if rows = [] then [''No sessions'']
            else renderRows [''SESSION ID'', ''CREATED AT'', ''EVENTS''] rows) (those (map session_row xs))
      | _ \<Rightarrow> None)"

section \<open>A result\<close>

datatype statistic = Scalar json | Group "(string \<times> json) list"

record output_hint =
  oh_action :: string
  oh_command :: "string option"
  oh_message :: string

record output_error =
  oe_code :: string
  oe_hint :: "string option"
  oe_message :: string

record command_result =
  cr_command :: string
  cr_data :: json
  cr_hints :: "output_hint list"
  cr_session :: "string option"
  cr_statistics :: "(string \<times> statistic) list"
  cr_warnings :: "(string \<times> string) list"

datatype command_output = Failed output_error | Succeeded command_result

text \<open>An optional text that is there and not empty.\<close>

definition given_text :: "string option \<Rightarrow> string list" where
  "given_text t = (case t of Some s \<Rightarrow> if s = [] then [] else [s] | None \<Rightarrow> [])"

definition renderError :: "output_error \<Rightarrow> string" where
  "renderError e = join_with newline_text
     ((''ERROR  ['' @ oe_code e @ ''] '' @ oe_message e) # concat (map (\<lambda>h. [[], ''HINT  '' @ h]) (given_text (oe_hint e))))"

definition renderScope :: "command_result \<Rightarrow> string list" where
  "renderScope r = map (\<lambda>s. ''Session '' @ s) (given_text (cr_session r))"

definition formatStatistic :: "statistic \<Rightarrow> string" where
  "formatStatistic v =
     (case v of
        Scalar x \<Rightarrow> string_of_value x
      | Group es \<Rightarrow> if es = [] then ''(none)''
          else join_with '', '' (map (\<lambda>(name, count). name @ ''='' @ string_of_value count) es))"

definition renderStatistics :: "command_result \<Rightarrow> string list" where
  "renderStatistics r =
     (let width = foldl max 0 (map (\<lambda>p. js_length (fst p)) (cr_statistics r))
      in map (\<lambda>(key, v). pad_end key width @ ''  '' @ formatStatistic v) (cr_statistics r))"

text \<open>The table for each command; \<open>None\<close> leaves the data to \<open>renderEntries\<close>.\<close>

definition command_data :: "render_env \<Rightarrow> string \<Rightarrow> (string \<times> json) list \<Rightarrow> string list option" where
  "command_data env command es =
     (if command = ''create'' \<or> command = ''reset'' then Some (renderIngestData es)
      else if command = ''template'' then renderTemplateData es
      else if command = ''status'' then renderStatusData es
      else if command = ''sessions'' then renderSessionsData es
      else if command = ''logs''
      then (case field ''records'' es of
          Some (JArr xs) \<Rightarrow> map_option renderLogTable (those (map log_record_of xs)) | _ \<Rightarrow> None)
      else if command = ''query''
      then (case field ''rows'' es of Some (JArr xs) \<Rightarrow> Some (renderQueryResults env xs) | _ \<Rightarrow> None)
      else None)"

definition renderData :: "render_env \<Rightarrow> command_result \<Rightarrow> string list" where
  "renderData env r =
     (case cr_data r of
        JObj es \<Rightarrow> (case command_data env (cr_command r) es of Some ls \<Rightarrow> ls | None \<Rightarrow> renderEntries es)
      | v \<Rightarrow> renderValue ''  '' v)"

definition renderHint :: "render_env \<Rightarrow> output_hint \<Rightarrow> string list" where
  "renderHint env h = (to_upper env (oh_action h) @ ''  '' @ oh_message h) # map (\<lambda>c. ''  '' @ c) (given_text (oh_command h))"

definition summary_lines :: "render_env \<Rightarrow> command_result \<Rightarrow> string list" where
  "summary_lines env r =
     (if cr_command r = ''create'' then ''SESSION CREATED'' else to_upper env (cr_command r))
       # renderScope r @ renderStatistics r"

definition sections_of :: "render_env \<Rightarrow> command_result \<Rightarrow> string list list" where
  "sections_of env r =
     (if cr_warnings r \<noteq> [] then [map (\<lambda>(c, m). ''WARNING  ['' @ c @ ''] '' @ m) (cr_warnings r)] else [])
     @ [summary_lines env r]
     @ (if cr_command r = ''reset'' then [[''Sequence reset to 1'']] else [])
     @ [renderData env r]
     @ (if cr_hints r \<noteq> [] then [concat (map (renderHint env) (cr_hints r))] else [])"

definition renderPretty :: "render_env \<Rightarrow> command_output \<Rightarrow> string" where
  "renderPretty env output =
     (case output of
        Failed e \<Rightarrow> renderError e
      | Succeeded r \<Rightarrow> join_with (newline_text @ newline_text) (map (join_with newline_text) (sections_of env r)))"

end
