(* ===== verification/Render_Facts.thy ===== *)
theory Render_Facts
  imports Render Json_Codec
begin

text \<open>
  What the printed tables look like: the cells of a column start at the same place in every row, a
  table of one-line texts can be read back line by line, and what happens otherwise.
\<close>

section \<open>Columns\<close>

lemma js_length_spaces [simp]: "js_length (replicate n CHR '' '') = n"
  by (induction n) auto

lemma js_length_pad_end: "js_length s \<le> n \<Longrightarrow> js_length (pad_end s n) = n"
  by (simp add: pad_end_def)

lemma foldl_max_bounds: "m \<le> foldl max m xs \<and> (\<forall>x \<in> set xs. x \<le> foldl max m xs)" for m :: nat
  by (induction xs arbitrary: m) (auto intro: order_trans [OF max.cobounded1] order_trans [OF max.cobounded2])

lemma column_width_header: "js_length (headers ! i) \<le> column_width headers rows i"
  using foldl_max_bounds by (simp add: column_width_def)

lemma column_width_cell:
  assumes "row \<in> set rows" "i < length row"
  shows "js_length (row ! i) \<le> column_width headers rows i"
proof -
  have "(if i < length row then js_length (row ! i) else 0)
      \<in> set (map (\<lambda>row. if i < length row then js_length (row ! i) else 0) rows)"
    unfolding set_map by (rule image_eqI [OF _ assms(1)]) simp
  from foldl_max_bounds [THEN conjunct2, THEN bspec, OF this] assms(2) show ?thesis
    by (simp add: column_width_def)
qed

lemma length_column_widths [simp]: "length (column_widths headers rows) = length headers"
  by (simp add: column_widths_def)

text \<open>Where a column starts, with two spaces between columns.\<close>

definition column_start :: "nat list \<Rightarrow> nat \<Rightarrow> nat" where
  "column_start ws j = sum_list (map (\<lambda>w. w + 2) (take j ws))"

lemma padded_not_Nil: "padded_cells ws row = [] \<longleftrightarrow> row = []"
  by (cases "(ws, row)" rule: padded_cells.cases) (auto split: list.split)

lemma render_row_step:
  "render_row (w # ws) (c # d # cs) = pad_end c w @ ''  '' @ render_row ws (d # cs)"
  using padded_not_Nil [of ws "d # cs"] by (cases "padded_cells ws (d # cs)") (simp_all add: render_row_def)

lemma cell_in_row:
  assumes "length row = length ws" "\<And>i. i < length row \<Longrightarrow> js_length (row ! i) \<le> ws ! i" "j < length row"
  shows "\<exists>a b. render_row ws row = a @ row ! j @ b \<and> js_length a = column_start ws j"
  using assms
proof (induction ws row arbitrary: j rule: padded_cells.induct)
  case (2 ws c)
  then have "j = 0" by simp
  then show ?case by (intro exI [of _ "[]"]) (simp add: render_row_def column_start_def)
next
  case (3 vs c d cs)
  then obtain w ws where vs: "vs = w # ws" by (cases vs) auto
  have w: "js_length c \<le> w" using 3(4) [of 0] vs by simp
  show ?case
  proof (cases j)
    case 0
    show ?thesis unfolding vs render_row_step
      by (intro exI [of _ "[]"] exI [of _ "replicate (w - js_length c) CHR '' '' @ ''  '' @ render_row ws (d # cs)"])
        (simp add: 0 pad_end_def column_start_def)
  next
    case (Suc k)
    have bounds: "js_length ((d # cs) ! i) \<le> ws ! i" if "i < length (d # cs)" for i
      using 3(4) [of "Suc i"] that vs by simp
    obtain a b where "render_row ws (d # cs) = a @ (d # cs) ! k @ b" "js_length a = column_start ws k"
      using 3(2) [OF vs _ bounds, of k] 3(3,5) vs Suc by auto
    then show ?thesis unfolding vs render_row_step
      using w by (intro exI [of _ "pad_end c w @ ''  '' @ a"] exI [of _ b])
        (simp add: Suc column_start_def js_length_pad_end)
  qed
qed simp

text \<open>Every cell of a table starts at the start of its column.\<close>

lemma cell_in_table:
  assumes "\<forall>row \<in> set rows. length row = length headers" "row \<in> set (headers # rows)" "j < length headers"
  shows "\<exists>a b. render_row (column_widths headers rows) row = a @ row ! j @ b
    \<and> js_length a = column_start (column_widths headers rows) j"
proof (rule cell_in_row)
  show "length row = length (column_widths headers rows)" using assms by auto
  show "j < length row" using assms by auto
  fix i
  assume i: "i < length row"
  then have "column_widths headers rows ! i = column_width headers rows i"
    using assms by (auto simp: column_widths_def)
  then show "js_length (row ! i) \<le> column_widths headers rows ! i"
    using assms(2) i column_width_header column_width_cell by auto
qed

section \<open>Lines\<close>

lemma line_in_join: "l \<in> set ls \<Longrightarrow> \<exists>x y. join_with sep ls = x @ l @ y"
proof (induction sep ls rule: join_with.induct)
  case (2 sep p)
  then show ?case by (intro exI [of _ "[]"]) simp
next
  case (3 sep p q ps)
  show ?case
  proof (cases "l = p")
    case True
    then show ?thesis by (intro exI [of _ "[]"] exI [of _ "sep @ join_with sep (q # ps)"]) simp
  next
    case False
    with 3 obtain x y where "join_with sep (q # ps) = x @ l @ y" by auto
    then show ?thesis by (intro exI [of _ "p @ sep @ x"] exI [of _ y]) simp
  qed
qed simp

text \<open>A text with line breaks puts its inner lines among the lines of the whole.\<close>

lemma inner_line:
  assumes "CHR 0x0A \<notin> set l"
  shows "l \<in> set (split_on CHR 0x0A (x @ (a @ CHR 0x0A # l @ CHR 0x0A # b) @ y))"
proof -
  have "x @ (a @ CHR 0x0A # l @ CHR 0x0A # b) @ y = (x @ a) @ CHR 0x0A # (l @ CHR 0x0A # (b @ y))" by simp
  then have "split_on CHR 0x0A (x @ (a @ CHR 0x0A # l @ CHR 0x0A # b) @ y)
      = split_on CHR 0x0A (x @ a) @ split_on CHR 0x0A l @ split_on CHR 0x0A (b @ y)"
    by (simp only: split_append_sep)
  then show ?thesis by (simp add: split_on_no_sep [OF assms])
qed

section \<open>Texts without line breaks\<close>

lemma digits_of_one_line [one_line]: "CHR 0x0A \<notin> set (digits_of k n)"
proof -
  have "CHR 0x0A \<noteq> digit_char (n div 10 ^ (k - 1 - i) mod 10)" for i
    using digit_one_line [OF is_digit_digit_char, of "n div 10 ^ (k - 1 - i) mod 10"] by fastforce
  then show ?thesis by (simp add: digits_of_def image_iff)
qed

lemma date_text_one_line [one_line]: "CHR 0x0A \<notin> set (date_text t)"
  by (auto simp: date_text_def year_text_def one_line split: prod.splits if_splits)

lemma clock_text_one_line [one_line]: "CHR 0x0A \<notin> set (clock_text t)"
  by (auto simp: clock_text_def Let_def one_line)

lemma iso_text_one_line [one_line]: "CHR 0x0A \<notin> set (iso_text t)"
  by (auto simp: iso_text_def one_line)

lemma number_text_one_line [one_line]: "CHR 0x0A \<notin> set (number_text n)"
  by (cases n) (auto simp: one_line)

lemma times_one_line [one_line]:
  "CHR 0x0A \<notin> set (formatCompactTime t)" "CHR 0x0A \<notin> set (formatUtcDate t)" "CHR 0x0A \<notin> set (formatTimestamp t)"
  by (auto simp: formatCompactTime_def formatUtcDate_def formatTimestamp_def one_line split: option.split
    dest!: in_set_takeD in_set_dropD)

section \<open>The table of records\<close>

definition one_line_record :: "log_record \<Rightarrow> bool" where
  "one_line_record r \<longleftrightarrow> CHR 0x0A \<notin> set (lrec_hypothesisId r @ lrec_location r @ lrec_message r)"

lemma pad_end_one_line: "CHR 0x0A \<notin> set (pad_end s n) \<longleftrightarrow> CHR 0x0A \<notin> set s"
  by (auto simp: pad_end_def)

lemma padded_one_line: "\<forall>c \<in> set row. CHR 0x0A \<notin> set c \<Longrightarrow> \<forall>c \<in> set (padded_cells ws row). CHR 0x0A \<notin> set c"
  by (induction ws row rule: padded_cells.induct) (auto simp: pad_end_one_line split: list.splits)

lemma render_row_one_line: "\<forall>c \<in> set row. CHR 0x0A \<notin> set c \<Longrightarrow> CHR 0x0A \<notin> set (render_row ws row)"
  unfolding render_row_def by (intro join_one_line padded_one_line) simp

lemma log_row_one_line: "one_line_record r \<Longrightarrow> \<forall>c \<in> set (log_row r). CHR 0x0A \<notin> set c"
  by (simp add: log_row_def one_line_record_def one_line)

lemma length_log_row [simp]: "length (log_row r) = 6"
  by (simp add: log_row_def)

lemma log_lines_one_line:
  "\<forall>r \<in> set rs. one_line_record r \<Longrightarrow> \<forall>l \<in> set (log_lines ws d rs). CHR 0x0A \<notin> set l"
  by (induction rs arbitrary: d) (auto simp: Let_def one_line dest!: log_row_one_line intro: render_row_one_line
    dest: render_row_one_line)

text \<open>How often the date changes from a record to the next.\<close>

fun date_changes :: "log_record list \<Rightarrow> nat" where
  "date_changes (r # s # rs) =
     (if formatUtcDate (lrec_timestamp s) \<noteq> formatUtcDate (lrec_timestamp r) then 1 else 0) + date_changes (s # rs)"
| "date_changes _ = 0"

lemma length_log_lines:
  "length (log_lines ws (formatUtcDate (lrec_timestamp r)) (r # rs)) = Suc (length rs) + date_changes (r # rs)"
proof (induction rs arbitrary: r)
  case (Cons s rs)
  have "length (log_lines ws d (s # rs)) = (if formatUtcDate (lrec_timestamp s) \<noteq> d then 1 else 0)
      + length (log_lines ws (formatUtcDate (lrec_timestamp s)) (s # rs))" for d
    by (simp add: Let_def)
  with Cons [of s] show ?case by (simp add: Let_def)
qed (simp add: Let_def)

lemma row_in_log_lines: "r \<in> set rs \<Longrightarrow> render_row ws (log_row r) \<in> set (log_lines ws d rs)"
  by (induction rs arbitrary: d) (auto simp: Let_def)

text \<open>The lines of the records without the marks, in order.\<close>

definition log_widths :: "log_record list \<Rightarrow> nat list" where
  "log_widths records = column_widths log_headers (map log_row records)"

lemma renderLogTable_lines:
  assumes "records = r # rs"
  shows "renderLogTable records = [''date '' @ formatUtcDate (lrec_timestamp r), ''records'', render_row (log_widths records) log_headers]
    @ log_lines (log_widths records) (formatUtcDate (lrec_timestamp r)) records"
  by (simp add: assms renderLogTable_def log_widths_def Let_def)

lemma log_cell:
  assumes "r \<in> set records" "j < 6"
  shows "\<exists>a b. a @ log_row r ! j @ b \<in> set (renderLogTable records) \<and> js_length a = column_start (log_widths records) j"
proof -
  obtain s rs where records: "records = s # rs" using assms(1) by (cases records) auto
  obtain a b where "render_row (log_widths records) (log_row r) = a @ log_row r ! j @ b"
      "js_length a = column_start (log_widths records) j"
    using cell_in_table [of "map log_row records" log_headers "log_row r" j] assms
    by (auto simp: log_widths_def log_headers_def)
  moreover have "render_row (log_widths records) (log_row r) \<in> set (renderLogTable records)"
    using row_in_log_lines [OF assms(1)] by (simp add: renderLogTable_lines [OF records])
  ultimately show ?thesis by metis
qed

lemma log_header_cell:
  assumes "records \<noteq> []" "j < 6"
  shows "\<exists>a b. renderLogTable records ! 2 = a @ log_headers ! j @ b \<and> js_length a = column_start (log_widths records) j"
proof -
  obtain r rs where records: "records = r # rs" using assms(1) by (cases records) auto
  have "renderLogTable records ! 2 = render_row (log_widths records) log_headers"
    by (simp add: renderLogTable_lines [OF records] nth_append)
  with cell_in_table [of "map log_row records" log_headers log_headers j] assms(2) show ?thesis
    by (simp add: log_widths_def log_headers_def)
qed

lemma log_table_readable:
  assumes "\<forall>r \<in> set records. one_line_record r"
  shows "split_on CHR 0x0A (join_with newline_text (renderLogTable records)) = renderLogTable records"
  unfolding newline_text_def
proof (rule split_join_lines)
  show "renderLogTable records \<noteq> []" by (cases records) (simp_all add: renderLogTable_def Let_def)
  show "\<forall>l \<in> set (renderLogTable records). CHR 0x0A \<notin> set l"
  proof (cases records)
    case (Cons r rs)
    have "CHR 0x0A \<notin> set (render_row (log_widths records) log_headers)"
      by (rule render_row_one_line) (simp add: log_headers_def)
    with log_lines_one_line [OF assms] show ?thesis
      by (auto simp: renderLogTable_lines [OF Cons] one_line)
  qed (simp add: renderLogTable_def)
qed

text \<open>A message is printed as it is: with line breaks in it, it makes lines of its own choice.\<close>

lemma message_makes_line:
  assumes "r \<in> set records" "lrec_message r = a @ CHR 0x0A # l @ CHR 0x0A # b" "CHR 0x0A \<notin> set l"
  shows "l \<in> set (split_on CHR 0x0A (join_with newline_text (renderLogTable records)))"
proof -
  obtain x y where "x @ lrec_message r @ y \<in> set (renderLogTable records)"
    using log_cell [OF assms(1), of 4] by (auto simp: log_row_def)
  from line_in_join [OF this, of newline_text] obtain u v where
    "join_with newline_text (renderLogTable records) = (u @ x) @ lrec_message r @ (y @ v)" by auto
  then show ?thesis using inner_line [OF assms(3)] by (simp only: assms(2))
qed

section \<open>Dates beyond the year 9999\<close>

lemma time_of_four_digit_year:
  assumes "time_clip t = Some n" "four_digit_year n"
  shows "formatCompactTime t = clock_text n \<and> formatUtcDate t = date_text n"
  using assms length_date_text [OF assms(2)]
  by (simp add: formatCompactTime_def formatUtcDate_def iso_text_def)

text \<open>A year of six digits moves the text by three places: the day appears as the time.\<close>

lemma time_of_later_year:
  assumes "time_clip t = Some n" "\<not> four_digit_year n"
  shows "formatCompactTime t = drop 11 (date_text n) @ ''T'' @ take 9 (clock_text n)
    \<and> formatUtcDate t = take 10 (date_text n)"
  using assms length_date_text_other [OF assms(2)]
  by (simp add: formatCompactTime_def formatUtcDate_def iso_text_def)

section \<open>Inherited members\<close>

text \<open>
  A key of the first object that every object inherits counts as present in the others, which
  then show what they inherit instead of what they hold.
\<close>

lemma inherited_cell:
  assumes "k \<in> set prototype_keys" "k \<noteq> k'" "isScalar v" "isScalar v'"
  shows "renderQueryResults env [JObj [(k, v)], JObj [(k', v')]] =
    renderRows [to_upper env k] [[scalarText v], [inherited_text env k]]"
  using assms by (simp add: renderQueryResults_def in_object_def member_text_def field_def)

end
