(* ===== verification/Cli.thy ===== *)
theory Cli
  imports Query
begin

text \<open>
  The command line (\<open>src/cli/program.ts\<close>) and the exit code of the program (\<open>src/cli.ts\<close>). The words are
  split into options and values by the package commander; what it hands over, the occurrences
  of options in their order, is the input here. It calls the parser of an option at each
  occurrence, stops at an error, and refuses a command without a mandatory option or with an option
  that it does not declare. Which of several errors it reports first is not modelled.
\<close>

section \<open>Values of options\<close>

datatype ingest_transport = Http | File

definition parseIngest :: "string \<Rightarrow> string + ingest_transport" where
  "parseIngest v =
     (if v = ''http'' then Inr Http else if v = ''file'' then Inr File
      else Inl (''expected '' @ [CHR 0x22] @ ''http'' @ [CHR 0x22] @ '' or '' @ [CHR 0x22] @ ''file'' @ [CHR 0x22]))"

text \<open>
  \<open>Number(value)\<close> of digits is their value, or rounded to a neighbour beyond \<open>2 ^ 53\<close>, where no
  number is a safe integer.
\<close>

definition parseNonNegativeInteger :: "string \<Rightarrow> string + nat" where
  "parseNonNegativeInteger v =
     (if v = [] \<or> \<not> list_all is_digit v then Inl ''expected a non-negative integer''
      else if 9007199254740991 < digits_value v then Inl ''expected a safe integer''
      else Inr (digits_value v))"

definition parsePositiveInteger :: "string \<Rightarrow> string + nat" where
  "parsePositiveInteger v =
     (case parseNonNegativeInteger v of
        Inl e \<Rightarrow> Inl e
      | Inr n \<Rightarrow> if n < 1 then Inl ''expected a positive integer'' else Inr n)"

definition stringValue :: "string \<Rightarrow> string + string" where
  "stringValue v = Inr v"

definition repeated :: string where
  "repeated = ''option may not be repeated''"

text \<open>
  \<open>single\<close> and \<open>captureBooleanRepetition\<close>: an option that was met has its value already, since an
  error of the parser ends everything.
\<close>

definition single :: "(string \<Rightarrow> string + 'a) \<Rightarrow> 'a option \<Rightarrow> string \<Rightarrow> string + 'a option" where
  "single parser before v =
     (if before \<noteq> None then Inl repeated else case parser v of Inl e \<Rightarrow> Inl e | Inr x \<Rightarrow> Inr (Some x))"

definition captureBooleanRepetition :: "bool \<Rightarrow> string + bool" where
  "captureBooleanRepetition before = (if before then Inl repeated else Inr True)"

section \<open>Options of a command\<close>

datatype command_name = C_create | C_template | C_reset | C_logs | C_query | C_status | C_sessions | C_clean | C_stop

definition command_named :: "string \<Rightarrow> command_name option" where
  "command_named = map_of [(''create'', C_create), (''template'', C_template), (''reset'', C_reset), (''logs'', C_logs),
     (''query'', C_query), (''status'', C_status), (''sessions'', C_sessions), (''clean'', C_clean), (''stop'', C_stop)]"

datatype occurrence = Value string string | Flag string

record draft =
  dr_session :: "string option"
  dr_language :: "string option"
  dr_ingest :: "ingest_transport option"
  dr_hypotheses :: "string list"
  dr_offset :: "nat option"
  dr_limit :: "nat option"
  dr_timeoutMs :: "nat option"
  dr_snapshot :: "string option"
  dr_cursor :: "string option"
  dr_slurp :: bool
  dr_all :: bool
  dr_json :: bool

definition empty_draft :: draft where
  "empty_draft = \<lparr>dr_session = None, dr_language = None, dr_ingest = None, dr_hypotheses = [], dr_offset = None,
     dr_limit = None, dr_timeoutMs = None, dr_snapshot = None, dr_cursor = None, dr_slurp = False, dr_all = False,
     dr_json = False\<rparr>"

datatype cli_error = InvalidArgument string | UnknownOption string | MissingOption string

definition store_option :: "string + 'a \<Rightarrow> ('a \<Rightarrow> draft) \<Rightarrow> cli_error + draft" where
  "store_option r f = (case r of Inl e \<Rightarrow> Inl (InvalidArgument e) | Inr x \<Rightarrow> Inr (f x))"

definition session_option :: "string \<Rightarrow> draft \<Rightarrow> cli_error + draft" where
  "session_option v d = store_option (single stringValue (dr_session d) v) (\<lambda>x. d\<lparr>dr_session := x\<rparr>)"

definition limit_option :: "string \<Rightarrow> draft \<Rightarrow> cli_error + draft" where
  "limit_option v d = store_option (single parsePositiveInteger (dr_limit d) v) (\<lambda>x. d\<lparr>dr_limit := x\<rparr>)"

definition json_flag :: "draft \<Rightarrow> cli_error + draft" where
  "json_flag d = store_option (captureBooleanRepetition (dr_json d)) (\<lambda>x. d\<lparr>dr_json := x\<rparr>)"

text \<open>The options that each command declares; \<open>--json\<close> belongs to the program.\<close>

fun take_option :: "command_name \<Rightarrow> occurrence \<Rightarrow> draft \<Rightarrow> cli_error + draft" where
  "take_option C_template (Value n v) d =
     (if n = ''language'' then store_option (single stringValue (dr_language d) v) (\<lambda>x. d\<lparr>dr_language := x\<rparr>)
      else if n = ''ingest'' then store_option (single parseIngest (dr_ingest d) v) (\<lambda>x. d\<lparr>dr_ingest := x\<rparr>)
      else Inl (UnknownOption n))"
| "take_option C_logs (Value n v) d =
     (if n = ''session'' then session_option v d
      else if n = ''hypothesis'' then Inr (d\<lparr>dr_hypotheses := dr_hypotheses d @ [v]\<rparr>)
      else if n = ''offset'' then store_option (single parseNonNegativeInteger (dr_offset d) v) (\<lambda>x. d\<lparr>dr_offset := x\<rparr>)
      else if n = ''limit'' then limit_option v d
      else if n = ''snapshot'' then store_option (single stringValue (dr_snapshot d) v) (\<lambda>x. d\<lparr>dr_snapshot := x\<rparr>)
      else Inl (UnknownOption n))"
| "take_option C_query (Value n v) d =
     (if n = ''session'' then session_option v d
      else if n = ''cursor'' then store_option (single stringValue (dr_cursor d) v) (\<lambda>x. d\<lparr>dr_cursor := x\<rparr>)
      else if n = ''limit'' then limit_option v d
      else if n = ''timeout-ms'' then store_option (single parsePositiveInteger (dr_timeoutMs d) v) (\<lambda>x. d\<lparr>dr_timeoutMs := x\<rparr>)
      else Inl (UnknownOption n))"
| "take_option C_create (Value n v) d = Inl (UnknownOption n)"
| "take_option C_sessions (Value n v) d = Inl (UnknownOption n)"
| "take_option C_stop (Value n v) d = Inl (UnknownOption n)"
| "take_option c (Value n v) d = (if n = ''session'' then session_option v d else Inl (UnknownOption n))"
| "take_option c (Flag n) d =
     (if n = ''json'' then json_flag d
      else if n = ''slurp'' \<and> c = C_query then store_option (captureBooleanRepetition (dr_slurp d)) (\<lambda>x. d\<lparr>dr_slurp := x\<rparr>)
      else if n = ''all'' \<and> c = C_sessions then store_option (captureBooleanRepetition (dr_all d)) (\<lambda>x. d\<lparr>dr_all := x\<rparr>)
      else Inl (UnknownOption n))"

fun take_options :: "command_name \<Rightarrow> occurrence list \<Rightarrow> draft \<Rightarrow> cli_error + draft" where
  "take_options c [] d = Inr d"
| "take_options c (x # xs) d = (case take_option c x d of Inl e \<Rightarrow> Inl e | Inr d' \<Rightarrow> take_options c xs d')"

section \<open>The invocation\<close>

datatype cli_command =
    Create
  | Template string ingest_transport
  | Reset string
  | Logs logs_options
  | Run_query query_options
  | Status string
  | Sessions bool
  | Clean string
  | Stop

record invocation =
  inv_command :: cli_command
  inv_json :: bool

definition or_default :: "'a option \<Rightarrow> 'a \<Rightarrow> 'a" where
  "or_default v x = (case v of None \<Rightarrow> x | Some y \<Rightarrow> y)"

definition with_session :: "draft \<Rightarrow> (string \<Rightarrow> cli_command) \<Rightarrow> cli_error + cli_command" where
  "with_session d f = (case dr_session d of None \<Rightarrow> Inl (MissingOption ''session'') | Some sid \<Rightarrow> Inr (f sid))"

definition logs_action :: "draft \<Rightarrow> string \<Rightarrow> cli_command" where
  "logs_action d sid = Logs \<lparr>lo_session = sid, lo_hypotheses = dr_hypotheses d, lo_offset = or_default (dr_offset d) 0,
     lo_limit = or_default (dr_limit d) 100, lo_snapshot = dr_snapshot d\<rparr>"

definition query_action :: "draft \<Rightarrow> string option \<Rightarrow> string \<Rightarrow> cli_command" where
  "query_action d program sid = Run_query \<lparr>qo_program = program, qo_cursor = dr_cursor d, qo_session = sid,
     qo_slurp = dr_slurp d, qo_limit = or_default (dr_limit d) 100, qo_timeoutMs = or_default (dr_timeoutMs d) 2000\<rparr>"

text \<open>The mandatory options are checked in the order of their declaration; \<open>program\<close> is the argument of \<open>query\<close>.\<close>

fun command_action :: "command_name \<Rightarrow> draft \<Rightarrow> string option \<Rightarrow> cli_error + cli_command" where
  "command_action C_create d program = Inr Create"
| "command_action C_template d program =
     (case dr_language d of
        None \<Rightarrow> Inl (MissingOption ''language'')
      | Some l \<Rightarrow> (case dr_ingest d of None \<Rightarrow> Inl (MissingOption ''ingest'') | Some i \<Rightarrow> Inr (Template l i)))"
| "command_action C_reset d program = with_session d Reset"
| "command_action C_logs d program = with_session d (logs_action d)"
| "command_action C_query d program = with_session d (query_action d program)"
| "command_action C_status d program = with_session d Status"
| "command_action C_sessions d program = Inr (Sessions (dr_all d))"
| "command_action C_clean d program = with_session d Clean"
| "command_action C_stop d program = Inr Stop"

definition parse_command :: "command_name \<Rightarrow> occurrence list \<Rightarrow> string option \<Rightarrow> cli_error + invocation" where
  "parse_command c xs program =
     (case take_options c xs empty_draft of
        Inl e \<Rightarrow> Inl e
      | Inr d \<Rightarrow> (case command_action c d program of
          Inl e \<Rightarrow> Inl e | Inr a \<Rightarrow> Inr \<lparr>inv_command = a, inv_json = dr_json d\<rparr>))"

section \<open>Results of parsing\<close>

text \<open>What parsing throws: a \<open>CliParseError\<close>, another error with or without a code, or anything else.\<close>

datatype parse_thrown =
    ThrownParse string string "string option"
  | ThrownError string "string option"
  | ThrownValue "string option"

datatype parse_outcome =
    Invocation invocation
  | HelpText string
  | ParseError string string "string option"

fun code_of_thrown :: "parse_thrown \<Rightarrow> string option" where
  "code_of_thrown (ThrownParse m output c) = c"
| "code_of_thrown (ThrownError m c) = c"
| "code_of_thrown (ThrownValue c) = c"

definition parse_failed :: "string \<Rightarrow> string \<Rightarrow> parse_thrown \<Rightarrow> parse_outcome" where
  "parse_failed out err e =
     (if code_of_thrown e \<in> {Some ''commander.helpDisplayed'', Some ''commander.version''} then HelpText (out @ err)
      else case e of
          ThrownParse m output c \<Rightarrow> ParseError m (if err = [] then output else err) c
        | ThrownError m c \<Rightarrow> ParseError m err c
        | ThrownValue c \<Rightarrow> ParseError ''Invalid command-line arguments.'' err c)"

definition parse_returned :: "string \<Rightarrow> invocation option \<Rightarrow> parse_outcome" where
  "parse_returned err found =
     (case found of None \<Rightarrow> ParseError ''A command is required.'' err None | Some i \<Rightarrow> Invocation i)"

text \<open>The exit code; \<open>None\<close> is a value that is not a number (an inherited member).\<close>

datatype streams = To_out string | To_err string

definition main_exit :: "(invocation \<Rightarrow> streams \<times> string option) \<Rightarrow> parse_outcome \<Rightarrow> streams \<times> nat option" where
  "main_exit run parsed =
     (case parsed of
        ParseError m output c \<Rightarrow> (To_err (if output = [] then m else output), Some 2)
      | HelpText t \<Rightarrow> (To_out t, Some 0)
      | Invocation i \<Rightarrow> (case run i of
          (s, None) \<Rightarrow> (s, Some 0)
        | (s, Some failure) \<Rightarrow> (s, exitCodeForError failure)))"

section \<open>Facts\<close>

lemma parse_natural: "n \<le> 9007199254740991 \<Longrightarrow> parseNonNegativeInteger (nat_text n) = Inr n"
  using nat_text_digits [of n] by (simp add: parseNonNegativeInteger_def)

lemma parse_positive: "0 < n \<Longrightarrow> n \<le> 9007199254740991 \<Longrightarrow> parsePositiveInteger (nat_text n) = Inr n"
  by (simp add: parsePositiveInteger_def parse_natural)

lemma parse_natural_iff:
  "parseNonNegativeInteger v = Inr n \<longleftrightarrow> v \<noteq> [] \<and> list_all is_digit v \<and> digits_value v = n \<and> n \<le> 9007199254740991"
  by (auto simp: parseNonNegativeInteger_def)

end
