(* ===== verification/Cli_Facts.thy ===== *)
theory Cli_Facts
  imports Cli Query_Facts
begin

text \<open>
  The command lines that the commands print as hints: their words parse to the invocation that
  the hint announces. A line is split at blanks, which is what a shell does to words of letters,
  digits, dots, dashes and underscores; session identifiers, cursors and numbers are such words.
\<close>

section \<open>Lines of hints\<close>

definition word_char :: "char \<Rightarrow> bool" where
  "word_char c \<longleftrightarrow> is_alnum c \<or> c \<in> {CHR ''-'', CHR ''_'', CHR ''.''}"

definition plain_word :: "string \<Rightarrow> bool" where
  "plain_word w \<longleftrightarrow> w \<noteq> [] \<and> hd w \<noteq> CHR ''-'' \<and> list_all word_char w"

definition hint_words :: "string \<Rightarrow> (string \<times> string) list \<Rightarrow> string list \<Rightarrow> string list" where
  "hint_words name pairs flags =
     [''debug-mode'', name] @ concat (map (\<lambda>p. [''--'' @ fst p, snd p]) pairs) @ map (\<lambda>f. ''--'' @ f) flags"

fun occurrences :: "string list \<Rightarrow> occurrence list" where
  "occurrences [] = []"
| "occurrences [w] = [Flag (drop 2 w)]"
| "occurrences (w # v # ws) =
     (if drop 2 w \<in> {''json'', ''slurp'', ''all''} then Flag (drop 2 w) # occurrences (v # ws)
      else Value (drop 2 w) v # occurrences ws)"

text \<open>What a line runs, without arguments that are not options.\<close>

fun parse_words :: "string list \<Rightarrow> (cli_error + invocation) option" where
  "parse_words (program # name # ws) =
     map_option (\<lambda>c. parse_command c (occurrences ws) None) (command_named name)"
| "parse_words _ = None"

definition parse_line :: "string \<Rightarrow> (cli_error + invocation) option" where
  "parse_line line = parse_words (split_on CHR '' '' line)"

lemma occurrences_flags: "set flags \<subseteq> {''json'', ''slurp'', ''all''} \<Longrightarrow> occurrences (map (\<lambda>f. ''--'' @ f) flags) = map Flag flags"
proof (induction flags)
  case (Cons f flags)
  then show ?case by (cases flags) auto
qed simp

lemma occurrences_hint:
  assumes "set flags \<subseteq> {''json'', ''slurp'', ''all''}"
  shows "\<forall>p \<in> set pairs. fst p \<notin> {''json'', ''slurp'', ''all''} \<Longrightarrow>
    occurrences (concat (map (\<lambda>p. [''--'' @ fst p, snd p]) pairs) @ map (\<lambda>f. ''--'' @ f) flags) =
      map (\<lambda>p. Value (fst p) (snd p)) pairs @ map Flag flags"
  by (induction pairs) (auto simp: occurrences_flags [OF assms])

lemma plain_no_blank: "plain_word w \<Longrightarrow> CHR '' '' \<notin> set w"
  by (auto simp: plain_word_def list_all_iff word_char_def char_class_defs dest!: bspec)

lemma parse_hint:
  assumes "command_named name = Some c" "set flags \<subseteq> {''json'', ''slurp'', ''all''}"
    and "\<forall>p \<in> set pairs. fst p \<notin> {''json'', ''slurp'', ''all''} \<and> CHR '' '' \<notin> set (fst p) \<and> plain_word (snd p)"
  shows "parse_line (join_with '' '' (hint_words name pairs flags)) =
    Some (parse_command c (map (\<lambda>p. Value (fst p) (snd p)) pairs @ map Flag flags) None)"
proof -
  have "CHR '' '' \<notin> set name" using assms(1) by (auto simp: command_named_def split: if_splits)
  then have "\<forall>w \<in> set (hint_words name pairs flags). CHR '' '' \<notin> set w"
    using assms(2,3) plain_no_blank by (fastforce simp: hint_words_def)
  then have "split_on CHR '' '' (join_with '' '' (hint_words name pairs flags)) = hint_words name pairs flags"
    by (intro split_join_lines) (simp_all add: hint_words_def)
  then show ?thesis using occurrences_hint [OF assms(2), of pairs] assms(1,3)
    by (simp add: parse_line_def hint_words_def)
qed

section \<open>Words\<close>

lemma digits_plain: "w \<noteq> [] \<Longrightarrow> list_all is_digit w \<Longrightarrow> plain_word w"
  by (cases w) (auto simp: plain_word_def list_all_iff word_char_def is_alnum_def is_digit_def)

lemma nat_text_plain: "plain_word (nat_text n)"
  by (rule digits_plain) (simp_all add: nat_text_digits)

lemma canonical_word:
  assumes "isCanonicalSessionId s"
  shows "plain_word s"
proof -
  from assms obtain a r where s: "s = a @ r" and a: "hex_group 8 a" by (rule canonical_shape) auto
  then have "hd s \<noteq> CHR ''-''" "s \<noteq> []"
    by (cases a; auto simp: hex_group_def is_hex_lower_def is_digit_def)+
  then show ?thesis using canonical_chars [OF assms]
    by (fastforce simp: plain_word_def list_all_iff word_char_def char_class_defs)
qed

lemma b64_word_char: "n < 64 \<Longrightarrow> word_char (b64_char n)"
  by (auto simp: b64_char_def word_char_def char_class_defs)

lemma base64url_word: "list_all word_char (base64url s)"
proof -
  obtain ns where "base64url s = map b64_char ns" "list_all (\<lambda>n. n < 64) ns" using base64url_shape by blast
  then show ?thesis by (auto simp: list_all_iff b64_word_char)
qed

lemma base64url_brace: "\<exists>r. base64url (CHR ''{'' # s) = CHR ''e'' # r"
proof -
  have "code (b64_char 30) = code CHR ''e''" by (simp add: b64_char_def)
  then have "b64_char 30 = CHR ''e''" by (simp only: of_char_eq_iff)
  then show ?thesis by (cases s rule: base64url.cases) auto
qed

lemma sealed_plain: "plain_word (sealed hmac secret (JObj es))"
proof -
  obtain s where "json_text (JObj es) = CHR ''{'' # s" by simp
  then obtain r where r: "base64url (json_text (JObj es)) = CHR ''e'' # r" using base64url_brace by metis
  have "list_all word_char (CHR ''e'' # r)" using base64url_word [of "json_text (JObj es)"] unfolding r .
  moreover have "sealed hmac secret (JObj es) = (CHR ''e'' # r) @ ''.'' @ base64url (hmac secret (CHR ''e'' # r))"
    by (simp only: sealed_def r Let_def signature_def)
  moreover have "word_char CHR ''.''" by (simp add: word_char_def)
  ultimately show ?thesis using base64url_word by (simp add: plain_word_def)
qed

lemma num_text_natural:
  assumes "natural_num n"
  shows "num_text n \<noteq> []" "list_all is_digit (num_text n)" "digits_value (num_text n) = nat (int_of_num n)"
proof -
  obtain m e where n: "n = Dec m e" "norm_dec m e = Dec m e" "0 \<le> e" "int (length (nat_text (nat \<bar>m\<bar>))) + e \<le> 21"
    "0 \<le> m * 10 ^ nat e"
    using assms by (cases n) (auto simp: natural_num_def)
  from n(5) have m: "0 \<le> m" by (meson mult_neg_pos not_le zero_less_numeral zero_less_power)
  have digits: "num_text n = nat_text (nat m) @ replicate (nat e) CHR ''0''" if "m \<noteq> 0"
    using n m that by (simp add: dec_text_def Let_def)
  show "num_text n \<noteq> []" "list_all is_digit (num_text n)" "digits_value (num_text n) = nat (int_of_num n)"
  proof -
    have zero: "num_text n = ''0''" if "m = 0" using n(1) that by (simp add: dec_text_def)
    have "list_all is_digit (replicate (nat e) CHR ''0'')" by (simp add: list_all_iff is_digit_def)
    then show "num_text n \<noteq> []" "list_all is_digit (num_text n)"
      using zero digits nat_text_digits [of "nat m"] by (cases "m = 0"; simp add: is_digit_def del: num_text.simps)+
    have zero_value: "digits_value ''0'' = 0" by (simp add: digits_value_def digit_value_def)
    have "int_of_num n = m * 10 ^ nat e" using n(1) by simp
    with m show "digits_value (num_text n) = nat (int_of_num n)"
      using zero digits
      by (cases "m = 0") (simp_all add: zero_value digits_value_zeros nat_mult_distrib nat_power_eq del: num_text.simps int_of_num.simps)
  qed
qed

lemma num_text_plain: "natural_num n \<Longrightarrow> plain_word (num_text n)"
  by (rule digits_plain) (simp_all add: num_text_natural)

lemma parse_natural_num:
  assumes "natural_num n"
  shows "parseNonNegativeInteger (num_text n) = Inr (nat (int_of_num n))"
proof -
  have "int_of_num n \<le> 9007199254740991"
    using assms by (cases n) (auto simp: natural_num_def intro: order_trans [OF mult_right_mono [OF abs_ge_self]])
  then show ?thesis using num_text_natural [OF assms] by (simp add: parse_natural_iff)
qed

lemma parse_positive_num:
  "natural_num n \<Longrightarrow> 1 \<le> int_of_num n \<Longrightarrow> parsePositiveInteger (num_text n) = Inr (nat (int_of_num n))"
  by (simp add: parsePositiveInteger_def parse_natural_num)

section \<open>The hints of the commands\<close>

lemma join_hint:
  "join_with '' '' (hint_words name pairs flags) =
    join_with '' '' ((''debug-mode '' @ name) # map (\<lambda>p. ''--'' @ fst p @ '' '' @ snd p) pairs @ map (\<lambda>f. ''--'' @ f) flags)"
proof -
  let ?wss = "[[''debug-mode'', name]] @ map (\<lambda>p. [''--'' @ fst p, snd p]) pairs @ map (\<lambda>f. [''--'' @ f]) flags"
  have "hint_words name pairs flags = concat ?wss"
    by (simp add: hint_words_def)
  moreover have "\<forall>ws \<in> set ?wss. ws \<noteq> []" by auto
  moreover have "map (join_with '' '') ?wss =
      (''debug-mode '' @ name) # map (\<lambda>p. ''--'' @ fst p @ '' '' @ snd p) pairs @ map (\<lambda>f. ''--'' @ f) flags"
    by (simp add: comp_def)
  ultimately show ?thesis using join_with_concat [of ?wss "'' ''"] by (simp only:)
qed

text \<open>A hint with a session only.\<close>

lemma session_hint:
  assumes "plain_word sid" "(name, c, f) \<in> {(''status'', C_status, Status), (''reset'', C_reset, Reset)}"
  shows "parse_line (''debug-mode '' @ name @ '' --session '' @ sid) = Some (Inr \<lparr>inv_command = f sid, inv_json = False\<rparr>)"
proof -
  have "command_named name = Some c" using assms(2) by (auto simp: command_named_def)
  from parse_hint [OF this, of "[]" "[(''session'', sid)]"] assms
  show ?thesis unfolding join_hint
    by (auto simp: parse_command_def empty_draft_def session_option_def store_option_def single_def stringValue_def with_session_def)
qed

lemma take_options_append:
  "take_options c (xs @ ys) d = (case take_options c xs d of Inl e \<Rightarrow> Inl e | Inr d' \<Rightarrow> take_options c ys d')"
  by (induction xs arbitrary: d) (auto split: sum.split)

lemma take_hypotheses:
  "take_options C_logs (map (\<lambda>h. Value ''hypothesis'' h) hs) d = Inr (d\<lparr>dr_hypotheses := dr_hypotheses d @ hs\<rparr>)"
  by (induction hs arbitrary: d) simp_all

lemmas option_defs = empty_draft_def session_option_def limit_option_def json_flag_def store_option_def single_def
  stringValue_def captureBooleanRepetition_def with_session_def

lemma logs_hint:
  assumes "plain_word (lo_session options)" "plain_word snapshot" "\<forall>h \<in> set (lo_hypotheses options). plain_word h"
    and "0 < lo_limit options" "lo_limit options \<le> max_safe_integer" "offset \<le> max_safe_integer"
  shows "parse_line (pageCommand options json offset snapshot) =
    Some (Inr \<lparr>inv_command = Logs (options\<lparr>lo_offset := offset, lo_snapshot := Some snapshot\<rparr>), inv_json = json\<rparr>)"
proof -
  let ?pairs = "[(''session'', lo_session options), (''offset'', nat_text offset), (''limit'', nat_text (lo_limit options)),
      (''snapshot'', snapshot)]"
  let ?flags = "if json then [''json''] else []"
  let ?d = "empty_draft\<lparr>dr_session := Some (lo_session options), dr_offset := Some offset, dr_limit := Some (lo_limit options),
      dr_snapshot := Some snapshot\<rparr>"
  have line: "pageCommand options json offset snapshot =
      join_with '' '' (hint_words ''logs'' (?pairs @ map (Pair ''hypothesis'') (lo_hypotheses options)) ?flags)"
    unfolding join_hint by (simp add: pageCommand_def comp_def)
  have head: "take_options C_logs (map (\<lambda>p. Value (fst p) (snd p)) ?pairs) empty_draft = Inr ?d"
    using assms(4-6) by (simp add: option_defs parse_natural parse_positive max_safe_integer_def)
  have "take_options C_logs (map (\<lambda>p. Value (fst p) (snd p)) (?pairs @ map (Pair ''hypothesis'') (lo_hypotheses options))
        @ map Flag ?flags) empty_draft = Inr (?d\<lparr>dr_hypotheses := lo_hypotheses options, dr_json := json\<rparr>)"
    using take_hypotheses [of "lo_hypotheses options" ?d]
    by (simp only: map_append append_assoc take_options_append head sum.case) (simp add: option_defs comp_def)
  moreover have "parse_line (pageCommand options json offset snapshot) =
      Some (parse_command C_logs (map (\<lambda>p. Value (fst p) (snd p)) (?pairs @ map (Pair ''hypothesis'') (lo_hypotheses options))
        @ map Flag ?flags) None)"
    unfolding line using assms(1-3) nat_text_plain by (intro parse_hint) (auto simp: command_named_def)
  ultimately show ?thesis by (simp add: parse_command_def with_session_def logs_action_def or_default_def)
qed

lemma query_hint:
  assumes "plain_word sid" "plain_word cursor" "natural_num (plan_limit plan)" "1 \<le> int_of_num (plan_limit plan)"
    and "natural_num (plan_timeout plan)" "1 \<le> int_of_num (plan_timeout plan)"
  shows "parse_line (nextPageCommand sid cursor plan) =
    Some (Inr \<lparr>inv_command = Run_query \<lparr>qo_program = None, qo_cursor = Some cursor, qo_session = sid, qo_slurp = plan_slurp plan,
      qo_limit = nat (int_of_num (plan_limit plan)), qo_timeoutMs = nat (int_of_num (plan_timeout plan))\<rparr>,
      inv_json = plan_json plan\<rparr>)"
proof -
  let ?pairs = "[(''session'', sid), (''cursor'', cursor), (''limit'', num_text (plan_limit plan)),
      (''timeout-ms'', num_text (plan_timeout plan))]"
  let ?flags = "(if plan_slurp plan then [''slurp''] else []) @ (if plan_json plan then [''json''] else [])"
  have line: "nextPageCommand sid cursor plan = join_with '' '' (hint_words ''query'' ?pairs ?flags)"
    unfolding join_hint by (simp add: nextPageCommand_def)
  have "parse_line (nextPageCommand sid cursor plan) =
      Some (parse_command C_query (map (\<lambda>p. Value (fst p) (snd p)) ?pairs @ map Flag ?flags) None)"
    unfolding line using assms num_text_plain by (intro parse_hint) (auto simp: command_named_def)
  then show ?thesis
    using assms parse_positive_num
    by (auto simp: parse_command_def option_defs query_action_def or_default_def)
qed

section \<open>The hints of \<open>logs\<close>\<close>

lemma logs_result_fields [simp]:
  "lr_snapshot (logs_result_of options json snapshot ds page) = snapshot"
  "lr_hints (logs_result_of options json snapshot ds page) = logs_hints options json snapshot ds page"
  by (simp_all add: logs_result_of_def Let_def)

lemma logsCommand_result:
  assumes "fst (logsCommand hmac handle connect now options json s) = Inr r"
  shows "\<exists>snapshot ds page. r = logs_result_of options json snapshot ds page
      \<and> (lo_snapshot options = Some snapshot \<or> (\<exists>token p. snapshot = createSnapshotCursor hmac token p))"
    and "isCanonicalSessionId (lo_session options)"
  using assms
  by (auto simp: logsCommand_def settle_def attempt_def raise_def give_def sessionPathSegment_def Let_def
      split: sum.splits prod.splits if_splits control_reply.splits option.splits)

lemma logs_hints_parse:
  assumes "plain_word (lo_session options)" "plain_word snapshot" "\<forall>x \<in> set (lo_hypotheses options). plain_word x"
    and "0 < lo_limit options" "lo_offset options + lo_limit options \<le> max_safe_integer"
    and "h \<in> set (logs_hints options json snapshot ds page)"
  shows "parse_line (hint_command h) = Some (Inr
    (if hint_action h = ''previous-page'' then \<lparr>inv_command = Logs (options\<lparr>lo_offset := lo_offset options - lo_limit options,
        lo_snapshot := Some snapshot\<rparr>), inv_json = json\<rparr>
     else if hint_action h = ''next-page'' then \<lparr>inv_command = Logs (options\<lparr>lo_offset := lo_offset options + lo_limit options,
        lo_snapshot := Some snapshot\<rparr>), inv_json = json\<rparr>
     else \<lparr>inv_command = (if hint_action h = ''status'' then Status (lo_session options) else Reset (lo_session options)),
        inv_json = False\<rparr>))"
  using assms(6) session_hint [OF assms(1), of "''status''" C_status Status] session_hint [OF assms(1), of "''reset''" C_reset Reset]
    logs_hint [OF assms(1-4)] assms(5)
  by (auto simp: logs_hints_def Let_def split: if_splits)

end
