(* ===== verification/Probe.thy ===== *)
theory Probe
  imports Validation Json_Codec
begin

text \<open>
  What the instrumentation for JavaScript and TypeScript does (\<open>src/probes/javascript.ts\<close>,
  \<open>typescript.ts\<close>): the helper redacts a graph of objects, stops at cycles and at depth 64, and sends
  one line of at most 64 KiB. Its values here are those that JSON has, objects and arrays being
  references to a heap, so that sharing and cycles can be told apart. Other values of the language
  (\<open>undefined\<close>, functions, objects with \<open>toJSON\<close> or getters that throw) are not modelled.
\<close>

section \<open>Values of the program\<close>

datatype js_scalar = Null | Bool bool | Number jsnum | String string

datatype js_value = Prim js_scalar | Ref nat

datatype js_node = JsArray "js_value list" | JsObject "(string \<times> js_value) list"

fun scalar_json :: "js_scalar \<Rightarrow> json" where
  "scalar_json Null = JNull"
| "scalar_json (Bool b) = JBool b"
| "scalar_json (Number n) = JNum n"
| "scalar_json (String s) = JStr s"

text \<open>The test of a key, with the helper's own copies of the texts.\<close>

definition agentDebugIsSecretKey :: "string \<Rightarrow> bool" where
  "agentDebugIsSecretKey key =
     (let normalized = normalizeSensitiveKey key
      in normalized \<in> {''authorization'', ''authorization_header'', ''cookie'', ''set_cookie'', ''password'', ''passwd'',
            ''pwd'', ''private_key'', ''secret'', ''token'', ''credential'', ''credentials''}
         \<or> list_ex (\<lambda>q. normalized = q \<or> ends_with normalized (CHR ''_'' # q))
             [''api_key'', ''api_token'', ''oauth_token'', ''o_auth_token'', ''private_key'', ''client_secret'',
              ''access_token'', ''refresh_token'', ''id_token'', ''auth_token'', ''bearer_token''])"

text \<open>\<open>None\<close> is a thrown error: the graph is too deep or cyclic.\<close>

function agentDebugRedact :: "(nat \<Rightarrow> js_node) \<Rightarrow> js_value \<Rightarrow> nat list \<Rightarrow> nat \<Rightarrow> json option" where
  "agentDebugRedact heap v active depth =
     (if 64 < depth then None
      else case v of
        Prim x \<Rightarrow> Some (scalar_json x)
      | Ref a \<Rightarrow>
          if a \<in> set active then None
          else case heap a of
              JsArray xs \<Rightarrow>
                map_option JArr (those (map (\<lambda>x. agentDebugRedact heap x (a # active) (depth + 1)) xs))
            | JsObject es \<Rightarrow>
                map_option JObj (those (map (\<lambda>(key, x). map_option (Pair key)
                  (if agentDebugIsSecretKey key then Some (JStr ''[REDACTED]'')
                   else agentDebugRedact heap x (a # active) (depth + 1))) es)))"
  by pat_completeness auto
termination
  by (relation "measure (\<lambda>(heap, v, active, depth). 65 - depth)") auto

declare agentDebugRedact.simps [simp del]

text \<open>The text of an integer.\<close>

definition decimal :: "int \<Rightarrow> string" where
  "decimal n = (if n < 0 then ''-'' else []) @ nat_text (nat \<bar>n\<bar>)"

record observation =
  obs_hypothesisId :: string
  obs_location :: string
  obs_message :: string
  obs_data :: js_value

definition observed_event :: "observation \<Rightarrow> json \<Rightarrow> int \<Rightarrow> (string \<times> json) list" where
  "observed_event ob value now =
     [(''hypothesisId'', JStr (obs_hypothesisId ob)), (''location'', JStr (obs_location ob)),
      (''message'', JStr (obs_message ob)), (''data'', value), (''timestamp'', JNum (num_of_int now))]"

text \<open>The body of the request, \<open>None\<close> when nothing is sent; errors are swallowed.\<close>

definition agentDebugEmit :: "(nat \<Rightarrow> js_node) \<Rightarrow> observation \<Rightarrow> int \<Rightarrow> string option" where
  "agentDebugEmit heap ob now =
     (case agentDebugRedact heap (obs_data ob) [] 0 of
        None \<Rightarrow> None
      | Some value \<Rightarrow>
          let payload = json_text (JObj (observed_event ob value now)) @ [CHR 0x0A]
          in if 65536 < byte_length payload then None else Some payload)"

section \<open>The tree of a value\<close>

text \<open>\<open>denotes heap v j\<close>: following the references of \<open>v\<close> gives the finite tree \<open>j\<close>.\<close>

inductive denotes :: "(nat \<Rightarrow> js_node) \<Rightarrow> js_value \<Rightarrow> json \<Rightarrow> bool" for heap where
  prim: "denotes heap (Prim x) (scalar_json x)"
| array: "heap a = JsArray xs \<Longrightarrow> list_all2 (denotes heap) xs js \<Longrightarrow> denotes heap (Ref a) (JArr js)"
| object: "heap a = JsObject es \<Longrightarrow> list_all2 (\<lambda>p q. fst p = fst q \<and> denotes heap (snd p) (snd q)) es js \<Longrightarrow>
     denotes heap (Ref a) (JObj js)"

inductive_cases denotes_refE: "denotes heap (Ref a) j"
inductive_cases denotes_primE: "denotes heap (Prim p) j"

lemma denotes_unique: "denotes heap v j \<Longrightarrow> denotes heap v j' \<Longrightarrow> j = j'"
proof (induction arbitrary: j' rule: denotes.induct)
  case (array a xs js)
  from array.prems array.hyps obtain js' where js': "j' = JArr js'" "list_all2 (denotes heap) xs js'"
    by (auto elim: denotes_refE)
  have "js = js'"
  proof (rule nth_equalityI)
    show "length js = length js'" using array.IH js'(2) by (auto dest!: list_all2_lengthD)
    fix i
    assume "i < length js"
    then show "js ! i = js' ! i" using array.IH js'(2) by (auto simp: list_all2_conv_all_nth)
  qed
  with js' show ?case by simp
next
  case (object a es js)
  from object.prems object.hyps obtain js' where
    js': "j' = JObj js'" "list_all2 (\<lambda>p q. fst p = fst q \<and> denotes heap (snd p) (snd q)) es js'"
    by (auto elim: denotes_refE)
  have "js = js'"
  proof (rule nth_equalityI)
    show "length js = length js'" using object.IH js'(2) by (auto dest!: list_all2_lengthD)
    fix i
    assume "i < length js"
    then show "js ! i = js' ! i" using object.IH js'(2) by (auto simp: list_all2_conv_all_nth prod_eq_iff)
  qed
  with js' show ?case by simp
qed (auto elim: denotes_primE)

section \<open>The helper redacts as the daemon does\<close>

lemma secret_key_agrees: "agentDebugIsSecretKey = isSensitiveKey"
  by (rule ext) (simp add: agentDebugIsSecretKey_def isSensitiveKey_def qualified_suffix_def
      SENSITIVE_KEY_EXACT_def SENSITIVE_KEY_QUALIFIED_def Let_def)

lemma those_map: "list_all2 (\<lambda>x y. f x = Some (g y)) xs ys \<Longrightarrow> those (map f xs) = Some (map g ys)"
  by (induction rule: list_all2_induct) simp_all

lemma json_depth_element: "x \<in> set xs \<Longrightarrow> json_depth x < json_depth (JArr xs)"
  using fold_max_le [of "map (\<lambda>x. Suc (json_depth x)) xs" 0 "json_depth (JArr xs)"] by auto

lemma json_depth_member: "p \<in> set es \<Longrightarrow> json_depth (snd p) < json_depth (JObj es)"
  using fold_max_le [of "map (\<lambda>p. Suc (json_depth (snd p))) es" 0 "json_depth (JObj es)"] by auto

definition above :: "(nat \<Rightarrow> js_node) \<Rightarrow> json \<Rightarrow> nat list \<Rightarrow> bool" where
  "above heap j active \<longleftrightarrow> (\<forall>b \<in> set active. \<exists>t. denotes heap (Ref b) t \<and> json_depth j < json_depth t)"

lemma above_not_active: "denotes heap (Ref a) j \<Longrightarrow> above heap j active \<Longrightarrow> a \<notin> set active"
  using denotes_unique unfolding above_def by blast

lemma above_child:
  "denotes heap (Ref a) j \<Longrightarrow> above heap j active \<Longrightarrow> json_depth x < json_depth j \<Longrightarrow> above heap x (a # active)"
  unfolding above_def by (auto intro: less_trans)

lemma redact_agrees:
  assumes "denotes heap v j" "depth + json_depth j \<le> 64" "above heap j active"
  shows "agentDebugRedact heap v active depth = Some (redacted j)"
  using assms
proof (induction arbitrary: depth active rule: denotes.induct)
  case (prim x)
  have "redacted (scalar_json x) = scalar_json x" by (cases x) simp_all
  with prim show ?case by (simp add: agentDebugRedact.simps [of heap "Prim x"])
next
  case (array a xs js)
  have d: "denotes heap (Ref a) (JArr js)"
    using array.hyps array.IH by (auto intro!: denotes.array elim: list_all2_mono)
  have "list_all2 (\<lambda>x y. agentDebugRedact heap x (a # active) (depth + 1) = Some (redacted y)) xs js"
    unfolding list_all2_conv_all_nth
  proof (intro conjI allI impI)
    show "length xs = length js" using array.IH by (rule list_all2_lengthD)
    fix i
    assume i: "i < length xs"
    with array.IH have y: "js ! i \<in> set js" by (auto dest: list_all2_lengthD)
    from json_depth_element [OF this] have "json_depth (js ! i) < json_depth (JArr js)" .
    with array.IH i array.prems(1) above_child [OF d array.prems(2) this]
    show "agentDebugRedact heap (xs ! i) (a # active) (depth + 1) = Some (redacted (js ! i))"
      by (auto simp: list_all2_conv_all_nth)
  qed
  from those_map [OF this] array above_not_active [OF d array.prems(2)] show ?case
    by (simp add: agentDebugRedact.simps [of heap "Ref a"])
next
  case (object a es js)
  have d: "denotes heap (Ref a) (JObj js)"
    using object.hyps object.IH by (auto intro!: denotes.object elim: list_all2_mono)
  let ?f = "\<lambda>p. map_option (Pair (fst p)) (if isSensitiveKey (fst p) then Some (JStr ''[REDACTED]'')
      else agentDebugRedact heap (snd p) (a # active) (depth + 1))"
  have "list_all2 (\<lambda>p q. ?f p = Some (fst q, if isSensitiveKey (fst q) then JStr REDACTED else redacted (snd q))) es js"
    unfolding list_all2_conv_all_nth
  proof (intro conjI allI impI)
    show "length es = length js" using object.IH by (rule list_all2_lengthD)
    fix i
    assume i: "i < length es"
    with object.IH have y: "js ! i \<in> set js" by (auto dest: list_all2_lengthD)
    from json_depth_member [OF this] have less: "json_depth (snd (js ! i)) < json_depth (JObj js)" .
    have "fst (es ! i) = fst (js ! i)" using object.IH i by (simp add: list_all2_conv_all_nth)
    moreover have "agentDebugRedact heap (snd (es ! i)) (a # active) (depth + 1) = Some (redacted (snd (js ! i)))"
      using object.IH i object.prems(1) above_child [OF d object.prems(2) less] less
      by (auto simp: list_all2_conv_all_nth)
    ultimately show "?f (es ! i) = Some (fst (js ! i), if isSensitiveKey (fst (js ! i)) then JStr REDACTED else redacted (snd (js ! i)))"
      by (simp add: REDACTED_def)
  qed
  from those_map [OF this] object above_not_active [OF d object.prems(2)] show ?case
    by (simp add: agentDebugRedact.simps [of heap "Ref a"] secret_key_agrees case_prod_beta')
qed

section \<open>Every graph\<close>

text \<open>One step into an array or a member whose key is not sensitive.\<close>

inductive visible :: "(nat \<Rightarrow> js_node) \<Rightarrow> js_value \<Rightarrow> js_value \<Rightarrow> bool" for heap where
  element: "heap a = JsArray xs \<Longrightarrow> x \<in> set xs \<Longrightarrow> visible heap (Ref a) x"
| member: "heap a = JsObject es \<Longrightarrow> (key, x) \<in> set es \<Longrightarrow> \<not> agentDebugIsSecretKey key \<Longrightarrow> visible heap (Ref a) x"

lemma those_defined: "those (map f xs) = Some ys \<Longrightarrow> list_all2 (\<lambda>x y. f x = Some y) xs ys"
  by (induction xs arbitrary: ys) (auto split: option.splits)

lemma redact_array:
  assumes "agentDebugRedact heap (Ref a) active depth = Some j" "heap a = JsArray xs"
  obtains ys where "j = JArr ys" "a \<notin> set active"
    "list_all2 (\<lambda>x y. agentDebugRedact heap x (a # active) (depth + 1) = Some y) xs ys"
  using assms by (auto simp: agentDebugRedact.simps [of heap "Ref a"] split: if_splits dest: those_defined)

lemma redact_object:
  assumes "agentDebugRedact heap (Ref a) active depth = Some j" "heap a = JsObject es"
  obtains fs where "j = JObj fs" "a \<notin> set active"
    "list_all2 (\<lambda>p q. fst q = fst p \<and> (if agentDebugIsSecretKey (fst p) then Some (JStr ''[REDACTED]'')
       else agentDebugRedact heap (snd p) (a # active) (depth + 1)) = Some (snd q)) es fs"
proof -
  obtain fs where fs: "j = JObj fs" "a \<notin> set active"
    "those (map (\<lambda>(key, x). map_option (Pair key) (if agentDebugIsSecretKey key then Some (JStr ''[REDACTED]'')
       else agentDebugRedact heap x (a # active) (depth + 1))) es) = Some fs"
    using assms by (auto simp: agentDebugRedact.simps [of heap "Ref a"] split: if_splits)
  from those_defined [OF fs(3)] have "list_all2 (\<lambda>p q. fst q = fst p \<and> (if agentDebugIsSecretKey (fst p)
       then Some (JStr ''[REDACTED]'') else agentDebugRedact heap (snd p) (a # active) (depth + 1)) = Some (snd q)) es fs"
    by (rule list_all2_mono) (auto split: if_splits prod.splits)
  with fs(1,2) show thesis by (rule that)
qed

lemma list_all2_defined: "list_all2 P xs ys \<Longrightarrow> x \<in> set xs \<Longrightarrow> \<exists>y \<in> set ys. P x y"
  by (induction rule: list_all2_induct) auto

lemma list_all2_source: "list_all2 P xs ys \<Longrightarrow> y \<in> set ys \<Longrightarrow> \<exists>x \<in> set xs. P x y"
  by (induction rule: list_all2_induct) auto

lemma redact_into:
  assumes "agentDebugRedact heap v active depth = Some j" "visible heap v w"
  obtains a k where "v = Ref a" "a \<notin> set active" "agentDebugRedact heap w (a # active) (depth + 1) = Some k"
  using assms(2)
proof (cases rule: visible.cases)
  case (element a xs)
  with assms(1) obtain ys where "a \<notin> set active"
    and ys: "list_all2 (\<lambda>x y. agentDebugRedact heap x (a # active) (depth + 1) = Some y) xs ys"
    by (auto elim: redact_array)
  with list_all2_defined [OF ys element(3)] element(1) that show thesis by blast
next
  case (member a es key)
  from assms(1) [unfolded member(1)] member(2) obtain fs where na: "a \<notin> set active"
    and fs: "list_all2 (\<lambda>p q. fst q = fst p \<and> (if agentDebugIsSecretKey (fst p) then Some (JStr ''[REDACTED]'')
       else agentDebugRedact heap (snd p) (a # active) (depth + 1)) = Some (snd q)) es fs"
    by (rule redact_object)
  from list_all2_defined [OF fs member(3)] member(4)
  have "\<exists>k. agentDebugRedact heap w (a # active) (depth + 1) = Some k" by auto
  with member(1) na that show thesis by blast
qed

text \<open>A graph with a visible cycle is refused.\<close>

lemma redact_reaches:
  assumes "(visible heap)\<^sup>*\<^sup>* v w" "agentDebugRedact heap v active n = Some j"
  shows "\<exists>active' m k. agentDebugRedact heap w active' m = Some k \<and> set active \<subseteq> set active'"
  using assms
proof (induction arbitrary: active n j rule: converse_rtranclp_induct)
  case (step v u)
  from step.prems step.hyps(1) obtain a k where "agentDebugRedact heap u (a # active) (n + 1) = Some k"
    by (rule redact_into)
  from step.IH [OF this] show ?case by auto
qed blast

lemma redact_acyclic:
  assumes "agentDebugRedact heap v active n = Some j" "(visible heap)\<^sup>*\<^sup>* v w"
  shows "\<not> (visible heap)\<^sup>+\<^sup>+ w w"
proof
  assume "(visible heap)\<^sup>+\<^sup>+ w w"
  then obtain u where u: "visible heap w u" "(visible heap)\<^sup>*\<^sup>* u w" by (blast dest: tranclpD)
  obtain active' m k where w: "agentDebugRedact heap w active' m = Some k"
    using redact_reaches [OF assms(2,1)] by blast
  from w u(1) obtain a k' where a: "w = Ref a" "agentDebugRedact heap u (a # active') (m + 1) = Some k'"
    by (rule redact_into)
  obtain active'' m'' k'' where again: "agentDebugRedact heap w active'' m'' = Some k''" "set (a # active') \<subseteq> set active''"
    using redact_reaches [OF u(2) a(2)] by blast
  from again(1) u(1) obtain b where "w = Ref b" "b \<notin> set active''" by (rule redact_into)
  with a(1) again(2) show False by simp
qed

text \<open>What is sent has no unredacted value under a sensitive key.\<close>

lemma redact_leak_free: "agentDebugRedact heap v active n = Some j \<Longrightarrow> leak_free j"
proof (induction "65 - n" arbitrary: v active n j rule: less_induct)
  case less
  from less.prems have n: "n \<le> 64" by (auto simp: agentDebugRedact.simps [of heap v] split: if_splits)
  have inner: "leak_free k" if "agentDebugRedact heap w act (n + 1) = Some k" for w act k
    using less.hyps [OF _ that] n by simp
  show ?case
  proof (cases v)
    case (Prim x)
    with less.prems have "j = scalar_json x" by (auto simp: agentDebugRedact.simps [of heap "Prim x"] split: if_splits)
    then show ?thesis by (cases x) simp_all
  next
    case (Ref a)
    note red = less.prems [unfolded Ref]
    show ?thesis
    proof (cases "heap a")
      case (JsArray xs)
      with red obtain ys where j: "j = JArr ys"
        and ys: "list_all2 (\<lambda>x y. agentDebugRedact heap x (a # active) (n + 1) = Some y) xs ys" by (rule redact_array)
      show ?thesis using list_all2_source [OF ys] inner by (auto simp: j list_all_iff)
    next
      case (JsObject es)
      from red JsObject obtain fs where j: "j = JObj fs"
        and fs: "list_all2 (\<lambda>p q. fst q = fst p \<and> (if agentDebugIsSecretKey (fst p) then Some (JStr ''[REDACTED]'')
           else agentDebugRedact heap (snd p) (a # active) (n + 1)) = Some (snd q)) es fs" by (rule redact_object)
      have "if isSensitiveKey (fst q) then snd q = JStr REDACTED else leak_free (snd q)" if "q \<in> set fs" for q
        using list_all2_source [OF fs that] inner by (auto simp: secret_key_agrees REDACTED_def split: if_splits)
      then show ?thesis by (simp add: j list_all_iff)
    qed
  qed
qed

end
