(* ===== verification/Probe_Facts.thy ===== *)
theory Probe_Facts
  imports Probe Control_Facts Cursor
begin

text \<open>
  From the probe to the evidence: the line that a probe sends is one record, it is below the
  limit of a record, parses back to the event, and the ingestion endpoint stores the event
  with the data the probe redacted.
\<close>

section \<open>Redacted values are stored as they are\<close>

lemma obj_put_map:
  "obj_put (map (\<lambda>p. (fst p, g p)) es) (fst kv, g kv) = map (\<lambda>p. (fst p, g p)) (obj_put es kv)"
  by (simp add: obj_put_def Let_def takeWhile_map dropWhile_map comp_def image_image)

lemma foldl_put_map:
  "foldl obj_put (map (\<lambda>p. (fst p, g p)) acc) (map (\<lambda>p. (fst p, g p)) es) =
    map (\<lambda>p. (fst p, g p)) (foldl obj_put acc es)"
  by (induction es arbitrary: acc) (simp_all add: obj_put_map)

lemma storable_redacted: "storable j \<Longrightarrow> storable (redacted j)"
proof (induction j)
  case (JArr xs)
  then show ?case by (auto simp: list_all_iff)
next
  case (JObj es)
  have inner: "storable (redacted (snd p))" if "p \<in> set es" for p
    using JObj.IH [of p "snd p"] JObj.prems that by (auto simp: list_all_iff snds.simps)
  have "storable (JStr REDACTED)" by (simp add: REDACTED_def)
  with JObj.prems inner show ?case
    using foldl_put_map [of "\<lambda>p. if isSensitiveKey (fst p) then JStr REDACTED else redacted (snd p)" "[]" es]
    by (auto simp: list_all_iff)
qed simp_all

section \<open>What a probe sends\<close>

definition clean_text :: "nat \<Rightarrow> string \<Rightarrow> bool" where
  "clean_text limit s \<longleftrightarrow> within limit s \<and> no_surrogates s"

definition observation_ok :: "observation \<Rightarrow> bool" where
  "observation_ok ob \<longleftrightarrow> clean_text MAX_HYPOTHESIS_ID_LENGTH (obs_hypothesisId ob)
     \<and> clean_text 1024 (obs_location ob) \<and> clean_text 1024 (obs_message ob)"

lemma observed_storable:
  assumes "observation_ok ob" "storable v" "0 \<le> now" "now \<le> int max_safe_integer"
  shows "storable (JObj (observed_event ob v now))"
proof -
  have "foldl obj_put [] (observed_event ob v now) = observed_event ob v now"
    by (rule foldl_obj_put) (auto simp: observed_event_def is_digit_def intro!: not_index_key)
  with assms num_of_int_integer [of "nat now"] show ?thesis
    by (auto simp: observed_event_def observation_ok_def clean_text_def del: integer_num.simps)
qed

lemma finite_num_of_int: "is_finite (num_of_int i)"
  by (rule num_of_int_cases [of i]) simp

lemma observed_valid:
  assumes "observation_ok ob" "isBoundedJsonValue (Some v)"
  shows "valid_event (observed_event ob v now)"
  using assms by (auto simp: valid_event_def observed_event_def observation_ok_def clean_text_def within_def
      bounded_string_def string_field_def number_field_def field_def finite_num_of_int)

lemma agentDebugEmit_event:
  assumes "denotes heap (obs_data ob) j" "json_depth j \<le> 64"
    and "byte_length (json_text (JObj (observed_event ob (redacted j) now))) < MAX_INGESTION_RECORD_BYTES"
  shows "agentDebugEmit heap ob now = Some (json_text (JObj (observed_event ob (redacted j) now)) @ [CHR 0x0A])"
  using redact_agrees [of heap "obs_data ob" j 0 "[]"] assms
  by (simp add: agentDebugEmit_def above_def Let_def byte_length_def limit_defs)

lemma agentDebugEmit_sent:
  assumes "agentDebugEmit heap ob now = Some payload"
  obtains v where "agentDebugRedact heap (obs_data ob) [] 0 = Some v" "leak_free v"
    "payload = json_text (JObj (observed_event ob v now)) @ [CHR 0x0A]" "byte_length payload \<le> 65536"
  using assms by (auto simp: agentDebugEmit_def Let_def split: option.splits if_splits dest: redact_leak_free)

lemma one_record: "CHR 0x0A \<notin> set r \<Longrightarrow> r \<noteq> [] \<Longrightarrow> filter (\<lambda>r. r \<noteq> []) (split_on CHR 0x0A (r @ [CHR 0x0A])) = [r]"
  by (simp add: split_on_append_sep)

lemma json_text_not_Nil: "storable v \<Longrightarrow> json_text v \<noteq> []"
  using json_text_hd [of v] by auto

lemma redacted_idem [simp]: "redacted (redacted v) = redacted v"
  by (rule redacted_id [OF redacted_leak_free])

section \<open>The endpoint\<close>

lemma ingest_one_record:
  assumes "isCanonicalSessionId sid" "store_inv uuid s" "directory_of s sid = Some d"
    and "req_pathname req = ingest_prefix @ sid" "req_method req = ''POST''" "isAllowedOrigin parse_url (req_origin req)"
    and "req_contentType req = Some ''application/x-ndjson''" "req_body req = record @ [CHR 0x0A]"
    and "CHR 0x0A \<notin> set record" "record \<noteq> []"
    and "fst (ingestRecord rnd (clock 0) sid record no_options s) = Inr Accepted"
  shows "handleIngest parse_url rnd clock req s =
    (Inr (Some (json_response 202 (corsHeaders (req_origin req))
       [(''accepted'', JNum (num_of_int 1)), (''invalid'', JNum (num_of_int 0))])),
     snd (ingestRecord rnd (clock 0) sid record no_options s))"
proof -
  obtain ses where ses: "session_json d = Doc ses" using store_inv_session(3) [OF assms(2,3)] by (auto simp: dir_ok_def)
  have found: "hasSession sid s = (Inr True, s)"
    using getSession_found [OF store_inv_session(1) [OF assms(2,3)] assms(3) ses] by (simp add: hasSession_def)
  have nd: "includes_text ''application/x-ndjson'' ''application/x-ndjson''" by simp
  obtain t where "ingestRecord rnd (clock 0) sid record no_options s = (Inr Accepted, t)"
    using assms(11) by (cases "ingestRecord rnd (clock 0) sid record no_options s") auto
  then show ?thesis using assms(1,4-10) found nd
    by (simp add: handleIngest_def Let_def one_record)
qed

lemma observed_fields [simp]:
  "string_field ''hypothesisId'' (observed_event ob v now) = Some (obs_hypothesisId ob)"
  "string_field ''location'' (observed_event ob v now) = Some (obs_location ob)"
  "string_field ''message'' (observed_event ob v now) = Some (obs_message ob)"
  "number_field ''timestamp'' (observed_event ob v now) = Some (num_of_int now)"
  "field ''data'' (observed_event ob v now) = Some v"
  by (simp_all add: observed_event_def string_field_def number_field_def field_def)

lemma observed_ingested:
  assumes "store_inv uuid s" "directory_of s sid = Some d" "storable v" "observation_ok ob"
    and "isBoundedJsonValue (Some v)" "0 \<le> now" "now \<le> int max_safe_integer" "redacted v = v"
    and "byte_length (json_text (JObj (observed_event ob v now))) \<le> MAX_INGESTION_RECORD_BYTES"
    and "''evt_'' @ rnd (draws s) \<notin> event_id ` set (dir_events d)"
  obtains d' where
    "fst (ingestRecord rnd at sid (json_text (JObj (observed_event ob v now))) no_options s) = Inr Accepted"
    "directory_of (snd (ingestRecord rnd at sid (json_text (JObj (observed_event ob v now))) no_options s)) sid = Some d'"
    "dir_events d' = dir_events d @
      [\<lparr>event_id = ''evt_'' @ rnd (draws s), sequence = length (dir_events d) + 1, receivedAt = at,
        hypothesisId = obs_hypothesisId ob, location = obs_location ob, message = obs_message ob,
        data = v, timestamp = num_of_int now\<rparr>]"
  using record_accepted [OF assms(1,2) parse_json_text [OF observed_storable [OF assms(4,3,6,7)]]
      observed_valid [OF assms(4,5)] assms(9), of no_options rnd at] assms(8,10)
  by (auto simp: no_options_def id_or_random_def)

end
