(* ===== verification/Probe_Keys.thy ===== *)
theory Probe_Keys
  imports Probe
begin

text \<open>
  The test for sensitive keys in the helpers of the other languages (\<open>src/probes/*.ts\<close>). Each helper
  has its own copy of the regular expressions and of the texts; they agree with the daemon's test.
  What a language does to letters outside ASCII is an argument where it comes before the other
  characters are replaced.
\<close>

section \<open>The tests\<close>

text \<open>\<open>(^|_)(a|b|...)$\<close>; the texts it is used on have no line breaks.\<close>

definition suffix_match :: "string list \<Rightarrow> string \<Rightarrow> bool" where
  "suffix_match qs s \<longleftrightarrow> list_ex (\<lambda>q. s = q \<or> ends_with s (CHR ''_'' # q)) qs"

definition trim_leading :: "string \<Rightarrow> string" where
  "trim_leading s = dropWhile (\<lambda>c. c = CHR ''_'') s"

definition trim_trailing :: "string \<Rightarrow> string" where
  "trim_trailing s = rev (dropWhile (\<lambda>c. c = CHR ''_'') (rev s))"

definition typescript_IsSecretKey :: "string \<Rightarrow> bool" where
  "typescript_IsSecretKey key =
     (let normalized = trim_underscores (map ascii_lower (collapse_separators (camel_breaks (acronym_breaks key))))
      in normalized \<in> {''authorization'', ''authorization_header'', ''cookie'', ''set_cookie'', ''password'', ''passwd'', ''pwd'',
            ''private_key'', ''secret'', ''token'', ''credential'', ''credentials''}
         \<or> suffix_match
             [''api_key'', ''api_token'', ''oauth_token'', ''o_auth_token'', ''private_key'', ''client_secret'',
              ''access_token'', ''refresh_token'', ''id_token'', ''auth_token'', ''bearer_token''] normalized)"

definition python_is_secret_key :: "string \<Rightarrow> bool" where
  "python_is_secret_key key =
     (let normalized = trim_underscores (map ascii_lower (collapse_separators (camel_breaks (acronym_breaks key))))
      in normalized \<in> {''authorization'', ''authorization_header'', ''cookie'', ''set_cookie'', ''password'', ''passwd'', ''pwd'',
            ''private_key'', ''secret'', ''token'', ''credential'', ''credentials''}
         \<or> suffix_match
             [''api_key'', ''api_token'', ''oauth_token'', ''o_auth_token'', ''private_key'', ''client_secret'',
              ''access_token'', ''refresh_token'', ''id_token'', ''auth_token'', ''bearer_token''] normalized)"

definition ruby_secret_key :: "string \<Rightarrow> bool" where
  "ruby_secret_key key =
     (let normalized = trim_underscores (map ascii_lower (collapse_separators (camel_breaks (acronym_breaks key))))
      in normalized \<in> {''authorization'', ''authorization_header'', ''cookie'', ''set_cookie'', ''password'', ''passwd'', ''pwd'',
            ''private_key'', ''secret'', ''token'', ''credential'', ''credentials''}
         \<or> suffix_match
             [''api_key'', ''api_token'', ''oauth_token'', ''o_auth_token'', ''private_key'', ''client_secret'',
              ''access_token'', ''refresh_token'', ''id_token'', ''auth_token'', ''bearer_token''] normalized)"

definition php_IsSecretKey :: "string \<Rightarrow> bool" where
  "php_IsSecretKey key =
     (let normalized = trim_underscores (map ascii_lower (collapse_separators (camel_breaks (acronym_breaks key))))
      in normalized \<in> {''authorization'', ''authorization_header'', ''cookie'', ''set_cookie'', ''password'', ''passwd'', ''pwd'',
            ''private_key'', ''secret'', ''token'', ''credential'', ''credentials''}
         \<or> suffix_match
             [''api_key'', ''api_token'', ''oauth_token'', ''o_auth_token'', ''private_key'', ''client_secret'',
              ''access_token'', ''refresh_token'', ''id_token'', ''auth_token'', ''bearer_token''] normalized)"

definition swift_IsSecretKey :: "string \<Rightarrow> bool" where
  "swift_IsSecretKey key =
     (let normalized = trim_underscores (map ascii_lower (collapse_separators (camel_breaks (acronym_breaks key))))
      in normalized \<in> {''authorization'', ''authorization_header'', ''cookie'', ''set_cookie'', ''password'', ''passwd'', ''pwd'',
            ''private_key'', ''secret'', ''token'', ''credential'', ''credentials''}
         \<or> suffix_match
             [''api_key'', ''api_token'', ''oauth_token'', ''o_auth_token'', ''private_key'', ''client_secret'',
              ''access_token'', ''refresh_token'', ''id_token'', ''auth_token'', ''bearer_token''] normalized)"

definition csharp_IsSecretKey :: "string \<Rightarrow> bool" where
  "csharp_IsSecretKey key =
     (let normalized = trim_underscores (map ascii_lower (collapse_separators (camel_breaks (acronym_breaks key))))
      in normalized \<in> {''authorization'', ''authorization_header'', ''cookie'', ''set_cookie'', ''password'', ''passwd'', ''pwd'',
            ''private_key'', ''secret'', ''token'', ''credential'', ''credentials''}
         \<or> suffix_match
             [''api_key'', ''api_token'', ''oauth_token'', ''o_auth_token'', ''private_key'', ''client_secret'',
              ''access_token'', ''refresh_token'', ''id_token'', ''auth_token'', ''bearer_token''] normalized)"

text \<open>Java and Kotlin trim the two ends one after the other.\<close>

definition java_isSecretKey :: "string \<Rightarrow> bool" where
  "java_isSecretKey key =
     (let normalized = trim_trailing (trim_leading (map ascii_lower (collapse_separators (camel_breaks (acronym_breaks key)))))
      in normalized \<in> {''authorization'', ''authorization_header'', ''cookie'', ''set_cookie'', ''password'', ''passwd'', ''pwd'',
            ''private_key'', ''secret'', ''token'', ''credential'', ''credentials''}
         \<or> suffix_match
             [''api_key'', ''api_token'', ''oauth_token'', ''o_auth_token'', ''private_key'', ''client_secret'',
              ''access_token'', ''refresh_token'', ''id_token'', ''auth_token'', ''bearer_token''] normalized)"

definition kotlin_isSecretKey :: "string \<Rightarrow> bool" where
  "kotlin_isSecretKey key =
     (let normalized = trim_trailing (trim_leading (map ascii_lower (collapse_separators (camel_breaks (acronym_breaks key)))))
      in normalized \<in> {''authorization'', ''authorization_header'', ''cookie'', ''set_cookie'', ''password'', ''passwd'', ''pwd'',
            ''private_key'', ''secret'', ''token'', ''credential'', ''credentials''}
         \<or> suffix_match
             [''api_key'', ''api_token'', ''oauth_token'', ''o_auth_token'', ''private_key'', ''client_secret'',
              ''access_token'', ''refresh_token'', ''id_token'', ''auth_token'', ''bearer_token''] normalized)"

text \<open>
  Go lowers the key before it replaces the other characters, with \<open>strings.ToLower\<close>; PowerShell replaces
  with \<open>-replace\<close>, which ignores the case and so keeps the characters that \<open>keeps\<close> relates to a letter.
\<close>

definition go_IsSecretKey :: "(string \<Rightarrow> string) \<Rightarrow> string \<Rightarrow> bool" where
  "go_IsSecretKey lower key =
     (let normalized = trim_underscores (collapse_separators (lower (camel_breaks (acronym_breaks key))))
      in normalized \<in> {''authorization'', ''authorization_header'', ''cookie'', ''set_cookie'', ''password'', ''passwd'', ''pwd'',
            ''private_key'', ''secret'', ''token'', ''credential'', ''credentials''}
         \<or> suffix_match
             [''api_key'', ''api_token'', ''oauth_token'', ''o_auth_token'', ''private_key'', ''client_secret'',
              ''access_token'', ''refresh_token'', ''id_token'', ''auth_token'', ''bearer_token''] normalized)"

definition powershell_TestSecretKey :: "(string \<Rightarrow> string) \<Rightarrow> (string \<Rightarrow> string) \<Rightarrow> string \<Rightarrow> bool" where
  "powershell_TestSecretKey replace lower key =
     (let normalized = trim_underscores (lower (replace (camel_breaks (acronym_breaks key))))
      in normalized \<in> {''authorization'', ''authorization_header'', ''cookie'', ''set_cookie'', ''password'', ''passwd'', ''pwd'',
            ''private_key'', ''secret'', ''token'', ''credential'', ''credentials''}
         \<or> suffix_match
             [''api_key'', ''api_token'', ''oauth_token'', ''o_auth_token'', ''private_key'', ''client_secret'',
              ''access_token'', ''refresh_token'', ''id_token'', ''auth_token'', ''bearer_token''] normalized)"

section \<open>They agree\<close>

lemma daemon_test: "isSensitiveKey key \<longleftrightarrow>
  normalizeSensitiveKey key \<in> set SENSITIVE_KEY_EXACT \<or> suffix_match SENSITIVE_KEY_QUALIFIED (normalizeSensitiveKey key)"
  by (simp add: isSensitiveKey_def qualified_suffix_def suffix_match_def Let_def)

lemmas key_lists = SENSITIVE_KEY_EXACT_def SENSITIVE_KEY_QUALIFIED_def

lemma trim_both: "trim_trailing (trim_leading s) = trim_underscores s"
  by (simp add: trim_trailing_def trim_leading_def trim_underscores_def)

lemma same_tests:
  "typescript_IsSecretKey = isSensitiveKey" "python_is_secret_key = isSensitiveKey" "ruby_secret_key = isSensitiveKey"
  "php_IsSecretKey = isSensitiveKey" "swift_IsSecretKey = isSensitiveKey" "csharp_IsSecretKey = isSensitiveKey"
  "java_isSecretKey = isSensitiveKey" "kotlin_isSecretKey = isSensitiveKey"
  by (rule ext; simp add: typescript_IsSecretKey_def python_is_secret_key_def ruby_secret_key_def php_IsSecretKey_def
      swift_IsSecretKey_def csharp_IsSecretKey_def java_isSecretKey_def kotlin_isSecretKey_def trim_both daemon_test key_lists
      normalizeSensitiveKey_def Let_def)+

lemma collapse_lower: "collapse_separators (map ascii_lower s) = map ascii_lower (collapse_separators s)"
proof (induction s rule: collapse_separators.induct)
  case (2 c cs)
  have "ascii_lower CHR ''_'' = CHR ''_''" by (simp add: ascii_lower_id is_upper_def)
  with 2 show ?case by (simp add: alnum_ascii_lower_iff dropWhile_map comp_def)
qed simp

lemma ascii_acronyms: "set (acronym_breaks s) \<subseteq> insert CHR ''_'' (set s)"
proof (induction s rule: length_induct)
  case (1 s)
  show ?case
  proof (cases s)
    case (Cons c cs)
    let ?run = "c # takeWhile is_upper cs"
    have run: "set ?run \<subseteq> set s" using Cons by (auto dest: set_takeWhileD)
    then have parts: "set (butlast ?run) \<subseteq> set s" "last ?run \<in> set s"
      using last_in_set [of ?run] by (auto dest: in_set_butlastD)
    have less: "set t \<subseteq> set s \<Longrightarrow> length t < length s \<Longrightarrow> set (acronym_breaks t) \<subseteq> insert CHR ''_'' (set s)" for t
      using 1 by blast
    show ?thesis
    proof (cases "dropWhile is_upper cs")
      case Nil
      have "acronym_breaks s = (if \<not> is_upper c then c # acronym_breaks cs else ?run)"
        unfolding Cons by (subst acronym_breaks.simps) (simp only: Let_def Nil list.case)
      with run less [of cs] Cons show ?thesis by (auto simp del: acronym_breaks.simps)
    next
      case d: (Cons d ds)
      from d have rest: "set (d # ds) \<subseteq> set s" "length (d # ds) < length s"
        using Cons set_dropWhileD [of _ is_upper cs] length_dropWhile_le [of is_upper cs] by auto
      have "acronym_breaks s = (if \<not> is_upper c then c # acronym_breaks cs
          else if is_lower d \<and> 2 \<le> length ?run then butlast ?run @ ''_'' @ [last ?run, d] @ acronym_breaks ds
          else ?run @ acronym_breaks (d # ds))"
        unfolding Cons by (subst acronym_breaks.simps) (simp only: Let_def d list.case)
      with run parts rest less [of cs] less [of ds] less [of "d # ds"] Cons show ?thesis
        by (auto simp del: acronym_breaks.simps)
    qed
  qed simp
qed

lemma ascii_camel: "c \<in> set (camel_breaks s) \<Longrightarrow> c \<in> set s \<or> c = CHR ''_''"
  by (induction s rule: camel_breaks.induct) (auto split: if_splits)

lemma ascii_breaks:
  assumes "list_all (\<lambda>c. code c < 128) key"
  shows "list_all (\<lambda>c. code c < 128) (camel_breaks (acronym_breaks key))"
  using assms ascii_camel [of _ "acronym_breaks key"] ascii_acronyms [of key] by (fastforce simp: list_all_iff)

text \<open>On ASCII texts the functions of the other languages are known.\<close>

definition ascii_case :: "(string \<Rightarrow> string) \<Rightarrow> bool" where
  "ascii_case lower \<longleftrightarrow> (\<forall>s. list_all (\<lambda>c. code c < 128) s \<longrightarrow> lower s = map ascii_lower s)"

definition ascii_replace :: "(string \<Rightarrow> string) \<Rightarrow> bool" where
  "ascii_replace replace \<longleftrightarrow> (\<forall>s. list_all (\<lambda>c. code c < 128) s \<longrightarrow> replace s = collapse_separators s)"

lemma ascii_collapse: "list_all (\<lambda>c. code c < 128) s \<Longrightarrow> list_all (\<lambda>c. code c < 128) (collapse_separators s)"
  by (induction s rule: collapse_separators.induct) (auto simp: list_all_iff dest: set_dropWhileD)

lemma ascii_tests:
  assumes "list_all (\<lambda>c. code c < 128) key" "ascii_case lower" "ascii_replace replace"
  shows "go_IsSecretKey lower key = isSensitiveKey key" "powershell_TestSecretKey replace lower key = isSensitiveKey key"
  using ascii_breaks [OF assms(1)] ascii_collapse [OF ascii_breaks [OF assms(1)]] assms(2,3)
  by (simp_all add: go_IsSecretKey_def powershell_TestSecretKey_def ascii_case_def ascii_replace_def collapse_lower daemon_test
      key_lists normalizeSensitiveKey_def Let_def)

end
