(* ===== verification/Probe_Graph.thy ===== *)
theory Probe_Graph
  imports Probe_Keys "HOL-Library.AList"
begin

text \<open>
  What the redactors of the helpers have in common. Each goes through a graph of values of its language, keeps
  the identities it is inside of, and stops at depth 64. A language gives the view of a value, its identity and
  the way a map is built; its redactor is then determined, and what follows is proved once.
\<close>

section \<open>Results\<close>

datatype 'l printed = Plain 'l | Listed "'l printed list" | Keyed "(string \<times> 'l printed) list"

datatype ('v, 'l) shape = Scalar 'l | Items "'v list" | Entries "(string \<times> 'v) list" | Inside 'v | Refused

text \<open>The two loops of a redactor; the first failure is the failure of the loop.\<close>

definition cover_items :: "('v \<Rightarrow> 'r option) \<Rightarrow> 'v list \<Rightarrow> 'r list option" where
  "cover_items f xs = those (map f xs)"

definition cover_entries :: "(string \<Rightarrow> bool) \<Rightarrow> 'r \<Rightarrow> ('v \<Rightarrow> 'r option) \<Rightarrow> (string \<times> 'v) list \<Rightarrow> (string \<times> 'r) list option" where
  "cover_entries secret hidden f es = those (map (\<lambda>(key, x). map_option (Pair key) (if secret key then Some hidden else f x)) es)"

lemma cover_items_cong [fundef_cong]:
  "xs = ys \<Longrightarrow> (\<And>x. x \<in> set ys \<Longrightarrow> f x = g x) \<Longrightarrow> cover_items f xs = cover_items g ys"
  unfolding cover_items_def by (metis map_cong)

lemma cover_entries_cong [fundef_cong]:
  "es = fs \<Longrightarrow> (\<And>k x. (k, x) \<in> set fs \<Longrightarrow> f x = g x) \<Longrightarrow> cover_entries secret hidden f es = cover_entries secret hidden g fs"
  unfolding cover_entries_def by (auto intro!: arg_cong [where f = those])

lemma cover_items_simps [simp]:
  "cover_items f [] = Some []"
  "cover_items f (x # xs) = (case f x of None \<Rightarrow> None | Some r \<Rightarrow> map_option ((#) r) (cover_items f xs))"
  by (simp_all add: cover_items_def split: option.split)

lemma cover_entries_simps [simp]:
  "cover_entries secret hidden f [] = Some []"
  "cover_entries secret hidden f ((k, x) # es) =
     (case if secret k then Some hidden else f x of None \<Rightarrow> None | Some r \<Rightarrow> map_option ((#) (k, r)) (cover_entries secret hidden f es))"
  by (auto simp: cover_entries_def split: option.split)

lemma those_map_some: "those (map g xs) = Some rs \<longleftrightarrow> list_all2 (\<lambda>x r. g x = Some r) xs rs"
  by (induction xs arbitrary: rs) (auto simp: list_all2_Cons1 split: option.splits)

lemma cover_items_some: "cover_items f xs = Some rs \<longleftrightarrow> list_all2 (\<lambda>x r. f x = Some r) xs rs"
  by (simp add: cover_items_def those_map_some)

lemma cover_entries_some:
  "cover_entries secret hidden f es = Some rs \<longleftrightarrow>
     list_all2 (\<lambda>p q. fst q = fst p \<and> (if secret (fst p) then snd q = hidden else f (snd p) = Some (snd q))) es rs"
  unfolding cover_entries_def those_map_some by (rule list.rel_cong) (auto split: prod.split)

text \<open>A map keeps the place of a key that is put again.\<close>

definition put_all :: "(string \<times> 'r) list \<Rightarrow> (string \<times> 'r) list" where
  "put_all es = foldl (\<lambda>m p. AList.update (fst p) (snd p) m) [] es"

lemma update_fresh: "k \<notin> fst ` set m \<Longrightarrow> AList.update k x m = m @ [(k, x)]"
  by (induction m) auto

lemma put_all_distinct: "distinct (map fst es) \<Longrightarrow> put_all es = es"
proof -
  have "distinct (map fst (m @ es)) \<Longrightarrow> foldl (\<lambda>m p. AList.update (fst p) (snd p) m) m es = m @ es" for m
    by (induction es arbitrary: m) (auto simp: update_fresh)
  from this [of "[]"] show "distinct (map fst es) \<Longrightarrow> put_all es = es" by (simp add: put_all_def)
qed

lemma update_subset: "set (AList.update k x m) \<subseteq> insert (k, x) (set m)"
  by (induction m) auto

lemma put_all_subset: "set (put_all es) \<subseteq> set es"
proof -
  have "set (foldl (\<lambda>m p. AList.update (fst p) (snd p) m) m es) \<subseteq> set m \<union> set es" for m
  proof (induction es arbitrary: m)
    case (Cons p es)
    from Cons [of "AList.update (fst p) (snd p) m"] update_subset [of "fst p" "snd p" m] show ?case by auto
  qed simp
  from this [of "[]"] show ?thesis by (simp add: put_all_def)
qed

section \<open>Trees\<close>

text \<open>The whole value as a tree, when it has one of less than \<open>h\<close> levels and no map has a key twice.\<close>

fun full_tree :: "('v \<Rightarrow> ('v, 'l) shape) \<Rightarrow> nat \<Rightarrow> 'v \<Rightarrow> 'l printed option" where
  "full_tree view 0 v = None"
| "full_tree view (Suc h) v =
     (case view v of
        Scalar l \<Rightarrow> Some (Plain l)
      | Items xs \<Rightarrow> map_option Listed (cover_items (full_tree view h) xs)
      | Entries es \<Rightarrow>
          if distinct (map fst es)
          then map_option Keyed (cover_entries (\<lambda>_. False) (Keyed []) (full_tree view h) es) else None
      | Inside w \<Rightarrow> full_tree view h w
      | Refused \<Rightarrow> None)"

text \<open>The tree with the values of the sensitive keys replaced.\<close>

fun hide :: "(string \<Rightarrow> bool) \<Rightarrow> 'l \<Rightarrow> 'l printed \<Rightarrow> 'l printed" where
  "hide secret hidden (Plain l) = Plain l"
| "hide secret hidden (Listed ts) = Listed (map (hide secret hidden) ts)"
| "hide secret hidden (Keyed es) = Keyed (map (\<lambda>p. (fst p, if secret (fst p) then Plain hidden else hide secret hidden (snd p))) es)"

text \<open>No sensitive key has another value than the one put there.\<close>

fun covered :: "(string \<Rightarrow> bool) \<Rightarrow> 'l \<Rightarrow> 'l printed \<Rightarrow> bool" where
  "covered secret hidden (Plain l) = True"
| "covered secret hidden (Listed ts) = list_all (covered secret hidden) ts"
| "covered secret hidden (Keyed es) = list_all (\<lambda>p. if secret (fst p) then snd p = Plain hidden else covered secret hidden (snd p)) es"

fun levels :: "'l printed \<Rightarrow> nat" where
  "levels (Plain l) = 0"
| "levels (Listed ts) = fold max (map (\<lambda>t. Suc (levels t)) ts) 0"
| "levels (Keyed es) = fold max (map (\<lambda>p. Suc (levels (snd p))) es) 0"

fun printed_json :: "('l \<Rightarrow> json) \<Rightarrow> 'l printed \<Rightarrow> json" where
  "printed_json f (Plain l) = f l"
| "printed_json f (Listed ts) = JArr (map (printed_json f) ts)"
| "printed_json f (Keyed es) = JObj (map (\<lambda>p. (fst p, printed_json f (snd p))) es)"

lemma printed_json_hide:
  "f hidden = JStr REDACTED \<Longrightarrow> (\<And>l. redacted (f l) = f l) \<Longrightarrow>
    printed_json f (hide isSensitiveKey hidden t) = redacted (printed_json f t)"
  by (induction t rule: printed.induct) auto

lemma printed_json_leak_free:
  "f hidden = JStr REDACTED \<Longrightarrow> (\<And>l. leak_free (f l)) \<Longrightarrow> covered isSensitiveKey hidden t \<Longrightarrow> leak_free (printed_json f t)"
  by (induction t rule: printed.induct) (auto simp: list_all_iff split: if_splits)

text \<open>A step into a value, past no sensitive key.\<close>

inductive part :: "(string \<Rightarrow> bool) \<Rightarrow> ('v \<Rightarrow> ('v, 'l) shape) \<Rightarrow> 'v \<Rightarrow> 'v \<Rightarrow> bool" for secret view where
  item: "view v = Items xs \<Longrightarrow> x \<in> set xs \<Longrightarrow> part secret view v x"
| entry: "view v = Entries es \<Longrightarrow> (key, x) \<in> set es \<Longrightarrow> \<not> secret key \<Longrightarrow> part secret view v x"
| inside: "view v = Inside w \<Longrightarrow> part secret view v w"

inductive_simps part_iff: "part secret view v w"

text \<open>No value lies within one that has its identity.\<close>

definition separate :: "(string \<Rightarrow> bool) \<Rightarrow> ('v \<Rightarrow> ('v, 'l) shape) \<Rightarrow> ('v \<Rightarrow> 'i option) \<Rightarrow> 'v \<Rightarrow> bool" where
  "separate secret view identity v \<longleftrightarrow>
     (\<forall>u w. (part secret view)\<^sup>*\<^sup>* v u \<longrightarrow> (part secret view)\<^sup>+\<^sup>+ u w \<longrightarrow> identity u = None \<or> identity u \<noteq> identity w)"

lemma separate_part: "separate secret view identity v \<Longrightarrow> part secret view v w \<Longrightarrow> separate secret view identity w"
  unfolding separate_def by (blast intro: converse_rtranclp_into_rtranclp)

text \<open>Some step of the tree leads to every part.\<close>

lemma full_tree_part:
  assumes "full_tree view h v = Some t" "part secret view v w"
  obtains h' s where "h = Suc h'" "full_tree view h' w = Some s"
proof (cases h)
  case (Suc h')
  with assms that show thesis
    by (auto simp: part_iff cover_items_some cover_entries_some split: if_splits dest!: list_all2_defined)
qed (use assms in simp)

section \<open>The redactors\<close>

definition entering :: "('v \<Rightarrow> 'i option) \<Rightarrow> 'v \<Rightarrow> 'i list \<Rightarrow> 'i list" where
  "entering identity v active = (case identity v of None \<Rightarrow> active | Some i \<Rightarrow> i # active)"

text \<open>
  The contract: one unfolding of a redactor. \<open>active\<close> has the identities that the value lies in; \<open>build\<close> makes
  the map of a result.
\<close>

locale redactor =
  fixes secret :: "string \<Rightarrow> bool"
    and view :: "'v \<Rightarrow> ('v, 'l) shape"
    and identity :: "'v \<Rightarrow> 'i option"
    and build :: "(string \<times> 'l printed) list \<Rightarrow> (string \<times> 'l printed) list"
    and hidden :: 'l
    and redact :: "'v \<Rightarrow> 'i list \<Rightarrow> nat \<Rightarrow> 'l printed option"
  assumes unfold: "redact v active n =
      (if 64 < n \<or> (\<exists>i \<in> set active. identity v = Some i) then None
       else case view v of
           Scalar l \<Rightarrow> Some (Plain l)
         | Items xs \<Rightarrow> map_option Listed (cover_items (\<lambda>x. redact x (entering identity v active) (n + 1)) xs)
         | Entries es \<Rightarrow>
             map_option (\<lambda>rs. Keyed (build rs)) (cover_entries secret (Plain hidden) (\<lambda>x. redact x (entering identity v active) (n + 1)) es)
         | Inside w \<Rightarrow> redact w (entering identity v active) (n + 1)
         | Refused \<Rightarrow> None)"
    and build_subset: "set (build rs) \<subseteq> set rs"
    and build_distinct: "distinct (map fst rs) \<Longrightarrow> build rs = rs"
begin

lemma result_within: "redact v active n = Some t \<Longrightarrow> n \<le> 64"
  by (subst (asm) unfold) (auto split: if_splits)

lemma not_repeated: "redact v active n = Some t \<Longrightarrow> identity v = Some i \<Longrightarrow> i \<notin> set active"
  by (subst (asm) unfold) (auto split: if_splits)

text \<open>What a result consists of.\<close>

lemma result_cases:
  assumes "redact v active n = Some t"
  obtains l where "view v = Scalar l" "t = Plain l"
  | xs ts where "view v = Items xs" "t = Listed ts" "list_all2 (\<lambda>x r. redact x (entering identity v active) (n + 1) = Some r) xs ts"
  | es rs where "view v = Entries es" "t = Keyed (build rs)"
      "list_all2 (\<lambda>p q. fst q = fst p \<and> (if secret (fst p) then snd q = Plain hidden
         else redact (snd p) (entering identity v active) (n + 1) = Some (snd q))) es rs"
  | w where "view v = Inside w" "redact w (entering identity v active) (n + 1) = Some t"
proof (cases "view v")
  case (Entries es)
  with assms obtain rs where "t = Keyed (build rs)"
    "cover_entries secret (Plain hidden) (\<lambda>x. redact x (entering identity v active) (n + 1)) es = Some rs"
    unfolding unfold [of v active n] by (auto split: if_splits)
  with Entries that(3) show thesis unfolding cover_entries_some by blast
qed (use assms that in \<open>auto simp: unfold [of v active n] cover_items_some split: if_splits\<close>)

lemma result_covered: "redact v active n = Some t \<Longrightarrow> covered secret hidden t"
proof (induction "65 - n" arbitrary: v active n t rule: less_induct)
  case less
  have inner: "covered secret hidden r" if "redact x act (n + 1) = Some r" for x act r
    using less.hyps [OF _ that] result_within [OF less.prems] by simp
  from less.prems show ?case
  proof (cases rule: result_cases)
    case (2 xs ts)
    then show ?thesis using inner by (auto simp: list_all_iff dest!: list_all2_source)
  next
    case (3 es rs)
    then show ?thesis using inner build_subset [of rs] by (auto simp: list_all_iff dest!: list_all2_source split: if_splits)
  qed (use inner in auto)
qed

lemma result_levels: "redact v active n = Some t \<Longrightarrow> n + levels t \<le> 65"
proof (induction "65 - n" arbitrary: v active n t rule: less_induct)
  case less
  have n: "n \<le> 64" using less.prems by (rule result_within)
  have inner: "Suc (levels r) \<le> 65 - n" if "redact x act (n + 1) = Some r" for x act r
  proof -
    have "65 - (n + 1) < 65 - n" using n by simp
    from less.hyps [OF this that] show ?thesis by simp
  qed
  from less.prems show ?case
  proof (cases rule: result_cases)
    case (2 xs ts)
    have "fold max (map (\<lambda>t. Suc (levels t)) ts) 0 \<le> 65 - n"
      using 2(3) inner by (auto simp: fold_max_le dest!: list_all2_source)
    with 2 n show ?thesis by simp
  next
    case (3 es rs)
    have "Suc (levels (snd q)) \<le> 65 - n" if "q \<in> set rs" for q
      using list_all2_source [OF 3(3) that] inner n by (auto split: if_splits)
    with build_subset [of rs] have "fold max (map (\<lambda>p. Suc (levels (snd p))) (build rs)) 0 \<le> 65 - n"
      by (auto simp: fold_max_le)
    with 3 n show ?thesis by simp
  next
    case (4 w)
    with inner [OF 4(2)] n show ?thesis by simp
  qed (use n in simp)
qed

text \<open>A part of a value with a result has one too, inside the identity of the value.\<close>

lemma result_part:
  assumes "redact v active n = Some t" "part secret view v w"
  obtains s where "redact w (entering identity v active) (n + 1) = Some s"
  using assms
  by (cases rule: result_cases) (auto simp: part_iff dest!: list_all2_defined)

lemma result_parts:
  assumes "(part secret view)\<^sup>*\<^sup>* v w" "redact v active n = Some t"
  shows "\<exists>active' m s. redact w active' m = Some s \<and> set active \<subseteq> set active'"
  using assms
proof (induction arbitrary: active n t rule: converse_rtranclp_induct)
  case (step v u)
  from step.prems step.hyps(1) obtain s where "redact u (entering identity v active) (n + 1) = Some s" by (rule result_part)
  from step.IH [OF this] show ?case by (auto simp: entering_def split: option.splits)
qed blast

lemma result_separate:
  assumes "redact v active n = Some t"
  shows "separate secret view identity v"
  unfolding separate_def
proof (intro allI impI)
  fix u w
  assume "(part secret view)\<^sup>*\<^sup>* v u" and below: "(part secret view)\<^sup>+\<^sup>+ u w"
  then obtain active' m s where u: "redact u active' m = Some s" using result_parts [OF _ assms] by blast
  from below obtain x where x: "part secret view u x" "(part secret view)\<^sup>*\<^sup>* x w" by (blast dest: tranclpD)
  from u x(1) obtain r where "redact x (entering identity u active') (m + 1) = Some r" by (rule result_part)
  from result_parts [OF x(2) this] obtain active'' k q where "redact w active'' k = Some q"
    "set (entering identity u active') \<subseteq> set active''" by blast
  with not_repeated show "identity u = None \<or> identity u \<noteq> identity w"
    by (cases "identity u") (auto simp: entering_def)
qed

text \<open>A separate value whose tree is not too deep has the result that the daemon would keep of the tree.\<close>

lemma result_of_tree:
  assumes "full_tree view h v = Some t" "n + h \<le> 65" "separate secret view identity v"
    and "\<forall>u i. (part secret view)\<^sup>*\<^sup>* v u \<and> identity u = Some i \<longrightarrow> i \<notin> set active"
  shows "redact v active n = Some (hide secret hidden t)"
  using assms
proof (induction h arbitrary: v t n active)
  case (Suc h)
  have n: "n \<le> 64" using Suc.prems(2) by simp
  have fresh: "\<not> (\<exists>i \<in> set active. identity v = Some i)" using Suc.prems(4) by blast
  have child: "redact w (entering identity v active) (Suc n) = Some (hide secret hidden s)"
    if "part secret view v w" "full_tree view h w = Some s" for w s
  proof (rule Suc.IH [OF that(2)])
    show "Suc n + h \<le> 65" using Suc.prems(2) by simp
    show "separate secret view identity w" using separate_part [OF Suc.prems(3) that(1)] .
    show "\<forall>u i. (part secret view)\<^sup>*\<^sup>* w u \<and> identity u = Some i \<longrightarrow> i \<notin> set (entering identity v active)"
    proof (intro allI impI)
      fix u i
      assume u: "(part secret view)\<^sup>*\<^sup>* w u \<and> identity u = Some i"
      with that(1) have "(part secret view)\<^sup>+\<^sup>+ v u" by (blast intro: rtranclp_into_tranclp2)
      then have "identity v = None \<or> identity v \<noteq> identity u" using Suc.prems(3) unfolding separate_def by blast
      moreover have "i \<notin> set active" using u that(1) Suc.prems(4) by (blast intro: converse_rtranclp_into_rtranclp)
      ultimately show "i \<notin> set (entering identity v active)" using u by (auto simp: entering_def split: option.splits)
    qed
  qed
  show ?case
  proof (cases "view v")
    case (Items xs)
    with Suc.prems(1) obtain ts where ts: "t = Listed ts" "list_all2 (\<lambda>x r. full_tree view h x = Some r) xs ts"
      by (auto simp: cover_items_some)
    have "list_all2 (\<lambda>x r. redact x (entering identity v active) (n + 1) = Some r) xs (map (hide secret hidden) ts)"
      unfolding list_all2_map2 using ts(2) by (rule list.rel_mono_strong) (auto intro!: child part.item [where view = view, OF Items])
    with Items ts n fresh show ?thesis by (subst unfold) (simp add: cover_items_some [THEN iffD2])
  next
    case (Entries es)
    with Suc.prems(1) obtain rs where rs: "t = Keyed rs" "distinct (map fst es)"
      "list_all2 (\<lambda>p q. fst q = fst p \<and> full_tree view h (snd p) = Some (snd q)) es rs"
      by (auto simp: cover_entries_some split: if_splits)
    let ?hide = "\<lambda>p. (fst p, if secret (fst p) then Plain hidden else hide secret hidden (snd p))"
    have "cover_entries secret (Plain hidden) (\<lambda>x. redact x (entering identity v active) (Suc n)) es = Some (map ?hide rs)"
      unfolding cover_entries_some list_all2_map2 using rs(3) by (rule list.rel_mono_strong) (auto intro!: child part.entry [where view = view, OF Entries])
    moreover have "map fst rs = map fst es"
      using rs(3) by (induction rule: list_all2_induct) auto
    then have "build (map ?hide rs) = map ?hide rs" using rs(2) by (intro build_distinct) (simp add: comp_def)
    ultimately show ?thesis using Entries rs(1) n fresh by (subst unfold) simp
  next
    case (Inside w)
    with Suc.prems(1) child [OF part.inside [where view = view, OF Inside]] n fresh show ?thesis by (subst unfold) simp
  qed (use Suc.prems(1) n fresh in \<open>auto simp: unfold [of v active n]\<close>)
qed simp

lemma results:
  assumes "full_tree view h v = Some t" "h \<le> 65"
  shows "redact v [] 0 = (if separate secret view identity v then Some (hide secret hidden t) else None)"
  using result_of_tree [OF assms(1), of 0 "[]"] assms(2) result_separate [of v "[]" 0] by (cases "redact v [] 0") auto

end

text \<open>Where an identity is that of one value, every finite tree is separate.\<close>

locale identity_redactor = redactor secret view identity build hidden redact
  for secret and view :: "'v \<Rightarrow> ('v, 'l) shape" and identity :: "'v \<Rightarrow> 'i option" and build hidden redact +
  assumes same: "identity v = Some i \<Longrightarrow> identity w = Some i \<Longrightarrow> view v = view w"
begin

lemma same_tree:
  assumes "identity v = Some i" "identity w = Some i"
  shows "full_tree view h v = full_tree view h w"
  using same [OF assms] by (cases h) simp_all

lemma tree_below:
  "(part secret view)\<^sup>+\<^sup>+ u w \<Longrightarrow> full_tree view h u = Some t \<Longrightarrow> \<exists>h' s. h' < h \<and> full_tree view h' w = Some s"
proof (induction rule: tranclp_induct)
  case (base w)
  from base(2,1) show ?case by (rule full_tree_part) auto
next
  case (step x w)
  from step.IH [OF step.prems] obtain h' s where "h' < h" "full_tree view h' x = Some s" by blast
  from this(2) step.hyps(2) obtain h'' r where "h' = Suc h''" "full_tree view h'' w = Some r" by (rule full_tree_part)
  with \<open>h' < h\<close> show ?case by (metis Suc_lessD)
qed

lemma tree_separate:
  assumes "full_tree view h v = Some t"
  shows "separate secret view identity v"
  unfolding separate_def
proof (intro allI impI)
  fix u w
  assume "(part secret view)\<^sup>*\<^sup>* v u" and below: "(part secret view)\<^sup>+\<^sup>+ u w"
  then obtain k s where k: "full_tree view k u = Some s"
    using assms by (auto dest!: rtranclpD tree_below)
  show "identity u = None \<or> identity u \<noteq> identity w"
  proof (cases "identity u")
    case (Some i)
    have "identity w \<noteq> Some i"
    proof
      assume w: "identity w = Some i"
      from k show False
      proof (induction k arbitrary: s rule: less_induct)
        case (less k)
        from tree_below [OF below less.prems] obtain h' r where "h' < k" "full_tree view h' w = Some r" by blast
        with less.IH same_tree [OF Some w] show False by simp
      qed
    qed
    with Some show ?thesis by simp
  qed simp
qed

lemma tree_result:
  assumes "full_tree view h v = Some t" "h \<le> 65"
  shows "redact v [] 0 = Some (hide secret hidden t)"
  using results [OF assms] tree_separate [OF assms(1)] by simp

end

end
