(* ===== verification/Probe_Redactors.thy ===== *)
theory Probe_Redactors
  imports Probe_Graph
begin

text \<open>
  The redactors of the helpers for Python, Ruby, PHP, Go, Swift and C# (\<open>src/probes/*.ts\<close>), each over the
  values of its language that have a JSON text. Values with an identity are references to a heap.
  \<open>None\<close> is an error, which the helper swallows. Each meets the contract of a redactor.
\<close>

abbreviation masked :: "js_scalar printed" where
  "masked \<equiv> Plain (String ''[REDACTED]'')"

section \<open>Python\<close>

datatype py_value = PyScalar js_scalar | PyRef nat

datatype py_node = PyList "py_value list" | PyTuple "py_value list" | PyDict "(string \<times> py_value) list"

function python_redact :: "(nat \<Rightarrow> py_node) \<Rightarrow> py_value \<Rightarrow> nat list \<Rightarrow> nat \<Rightarrow> js_scalar printed option" where
  "python_redact heap value active depth =
     (if 64 < depth then None
      else case value of
        PyScalar x \<Rightarrow> Some (Plain x)
      | PyRef identity \<Rightarrow>
          if identity \<in> set active then None
          else case heap identity of
              PyList items \<Rightarrow>
                map_option Listed (cover_items (\<lambda>item. python_redact heap item (identity # active) (depth + 1)) items)
            | PyTuple items \<Rightarrow>
                map_option Listed (cover_items (\<lambda>item. python_redact heap item (identity # active) (depth + 1)) items)
            | PyDict items \<Rightarrow>
                map_option Keyed (cover_entries python_is_secret_key masked
                  (\<lambda>item. python_redact heap item (identity # active) (depth + 1)) items))"
  by pat_completeness auto
termination
  by (relation "measure (\<lambda>(heap, v, active, depth). 65 - depth)") auto

declare python_redact.simps [simp del]

section \<open>Ruby\<close>

datatype rb_value = RbScalar js_scalar | RbRef nat

datatype rb_node = RbArray "rb_value list" | RbHash "(string \<times> rb_value) list"

function ruby_redact :: "(nat \<Rightarrow> rb_node) \<Rightarrow> rb_value \<Rightarrow> nat list \<Rightarrow> nat \<Rightarrow> js_scalar printed option" where
  "ruby_redact heap value active depth =
     (if 64 < depth then None
      else case value of
        RbScalar x \<Rightarrow> Some (Plain x)
      | RbRef identity \<Rightarrow>
          if identity \<in> set active then None
          else case heap identity of
              RbArray items \<Rightarrow>
                map_option Listed (cover_items (\<lambda>item. ruby_redact heap item (identity # active) (depth + 1)) items)
            | RbHash items \<Rightarrow>
                map_option Keyed (cover_entries ruby_secret_key masked
                  (\<lambda>item. ruby_redact heap item (identity # active) (depth + 1)) items))"
  by pat_completeness auto
termination
  by (relation "measure (\<lambda>(heap, v, active, depth). 65 - depth)") auto

declare ruby_redact.simps [simp del]

section \<open>PHP\<close>

text \<open>Arrays are values, objects have an identity. \<open>get_object_vars\<close> gives the array that the heap has.\<close>

datatype php_key = PhpInt int | PhpString string

datatype php_value = PhpScalar js_scalar | PhpArray "(php_key \<times> php_value) list" | PhpObject nat

datatype php_result = PhpPlain js_scalar | PhpMap "(php_key \<times> php_result) list"

definition php_entries :: "('v \<Rightarrow> php_result option) \<Rightarrow> (php_key \<times> 'v) list \<Rightarrow> (php_key \<times> php_result) list option" where
  "php_entries f items = those (map (\<lambda>(key, item). map_option (Pair key)
     (if (case key of PhpString k \<Rightarrow> php_IsSecretKey k | PhpInt _ \<Rightarrow> False) then Some (PhpPlain (String ''[REDACTED]'')) else f item)) items)"

lemma php_entries_cong [fundef_cong]:
  "es = fs \<Longrightarrow> (\<And>k x. (k, x) \<in> set fs \<Longrightarrow> f x = g x) \<Longrightarrow> php_entries f es = php_entries g fs"
  unfolding php_entries_def by (auto intro!: arg_cong [where f = those])

function php_Redact :: "(nat \<Rightarrow> (php_key \<times> php_value) list) \<Rightarrow> php_value \<Rightarrow> nat list \<Rightarrow> nat \<Rightarrow> php_result option" where
  "php_Redact heap value active depth =
     (if 64 < depth then None
      else case value of
        PhpObject a \<Rightarrow>
          if a \<in> set active then None else php_Redact heap (PhpArray (heap a)) (a # active) (depth + 1)
      | PhpScalar x \<Rightarrow> Some (PhpPlain x)
      | PhpArray items \<Rightarrow> map_option PhpMap (php_entries (\<lambda>item. php_Redact heap item active (depth + 1)) items))"
  by pat_completeness auto
termination
  by (relation "measure (\<lambda>(heap, v, active, depth). 65 - depth)") auto

declare php_Redact.simps [simp del]

text \<open>\<open>json_encode\<close> writes an array with the keys 0, 1, ... as a list, any other as an object.\<close>

definition php_is_list :: "(php_key \<times> 'v) list \<Rightarrow> bool" where
  "php_is_list items \<longleftrightarrow> map fst items = map (\<lambda>i. PhpInt (int i)) [0..<length items]"

definition php_key_text :: "php_key \<Rightarrow> string" where
  "php_key_text key = (case key of PhpInt i \<Rightarrow> decimal i | PhpString s \<Rightarrow> s)"

fun php_encoded :: "php_result \<Rightarrow> js_scalar printed" where
  "php_encoded (PhpPlain x) = Plain x"
| "php_encoded (PhpMap items) =
     (if php_is_list items then Listed (map (\<lambda>p. php_encoded (snd p)) items)
      else Keyed (map (\<lambda>p. (php_key_text (fst p), php_encoded (snd p))) items))"

section \<open>Go\<close>

text \<open>
  The values that \<open>reflect\<close> tells apart. A slice is the address of its first element and a length; the
  memory behind an address depends on the type.
\<close>

datatype go_kind = GoMapKind | GoPointerKind | GoSliceKind

record go_field =
  field_exported :: bool
  field_name :: string
  field_tag :: string

datatype go_value =
    GoInvalid
  | GoScalar js_scalar
  | GoUnreadable
  | GoInterface "go_value option"
  | GoMap string "nat option"
  | GoPointer string "nat option"
  | GoSlice string "nat option" nat
  | GoArray "go_value list"
  | GoStruct "(go_field \<times> go_value) list"

record go_heap =
  go_maps :: "nat \<Rightarrow> (string option \<times> go_value) list"
  go_pointed :: "string \<Rightarrow> nat \<Rightarrow> go_value"
  go_elements :: "string \<Rightarrow> nat \<Rightarrow> go_value list"

definition go_Identity :: "go_value \<Rightarrow> (go_kind \<times> string \<times> nat) option" where
  "go_Identity value =
     (case value of
        GoMap t p \<Rightarrow> map_option (\<lambda>a. (GoMapKind, t, a)) p
      | GoPointer t p \<Rightarrow> map_option (\<lambda>a. (GoPointerKind, t, a)) p
      | GoSlice t p n \<Rightarrow> map_option (\<lambda>a. (GoSliceKind, t, a)) p
      | _ \<Rightarrow> None)"

definition go_enter :: "go_value \<Rightarrow> (go_kind \<times> string \<times> nat) list \<Rightarrow> (go_kind \<times> string \<times> nat) list" where
  "go_enter value active = (case go_Identity value of None \<Rightarrow> active | Some i \<Rightarrow> i # active)"

text \<open>The key of a field, \<open>None\<close> when it is left out.\<close>

definition go_field_key :: "go_field \<Rightarrow> string option" where
  "go_field_key f =
     (if \<not> field_exported f then None
      else
        let tag = takeWhile (\<lambda>c. c \<noteq> CHR '','') (field_tag f)
        in if tag = ''-'' then None else if tag \<noteq> [] then Some tag else Some (field_name f))"

definition go_fields :: "(go_field \<times> go_value) list \<Rightarrow> (string \<times> go_value) list" where
  "go_fields fs = List.map_filter (\<lambda>(f, x). map_option (\<lambda>key. (key, x)) (go_field_key f)) fs"

lemma go_fields_snd: "(k, x) \<in> set (go_fields fs) \<Longrightarrow> x \<in> snd ` set fs"
  by (force simp: go_fields_def List.map_filter_def split: option.splits)

text \<open>\<open>None\<close> is the result \<open>nil, false\<close>.\<close>

function go_RedactValue :: "(string \<Rightarrow> string) \<Rightarrow> go_heap \<Rightarrow> go_value \<Rightarrow> (go_kind \<times> string \<times> nat) list \<Rightarrow> nat \<Rightarrow>
    js_scalar printed option" where
  "go_RedactValue lower heap value active depth =
     (if 64 < depth then None
      else if \<exists>i \<in> set active. go_Identity value = Some i then None
      else case value of
        GoInvalid \<Rightarrow> Some (Plain Null)
      | GoInterface None \<Rightarrow> Some (Plain Null)
      | GoInterface (Some x) \<Rightarrow> go_RedactValue lower heap x active (depth + 1)
      | GoPointer t None \<Rightarrow> go_RedactValue lower heap GoInvalid active (depth + 1)
      | GoPointer t (Some a) \<Rightarrow> go_RedactValue lower heap (go_pointed heap t a) (go_enter value active) (depth + 1)
      | GoMap t p \<Rightarrow>
          (let es = (case p of None \<Rightarrow> [] | Some a \<Rightarrow> go_maps heap a)
           in if list_ex (\<lambda>e. fst e = None) es then None
              else map_option (\<lambda>rs. Keyed (put_all rs)) (cover_entries (go_IsSecretKey lower) masked
                (\<lambda>x. go_RedactValue lower heap x (go_enter value active) (depth + 1)) (map (\<lambda>e. (the (fst e), snd e)) es)))
      | GoSlice t None n \<Rightarrow> Some (Plain Null)
      | GoSlice t (Some a) n \<Rightarrow>
          map_option Listed (cover_items (\<lambda>x. go_RedactValue lower heap x (go_enter value active) (depth + 1)) (take n (go_elements heap t a)))
      | GoArray xs \<Rightarrow> map_option Listed (cover_items (\<lambda>x. go_RedactValue lower heap x active (depth + 1)) xs)
      | GoStruct fs \<Rightarrow>
          map_option (\<lambda>rs. Keyed (put_all rs)) (cover_entries (go_IsSecretKey lower) masked
            (\<lambda>x. go_RedactValue lower heap x active (depth + 1)) (go_fields fs))
      | GoScalar x \<Rightarrow> Some (Plain x)
      | GoUnreadable \<Rightarrow> None)"
  by pat_completeness auto
termination
  by (relation "measure (\<lambda>(lower, heap, v, active, depth). 65 - depth)") auto

declare go_RedactValue.simps [simp del]

section \<open>Swift\<close>

text \<open>
  Arrays and dictionaries are values; an instance of a class has an identity, and may be bridged to an array
  or a dictionary.
\<close>

datatype sw_value = SwScalar js_scalar | SwArray "sw_value list" | SwDictionary "(string \<times> sw_value) list" | SwObject nat

datatype sw_object = NSArray "sw_value list" | NSDictionary "(string \<times> sw_value) list" | NSScalar js_scalar

definition sw_bridge :: "(nat \<Rightarrow> sw_object) \<Rightarrow> sw_value \<Rightarrow> sw_value" where
  "sw_bridge heap value =
     (case value of
        SwObject a \<Rightarrow> (case heap a of NSArray xs \<Rightarrow> SwArray xs | NSDictionary es \<Rightarrow> SwDictionary es | NSScalar x \<Rightarrow> SwScalar x)
      | _ \<Rightarrow> value)"

definition sw_enter :: "sw_value \<Rightarrow> nat list \<Rightarrow> nat list" where
  "sw_enter value active = (case value of SwObject a \<Rightarrow> a # active | _ \<Rightarrow> active)"

function swift_RedactValue :: "(nat \<Rightarrow> sw_object) \<Rightarrow> sw_value \<Rightarrow> nat list \<Rightarrow> nat \<Rightarrow> js_scalar printed option" where
  "swift_RedactValue heap value active depth =
     (if 64 < depth then None
      else if \<exists>a \<in> set active. value = SwObject a then None
      else case sw_bridge heap value of
        SwArray xs \<Rightarrow> map_option Listed (cover_items (\<lambda>x. swift_RedactValue heap x (sw_enter value active) (depth + 1)) xs)
      | SwDictionary es \<Rightarrow>
          map_option (\<lambda>rs. Keyed (put_all rs)) (cover_entries swift_IsSecretKey masked
            (\<lambda>x. swift_RedactValue heap x (sw_enter value active) (depth + 1)) es)
      | SwScalar x \<Rightarrow> Some (Plain x)
      | SwObject a \<Rightarrow> None)"
  by pat_completeness auto
termination
  by (relation "measure (\<lambda>(heap, v, active, depth). 65 - depth)") auto

declare swift_RedactValue.simps [simp del]

section \<open>C#\<close>

text \<open>
  A value of a value type is not tracked. Keys of dictionaries are their texts; the value of a property is
  \<open>None\<close> when its getter throws.
\<close>

record cs_property =
  property_name :: string
  can_read :: bool
  index_parameters :: nat

datatype cs_value = CsScalar js_scalar | CsRef nat | CsStruct cs_node
  and cs_node =
    CsDictionary "(string \<times> cs_value) list"
  | CsEnumerable "cs_value list"
  | CsMembers "(cs_property \<times> cs_value option) list" "(string \<times> cs_value) list"

definition cs_members :: "(cs_property \<times> cs_value option) list \<Rightarrow> (string \<times> cs_value) list \<Rightarrow> (string \<times> cs_value option) list" where
  "cs_members props public_fields =
     map (\<lambda>(p, x). (property_name p, x)) (filter (\<lambda>(p, x). can_read p \<and> index_parameters p = 0) props)
     @ map (\<lambda>(name, x). (name, Some x)) public_fields"

function csharp_Redact :: "(nat \<Rightarrow> cs_node) \<Rightarrow> cs_value \<Rightarrow> nat list \<Rightarrow> nat \<Rightarrow> js_scalar printed option" where
  "csharp_Redact heap value active depth =
     (if 64 < depth then None
      else case value of
        CsScalar x \<Rightarrow> Some (Plain x)
      | _ \<Rightarrow>
          if \<exists>a \<in> set active. value = CsRef a then None
          else
            let active = (case value of CsRef a \<Rightarrow> a # active | _ \<Rightarrow> active)
            in case (case value of CsRef a \<Rightarrow> heap a | CsStruct node \<Rightarrow> node | CsScalar x \<Rightarrow> CsEnumerable []) of
                CsDictionary es \<Rightarrow>
                  map_option (\<lambda>rs. Keyed (put_all rs)) (cover_entries csharp_IsSecretKey masked
                    (\<lambda>x. csharp_Redact heap x active (depth + 1)) es)
              | CsEnumerable xs \<Rightarrow> map_option Listed (cover_items (\<lambda>x. csharp_Redact heap x active (depth + 1)) xs)
              | CsMembers props public_fields \<Rightarrow>
                  map_option (\<lambda>rs. Keyed (put_all rs)) (cover_entries csharp_IsSecretKey masked
                    (\<lambda>got. case got of None \<Rightarrow> None | Some x \<Rightarrow> csharp_Redact heap x active (depth + 1))
                    (cs_members props public_fields)))"
  by pat_completeness auto
termination
  by (relation "measure (\<lambda>(heap, v, active, depth). 65 - depth)") auto

declare csharp_Redact.simps [simp del]

section \<open>The contract\<close>

definition py_view :: "(nat \<Rightarrow> py_node) \<Rightarrow> py_value \<Rightarrow> (py_value, js_scalar) shape" where
  "py_view heap v = (case v of PyScalar x \<Rightarrow> Scalar x
     | PyRef a \<Rightarrow> (case heap a of PyList xs \<Rightarrow> Items xs | PyTuple xs \<Rightarrow> Items xs | PyDict es \<Rightarrow> Entries es))"

definition py_identity :: "py_value \<Rightarrow> nat option" where
  "py_identity v = (case v of PyScalar x \<Rightarrow> None | PyRef a \<Rightarrow> Some a)"

interpretation python: identity_redactor isSensitiveKey "py_view heap" py_identity "\<lambda>es. es" "String ''[REDACTED]''" "python_redact heap"
  for heap
proof (unfold_locales, goal_cases)
  case (1 v active n)
  show ?case
    by (auto simp: python_redact.simps [of heap v active n] same_tests py_view_def py_identity_def entering_def
        split: py_value.split py_node.split)
qed (auto simp: py_view_def py_identity_def split: py_value.splits)

definition rb_view :: "(nat \<Rightarrow> rb_node) \<Rightarrow> rb_value \<Rightarrow> (rb_value, js_scalar) shape" where
  "rb_view heap v = (case v of RbScalar x \<Rightarrow> Scalar x
     | RbRef a \<Rightarrow> (case heap a of RbArray xs \<Rightarrow> Items xs | RbHash es \<Rightarrow> Entries es))"

definition rb_identity :: "rb_value \<Rightarrow> nat option" where
  "rb_identity v = (case v of RbScalar x \<Rightarrow> None | RbRef a \<Rightarrow> Some a)"

interpretation ruby: identity_redactor isSensitiveKey "rb_view heap" rb_identity "\<lambda>es. es" "String ''[REDACTED]''" "ruby_redact heap"
  for heap
proof (unfold_locales, goal_cases)
  case (1 v active n)
  show ?case
    by (auto simp: ruby_redact.simps [of heap v active n] same_tests rb_view_def rb_identity_def entering_def
        split: rb_value.split rb_node.split)
qed (auto simp: rb_view_def rb_identity_def split: rb_value.splits)

definition php_view :: "(nat \<Rightarrow> (php_key \<times> php_value) list) \<Rightarrow> php_value \<Rightarrow> (php_value, js_scalar) shape" where
  "php_view heap v = (case v of PhpScalar x \<Rightarrow> Scalar x
     | PhpArray items \<Rightarrow> if php_is_list items then Items (map snd items) else Entries (map (\<lambda>p. (php_key_text (fst p), snd p)) items)
     | PhpObject a \<Rightarrow> Inside (PhpArray (heap a)))"

definition php_identity :: "php_value \<Rightarrow> nat option" where
  "php_identity v = (case v of PhpObject a \<Rightarrow> Some a | _ \<Rightarrow> None)"

text \<open>A number is no sensitive key.\<close>

lemma trim_subset: "set (trim_underscores s) \<subseteq> set s"
  unfolding trim_underscores_def by (auto dest!: set_dropWhileD)

lemma collapse_subset: "set (collapse_separators s) \<subseteq> insert CHR ''_'' (set s)"
  by (induction s rule: collapse_separators.induct) (auto dest: set_dropWhileD)

lemma normalized_subset: "set (normalizeSensitiveKey s) \<subseteq> insert CHR ''_'' (ascii_lower ` set s)"
proof
  fix c
  assume "c \<in> set (normalizeSensitiveKey s)"
  then have "c \<in> ascii_lower ` set (collapse_separators (camel_breaks (acronym_breaks s)))"
    using trim_subset by (fastforce simp: normalizeSensitiveKey_def)
  then obtain d where d: "c = ascii_lower d" "d \<in> set (collapse_separators (camel_breaks (acronym_breaks s)))" by blast
  have under: "ascii_lower CHR ''_'' = CHR ''_''" by (simp add: ascii_lower_id is_upper_def)
  from d(2) have "d = CHR ''_'' \<or> d \<in> set s"
    using collapse_subset ascii_camel [of d "acronym_breaks s"] ascii_acronyms [of s] by fastforce
  with d(1) under show "c \<in> insert CHR ''_'' (ascii_lower ` set s)" by auto
qed

lemma ends_with_subset: "ends_with s p \<Longrightarrow> set p \<subseteq> set s"
  unfolding ends_with_def by (metis set_drop_subset)

lemma sensitive_letter:
  assumes "isSensitiveKey s"
  shows "\<exists>c \<in> set s. is_lower (ascii_lower c)"
proof -
  let ?n = "normalizeSensitiveKey s"
  from assms have "?n \<in> set SENSITIVE_KEY_EXACT \<or> suffix_match SENSITIVE_KEY_QUALIFIED ?n" by (simp add: daemon_test)
  moreover have "\<forall>q \<in> set SENSITIVE_KEY_EXACT. \<exists>c \<in> set q. is_lower c" "\<forall>q \<in> set SENSITIVE_KEY_QUALIFIED. \<exists>c \<in> set q. is_lower c"
    by (simp_all add: key_lists is_lower_def)
  moreover have "\<exists>q \<in> set SENSITIVE_KEY_QUALIFIED. set q \<subseteq> set ?n" if "suffix_match SENSITIVE_KEY_QUALIFIED ?n"
    using that ends_with_subset [of ?n] unfolding suffix_match_def list_ex_iff by (metis set_subset_Cons subset_trans order_refl)
  ultimately have "\<exists>c \<in> set ?n. is_lower c" by (meson subsetD)
  then show ?thesis using normalized_subset [of s] by (auto simp: is_lower_def)
qed

lemma decimal_plain: "\<not> isSensitiveKey (decimal n)"
proof
  assume "isSensitiveKey (decimal n)"
  then obtain c where c: "c \<in> set (decimal n)" "is_lower (ascii_lower c)" using sensitive_letter by blast
  then have "c = CHR ''-'' \<or> is_digit c" by (auto simp: decimal_def dest: nat_text_digit_set split: if_splits)
  with c(2) show False by (auto simp: is_lower_def code_ascii_lower is_digit_def is_upper_def)
qed

lemma php_entries_simps [simp]:
  "php_entries f [] = Some []"
  "php_entries f ((key, x) # items) =
     (case if (case key of PhpString k \<Rightarrow> isSensitiveKey k | PhpInt _ \<Rightarrow> False) then Some (PhpPlain (String ''[REDACTED]'')) else f x of
        None \<Rightarrow> None
      | Some r \<Rightarrow> map_option ((#) (key, r)) (php_entries f items))"
  by (cases key; auto simp: php_entries_def same_tests split: option.split)+

lemma php_entries_keys: "php_entries f items = Some rs \<Longrightarrow> map fst rs = map fst items"
  by (induction items arbitrary: rs) (auto split: option.splits)

lemma php_entries_is_list: "php_entries f items = Some rs \<Longrightarrow> php_is_list rs = php_is_list items"
  using php_entries_keys [of f items rs] by (metis length_map php_is_list_def)

lemma php_entries_items:
  "\<forall>p \<in> set items. \<exists>i. fst p = PhpInt i \<Longrightarrow> map_option (map (\<lambda>p. php_encoded (snd p))) (php_entries f items) =
     cover_items (\<lambda>x. map_option php_encoded (f x)) (map snd items)"
proof (induction items)
  case (Cons p items)
  from Cons.prems obtain i x where "p = (PhpInt i, x)" by (cases p) auto
  with Cons.IH [symmetric] Cons.prems show ?case by (cases "php_entries f items") (auto split: option.split)
qed simp

lemma php_entries_members:
  "map_option (map (\<lambda>p. (php_key_text (fst p), php_encoded (snd p)))) (php_entries f items) =
     cover_entries isSensitiveKey masked (\<lambda>x. map_option php_encoded (f x)) (map (\<lambda>p. (php_key_text (fst p), snd p)) items)"
proof (induction items)
  case (Cons p items)
  show ?case
    using Cons [symmetric]
    by (cases p; cases "fst p"; cases "php_entries f items") (auto simp: decimal_plain php_key_text_def split: option.split)
qed simp

lemma php_array:
  "map_option php_encoded (map_option PhpMap (php_entries f items)) =
     (if php_is_list items then map_option Listed (cover_items (\<lambda>x. map_option php_encoded (f x)) (map snd items))
      else map_option Keyed (cover_entries isSensitiveKey masked (\<lambda>x. map_option php_encoded (f x))
        (map (\<lambda>p. (php_key_text (fst p), snd p)) items)))"
proof (cases "php_is_list items")
  case True
  then have "fst ` set items = (\<lambda>i. PhpInt (int i)) ` {0..<length items}"
    unfolding php_is_list_def by (metis list.set_map set_upt)
  then have "\<forall>p \<in> set items. \<exists>i. fst p = PhpInt i" by blast
  from php_entries_items [OF this, of f, symmetric] True show ?thesis
    by (cases "php_entries f items") (simp_all add: php_entries_is_list)
next
  case False
  then show ?thesis
    by (cases "php_entries f items") (simp_all add: php_entries_is_list flip: php_entries_members)
qed

interpretation php: identity_redactor isSensitiveKey "php_view heap" php_identity "\<lambda>es. es" "String ''[REDACTED]''"
    "\<lambda>v active n. map_option php_encoded (php_Redact heap v active n)"
  for heap
proof (unfold_locales, goal_cases)
  case (1 v active n)
  show ?case
    by (auto simp: php_Redact.simps [of heap v active n] php_view_def php_identity_def entering_def php_array
        split: php_value.split)
qed (auto simp: php_view_def php_identity_def split: php_value.splits)

definition go_view :: "go_heap \<Rightarrow> go_value \<Rightarrow> (go_value, js_scalar) shape" where
  "go_view heap v =
     (case v of
        GoInvalid \<Rightarrow> Scalar Null
      | GoScalar x \<Rightarrow> Scalar x
      | GoUnreadable \<Rightarrow> Refused
      | GoInterface p \<Rightarrow> (case p of None \<Rightarrow> Scalar Null | Some x \<Rightarrow> Inside x)
      | GoPointer t p \<Rightarrow> Inside (case p of None \<Rightarrow> GoInvalid | Some a \<Rightarrow> go_pointed heap t a)
      | GoMap t p \<Rightarrow>
          (let es = (case p of None \<Rightarrow> [] | Some a \<Rightarrow> go_maps heap a)
           in if list_ex (\<lambda>e. fst e = None) es then Refused else Entries (map (\<lambda>e. (the (fst e), snd e)) es))
      | GoSlice t p n \<Rightarrow> (case p of None \<Rightarrow> Scalar Null | Some a \<Rightarrow> Items (take n (go_elements heap t a)))
      | GoArray xs \<Rightarrow> Items xs
      | GoStruct fs \<Rightarrow> Entries (go_fields fs))"

interpretation go: redactor "go_IsSecretKey lower" "go_view heap" go_Identity put_all "String ''[REDACTED]''" "go_RedactValue lower heap"
  for lower heap
proof (unfold_locales, goal_cases)
  case (1 v active n)
  show ?case
    by (auto simp: go_RedactValue.simps [of lower heap v active n] go_view_def go_enter_def go_Identity_def entering_def Let_def
        split: go_value.split option.split)
qed (simp_all add: put_all_subset put_all_distinct)

definition sw_view :: "(nat \<Rightarrow> sw_object) \<Rightarrow> sw_value \<Rightarrow> (sw_value, js_scalar) shape" where
  "sw_view heap v =
     (case sw_bridge heap v of
        SwArray xs \<Rightarrow> Items xs | SwDictionary es \<Rightarrow> Entries es | SwScalar x \<Rightarrow> Scalar x | SwObject a \<Rightarrow> Refused)"

definition sw_identity :: "sw_value \<Rightarrow> nat option" where
  "sw_identity v = (case v of SwObject a \<Rightarrow> Some a | _ \<Rightarrow> None)"

interpretation swift: identity_redactor isSensitiveKey "sw_view heap" sw_identity put_all "String ''[REDACTED]''" "swift_RedactValue heap"
  for heap
proof (unfold_locales, goal_cases)
  case (1 v active n)
  show ?case
    unfolding swift_RedactValue.simps [of heap v active n]
    by (cases v) (auto simp: same_tests sw_view_def sw_identity_def sw_enter_def
        sw_bridge_def entering_def split: sw_object.split)
qed (auto simp: sw_view_def sw_identity_def sw_bridge_def put_all_subset put_all_distinct split: sw_value.splits)

text \<open>A thrown getter is a value without a view.\<close>

definition cs_view :: "(nat \<Rightarrow> cs_node) \<Rightarrow> cs_value option \<Rightarrow> (cs_value option, js_scalar) shape" where
  "cs_view heap got =
     (case got of
        None \<Rightarrow> Refused
      | Some (CsScalar x) \<Rightarrow> Scalar x
      | Some v \<Rightarrow>
          (case (case v of CsRef a \<Rightarrow> heap a | CsStruct node \<Rightarrow> node | CsScalar x \<Rightarrow> CsEnumerable []) of
             CsDictionary es \<Rightarrow> Entries (map (\<lambda>(key, x). (key, Some x)) es)
           | CsEnumerable xs \<Rightarrow> Items (map Some xs)
           | CsMembers props public_fields \<Rightarrow> Entries (cs_members props public_fields)))"

definition cs_identity :: "cs_value option \<Rightarrow> nat option" where
  "cs_identity got = (case got of Some (CsRef a) \<Rightarrow> Some a | _ \<Rightarrow> None)"

definition csharp_got :: "(nat \<Rightarrow> cs_node) \<Rightarrow> cs_value option \<Rightarrow> nat list \<Rightarrow> nat \<Rightarrow> js_scalar printed option" where
  "csharp_got heap got active n = (case got of None \<Rightarrow> None | Some v \<Rightarrow> csharp_Redact heap v active n)"

lemma cover_items_map: "cover_items f (map g xs) = cover_items (\<lambda>x. f (g x)) xs"
  by (simp add: cover_items_def comp_def)

lemma cover_entries_map: "cover_entries secret hidden f (map (\<lambda>(key, x). (key, g x)) es) = cover_entries secret hidden (\<lambda>x. f (g x)) es"
  by (simp add: cover_entries_def comp_def case_prod_beta' cong: if_cong)

interpretation csharp: identity_redactor isSensitiveKey "cs_view heap" cs_identity put_all "String ''[REDACTED]''" "csharp_got heap"
  for heap
proof (unfold_locales, goal_cases)
  case (1 got active n)
  show ?case
  proof (cases got)
    case (Some v)
    have "csharp_got heap got active n = csharp_Redact heap v active n" by (simp add: Some csharp_got_def)
    then show ?thesis
      unfolding Some csharp_Redact.simps [of heap v active n]
      by (cases v) (auto simp: same_tests cs_view_def cs_identity_def entering_def
        csharp_got_def cover_items_map cover_entries_map split: cs_node.split)
  qed (simp add: csharp_got_def cs_view_def)
qed (auto simp: cs_view_def cs_identity_def put_all_subset put_all_distinct split: option.splits cs_value.splits)

end
