(* ===== verification/Probe_Lines.thy ===== *)
theory Probe_Lines
  imports Probe_Facts
begin

text \<open>
  The helpers that write their line by hand: C with a buffer of fixed capacity (\<open>src/probes/c.ts\<close>), C++ and
  Rust with a growing string (\<open>cpp.ts\<close>, \<open>rust.ts\<close>). Their data is a JSON text that the program made. A helper's
  result is the line it appends to the session's file, \<open>None\<close> when it appends nothing.
\<close>

definition quote_char :: char where
  "quote_char = CHR 0x22"

definition backslash_char :: char where
  "backslash_char = CHR 0x5C"

section \<open>C\<close>

text \<open>The bytes written so far, \<open>buffer[0..length)\<close>.\<close>

record AgentDebugBuffer =
  buf_written :: string
  buf_capacity :: nat
  buf_overflow :: bool

definition agent_debug_append :: "AgentDebugBuffer \<Rightarrow> string \<Rightarrow> AgentDebugBuffer" where
  "agent_debug_append buf bytes =
     (if buf_overflow buf then buf
      else if buf_capacity buf - length (buf_written buf) < length bytes then buf\<lparr>buf_overflow := True\<rparr>
      else buf\<lparr>buf_written := buf_written buf @ bytes\<rparr>)"

definition agent_debug_append_char :: "AgentDebugBuffer \<Rightarrow> char \<Rightarrow> AgentDebugBuffer" where
  "agent_debug_append_char buf c = agent_debug_append buf [c]"

text \<open>The loop up to the terminating zero byte.\<close>

fun agent_debug_write_bytes :: "AgentDebugBuffer \<Rightarrow> string \<Rightarrow> AgentDebugBuffer" where
  "agent_debug_write_bytes buf [] = buf"
| "agent_debug_write_bytes buf (c # cs) =
     (if c = CHR 0x00 then buf
      else agent_debug_write_bytes
        (if c = quote_char then agent_debug_append_char (agent_debug_append_char buf backslash_char) quote_char
         else if c = backslash_char then agent_debug_append_char (agent_debug_append_char buf backslash_char) backslash_char
         else if code c \<in> {8, 9, 10, 12, 13}
         then agent_debug_append_char (agent_debug_append_char buf backslash_char) ((''btn'' @ [CHR 0x00] @ ''fr'') ! (code c - 8))
         else if code c < 32
         then foldl agent_debug_append_char buf [backslash_char, CHR ''u'', CHR ''0'', CHR ''0'',
                ''0123456789abcdef'' ! (code c div 16 mod 16), ''0123456789abcdef'' ! (code c mod 16)]
         else agent_debug_append_char buf c) cs)"

definition agent_debug_write_string :: "AgentDebugBuffer \<Rightarrow> string option \<Rightarrow> AgentDebugBuffer" where
  "agent_debug_write_string buf s =
     (let buf = agent_debug_append_char buf quote_char;
          buf = (case s of None \<Rightarrow> buf | Some bytes \<Rightarrow> agent_debug_write_bytes buf bytes)
      in agent_debug_append_char buf quote_char)"

definition agent_debug_json_string :: "string option \<Rightarrow> string" where
  "agent_debug_json_string s =
     buf_written (agent_debug_write_string \<lparr>buf_written = [], buf_capacity = 65536 + 4096 - 1, buf_overflow = False\<rparr> s)"

definition until_zero :: "string \<Rightarrow> string" where
  "until_zero s = takeWhile (\<lambda>c. c \<noteq> CHR 0x00) s"

definition agent_debug_emit :: "string option \<Rightarrow> string option \<Rightarrow> string option \<Rightarrow> string option \<Rightarrow> int \<Rightarrow> string option" where
  "agent_debug_emit hypothesis_id loc msg data_json now =
     (case data_json of
        None \<Rightarrow> None
      | Some bytes \<Rightarrow>
          if until_zero bytes = [] then None
          else if list_ex (\<lambda>c. code c < 0x20) (until_zero bytes) then None
          else
            let buf = \<lparr>buf_written = [], buf_capacity = 65536 + 4096, buf_overflow = False\<rparr>;
                buf = agent_debug_append_char buf CHR 0x7B;
                buf = agent_debug_write_string buf (Some ''hypothesisId'');
                buf = agent_debug_append_char buf CHR '':'';
                buf = agent_debug_write_string buf hypothesis_id;
                buf = agent_debug_append_char buf CHR '','';
                buf = agent_debug_write_string buf (Some ''location'');
                buf = agent_debug_append_char buf CHR '':'';
                buf = agent_debug_write_string buf loc;
                buf = agent_debug_append_char buf CHR '','';
                buf = agent_debug_write_string buf (Some ''message'');
                buf = agent_debug_append_char buf CHR '':'';
                buf = agent_debug_write_string buf msg;
                buf = agent_debug_append_char buf CHR '','';
                buf = agent_debug_write_string buf (Some ''data'');
                buf = agent_debug_append_char buf CHR '':'';
                buf = agent_debug_append buf (until_zero bytes);
                buf = agent_debug_append_char buf CHR '','';
                buf = agent_debug_write_string buf (Some ''timestamp'');
                buf = agent_debug_append_char buf CHR '':'';
                buf = agent_debug_append buf (decimal now);
                buf = agent_debug_append_char buf CHR 0x7D;
                buf = agent_debug_append_char buf CHR 0x0A
            in if buf_overflow buf \<or> 65536 < length (buf_written buf) then None else Some (buf_written buf))"

section \<open>C++\<close>

definition cpp_escape :: "char \<Rightarrow> string" where
  "cpp_escape c =
     (if c = quote_char then [backslash_char, quote_char]
      else if c = backslash_char then [backslash_char, backslash_char]
      else if code c = 8 then [backslash_char, CHR ''b'']
      else if code c = 9 then [backslash_char, CHR ''t'']
      else if code c = 10 then [backslash_char, CHR ''n'']
      else if code c = 12 then [backslash_char, CHR ''f'']
      else if code c = 13 then [backslash_char, CHR ''r'']
      else if code c < 32 then [backslash_char, CHR ''u'', CHR ''0'', CHR ''0'',
             ''0123456789abcdef'' ! (code c div 16 mod 16), ''0123456789abcdef'' ! (code c mod 16)]
      else [c])"

definition cpp_json_string :: "string \<Rightarrow> string" where
  "cpp_json_string s = foldl (\<lambda>out c. out @ cpp_escape c) [quote_char] s @ [quote_char]"

definition cpp_emit :: "string \<Rightarrow> string \<Rightarrow> string \<Rightarrow> string \<Rightarrow> int \<Rightarrow> string option" where
  "cpp_emit hypothesis_id loc msg data_json now =
     (if data_json = [] then None
      else if list_ex (\<lambda>c. code c < 0x20) data_json then None
      else
        let out = [CHR 0x7B] @ cpp_json_string ''hypothesisId'' @ '':'' @ cpp_json_string hypothesis_id @ '',''
              @ cpp_json_string ''location'' @ '':'' @ cpp_json_string loc @ '',''
              @ cpp_json_string ''message'' @ '':'' @ cpp_json_string msg @ '',''
              @ cpp_json_string ''data'' @ '':'' @ data_json @ '',''
              @ cpp_json_string ''timestamp'' @ '':'' @ decimal now @ [CHR 0x7D] @ [CHR 0x0A]
        in if 65536 < length out then None else Some out)"

section \<open>Rust\<close>

text \<open>The bytes of a character outside ASCII are copied, so the loop over characters is one over bytes.\<close>

definition rust_escape :: "char \<Rightarrow> string" where
  "rust_escape c =
     (if c = quote_char then [backslash_char, quote_char]
      else if c = backslash_char then [backslash_char, backslash_char]
      else if code c = 8 then [backslash_char, char_of (98::nat)]
      else if code c = 9 then [backslash_char, char_of (116::nat)]
      else if code c = 10 then [backslash_char, char_of (110::nat)]
      else if code c = 12 then [backslash_char, char_of (102::nat)]
      else if code c = 13 then [backslash_char, char_of (114::nat)]
      else if code c < 32 then [backslash_char, char_of (117::nat), char_of (48::nat), char_of (48::nat),
             ''0123456789abcdef'' ! (code c div 16 mod 16), ''0123456789abcdef'' ! (code c mod 16)]
      else [c])"

definition rust_json_string :: "string \<Rightarrow> string" where
  "rust_json_string s = foldl (\<lambda>out c. out @ rust_escape c) [quote_char] s @ [quote_char]"

definition rust_emit :: "string \<Rightarrow> string \<Rightarrow> string \<Rightarrow> string \<Rightarrow> int \<Rightarrow> string option" where
  "rust_emit hypothesis_id loc msg data_json now =
     (if data_json = [] then None
      else if list_ex (\<lambda>byte. code byte < 32) data_json then None
      else
        let out = [CHR 0x7B] @ rust_json_string ''hypothesisId'' @ '':'' @ rust_json_string hypothesis_id @ '',''
              @ rust_json_string ''location'' @ '':'' @ rust_json_string loc @ '',''
              @ rust_json_string ''message'' @ '':'' @ rust_json_string msg @ '',''
              @ rust_json_string ''data'' @ '':'' @ data_json @ '',''
              @ rust_json_string ''timestamp'' @ '':'' @ decimal now @ [CHR 0x7D] @ [CHR 0x0A]
        in if 65536 < length out then None else Some out)"

section \<open>Escapes\<close>

text \<open>The escape of a byte; on texts without lone surrogates \<open>JSON.stringify\<close> escapes byte by byte.\<close>

definition byte_escape :: "char \<Rightarrow> string" where
  "byte_escape c =
     (case short_escape c of Some x \<Rightarrow> [CHR 0x5C, x]
      | None \<Rightarrow> if code c < 32 then CHR 0x5C # ''u00'' @ [hex_char (code c div 16), hex_char (code c mod 16)] else [c])"

lemma escape_bytes: "no_surrogates s \<Longrightarrow> escape_text s = concat (map byte_escape s)"
proof (induction s)
  case (Cons c cs)
  then have "escape_text cs = concat (map byte_escape cs)" by (simp add: no_surrogates_tl)
  moreover have "\<not> (code c = 237 \<and> 160 \<le> code d \<and> code d < 192)" if "cs = d # r" for d r
    using Cons.prems that by simp
  ultimately show ?case
    by (subst escape_text.simps(2)) (auto simp: byte_escape_def simp del: escape_text.simps split: option.split list.split)
qed simp

lemma short_escape_code:
  "short_escape c = (if code c = 8 then Some CHR ''b'' else if code c = 9 then Some CHR ''t'' else if code c = 10 then Some CHR ''n''
     else if code c = 12 then Some CHR ''f'' else if code c = 13 then Some CHR ''r'' else if code c = 34 then Some CHR 0x22
     else if code c = 92 then Some CHR 0x5C else None)"
proof -
  have "c = CHR 0x08 \<longleftrightarrow> code c = 8" "c = CHR 0x09 \<longleftrightarrow> code c = 9" "c = CHR 0x0A \<longleftrightarrow> code c = 10" "c = CHR 0x0C \<longleftrightarrow> code c = 12"
    "c = CHR 0x0D \<longleftrightarrow> code c = 13" "c = CHR 0x22 \<longleftrightarrow> code c = 34" "c = CHR 0x5C \<longleftrightarrow> code c = 92"
    using of_char_eq_iff [where ?'a = nat, of c "CHR 0x08"] of_char_eq_iff [where ?'a = nat, of c "CHR 0x09"]
      of_char_eq_iff [where ?'a = nat, of c "CHR 0x0A"] of_char_eq_iff [where ?'a = nat, of c "CHR 0x0C"]
      of_char_eq_iff [where ?'a = nat, of c "CHR 0x0D"] of_char_eq_iff [where ?'a = nat, of c "CHR 0x22"]
      of_char_eq_iff [where ?'a = nat, of c "CHR 0x5C"] by simp_all
  then show ?thesis by (simp add: short_escape_def)
qed

lemma special_codes: "c = quote_char \<longleftrightarrow> code c = 34" "c = backslash_char \<longleftrightarrow> code c = 92" "c = CHR 0x00 \<longleftrightarrow> code c = 0"
  using of_char_eq_iff [where ?'a = nat, of c "CHR 0x22"] of_char_eq_iff [where ?'a = nat, of c "CHR 0x5C"]
    of_char_eq_iff [where ?'a = nat, of c "CHR 0x00"] by (simp_all add: quote_char_def backslash_char_def)

lemma cpp_escape_byte: "cpp_escape = byte_escape"
  by (rule ext) (simp add: cpp_escape_def byte_escape_def special_codes short_escape_code hex_char_def;
      simp add: quote_char_def backslash_char_def)

lemma rust_escape_byte: "rust_escape = byte_escape"
proof (rule ext)
  fix c
  have "char_of (98::nat) = CHR ''b''" "char_of (116::nat) = CHR ''t''" "char_of (110::nat) = CHR ''n''"
    "char_of (102::nat) = CHR ''f''" "char_of (114::nat) = CHR ''r''" "char_of (117::nat) = CHR ''u''" "char_of (48::nat) = CHR ''0''"
    by (simp_all flip: of_char_eq_iff [where ?'a = nat])
  then show "rust_escape c = byte_escape c"
    by (simp add: rust_escape_def byte_escape_def special_codes short_escape_code hex_char_def;
        simp add: quote_char_def backslash_char_def)
qed

lemma foldl_pieces: "foldl (\<lambda>out c. out @ f c) acc s = acc @ concat (map f s)"
  by (induction s arbitrary: acc) simp_all

lemma json_strings:
  assumes "no_surrogates s"
  shows "cpp_json_string s = quote_text s" "rust_json_string s = quote_text s"
  using escape_bytes [OF assms]
  by (simp_all add: cpp_json_string_def rust_json_string_def foldl_pieces cpp_escape_byte rust_escape_byte quote_text_def quote_char_def)

section \<open>The buffer\<close>

text \<open>After the writing of \<open>t\<close>: all of it, or an overflow.\<close>

definition written :: "nat \<Rightarrow> string \<Rightarrow> AgentDebugBuffer \<Rightarrow> bool" where
  "written n t buf \<longleftrightarrow> buf_capacity buf = n \<and>
     (if length t \<le> n then \<not> buf_overflow buf \<and> buf_written buf = t else buf_overflow buf)"

lemma written_append: "written n t buf \<Longrightarrow> written n (t @ x) (agent_debug_append buf x)"
  by (cases "length t \<le> n") (auto simp: written_def agent_debug_append_def)

lemma written_char: "written n t buf \<Longrightarrow> written n (t @ [c]) (agent_debug_append_char buf c)"
  by (simp add: agent_debug_append_char_def written_append)

lemma written_chars: "written n t buf \<Longrightarrow> written n (t @ cs) (foldl agent_debug_append_char buf cs)"
proof (induction cs arbitrary: t buf)
  case (Cons c cs)
  from Cons.IH [OF written_char [OF Cons.prems]] show ?case by simp
qed simp

text \<open>The body of the loop writes the escape of the byte.\<close>

lemma written_byte:
  assumes "written n t buf"
  shows "written n (t @ byte_escape c)
    (if c = quote_char then agent_debug_append_char (agent_debug_append_char buf backslash_char) quote_char
     else if c = backslash_char then agent_debug_append_char (agent_debug_append_char buf backslash_char) backslash_char
     else if code c \<in> {8, 9, 10, 12, 13}
     then agent_debug_append_char (agent_debug_append_char buf backslash_char) ((''btn'' @ [CHR 0x00] @ ''fr'') ! (code c - 8))
     else if code c < 32
     then foldl agent_debug_append_char buf [backslash_char, CHR ''u'', CHR ''0'', CHR ''0'',
            ''0123456789abcdef'' ! (code c div 16 mod 16), ''0123456789abcdef'' ! (code c mod 16)]
     else agent_debug_append_char buf c)"
proof -
  have two: "written n (t @ [x, y]) (agent_debug_append_char (agent_debug_append_char buf x) y)" for x y
    using written_chars [OF assms, of "[x, y]"] by simp
  have "byte_escape c = (if c = quote_char then [backslash_char, quote_char]
     else if c = backslash_char then [backslash_char, backslash_char]
     else if code c \<in> {8, 9, 10, 12, 13} then [backslash_char, (''btn'' @ [CHR 0x00] @ ''fr'') ! (code c - 8)]
     else if code c < 32 then [backslash_char, CHR ''u'', CHR ''0'', CHR ''0'',
            ''0123456789abcdef'' ! (code c div 16 mod 16), ''0123456789abcdef'' ! (code c mod 16)]
     else [c])"
    by (simp add: byte_escape_def special_codes short_escape_code hex_char_def; simp add: quote_char_def backslash_char_def)
  then show ?thesis using assms by (simp add: two written_chars written_char del: foldl.simps)
qed

lemma written_bytes: "written n t buf \<Longrightarrow> CHR 0x00 \<notin> set s \<Longrightarrow>
    written n (t @ concat (map byte_escape s)) (agent_debug_write_bytes buf s)"
proof (induction s arbitrary: t buf)
  case (Cons c s)
  from Cons.IH [OF written_byte [OF Cons.prems(1), of c]] Cons.prems(2) show ?case by auto
qed simp

lemma written_string:
  assumes "written n t buf" "CHR 0x00 \<notin> set s" "no_surrogates s"
  shows "written n (t @ quote_text s) (agent_debug_write_string buf (Some s))"
  using written_char [OF written_bytes [OF written_char [OF assms(1), of quote_char] assms(2)], of quote_char] escape_bytes [OF assms(3)]
  by (simp add: agent_debug_write_string_def Let_def quote_text_def quote_char_def)

text \<open>The helper's fallback for data is the JSON text of the string, unless that is above the limit of a record.\<close>

lemma json_string_fits:
  assumes "CHR 0x00 \<notin> set s" "no_surrogates s" "length (quote_text s) \<le> 65536"
  shows "agent_debug_json_string (Some s) = quote_text s"
  using written_string [of "65536 + 4096 - 1" "[]" "\<lparr>buf_written = [], buf_capacity = 65536 + 4096 - 1, buf_overflow = False\<rparr>" s] assms
  by (simp add: agent_debug_json_string_def written_def)

section \<open>The line of an event\<close>

definition probe_line :: "string \<Rightarrow> string \<Rightarrow> string \<Rightarrow> string \<Rightarrow> int \<Rightarrow> string" where
  "probe_line h l m d now = [CHR 0x7B] @ quote_text ''hypothesisId'' @ '':'' @ quote_text h @ '',''
     @ quote_text ''location'' @ '':'' @ quote_text l @ '','' @ quote_text ''message'' @ '':'' @ quote_text m @ '',''
     @ quote_text ''data'' @ '':'' @ d @ '','' @ quote_text ''timestamp'' @ '':'' @ decimal now @ [CHR 0x7D]"

lemma nat_text_shift: "0 < m \<Longrightarrow> nat_text (m * 10 ^ k) = nat_text m @ replicate k CHR ''0''"
proof (induction k)
  case (Suc k)
  let ?x = "m * 10 ^ k"
  have "0 < ?x" using Suc.prems by simp
  then have "nat_text (?x * 10) = nat_text ?x @ [digit_char 0]" by (subst nat_text.simps) simp
  with Suc show ?case by (simp add: digit_char_def replicate_append_same mult.assoc mult.commute [of 10])
qed simp

lemma decimal_number:
  assumes "\<bar>now\<bar> < 10 ^ 21"
  shows "decimal now = num_text (num_of_int now)"
proof -
  obtain m k where mk: "num_of_int now = Dec m (int k)" "now = m * 10 ^ k" "m = 0 \<Longrightarrow> k = 0"
    by (rule num_of_int_cases [of now]) (rule that)
  show ?thesis
  proof (cases "m = 0")
    case False
    then have m: "0 < nat \<bar>m\<bar>" by simp
    have n: "nat \<bar>now\<bar> = nat \<bar>m\<bar> * 10 ^ k" by (simp add: mk(2) abs_mult nat_mult_distrib nat_power_eq)
    have shifted: "nat_text (nat \<bar>now\<bar>) = nat_text (nat \<bar>m\<bar>) @ replicate k CHR ''0''" using nat_text_shift [OF m] n by simp
    have "0 < nat \<bar>now\<bar>" using m n by simp
    from nat_text_lower [OF this] have "10 ^ (length (nat_text (nat \<bar>now\<bar>)) - 1) \<le> nat \<bar>now\<bar>" .
    also have "\<dots> < 10 ^ 21" using assms by (simp add: nat_less_iff)
    finally have "length (nat_text (nat \<bar>now\<bar>)) - 1 < 21" by (rule power_less_imp_less_exp [rotated]) simp
    then have small: "length (nat_text (nat \<bar>m\<bar>)) + k \<le> 21" using shifted by simp
    have "now < 0 \<longleftrightarrow> m < 0" by (simp add: mk(2) mult_less_0_iff)
    with False small mk(1) shifted show ?thesis by (simp add: decimal_def dec_text_def Let_def)
  qed (use mk in \<open>simp add: decimal_def dec_text_def nat_text.simps [of 0] digit_char_def\<close>)
qed

lemma probe_line_text:
  assumes "0 \<le> now" "now \<le> int max_safe_integer"
  shows "probe_line (obs_hypothesisId ob) (obs_location ob) (obs_message ob) (json_text v) now =
    json_text (JObj (observed_event ob v now))"
  using decimal_number [of now] assms by (simp add: max_safe_integer_def probe_line_def observed_event_def)

section \<open>The helpers send the line\<close>

definition probe_text :: "string \<Rightarrow> bool" where
  "probe_text s \<longleftrightarrow> CHR 0x00 \<notin> set s \<and> no_surrogates s"

lemma printable_data: "printable d \<Longrightarrow> CHR 0x00 \<notin> set d \<and> until_zero d = d \<and> \<not> list_ex (\<lambda>c. code c < 0x20) d"
proof -
  assume d: "printable d"
  then have nul: "CHR 0x00 \<notin> set d" by (auto simp: printable_def)
  then have "until_zero d = d" by (auto simp: until_zero_def takeWhile_eq_all_conv)
  with d nul show ?thesis by (auto simp: printable_def list_ex_iff)
qed

lemma written_member:
  assumes "written n t buf" "probe_text k" "probe_text s"
  shows "written n (t @ quote_text k @ '':'' @ quote_text s @ '','')
    (agent_debug_append_char (agent_debug_write_string (agent_debug_append_char (agent_debug_write_string buf (Some k)) CHR '':'')
       (Some s)) CHR '','')"
  using written_char [OF written_string [OF written_char [OF written_string [OF assms(1), of k], of "CHR '':''"], of s], of "CHR '',''"]
    assms(2,3) by (simp add: probe_text_def)

lemma written_key: "written n t buf \<Longrightarrow> probe_text k \<Longrightarrow>
    written n (t @ quote_text k @ '':'') (agent_debug_append_char (agent_debug_write_string buf (Some k)) CHR '':'')"
  using written_char [OF written_string [of n t buf k], of "CHR '':''"] by (simp add: probe_text_def)

lemma probe_keys: "probe_text ''hypothesisId''" "probe_text ''location''" "probe_text ''message''" "probe_text ''data''"
  "probe_text ''timestamp''"
  by (simp_all add: probe_text_def)

lemma agent_debug_emit_line:
  assumes "probe_text h" "probe_text l" "probe_text m" "printable d" "d \<noteq> []"
  shows "agent_debug_emit (Some h) (Some l) (Some m) (Some d) now =
    (if length (probe_line h l m d now) < 65536 then Some (probe_line h l m d now @ [CHR 0x0A]) else None)"
proof -
  let ?n = "65536 + 4096"
  let ?start = "\<lparr>buf_written = [], buf_capacity = ?n, buf_overflow = False\<rparr>"
  have start: "written ?n [] ?start" by (simp add: written_def)
  note w = written_member [OF written_member [OF written_member [OF written_char [OF start, of "CHR 0x7B"] probe_keys(1) assms(1)]
    probe_keys(2) assms(2)] probe_keys(3) assms(3)]
  note w = written_char [OF written_append [OF written_key [OF w probe_keys(4)], of d], of "CHR '',''"]
  note w = written_char [OF written_char [OF written_append [OF written_key [OF w probe_keys(5)], of "decimal now"],
    of "CHR 0x7D"], of "CHR 0x0A"]
  show ?thesis
    using w printable_data [OF assms(4)] assms(5)
    by (auto simp: agent_debug_emit_def Let_def written_def probe_line_def split: if_splits)
qed

lemma string_emit_line:
  assumes "probe_text h" "probe_text l" "probe_text m" "printable d" "d \<noteq> []"
  shows "cpp_emit h l m d now =
      (if length (probe_line h l m d now) < 65536 then Some (probe_line h l m d now @ [CHR 0x0A]) else None)"
    "rust_emit h l m d now =
      (if length (probe_line h l m d now) < 65536 then Some (probe_line h l m d now @ [CHR 0x0A]) else None)"
  using printable_data [OF assms(4)] assms json_strings probe_keys
  by (auto simp: cpp_emit_def rust_emit_def Let_def probe_line_def probe_text_def)

end
