(* ===== verification/Probe_Jvm.thy ===== *)
theory Probe_Jvm
  imports Probe_Redactors Probe_Lines
begin

text \<open>
  The helpers for Java and Kotlin (\<open>src/probes/java.ts\<close>, \<open>kotlin.ts\<close>), which write their JSON by hand. A value is
  a scalar or a reference to a map, an iterable, an array or an object with methods and fields; the keys of a
  map are their texts. Names of methods are ASCII. The texts of floating-point numbers are an argument.
\<close>

section \<open>Values\<close>

datatype java_scalar = JavaNull | JavaText string | JavaBoolean bool | JavaInteger int | JavaFloating jsnum

datatype java_value = JavaScalar java_scalar | JavaEnum string | JavaRef nat

record java_method =
  method_name :: string
  parameter_count :: nat
  returns_void :: bool
  returns_boolean :: bool
  method_static :: bool
  of_object :: bool

record java_field =
  java_field_name :: string
  field_static :: bool

text \<open>The result of a call or a read, \<open>None\<close> when it throws.\<close>

datatype java_node =
    JavaMap "(string \<times> java_value) list"
  | JavaIterable "java_value list"
  | JavaArray "java_value list"
  | JavaBean "(java_method \<times> java_value option) list" "(java_field \<times> java_value option) list"

section \<open>Java\<close>

definition java_decapitalize :: "string \<Rightarrow> string" where
  "java_decapitalize name =
     (case name of
        [] \<Rightarrow> name
      | c # cs \<Rightarrow> if 1 < length name \<and> is_upper c \<and> is_upper (hd cs) then name else ascii_lower c # cs)"

text \<open>The property that a method is the getter of.\<close>

definition java_property :: "java_method \<Rightarrow> string option" where
  "java_property m =
     (if parameter_count m \<noteq> 0 \<or> returns_void m then None
      else if method_static m \<or> of_object m then None
      else if starts_with (method_name m) ''get'' \<and> 3 < length (method_name m)
      then Some (java_decapitalize (drop 3 (method_name m)))
      else if starts_with (method_name m) ''is'' \<and> 2 < length (method_name m) \<and> returns_boolean m
      then Some (java_decapitalize (drop 2 (method_name m)))
      else None)"

definition java_members :: "(java_method \<times> java_value option) list \<Rightarrow> (java_field \<times> java_value option) list \<Rightarrow>
    (string \<times> java_value) list" where
  "java_members methods flds =
     List.map_filter (\<lambda>(m, raw). case java_property m of None \<Rightarrow> None | Some name \<Rightarrow> map_option (Pair name) raw) methods
     @ List.map_filter (\<lambda>(f, raw). if field_static f then None else map_option (Pair (java_field_name f)) raw) flds"

abbreviation java_masked :: "java_scalar printed" where
  "java_masked \<equiv> Plain (JavaText ''[REDACTED]'')"

function java_redact :: "(nat \<Rightarrow> java_node) \<Rightarrow> java_value \<Rightarrow> nat list \<Rightarrow> nat \<Rightarrow> java_scalar printed option" where
  "java_redact heap value active depth =
     (if 64 < depth then None
      else case value of
        JavaScalar x \<Rightarrow> Some (Plain x)
      | JavaEnum name \<Rightarrow> Some (Plain (JavaText name))
      | JavaRef a \<Rightarrow>
          if a \<in> set active then None
          else case heap a of
              JavaMap es \<Rightarrow>
                map_option (\<lambda>rs. Keyed (put_all rs)) (cover_entries java_isSecretKey java_masked
                  (\<lambda>x. java_redact heap x (a # active) (depth + 1)) es)
            | JavaIterable xs \<Rightarrow> map_option Listed (cover_items (\<lambda>x. java_redact heap x (a # active) (depth + 1)) xs)
            | JavaArray xs \<Rightarrow> map_option Listed (cover_items (\<lambda>x. java_redact heap x (a # active) (depth + 1)) xs)
            | JavaBean methods flds \<Rightarrow>
                map_option (\<lambda>rs. Keyed (put_all rs)) (cover_entries java_isSecretKey java_masked
                  (\<lambda>x. java_redact heap x (a # active) (depth + 1)) (java_members methods flds)))"
  by pat_completeness auto
termination
  by (relation "measure (\<lambda>(heap, v, active, depth). 65 - depth)") auto

declare java_redact.simps [simp del]

definition java_symbol :: "char \<Rightarrow> string" where
  "java_symbol c =
     (if c = quote_char then [backslash_char, quote_char]
      else if c = backslash_char then [backslash_char, backslash_char]
      else if code c = 8 then [backslash_char, CHR ''b'']
      else if code c = 9 then [backslash_char, CHR ''t'']
      else if code c = 10 then [backslash_char, CHR ''n'']
      else if code c = 12 then [backslash_char, CHR ''f'']
      else if code c = 13 then [backslash_char, CHR ''r'']
      else if code c < 32 then [backslash_char, CHR ''u'', CHR ''0'', CHR ''0'',
             ''0123456789abcdef'' ! (code c div 16 mod 16), ''0123456789abcdef'' ! (code c mod 16)]
      else [c])"

definition java_writeString :: "string \<Rightarrow> string \<Rightarrow> string" where
  "java_writeString out s = foldl (\<lambda>out c. out @ java_symbol c) (out @ [quote_char]) s @ [quote_char]"

fun java_writeValue :: "(jsnum \<Rightarrow> string) \<Rightarrow> string \<Rightarrow> java_scalar printed \<Rightarrow> string option"
  and java_writeEntries :: "(jsnum \<Rightarrow> string) \<Rightarrow> string \<Rightarrow> bool \<Rightarrow> (string \<times> java_scalar printed) list \<Rightarrow> string option"
  and java_writeItems :: "(jsnum \<Rightarrow> string) \<Rightarrow> string \<Rightarrow> bool \<Rightarrow> java_scalar printed list \<Rightarrow> string option" where
  "java_writeValue floating out (Plain JavaNull) = Some (out @ ''null'')"
| "java_writeValue floating out (Plain (JavaText s)) = Some (java_writeString out s)"
| "java_writeValue floating out (Plain (JavaBoolean b)) = Some (out @ (if b then ''true'' else ''false''))"
| "java_writeValue floating out (Plain (JavaFloating x)) = (if \<not> is_finite x then None else Some (out @ floating x))"
| "java_writeValue floating out (Plain (JavaInteger i)) = Some (out @ decimal i)"
| "java_writeValue floating out (Keyed es) =
     map_option (\<lambda>out. out @ [CHR 0x7D]) (java_writeEntries floating (out @ [CHR 0x7B]) True es)"
| "java_writeValue floating out (Listed ts) =
     map_option (\<lambda>out. out @ '']'') (java_writeItems floating (out @ ''['') True ts)"
| "java_writeEntries floating out first [] = Some out"
| "java_writeEntries floating out first ((key, t) # es) =
     (case java_writeValue floating (java_writeString (if first then out else out @ '','') key @ '':'') t of
        None \<Rightarrow> None
      | Some out \<Rightarrow> java_writeEntries floating out False es)"
| "java_writeItems floating out first [] = Some out"
| "java_writeItems floating out first (t # ts) =
     (case java_writeValue floating (if first then out else out @ '','') t of
        None \<Rightarrow> None
      | Some out \<Rightarrow> java_writeItems floating out False ts)"

text \<open>\<open>getBytes\<close> gives a question mark for a surrogate without its partner.\<close>

fun java_bytes :: "string \<Rightarrow> string" where
  "java_bytes (c # d # e # cs) =
     (if code c = 237 \<and> 160 \<le> code d \<and> code d < 192 then CHR ''?'' # java_bytes cs else c # java_bytes (d # e # cs))"
| "java_bytes cs = cs"

definition java_Emit :: "(jsnum \<Rightarrow> string) \<Rightarrow> (nat \<Rightarrow> java_node) \<Rightarrow> string \<Rightarrow> string \<Rightarrow> string \<Rightarrow> java_value \<Rightarrow> int \<Rightarrow> string option" where
  "java_Emit floating heap hypothesis_id loc msg observed now =
     (let out = [CHR 0x7B];
          out = java_writeString out ''hypothesisId'' @ '':'';
          out = java_writeString out hypothesis_id @ '','';
          out = java_writeString out ''location'' @ '':'';
          out = java_writeString out loc @ '','';
          out = java_writeString out ''message'' @ '':'';
          out = java_writeString out msg @ '','';
          out = java_writeString out ''data'' @ '':''
      in case java_redact heap observed [] 0 of
          None \<Rightarrow> None
        | Some value \<Rightarrow>
            (case java_writeValue floating out value of
               None \<Rightarrow> None
             | Some out \<Rightarrow>
                 let out = java_writeString (out @ '','') ''timestamp'' @ '':'';
                     payload = java_bytes (out @ decimal now @ [CHR 0x7D] @ [CHR 0x0A])
                 in if 65536 < length payload then None else Some payload))"

section \<open>Kotlin\<close>

definition kotlin_decapitalize :: "string \<Rightarrow> string" where
  "kotlin_decapitalize name =
     (case name of
        [] \<Rightarrow> name
      | c # cs \<Rightarrow> if 1 < length name \<and> is_upper c \<and> is_upper (hd cs) then name else ascii_lower c # cs)"

definition kotlin_property :: "java_method \<Rightarrow> string option" where
  "kotlin_property m =
     (if parameter_count m \<noteq> 0 \<or> returns_void m then None
      else if method_static m \<or> of_object m then None
      else if starts_with (method_name m) ''get'' \<and> 3 < length (method_name m)
      then Some (kotlin_decapitalize (drop 3 (method_name m)))
      else if starts_with (method_name m) ''is'' \<and> 2 < length (method_name m) \<and> returns_boolean m
      then Some (kotlin_decapitalize (drop 2 (method_name m)))
      else None)"

definition kotlin_members :: "(java_method \<times> java_value option) list \<Rightarrow> (java_field \<times> java_value option) list \<Rightarrow>
    (string \<times> java_value) list" where
  "kotlin_members methods flds =
     List.map_filter (\<lambda>(m, raw). case kotlin_property m of None \<Rightarrow> None | Some name \<Rightarrow> map_option (Pair name) raw) methods
     @ List.map_filter (\<lambda>(f, raw). if field_static f then None else map_option (Pair (java_field_name f)) raw) flds"

function kotlin_redact :: "(nat \<Rightarrow> java_node) \<Rightarrow> java_value \<Rightarrow> nat list \<Rightarrow> nat \<Rightarrow> java_scalar printed option" where
  "kotlin_redact heap value active depth =
     (if 64 < depth then None
      else case value of
        JavaScalar x \<Rightarrow> Some (Plain x)
      | JavaEnum name \<Rightarrow> Some (Plain (JavaText name))
      | JavaRef a \<Rightarrow>
          if a \<in> set active then None
          else case heap a of
              JavaMap es \<Rightarrow>
                map_option (\<lambda>rs. Keyed (put_all rs)) (cover_entries kotlin_isSecretKey java_masked
                  (\<lambda>x. kotlin_redact heap x (a # active) (depth + 1)) es)
            | JavaIterable xs \<Rightarrow> map_option Listed (cover_items (\<lambda>x. kotlin_redact heap x (a # active) (depth + 1)) xs)
            | JavaArray xs \<Rightarrow> map_option Listed (cover_items (\<lambda>x. kotlin_redact heap x (a # active) (depth + 1)) xs)
            | JavaBean methods flds \<Rightarrow>
                map_option (\<lambda>rs. Keyed (put_all rs)) (cover_entries kotlin_isSecretKey java_masked
                  (\<lambda>x. kotlin_redact heap x (a # active) (depth + 1)) (kotlin_members methods flds)))"
  by pat_completeness auto
termination
  by (relation "measure (\<lambda>(heap, v, active, depth). 65 - depth)") auto

declare kotlin_redact.simps [simp del]

definition kotlin_symbol :: "char \<Rightarrow> string" where
  "kotlin_symbol c =
     (if c = quote_char then [backslash_char, quote_char]
      else if c = backslash_char then [backslash_char, backslash_char]
      else if code c = 8 then [backslash_char, CHR ''b'']
      else if code c = 9 then [backslash_char, CHR ''t'']
      else if code c = 10 then [backslash_char, CHR ''n'']
      else if code c = 12 then [backslash_char, CHR ''f'']
      else if code c = 13 then [backslash_char, CHR ''r'']
      else if code c < 32 then [backslash_char, CHR ''u'', CHR ''0'', CHR ''0'',
             ''0123456789abcdef'' ! (code c div 16 mod 16), ''0123456789abcdef'' ! (code c mod 16)]
      else [c])"

definition kotlin_writeString :: "string \<Rightarrow> string \<Rightarrow> string" where
  "kotlin_writeString out s = foldl (\<lambda>out c. out @ kotlin_symbol c) (out @ [quote_char]) s @ [quote_char]"

fun kotlin_writeValue :: "(jsnum \<Rightarrow> string) \<Rightarrow> string \<Rightarrow> java_scalar printed \<Rightarrow> string option"
  and kotlin_writeEntries :: "(jsnum \<Rightarrow> string) \<Rightarrow> string \<Rightarrow> bool \<Rightarrow> (string \<times> java_scalar printed) list \<Rightarrow> string option"
  and kotlin_writeItems :: "(jsnum \<Rightarrow> string) \<Rightarrow> string \<Rightarrow> bool \<Rightarrow> java_scalar printed list \<Rightarrow> string option" where
  "kotlin_writeValue floating out (Plain JavaNull) = Some (out @ ''null'')"
| "kotlin_writeValue floating out (Plain (JavaText s)) = Some (kotlin_writeString out s)"
| "kotlin_writeValue floating out (Plain (JavaBoolean b)) = Some (out @ (if b then ''true'' else ''false''))"
| "kotlin_writeValue floating out (Plain (JavaFloating x)) = (if \<not> is_finite x then None else Some (out @ floating x))"
| "kotlin_writeValue floating out (Plain (JavaInteger i)) = Some (out @ decimal i)"
| "kotlin_writeValue floating out (Keyed es) =
     map_option (\<lambda>out. out @ [CHR 0x7D]) (kotlin_writeEntries floating (out @ [CHR 0x7B]) True es)"
| "kotlin_writeValue floating out (Listed ts) =
     map_option (\<lambda>out. out @ '']'') (kotlin_writeItems floating (out @ ''['') True ts)"
| "kotlin_writeEntries floating out first [] = Some out"
| "kotlin_writeEntries floating out first ((key, t) # es) =
     (case kotlin_writeValue floating (kotlin_writeString (if first then out else out @ '','') key @ '':'') t of
        None \<Rightarrow> None
      | Some out \<Rightarrow> kotlin_writeEntries floating out False es)"
| "kotlin_writeItems floating out first [] = Some out"
| "kotlin_writeItems floating out first (t # ts) =
     (case kotlin_writeValue floating (if first then out else out @ '','') t of
        None \<Rightarrow> None
      | Some out \<Rightarrow> kotlin_writeItems floating out False ts)"

fun kotlin_bytes :: "string \<Rightarrow> string" where
  "kotlin_bytes (c # d # e # cs) =
     (if code c = 237 \<and> 160 \<le> code d \<and> code d < 192 then CHR ''?'' # kotlin_bytes cs else c # kotlin_bytes (d # e # cs))"
| "kotlin_bytes cs = cs"

definition kotlin_emit :: "(jsnum \<Rightarrow> string) \<Rightarrow> (nat \<Rightarrow> java_node) \<Rightarrow> string \<Rightarrow> string \<Rightarrow> string \<Rightarrow> java_value \<Rightarrow> int \<Rightarrow> string option" where
  "kotlin_emit floating heap hypothesis_id loc msg observed now =
     (let out = [CHR 0x7B];
          out = kotlin_writeString out ''hypothesisId'' @ '':'';
          out = kotlin_writeString out hypothesis_id @ '','';
          out = kotlin_writeString out ''location'' @ '':'';
          out = kotlin_writeString out loc @ '','';
          out = kotlin_writeString out ''message'' @ '':'';
          out = kotlin_writeString out msg @ '','';
          out = kotlin_writeString out ''data'' @ '':''
      in case kotlin_redact heap observed [] 0 of
          None \<Rightarrow> None
        | Some value \<Rightarrow>
            (case kotlin_writeValue floating out value of
               None \<Rightarrow> None
             | Some out \<Rightarrow>
                 let out = kotlin_writeString (out @ '','') ''timestamp'' @ '':'';
                     payload = kotlin_bytes (out @ decimal now @ [CHR 0x7D] @ [CHR 0x0A])
                 in if 65536 < length payload then None else Some payload))"

section \<open>The two agree\<close>

lemma kotlin_texts: "kotlin_decapitalize = java_decapitalize" "kotlin_symbol = java_symbol"
  by (rule ext, simp add: kotlin_decapitalize_def java_decapitalize_def kotlin_symbol_def java_symbol_def)+

lemma same_property: "kotlin_property = java_property"
  by (rule ext) (simp add: kotlin_property_def java_property_def kotlin_texts)

lemma same_members: "kotlin_members = java_members"
  by (intro ext) (simp add: kotlin_members_def java_members_def same_property)

lemma same_writeString: "kotlin_writeString = java_writeString"
  by (intro ext) (simp add: kotlin_writeString_def java_writeString_def kotlin_texts)

lemma kotlin_writes:
  "kotlin_writeValue floating out t = java_writeValue floating out t"
  "kotlin_writeEntries floating out first es = java_writeEntries floating out first es"
  "kotlin_writeItems floating out first ts = java_writeItems floating out first ts"
  by (induction floating out t and floating out first es and floating out first ts
      rule: java_writeValue_java_writeEntries_java_writeItems.induct)
    (auto simp: same_writeString split: option.split)

lemma same_bytes: "kotlin_bytes s = java_bytes s"
  by (induction s rule: java_bytes.induct) simp_all

lemma same_redact: "kotlin_redact heap v active n = java_redact heap v active n"
proof (induction heap v active n rule: java_redact.induct)
  case (1 heap v active n)
  then show ?case
    unfolding kotlin_redact.simps [of heap v active n] java_redact.simps [of heap v active n]
    by (auto simp: same_tests same_members split: java_value.split java_node.split
      intro!: arg_cong [where f = "map_option _"] cover_items_cong cover_entries_cong)
qed

lemma same_emit: "kotlin_emit = java_Emit"
  by (intro ext) (simp add: kotlin_emit_def java_Emit_def same_writeString same_redact kotlin_writes same_bytes
      cong: option.case_cong)

section \<open>The contract\<close>

definition java_view :: "(nat \<Rightarrow> java_node) \<Rightarrow> java_value \<Rightarrow> (java_value, java_scalar) shape" where
  "java_view heap v =
     (case v of
        JavaScalar x \<Rightarrow> Scalar x
      | JavaEnum name \<Rightarrow> Scalar (JavaText name)
      | JavaRef a \<Rightarrow>
          (case heap a of
             JavaMap es \<Rightarrow> Entries es | JavaIterable xs \<Rightarrow> Items xs | JavaArray xs \<Rightarrow> Items xs
           | JavaBean methods flds \<Rightarrow> Entries (java_members methods flds)))"

definition java_identity :: "java_value \<Rightarrow> nat option" where
  "java_identity v = (case v of JavaRef a \<Rightarrow> Some a | _ \<Rightarrow> None)"

interpretation java: identity_redactor isSensitiveKey "java_view heap" java_identity put_all "JavaText ''[REDACTED]''" "java_redact heap"
  for heap
proof (unfold_locales, goal_cases)
  case (1 v active n)
  show ?case
    unfolding java_redact.simps [of heap v active n]
    by (cases v) (auto simp: same_tests java_view_def java_identity_def entering_def split: java_node.split)
qed (auto simp: java_view_def java_identity_def put_all_subset put_all_distinct split: java_value.splits)

section \<open>The text\<close>

fun java_json :: "java_scalar \<Rightarrow> json" where
  "java_json JavaNull = JNull"
| "java_json (JavaText s) = JStr s"
| "java_json (JavaBoolean b) = JBool b"
| "java_json (JavaInteger i) = JNum (num_of_int i)"
| "java_json (JavaFloating x) = JNum x"

text \<open>What the writer writes as \<open>JSON.stringify\<close> does; a \<open>long\<close> has at most 19 digits.\<close>

fun java_plain :: "(jsnum \<Rightarrow> string) \<Rightarrow> java_scalar printed \<Rightarrow> bool" where
  "java_plain floating (Plain (JavaText s)) = utf8_text s"
| "java_plain floating (Plain (JavaInteger i)) = (\<bar>i\<bar> < 10 ^ 21)"
| "java_plain floating (Plain (JavaFloating x)) = (is_finite x \<and> floating x = num_text x)"
| "java_plain floating (Plain _) = True"
| "java_plain floating (Listed ts) = list_all (java_plain floating) ts"
| "java_plain floating (Keyed es) = list_all (\<lambda>p. utf8_text (fst p) \<and> java_plain floating (snd p)) es"

lemma java_symbol_byte: "java_symbol = byte_escape"
  using cpp_escape_byte by (simp add: java_symbol_def cpp_escape_def fun_eq_iff)

lemma java_string: "no_surrogates s \<Longrightarrow> java_writeString out s = out @ quote_text s"
  by (simp add: java_writeString_def foldl_pieces java_symbol_byte escape_bytes quote_text_def quote_char_def)

lemma java_writes:
  "java_plain floating t \<Longrightarrow> java_writeValue floating out t = Some (out @ json_text (printed_json java_json t))"
  "list_all (\<lambda>p. utf8_text (fst p) \<and> java_plain floating (snd p)) es \<Longrightarrow>
    java_writeEntries floating out first es = Some (out @ (if first \<or> es = [] then [] else '','')
      @ join_with '','' (map (\<lambda>p. quote_text (fst p) @ '':'' @ json_text (printed_json java_json (snd p))) es))"
  "list_all (java_plain floating) ts \<Longrightarrow>
    java_writeItems floating out first ts = Some (out @ (if first \<or> ts = [] then [] else '','')
      @ join_with '','' (map (\<lambda>t. json_text (printed_json java_json t)) ts))"
proof (induction floating out t and floating out first es and floating out first ts
    rule: java_writeValue_java_writeEntries_java_writeItems.induct)
  case (9 floating out first key t es)
  then show ?case by (cases es) (auto simp: java_string utf8_no_surrogates)
next
  case (11 floating out first t ts)
  then show ?case by (cases ts) auto
qed (auto simp: java_string utf8_no_surrogates decimal_number comp_def)

lemma java_json_utf8: "java_plain floating t \<Longrightarrow> utf8_json (printed_json java_json t)"
proof (induction t rule: printed.induct)
  case (Plain x)
  then show ?case by (cases x) simp_all
qed (auto simp: list_all_iff)

lemma java_bytes_id: "no_surrogates s \<Longrightarrow> java_bytes s = s"
  by (induction s rule: java_bytes.induct) auto

text \<open>What is sent is the line of the event.\<close>

lemma java_Emit_line:
  assumes "utf8_text (obs_hypothesisId ob)" "utf8_text (obs_location ob)" "utf8_text (obs_message ob)"
    and "java_redact heap v [] 0 = Some t" "java_plain floating t" "0 \<le> now" "now \<le> int max_safe_integer"
  shows "java_Emit floating heap (obs_hypothesisId ob) (obs_location ob) (obs_message ob) v now =
    (let line = json_text (JObj (observed_event ob (printed_json java_json t) now))
     in if length line < 65536 then Some (line @ [CHR 0x0A]) else None)"
proof -
  let ?line = "json_text (JObj (observed_event ob (printed_json java_json t) now))"
  have keys: "no_surrogates ''hypothesisId''" "no_surrogates ''location''" "no_surrogates ''message''" "no_surrogates ''data''"
    "no_surrogates ''timestamp''" by simp_all
  have "utf8_json (JObj (observed_event ob (printed_json java_json t) now))"
    using assms(1-3) java_json_utf8 [OF assms(5)] by (auto simp: observed_event_def intro!: utf8_ascii)
  then have "utf8_text (?line @ [CHR 0x0A])" by (intro utf8_append utf8_json_text) (auto intro!: utf8_ascii)
  then have bytes: "java_bytes (?line @ [CHR 0x0A]) = ?line @ [CHR 0x0A]" by (intro java_bytes_id utf8_no_surrogates)
  have line: "?line = probe_line (obs_hypothesisId ob) (obs_location ob) (obs_message ob) (json_text (printed_json java_json t)) now"
    by (rule probe_line_text [symmetric]) fact+
  show ?thesis
    using bytes unfolding line java_Emit_def Let_def assms(4)
    by (simp add: java_writes(1) [OF assms(5)] java_string keys assms(1-3) utf8_no_surrogates probe_line_def)
qed

end
