(* ===== verification/Probe_Append.thy ===== *)
theory Probe_Append
  imports Probe_Jvm Observer_Facts
begin

text \<open>
  A line that a helper appends to the file of the session is stored by the observer: the polls that read
  it add one event, with the texts, the time and the data of the probe.
\<close>

definition utf8_observation :: "observation \<Rightarrow> bool" where
  "utf8_observation ob \<longleftrightarrow> utf8_text (obs_hypothesisId ob) \<and> utf8_text (obs_location ob) \<and> utf8_text (obs_message ob)"

definition observed_line :: "observation \<Rightarrow> json \<Rightarrow> int \<Rightarrow> string" where
  "observed_line ob v at = json_text (JObj (observed_event ob v at))"

definition stored_observation :: "observation \<Rightarrow> json \<Rightarrow> int \<Rightarrow> string \<Rightarrow> nat \<Rightarrow> int \<Rightarrow> event" where
  "stored_observation ob v at i n received =
     \<lparr>event_id = i, sequence = n, receivedAt = received, hypothesisId = obs_hypothesisId ob, location = obs_location ob,
      message = obs_message ob, data = redacted v, timestamp = num_of_int at\<rparr>"

lemma observed_parses:
  assumes "utf8_observation ob" "utf8_json v" "numbers_ok v" "0 \<le> at" "at \<le> int max_safe_integer"
  shows "parse_json (utf8_decode (observed_line ob v at)) = Some (JObj (observed_event ob v at))"
  unfolding observed_line_def
proof (rule parse_decoded)
  have "foldl obj_put [] (observed_event ob v at) = observed_event ob v at"
    by (rule foldl_obj_put) (auto simp: observed_event_def is_digit_def intro!: not_index_key)
  with assms num_of_int_integer [of "nat at"] show "numbers_ok (JObj (observed_event ob v at))"
    by (auto simp: observed_event_def simp del: integer_num.simps)
  show "utf8_json (JObj (observed_event ob v at))"
    using assms(1,2) by (auto simp: observed_event_def utf8_observation_def intro!: utf8_ascii)
qed

lemma observed_line_stored:
  assumes "utf8_observation ob" "utf8_json v" "numbers_ok v" "0 \<le> at" "at \<le> int max_safe_integer"
    and "observation_ok ob" "isBoundedJsonValue (Some v)"
    and "length (observed_line ob v at) \<le> MAX_INGESTION_RECORD_BYTES"
    and "directAppendEventId sha256 sid off (sha256 (observed_line ob v at)) \<notin> dir_event_ids d"
  shows "dir_events (fst (pure_lines sha256 uuid clock sid [(off, observed_line ob v at)] n d)) = dir_events d @
    [stored_observation ob v at (directAppendEventId sha256 sid off (sha256 (observed_line ob v at)))
       (length (dir_events d) + 1) (clock off)]"
  using observed_parses [OF assms(1-5)] observed_valid [OF assms(6,7), of at] assms(8,9)
  by (auto simp: pure_line_def Let_def pure_record_def line_options_def pure_ingest_def validation_of_def
      validateAndNormalizeEvent_def outcome_def normalized_event_def id_or_random_def directSourceContentHash_def
      stored_observation_def split: prod.splits)

lemma appended_line_stored:
  assumes "store_inv rnd s" "directory_of s sid = Some d" "incoming_ndjson d = Some bytes"
    and "cursor_value (cursor_json d) = Inr c" "length bytes \<le> max_safe_integer"
    and "drop (effective_offset c bytes) bytes = observed_line ob v at @ [newline]"
    and "utf8_observation ob" "utf8_json v" "numbers_ok v" "0 \<le> at" "at \<le> int max_safe_integer"
    and "observation_ok ob" "isBoundedJsonValue (Some v)"
    and "length (observed_line ob v at) \<le> MAX_INGESTION_RECORD_BYTES"
    and "directAppendEventId sha256 sid (effective_offset c bytes) (sha256 (observed_line ob v at)) \<notin> dir_event_ids d"
  shows "\<exists>d'. directory_of ((poll_once sha256 uuid clock sid ^^ Suc (length (observed_line ob v at) + 1)) s) sid = Some d'
    \<and> dir_events d' = dir_events d @
      [stored_observation ob v at (directAppendEventId sha256 sid (effective_offset c bytes) (sha256 (observed_line ob v at)))
         (length (dir_events d) + 1) (clock (effective_offset c bytes))]"
proof -
  let ?off = "effective_offset c bytes" and ?line = "observed_line ob v at"
  have "length bytes - ?off = length (drop ?off bytes)" by simp
  then have count: "length bytes - ?off = length ?line + 1" by (simp only: assms(6)) simp
  have one: "newline \<notin> set ?line" unfolding observed_line_def by (rule json_text_one_line)
  have "?line \<noteq> []" by (simp add: observed_line_def)
  then have records: "records_at ?off (drop ?off bytes) = [(?off, ?line)]"
    using one by (simp add: assms(6) records_at_line records_at_no_newline)
  from polls_drain [OF assms(1-5), where ?sha256.0 = sha256 and uuid = uuid and clock = clock] obtain j where
    "directory_of ((poll_once sha256 uuid clock sid ^^ Suc (length ?line + 1)) s) sid =
      Some ((fst (pure_lines sha256 uuid clock sid [(?off, ?line)] (draws s) d))\<lparr>cursor_json := j\<rparr>)"
    unfolding count records by blast
  with observed_line_stored [OF assms(7-15), where uuid = uuid and clock = clock and n = "draws s"] show ?thesis
    by (simp del: pure_lines.simps)
qed

text \<open>The helpers that write by hand append this line.\<close>

lemma native_lines:
  assumes "probe_text (obs_hypothesisId ob)" "probe_text (obs_location ob)" "probe_text (obs_message ob)" "json_text v \<noteq> []"
    and "0 \<le> at" "at \<le> int max_safe_integer"
  defines "sent \<equiv> if length (observed_line ob v at) < 65536 then Some (observed_line ob v at @ [newline]) else None"
  shows "agent_debug_emit (Some (obs_hypothesisId ob)) (Some (obs_location ob)) (Some (obs_message ob)) (Some (json_text v)) at = sent"
    "cpp_emit (obs_hypothesisId ob) (obs_location ob) (obs_message ob) (json_text v) at = sent"
    "rust_emit (obs_hypothesisId ob) (obs_location ob) (obs_message ob) (json_text v) at = sent"
  using agent_debug_emit_line [OF assms(1-3) json_text_printable assms(4), of at]
    string_emit_line [OF assms(1-3) json_text_printable assms(4), of at] probe_line_text [OF assms(5,6), of ob v]
  by (simp_all add: sent_def observed_line_def)

lemma jvm_lines:
  assumes "utf8_observation ob" "java_redact heap jv [] 0 = Some t" "java_plain floating t" "0 \<le> at" "at \<le> int max_safe_integer"
  defines "line \<equiv> observed_line ob (printed_json java_json t) at"
  shows "java_Emit floating heap (obs_hypothesisId ob) (obs_location ob) (obs_message ob) jv at =
      (if length line < 65536 then Some (line @ [newline]) else None)"
    "kotlin_emit floating heap (obs_hypothesisId ob) (obs_location ob) (obs_message ob) jv at =
      (if length line < 65536 then Some (line @ [newline]) else None)"
  using java_Emit_line [of ob heap jv t floating at] assms
  by (simp_all add: same_emit utf8_observation_def line_def observed_line_def Let_def)

text \<open>
  The payloads that the five helpers make of an observation with the data \<open>v\<close>: a JSON text for C, C++ and Rust,
  a value that redacts to it for Java and Kotlin.
\<close>

definition helper_payload :: "observation \<Rightarrow> json \<Rightarrow> int \<Rightarrow> string \<Rightarrow> bool" where
  "helper_payload ob v at payload \<longleftrightarrow>
     (let h = obs_hypothesisId ob; l = obs_location ob; m = obs_message ob
      in agent_debug_emit (Some h) (Some l) (Some m) (Some (json_text v)) at = Some payload
         \<or> cpp_emit h l m (json_text v) at = Some payload \<or> rust_emit h l m (json_text v) at = Some payload
         \<or> (\<exists>floating heap jv t. java_redact heap jv [] 0 = Some t \<and> java_plain floating t \<and> v = printed_json java_json t
              \<and> (java_Emit floating heap h l m jv at = Some payload \<or> kotlin_emit floating heap h l m jv at = Some payload)))"

lemma helper_payload_line:
  assumes "helper_payload ob v at payload" "utf8_observation ob" "utf8_json v" "numbers_ok v" "0 \<le> at" "at \<le> int max_safe_integer"
    and "CHR 0x00 \<notin> set (obs_hypothesisId ob @ obs_location ob @ obs_message ob)"
  shows "payload = observed_line ob v at @ [newline]" "length (observed_line ob v at) < 65536"
proof -
  have texts: "probe_text (obs_hypothesisId ob)" "probe_text (obs_location ob)" "probe_text (obs_message ob)"
    using assms(2,7) by (auto simp: probe_text_def utf8_observation_def utf8_no_surrogates)
  have "json_text v \<noteq> []" using json_text_not_Nil [OF storable_utf8 [OF assms(3,4)]] .
  note native = native_lines [OF texts this assms(5,6)]
  from assms(1) have "payload = observed_line ob v at @ [newline] \<and> length (observed_line ob v at) < 65536"
    unfolding helper_payload_def Let_def
  proof (elim disjE exE conjE)
    fix floating heap jv t
    assume "java_redact heap jv [] 0 = Some t" "java_plain floating t" and v: "v = printed_json java_json t"
    note jvm = jvm_lines [OF assms(2) this(1,2) assms(5,6), folded v]
    show "payload = observed_line ob v at @ [newline] \<and> length (observed_line ob v at) < 65536"
      if "java_Emit floating heap (obs_hypothesisId ob) (obs_location ob) (obs_message ob) jv at = Some payload"
      using that jvm(1) by (simp split: if_splits)
    show "payload = observed_line ob v at @ [newline] \<and> length (observed_line ob v at) < 65536"
      if "kotlin_emit floating heap (obs_hypothesisId ob) (obs_location ob) (obs_message ob) jv at = Some payload"
      using that jvm(2) by (simp split: if_splits)
  qed (simp_all add: native split: if_splits)
  then show "payload = observed_line ob v at @ [newline]" "length (observed_line ob v at) < 65536" by simp_all
qed

end
