(* ===== verification/Probe_Emitters.thy ===== *)
theory Probe_Emitters
  imports Probe_Jvm
begin

text \<open>
  The helpers that leave the writing of the line to a library of their language (\<open>src/probes/*.ts\<close>). The
  serializer is an argument, \<open>None\<close> when it raises an error; a helper's result is the payload it appends.
\<close>

definition event_tree :: "string \<Rightarrow> string \<Rightarrow> string \<Rightarrow> js_scalar printed \<Rightarrow> int \<Rightarrow> js_scalar printed" where
  "event_tree h l m value now =
     Keyed [(''hypothesisId'', Plain (String h)), (''location'', Plain (String l)), (''message'', Plain (String m)),
       (''data'', value), (''timestamp'', Plain (Number (num_of_int now)))]"

type_synonym serializer = "js_scalar printed \<Rightarrow> string option"

definition python_emit :: "serializer \<Rightarrow> (nat \<Rightarrow> py_node) \<Rightarrow> string \<Rightarrow> string \<Rightarrow> string \<Rightarrow> py_value \<Rightarrow> int \<Rightarrow> string option" where
  "python_emit dumps heap hypothesis_id loc msg observed now =
     (case python_redact heap observed [] 0 of
        None \<Rightarrow> None
      | Some value \<Rightarrow>
          (case dumps (event_tree hypothesis_id loc msg value now) of
             None \<Rightarrow> None
           | Some json \<Rightarrow>
               let payload = json @ [CHR 0x0A]
               in if 65536 < length payload then None else Some payload))"

definition ruby_emit :: "serializer \<Rightarrow> (nat \<Rightarrow> rb_node) \<Rightarrow> string \<Rightarrow> string \<Rightarrow> string \<Rightarrow> rb_value \<Rightarrow> int \<Rightarrow> string option" where
  "ruby_emit generate heap hypothesis_id loc msg observed now =
     (case ruby_redact heap observed [] 0 of
        None \<Rightarrow> None
      | Some value \<Rightarrow>
          (case generate (event_tree hypothesis_id loc msg value now) of
             None \<Rightarrow> None
           | Some json \<Rightarrow>
               let payload = json @ [CHR 0x0A]
               in if 65536 < length payload then None else Some payload))"

definition php_Emit :: "serializer \<Rightarrow> (nat \<Rightarrow> (php_key \<times> php_value) list) \<Rightarrow> string \<Rightarrow> string \<Rightarrow> string \<Rightarrow> php_value \<Rightarrow> int \<Rightarrow>
    string option" where
  "php_Emit encode heap hypothesis_id loc msg observed now =
     (case php_Redact heap observed [] 0 of
        None \<Rightarrow> None
      | Some value \<Rightarrow>
          (case encode (event_tree hypothesis_id loc msg (php_encoded value) now) of
             None \<Rightarrow> None
           | Some json \<Rightarrow>
               let payload = json @ [CHR 0x0A]
               in if 65536 < length payload then None else Some payload))"

definition go_Emit :: "(string \<Rightarrow> string) \<Rightarrow> serializer \<Rightarrow> go_heap \<Rightarrow> string \<Rightarrow> string \<Rightarrow> string \<Rightarrow> go_value \<Rightarrow> int \<Rightarrow> string option" where
  "go_Emit lower marshal heap hypothesisID loc msg observed now =
     (case go_RedactValue lower heap observed [] 0 of
        None \<Rightarrow> None
      | Some value \<Rightarrow>
          (case marshal (event_tree hypothesisID loc msg value now) of
             None \<Rightarrow> None
           | Some payload \<Rightarrow> if 65536 < length payload + 1 then None else Some (payload @ [CHR 0x0A])))"

definition swift_Emit :: "serializer \<Rightarrow> (nat \<Rightarrow> sw_object) \<Rightarrow> string \<Rightarrow> string \<Rightarrow> string \<Rightarrow> sw_value \<Rightarrow> int \<Rightarrow> string option" where
  "swift_Emit serialize heap hypothesis_id loc msg observed now =
     (case swift_RedactValue heap observed [] 0 of
        None \<Rightarrow> None
      | Some value \<Rightarrow>
          (case serialize (event_tree hypothesis_id loc msg value now) of
             None \<Rightarrow> None
           | Some json \<Rightarrow>
               let payload = json @ [CHR 0x0A]
               in if length payload \<le> 65536 then Some payload else None))"

definition csharp_Emit :: "serializer \<Rightarrow> (nat \<Rightarrow> cs_node) \<Rightarrow> string \<Rightarrow> string \<Rightarrow> string \<Rightarrow> cs_value \<Rightarrow> int \<Rightarrow> string option" where
  "csharp_Emit serialize heap hypothesis_id loc msg observed now =
     (case csharp_Redact heap observed [] 0 of
        None \<Rightarrow> None
      | Some value \<Rightarrow>
          (case serialize (event_tree hypothesis_id loc msg value now) of
             None \<Rightarrow> None
           | Some json \<Rightarrow>
               let payload = json @ [CHR 0x0A]
               in if 65536 < length payload then None else Some payload))"

section \<open>What is sent\<close>

text \<open>A payload: one text of the serializer and a line break, within the limit, of an event without secrets.\<close>

definition safe_payload :: "(string \<Rightarrow> bool) \<Rightarrow> serializer \<Rightarrow> string \<Rightarrow> bool" where
  "safe_payload secret serialize payload \<longleftrightarrow>
     (\<exists>event json. serialize event = Some json \<and> payload = json @ [CHR 0x0A] \<and> length payload \<le> 65536
        \<and> covered secret (String ''[REDACTED]'') event)"

lemma event_keys:
  "\<not> isSensitiveKey ''hypothesisId''" "\<not> isSensitiveKey ''location''" "\<not> isSensitiveKey ''message''"
  "\<not> isSensitiveKey ''data''" "\<not> isSensitiveKey ''timestamp''"
  by code_simp+

lemma event_covered: "covered isSensitiveKey hidden t \<Longrightarrow> covered isSensitiveKey hidden (event_tree h l m t now)"
  using event_keys by (simp add: event_tree_def)

lemma payload_covered:
  "covered isSensitiveKey (String ''[REDACTED]'') t \<Longrightarrow> serialize (event_tree h l m t now) = Some json \<Longrightarrow>
    length (json @ [CHR 0x0A]) \<le> 65536 \<Longrightarrow> safe_payload isSensitiveKey serialize (json @ [CHR 0x0A])"
  unfolding safe_payload_def using event_covered by blast

lemma payloads_safe:
  "python_emit dumps py h l m pv now = Some p1 \<Longrightarrow> safe_payload isSensitiveKey dumps p1"
  "ruby_emit dumps rb h l m rv now = Some p2 \<Longrightarrow> safe_payload isSensitiveKey dumps p2"
  "php_Emit dumps ph h l m hv now = Some p3 \<Longrightarrow> safe_payload isSensitiveKey dumps p3"
  "swift_Emit dumps sw h l m sv now = Some p4 \<Longrightarrow> safe_payload isSensitiveKey dumps p4"
  "csharp_Emit dumps cs h l m cv now = Some p5 \<Longrightarrow> safe_payload isSensitiveKey dumps p5"
  using python.result_covered [of py pv "[]" 0] ruby.result_covered [of rb rv "[]" 0] php.result_covered [of ph hv "[]" 0]
    swift.result_covered [of sw sv "[]" 0] csharp.result_covered [of cs "Some cv" "[]" 0]
  by (auto simp: python_emit_def ruby_emit_def php_Emit_def swift_Emit_def csharp_Emit_def csharp_got_def Let_def
      simp del: append.simps intro!: payload_covered split: option.splits if_splits)

lemma payloads_separate:
  "python_emit dumps py h l m pv now = Some p1 \<Longrightarrow> separate isSensitiveKey (py_view py) py_identity pv"
  "ruby_emit dumps rb h l m rv now = Some p2 \<Longrightarrow> separate isSensitiveKey (rb_view rb) rb_identity rv"
  "php_Emit dumps ph h l m hv now = Some p3 \<Longrightarrow> separate isSensitiveKey (php_view ph) php_identity hv"
  "swift_Emit dumps sw h l m sv now = Some p4 \<Longrightarrow> separate isSensitiveKey (sw_view sw) sw_identity sv"
  "csharp_Emit dumps cs h l m cv now = Some p5 \<Longrightarrow> separate isSensitiveKey (cs_view cs) cs_identity (Some cv)"
  using python.result_separate [of py pv "[]" 0] ruby.result_separate [of rb rv "[]" 0] php.result_separate [of ph hv "[]" 0]
    swift.result_separate [of sw sv "[]" 0] csharp.result_separate [of cs "Some cv" "[]" 0]
  by (auto simp: python_emit_def ruby_emit_def php_Emit_def swift_Emit_def csharp_Emit_def csharp_got_def Let_def
      split: option.splits if_splits)

text \<open>Go, with its own test of a key.\<close>

fun ascii_keys :: "'l printed \<Rightarrow> bool" where
  "ascii_keys (Plain x) = True"
| "ascii_keys (Listed ts) = list_all ascii_keys ts"
| "ascii_keys (Keyed es) = list_all (\<lambda>p. list_all (\<lambda>c. code c < 128) (fst p) \<and> ascii_keys (snd p)) es"

lemma go_ascii: "ascii_case lower \<Longrightarrow> list_all (\<lambda>c. code c < 128) key \<Longrightarrow> go_IsSecretKey lower key = isSensitiveKey key"
  by (rule ascii_tests(1) [where replace = collapse_separators]) (simp_all add: ascii_replace_def)

lemma go_hide: "ascii_case lower \<Longrightarrow> ascii_keys t \<Longrightarrow> hide (go_IsSecretKey lower) hidden t = hide isSensitiveKey hidden t"
  by (induction t rule: printed.induct) (auto simp: go_ascii list_all_iff)

lemma go_payload:
  assumes "ascii_case lower" "go_Emit lower marshal heap h l m v now = Some payload"
  shows "safe_payload (go_IsSecretKey lower) marshal payload" "separate (go_IsSecretKey lower) (go_view heap) go_Identity v"
proof -
  from assms(2) obtain t json where t: "go_RedactValue lower heap v [] 0 = Some t"
    "marshal (event_tree h l m t now) = Some json" "payload = json @ [CHR 0x0A]" "length payload \<le> 65536"
    by (auto simp: go_Emit_def split: option.splits if_splits)
  from go.result_covered [OF t(1)] event_keys
  have "covered (go_IsSecretKey lower) (String ''[REDACTED]'') (event_tree h l m t now)"
    by (simp add: event_tree_def go_ascii [OF assms(1)])
  with t(2-4) show "safe_payload (go_IsSecretKey lower) marshal payload" unfolding safe_payload_def by blast
  from go.result_separate [OF t(1)] show "separate (go_IsSecretKey lower) (go_view heap) go_Identity v" .
qed

lemma java_payload:
  assumes "java_Emit floating heap h l m v now = Some payload"
  obtains t where "java_redact heap v [] 0 = Some t" "covered isSensitiveKey (JavaText ''[REDACTED]'') t"
    "separate isSensitiveKey (java_view heap) java_identity v" "length payload \<le> 65536"
proof -
  from assms obtain t where "java_redact heap v [] 0 = Some t" "length payload \<le> 65536"
    by (auto simp: java_Emit_def Let_def split: option.splits if_splits)
  with java.result_covered [OF this(1)] java.result_separate [OF this(1)] that show thesis by blast
qed

section \<open>The redactors agree with the daemon\<close>

lemma scalar_redacted: "redacted (scalar_json x) = scalar_json x"
  by (cases x) simp_all

lemma java_redacted: "redacted (java_json x) = java_json x"
  by (cases x) simp_all

lemma masked_json: "scalar_json (String ''[REDACTED]'') = JStr REDACTED" "java_json (JavaText ''[REDACTED]'') = JStr REDACTED"
  by (simp_all add: REDACTED_def)

lemmas shown_json =
  printed_json_hide [where f = scalar_json and hidden = "String ''[REDACTED]''", OF masked_json(1) scalar_redacted]
  printed_json_hide [where f = java_json and hidden = "JavaText ''[REDACTED]''", OF masked_json(2) java_redacted]

lemma redactors_daemon:
  assumes "h \<le> 65"
  shows "full_tree (py_view py) h pv = Some t \<Longrightarrow>
      map_option (printed_json scalar_json) (python_redact py pv [] 0) = Some (redacted (printed_json scalar_json t))"
    "full_tree (rb_view rb) h rv = Some t \<Longrightarrow>
      map_option (printed_json scalar_json) (ruby_redact rb rv [] 0) = Some (redacted (printed_json scalar_json t))"
    "full_tree (php_view ph) h hv = Some t \<Longrightarrow>
      map_option (\<lambda>r. printed_json scalar_json (php_encoded r)) (php_Redact ph hv [] 0) = Some (redacted (printed_json scalar_json t))"
    "full_tree (sw_view sw) h sv = Some t \<Longrightarrow>
      map_option (printed_json scalar_json) (swift_RedactValue sw sv [] 0) = Some (redacted (printed_json scalar_json t))"
    "full_tree (cs_view cs) h (Some cv) = Some t \<Longrightarrow>
      map_option (printed_json scalar_json) (csharp_Redact cs cv [] 0) = Some (redacted (printed_json scalar_json t))"
    "full_tree (java_view jv) h v = Some u \<Longrightarrow>
      map_option (printed_json java_json) (java_redact jv v [] 0) = Some (redacted (printed_json java_json u))"
  using python.tree_result [OF _ assms] ruby.tree_result [OF _ assms] php.tree_result [of ph h hv t, OF _ assms]
    swift.tree_result [OF _ assms] csharp.tree_result [of cs h "Some cv" t, OF _ assms] java.tree_result [OF _ assms]
  by (auto simp: shown_json csharp_got_def)

lemma go_daemon:
  assumes "h \<le> 65" "full_tree (go_view heap) h v = Some t" "separate (go_IsSecretKey lower) (go_view heap) go_Identity v"
    and "ascii_case lower" "ascii_keys t"
  shows "map_option (printed_json scalar_json) (go_RedactValue lower heap v [] 0) = Some (redacted (printed_json scalar_json t))"
  using go.results [OF assms(2,1), of lower] assms(3) by (simp add: go_hide [OF assms(4,5)] shown_json)

text \<open>
  An identity in Go does not have the length of a slice: a slice that holds a shorter slice from its own first
  element is a finite value, but is taken for a cycle.
\<close>

definition prefix_slice :: go_heap where
  "prefix_slice = \<lparr>go_maps = \<lambda>_. [], go_pointed = \<lambda>_ _. GoInvalid,
     go_elements = \<lambda>_ _. [GoInterface (Some (GoSlice ''[]interface {}'' (Some 1) 0))]\<rparr>"

lemma prefix_slice_refused:
  "full_tree (go_view prefix_slice) 3 (GoSlice ''[]interface {}'' (Some 1) 1) = Some (Listed [Listed []])
    \<and> go_RedactValue lower prefix_slice (GoSlice ''[]interface {}'' (Some 1) 1) [] 0 = None"
  by (simp add: prefix_slice_def go_view_def go_RedactValue.simps go_enter_def go_Identity_def numeral_3_eq_3)

end
