(* ===== verification/Files.thy ===== *)
theory Files
  imports Retry Utf8
begin

text \<open>
  The files that the daemon and the commands share: private directories and files
  (\<open>src/platform/permissions.ts\<close>), the state root (\<open>state-root.ts\<close>, \<open>Persistence.open\<close>) and atomic
  writes (\<open>atomic-file.ts\<close>). A path is the list of its names, the last one first. Links are
  followed where a call names them; the directories above a path are taken to be no links. Every system
  call may fail, and other processes may act before it. A crash is a host where all later calls fail.
\<close>

section \<open>Calls of the system\<close>

datatype fs_node = Folder nat | Plainfile nat string | Link "string list"

type_synonym fs_tree = "string list \<Rightarrow> fs_node option"

record fs_world =
  fs_nodes :: fs_tree
  fs_calls :: nat

text \<open>
  \<open>fs_fault n\<close> is the error of the call with number \<open>n\<close>, if it fails for a reason of its own; a write that
  fails has then written \<open>fs_cut n\<close> bytes.
\<close>

record fs_host =
  fs_platform :: string
  fs_fault :: "nat \<Rightarrow> string option"
  fs_cut :: "nat \<Rightarrow> nat"
  fs_others :: "nat \<Rightarrow> fs_tree \<Rightarrow> fs_tree"

datatype fs_error = Errno string | LinkRefused string | RetriesExhausted

type_synonym 'a fs_op = "fs_world \<Rightarrow> (fs_error + 'a) \<times> fs_world"

definition fs_return :: "'a \<Rightarrow> 'a fs_op" where
  "fs_return x w = (Inr x, w)"

definition fs_then :: "'a fs_op \<Rightarrow> 'b fs_op \<Rightarrow> 'b fs_op" where
  "fs_then m k w = (case m w of (Inl e, v) \<Rightarrow> (Inl e, v) | (Inr x, v) \<Rightarrow> k v)"

definition fs_catch :: "'a fs_op \<Rightarrow> (fs_error \<Rightarrow> 'a fs_op) \<Rightarrow> 'a fs_op" where
  "fs_catch m h w = (case m w of (Inl e, v) \<Rightarrow> h e v | (Inr x, v) \<Rightarrow> (Inr x, v))"

text \<open>\<open>finally\<close>: an error of the last part takes the place of the result.\<close>

definition fs_finally :: "'a fs_op \<Rightarrow> unit fs_op \<Rightarrow> 'a fs_op" where
  "fs_finally m k w = (case m w of (r, v) \<Rightarrow> (case k v of (Inl e, u) \<Rightarrow> (Inl e, u) | (Inr x, u) \<Rightarrow> (r, u)))"

definition syscall :: "fs_host \<Rightarrow> (nat \<Rightarrow> fs_tree \<Rightarrow> fs_tree) \<Rightarrow> (fs_tree \<Rightarrow> (string + 'a) \<times> fs_tree) \<Rightarrow> 'a fs_op" where
  "syscall host spoil f w =
     (let n = fs_calls w; t = fs_others host n (fs_nodes w)
      in case fs_fault host n of
          Some errno \<Rightarrow> (Inl (Errno errno), \<lparr>fs_nodes = spoil n t, fs_calls = n + 1\<rparr>)
        | None \<Rightarrow>
            (case f t of
               (Inl errno, u) \<Rightarrow> (Inl (Errno errno), \<lparr>fs_nodes = u, fs_calls = n + 1\<rparr>)
             | (Inr x, u) \<Rightarrow> (Inr x, \<lparr>fs_nodes = u, fs_calls = n + 1\<rparr>)))"

abbreviation plain_call :: "fs_host \<Rightarrow> (fs_tree \<Rightarrow> (string + 'a) \<times> fs_tree) \<Rightarrow> 'a fs_op" where
  "plain_call host \<equiv> syscall host (\<lambda>_ t. t)"

text \<open>The number of links that a kernel follows.\<close>

definition LINK_LIMIT :: nat where
  "LINK_LIMIT = 40"

fun follow :: "nat \<Rightarrow> fs_tree \<Rightarrow> string list \<Rightarrow> string list option" where
  "follow 0 t p = None"
| "follow (Suc k) t p = (case t p of Some (Link q) \<Rightarrow> follow k t q | _ \<Rightarrow> Some p)"

definition sys_lstat :: "string list \<Rightarrow> fs_tree \<Rightarrow> (string + bool) \<times> fs_tree" where
  "sys_lstat p t = (case t p of None \<Rightarrow> (Inl ''ENOENT'', t) | Some (Link q) \<Rightarrow> (Inr True, t) | Some _ \<Rightarrow> (Inr False, t))"

fun sys_mkdir :: "nat \<Rightarrow> string list \<Rightarrow> fs_tree \<Rightarrow> (string + unit) \<times> fs_tree" where
  "sys_mkdir mode [] t = (Inr (), t)"
| "sys_mkdir mode (name # p) t =
     (case t (name # p) of
        Some (Folder m) \<Rightarrow> (Inr (), t)
      | Some (Plainfile m s) \<Rightarrow> (Inl ''EEXIST'', t)
      | Some (Link q) \<Rightarrow>
          (case Option.bind (follow LINK_LIMIT t q) t of Some (Folder m) \<Rightarrow> (Inr (), t) | _ \<Rightarrow> (Inl ''EEXIST'', t))
      | None \<Rightarrow>
          (case sys_mkdir mode p t of
             (Inl errno, u) \<Rightarrow> (Inl errno, u)
           | (Inr x, u) \<Rightarrow> (Inr (), u(name # p \<mapsto> Folder mode))))"

definition sys_chmod :: "nat \<Rightarrow> string list \<Rightarrow> fs_tree \<Rightarrow> (string + unit) \<times> fs_tree" where
  "sys_chmod mode p t =
     (case follow LINK_LIMIT t p of
        None \<Rightarrow> (Inl ''ELOOP'', t)
      | Some q \<Rightarrow>
          (case t q of
             Some (Folder m) \<Rightarrow> (Inr (), t(q \<mapsto> Folder mode))
           | Some (Plainfile m s) \<Rightarrow> (Inr (), t(q \<mapsto> Plainfile mode s))
           | _ \<Rightarrow> (Inl ''ENOENT'', t)))"

definition in_folder :: "string list \<Rightarrow> fs_tree \<Rightarrow> bool" where
  "in_folder p t \<longleftrightarrow> (case tl p of [] \<Rightarrow> True | q \<Rightarrow> (\<exists>m. t q = Some (Folder m)))"

text \<open>\<open>open\<close> with \<open>O_APPEND | O_CREAT | O_WRONLY\<close>; \<open>nofollow\<close> refuses a link.\<close>

definition sys_open_append :: "bool \<Rightarrow> string list \<Rightarrow> fs_tree \<Rightarrow> (string + unit) \<times> fs_tree" where
  "sys_open_append nofollow p t =
     (case (if nofollow then Some p else follow LINK_LIMIT t p) of
        None \<Rightarrow> (Inl ''ELOOP'', t)
      | Some q \<Rightarrow>
          (case t q of
             None \<Rightarrow> if in_folder q t then (Inr (), t(q \<mapsto> Plainfile 0x180 [])) else (Inl ''ENOENT'', t)
           | Some (Plainfile m s) \<Rightarrow> (Inr (), t)
           | Some (Folder m) \<Rightarrow> (Inl ''EISDIR'', t)
           | Some (Link l) \<Rightarrow> (Inl ''ELOOP'', t)))"

text \<open>\<open>open\<close> with the flags \<open>wx\<close>, the writing to the file it made, and \<open>rename\<close>.\<close>

definition sys_create :: "nat \<Rightarrow> string list \<Rightarrow> fs_tree \<Rightarrow> (string + unit) \<times> fs_tree" where
  "sys_create mode p t =
     (if t p \<noteq> None then (Inl ''EEXIST'', t)
      else if in_folder p t then (Inr (), t(p \<mapsto> Plainfile mode [])) else (Inl ''ENOENT'', t))"

definition put_content :: "string list \<Rightarrow> string \<Rightarrow> fs_tree \<Rightarrow> fs_tree" where
  "put_content p s t = (case t p of Some (Plainfile m old) \<Rightarrow> t(p \<mapsto> Plainfile m s) | _ \<Rightarrow> t)"

definition sys_rename :: "string list \<Rightarrow> string list \<Rightarrow> fs_tree \<Rightarrow> (string + unit) \<times> fs_tree" where
  "sys_rename from to t =
     (case t from of
        None \<Rightarrow> (Inl ''ENOENT'', t)
      | Some node \<Rightarrow>
          (case t to of Some (Folder m) \<Rightarrow> (Inl ''EISDIR'', t) | _ \<Rightarrow> (Inr (), t(from := None, to := Some node))))"

text \<open>\<open>rm\<close> with \<open>force\<close>, and without \<open>recursive\<close>.\<close>

definition sys_rm :: "string list \<Rightarrow> fs_tree \<Rightarrow> (string + unit) \<times> fs_tree" where
  "sys_rm p t = (case t p of Some (Folder m) \<Rightarrow> (Inl ''ERR_FS_EISDIR'', t) | _ \<Rightarrow> (Inr (), t(p := None)))"

definition sys_open_read :: "string list \<Rightarrow> fs_tree \<Rightarrow> (string + unit) \<times> fs_tree" where
  "sys_open_read p t = (case Option.bind (follow LINK_LIMIT t p) t of None \<Rightarrow> (Inl ''ENOENT'', t) | Some n \<Rightarrow> (Inr (), t))"

section \<open>Private directories and files\<close>

text \<open>The four functions that refuse a link; \<open>ENOENT\<close> is no error.\<close>

definition refuse_link :: "fs_host \<Rightarrow> string \<Rightarrow> string list \<Rightarrow> unit fs_op" where
  "refuse_link host what p w =
     (case plain_call host (sys_lstat p) w of
        (Inr link, v) \<Rightarrow> if link then (Inl (LinkRefused what), v) else (Inr (), v)
      | (Inl e, v) \<Rightarrow> if e = Errno ''ENOENT'' then (Inr (), v) else (Inl e, v))"

definition rejectDirectorySymbolicLink :: "fs_host \<Rightarrow> string list \<Rightarrow> unit fs_op" where
  "rejectDirectorySymbolicLink host p = refuse_link host ''Private directory'' p"

definition rejectFileSymbolicLink :: "fs_host \<Rightarrow> string list \<Rightarrow> unit fs_op" where
  "rejectFileSymbolicLink host p = refuse_link host ''Private file'' p"

definition ensurePrivateDirectory :: "fs_host \<Rightarrow> string list \<Rightarrow> unit fs_op" where
  "ensurePrivateDirectory host p =
     fs_then (rejectDirectorySymbolicLink host p)
       (fs_then (plain_call host (sys_mkdir 0x1C0 p))
         (fs_then (rejectDirectorySymbolicLink host p)
           (if fs_platform host \<noteq> ''win32'' then plain_call host (sys_chmod 0x1C0 p) else fs_return ())))"

definition ensurePrivateFile :: "fs_host \<Rightarrow> string list \<Rightarrow> unit fs_op" where
  "ensurePrivateFile host p =
     fs_then (rejectFileSymbolicLink host p)
       (fs_then (plain_call host (sys_open_append (fs_platform host \<noteq> ''win32'') p))
         (fs_then (plain_call host (\<lambda>t. (Inr (), t)))
           (fs_then (rejectFileSymbolicLink host p)
             (if fs_platform host \<noteq> ''win32'' then plain_call host (sys_chmod 0x180 p) else fs_return ()))))"

section \<open>The state root\<close>

definition resolveStateRoot :: "string list \<Rightarrow> string list" where
  "resolveStateRoot homeDirectory = ''.agent-debug-mode'' # homeDirectory"

definition rejectSymbolicLink :: "fs_host \<Rightarrow> string list \<Rightarrow> string \<Rightarrow> unit fs_op" where
  "rejectSymbolicLink host p label = refuse_link host label p"

fun fs_each :: "('a \<Rightarrow> unit fs_op) \<Rightarrow> 'a list \<Rightarrow> unit fs_op" where
  "fs_each f [] = fs_return ()"
| "fs_each f (x # xs) = fs_then (f x) (fs_each f xs)"

definition initializeStateRoot :: "fs_host \<Rightarrow> string list \<Rightarrow> string list fs_op" where
  "initializeStateRoot host homeDirectory =
     (let stateRoot = resolveStateRoot homeDirectory
      in fs_then (rejectSymbolicLink host stateRoot ''State root'')
        (fs_then (ensurePrivateDirectory host stateRoot)
          (fs_then (rejectSymbolicLink host stateRoot ''State root'')
            (fs_then
              (fs_each (\<lambda>name.
                 let directory = name # stateRoot
                 in fs_then (rejectSymbolicLink host directory ''State directory'')
                   (fs_then (ensurePrivateDirectory host directory)
                     (rejectSymbolicLink host directory ''State directory''))) [''ready'', ''sessions'', ''tmp''])
              (fs_return stateRoot)))))"

definition persistence_open :: "fs_host \<Rightarrow> string list \<Rightarrow> string list fs_op" where
  "persistence_open host homeDirectory = initializeStateRoot host homeDirectory"

section \<open>Atomic writes\<close>

definition temporary_path :: "nat \<Rightarrow> string \<Rightarrow> string list \<Rightarrow> string list" where
  "temporary_path pid uuid p = (''.'' @ hd p @ ''.'' @ nat_text pid @ ''.'' @ uuid @ ''.tmp'') # tl p"

definition syncDirectory :: "fs_host \<Rightarrow> string list \<Rightarrow> unit fs_op" where
  "syncDirectory host p =
     (if fs_platform host = ''win32'' then fs_return ()
      else fs_then (plain_call host (sys_open_read p))
        (fs_finally (plain_call host (\<lambda>t. (Inr (), t))) (plain_call host (\<lambda>t. (Inr (), t)))))"

fun fs_code :: "fs_error \<Rightarrow> string option" where
  "fs_code (Errno c) = Some c"
| "fs_code _ = None"

definition rename_with_retry :: "fs_host \<Rightarrow> (nat \<Rightarrow> nat) \<Rightarrow> string list \<Rightarrow> string list \<Rightarrow> unit fs_op" where
  "rename_with_retry host jitter =
     renameWithRetry (fs_platform host) fs_code (\<lambda>ms w. w) jitter RetriesExhausted 25 (\<lambda>a b. plain_call host (sys_rename a b))"

definition writeTextAtomic :: "fs_host \<Rightarrow> (nat \<Rightarrow> nat) \<Rightarrow> nat \<Rightarrow> string \<Rightarrow> string list \<Rightarrow> string \<Rightarrow> unit fs_op" where
  "writeTextAtomic host jitter pid uuid p contents =
     (let temporary = temporary_path pid uuid p
      in fs_then (plain_call host (sys_create 0x180 temporary))
        (fs_catch
          (fs_then (syscall host (\<lambda>n t. put_content temporary (take (fs_cut host n) contents) t)
              (\<lambda>t. (Inr (), put_content temporary contents t)))
            (fs_then (plain_call host (\<lambda>t. (Inr (), t)))
              (fs_then (plain_call host (\<lambda>t. (Inr (), t)))
                (fs_then (rename_with_retry host jitter temporary p) (syncDirectory host (tl p))))))
          (\<lambda>e. fs_then (fs_catch (plain_call host (\<lambda>t. (Inr (), t))) (\<lambda>_. fs_return ()))
            (fs_then (fs_catch (plain_call host (sys_rm temporary)) (\<lambda>_. fs_return ()))
              (\<lambda>w. (Inl e, w))))))"

definition writeJsonAtomic :: "fs_host \<Rightarrow> (nat \<Rightarrow> nat) \<Rightarrow> nat \<Rightarrow> string \<Rightarrow> string list \<Rightarrow> json \<Rightarrow> unit fs_op" where
  "writeJsonAtomic host jitter pid uuid p v = writeTextAtomic host jitter pid uuid p (json_text v @ [CHR 0x0A])"

definition sys_read :: "string list \<Rightarrow> fs_tree \<Rightarrow> (string + string) \<times> fs_tree" where
  "sys_read p t =
     (case Option.bind (follow LINK_LIMIT t p) t of
        Some (Plainfile m s) \<Rightarrow> (Inr s, t)
      | Some (Folder m) \<Rightarrow> (Inl ''EISDIR'', t)
      | _ \<Rightarrow> (Inl ''ENOENT'', t))"

text \<open>\<open>None\<close> is the \<open>SyntaxError\<close> of \<open>JSON.parse\<close>.\<close>

definition readJsonFile :: "fs_host \<Rightarrow> string list \<Rightarrow> json option fs_op" where
  "readJsonFile host p w =
     (case plain_call host (sys_open_read p) w of
        (Inl e, v) \<Rightarrow> (Inl e, v)
      | (Inr x, v) \<Rightarrow>
          fs_finally (\<lambda>w. case plain_call host (sys_read p) w of (Inl e, v) \<Rightarrow> (Inl e, v) | (Inr s, v) \<Rightarrow> (Inr (parse_json (utf8_decode s)), v))
            (plain_call host (\<lambda>t. (Inr (), t))) v)"

section \<open>Assertions\<close>

text \<open>
  \<open>triple P m Q E\<close>: from files with \<open>P\<close>, the operation returns in files with \<open>Q\<close> or throws in files with \<open>E\<close>. An
  assertion is stable when the other processes of the host keep it.
\<close>

definition triple :: "(fs_tree \<Rightarrow> bool) \<Rightarrow> 'a fs_op \<Rightarrow> (fs_tree \<Rightarrow> bool) \<Rightarrow> (fs_tree \<Rightarrow> bool) \<Rightarrow> bool" where
  "triple P m Q E \<longleftrightarrow> (\<forall>w. P (fs_nodes w) \<longrightarrow> (case m w of (Inl e, v) \<Rightarrow> E (fs_nodes v) | (Inr x, v) \<Rightarrow> Q (fs_nodes v)))"

definition stable :: "fs_host \<Rightarrow> (fs_tree \<Rightarrow> bool) \<Rightarrow> bool" where
  "stable host P \<longleftrightarrow> (\<forall>n t. P t \<longrightarrow> P (fs_others host n t))"

lemma tripleI:
  assumes "\<And>w e v. P (fs_nodes w) \<Longrightarrow> m w = (Inl e, v) \<Longrightarrow> E (fs_nodes v)"
    and "\<And>w x v. P (fs_nodes w) \<Longrightarrow> m w = (Inr x, v) \<Longrightarrow> Q (fs_nodes v)"
  shows "triple P m Q E"
  using assms unfolding triple_def by (auto split: prod.split sum.split)

lemma triple_thrown: "triple P m Q E \<Longrightarrow> P (fs_nodes w) \<Longrightarrow> m w = (Inl e, v) \<Longrightarrow> E (fs_nodes v)"
  unfolding triple_def by force

lemma triple_returned: "triple P m Q E \<Longrightarrow> P (fs_nodes w) \<Longrightarrow> m w = (Inr x, v) \<Longrightarrow> Q (fs_nodes v)"
  unfolding triple_def by force

lemmas triple_ends = triple_thrown triple_returned

lemma triple_return: "triple P (fs_return x) P E"
  by (simp add: triple_def fs_return_def)

lemma triple_throw: "triple E (\<lambda>w. (Inl e, w)) Q E"
  by (simp add: triple_def)

lemma triple_then:
  assumes "triple P m Q E" "triple Q k R E"
  shows "triple P (fs_then m k) R E"
  unfolding triple_def
proof (intro allI impI)
  fix w :: fs_world
  assume w: "P (fs_nodes w)"
  obtain r v where m: "m w = (r, v)" by fastforce
  show "case fs_then m k w of (Inl e, v) \<Rightarrow> E (fs_nodes v) | (Inr x, v) \<Rightarrow> R (fs_nodes v)"
  proof (cases r)
    case (Inl e)
    with m triple_thrown [OF assms(1) w] show ?thesis by (simp add: fs_then_def)
  next
    case (Inr x)
    with m triple_returned [OF assms(1) w] have "Q (fs_nodes v)" by blast
    with assms(2) m Inr show ?thesis by (simp add: fs_then_def triple_def)
  qed
qed

lemma triple_catch:
  assumes "triple P m Q D" "\<And>e. triple D (h e) Q E"
  shows "triple P (fs_catch m h) Q E"
  unfolding triple_def
proof (intro allI impI)
  fix w :: fs_world
  assume w: "P (fs_nodes w)"
  obtain r v where m: "m w = (r, v)" by fastforce
  show "case fs_catch m h w of (Inl e, v) \<Rightarrow> E (fs_nodes v) | (Inr x, v) \<Rightarrow> Q (fs_nodes v)"
  proof (cases r)
    case (Inl e)
    with m triple_thrown [OF assms(1) w] have "D (fs_nodes v)" by blast
    with assms(2) [of e] m Inl show ?thesis by (simp add: fs_catch_def triple_def)
  next
    case (Inr x)
    with m triple_returned [OF assms(1) w] show ?thesis by (simp add: fs_catch_def)
  qed
qed

lemma triple_finally:
  assumes "triple P m P P" "triple P k P P"
  shows "triple P (fs_finally m k) P P"
proof -
  have same: "P (fs_nodes v)" if "triple P n P P" "P (fs_nodes w)" "n w = (r, v)" for n :: "'c fs_op" and w r v
    using that triple_ends [OF that(1,2)] by (cases r) blast+
  show ?thesis
    unfolding triple_def
  proof (intro allI impI)
    fix w :: fs_world
    assume w: "P (fs_nodes w)"
    obtain r v where m: "m w = (r, v)" by fastforce
    obtain q u where k: "k v = (q, u)" by fastforce
    from same [OF assms(1) w m] have "P (fs_nodes v)" .
    from same [OF assms(2) this k] have "P (fs_nodes u)" .
    with m k show "case fs_finally m k w of (Inl e, v) \<Rightarrow> P (fs_nodes v) | (Inr x, v) \<Rightarrow> P (fs_nodes v)"
      by (cases q; cases r) (simp_all add: fs_finally_def)
  qed
qed

lemma triple_weaken:
  assumes "triple P m Q E" "\<And>t. P' t \<Longrightarrow> P t" "\<And>t. Q t \<Longrightarrow> Q' t" "\<And>t. E t \<Longrightarrow> E' t"
  shows "triple P' m Q' E'"
  using triple_ends [OF assms(1) assms(2)] assms(3,4) by (intro tripleI) blast+

lemma triple_syscall:
  assumes "stable host P" "\<And>n t. P t \<Longrightarrow> E (spoil n t)"
    and "\<And>t c u. P t \<Longrightarrow> f t = (Inl c, u) \<Longrightarrow> E u" "\<And>t x u. P t \<Longrightarrow> f t = (Inr x, u) \<Longrightarrow> Q u"
  shows "triple P (syscall host spoil f) Q E"
proof (rule tripleI)
  fix w :: fs_world
  assume "P (fs_nodes w)"
  with assms(1) have t: "P (fs_others host (fs_calls w) (fs_nodes w))" by (simp add: stable_def)
  note spoiled = assms(2) [OF t] and failed = assms(3) [OF t] and worked = assms(4) [OF t]
  show "E (fs_nodes v)" if "syscall host spoil f w = (Inl e, v)" for e v
    using that spoiled failed by (auto simp: syscall_def Let_def split: option.splits prod.splits sum.splits)
  show "Q (fs_nodes v)" if "syscall host spoil f w = (Inr x, v)" for x v
    using that worked by (auto simp: syscall_def Let_def split: option.splits prod.splits sum.splits)
qed

lemma triple_same: "stable host P \<Longrightarrow> triple P (plain_call host (\<lambda>t. (Inr x, t))) P P"
  by (rule triple_syscall) auto

lemma triple_retry:
  assumes "triple P action Q P"
  shows "triple P (retry_from retryable (\<lambda>n w. w) e action n k) Q P"
proof (induction k arbitrary: n)
  case (Suc k)
  show ?case
    unfolding triple_def
  proof (intro allI impI)
    fix w :: fs_world
    assume w: "P (fs_nodes w)"
    obtain r v where a: "action w = (r, v)" by fastforce
    show "case retry_from retryable (\<lambda>n w. w) e action n (Suc k) w of (Inl e, v) \<Rightarrow> P (fs_nodes v) | (Inr x, v) \<Rightarrow> Q (fs_nodes v)"
    proof (cases r)
      case (Inl c)
      with a triple_thrown [OF assms w] have "P (fs_nodes v)" by blast
      with a Inl Suc [of "Suc n"] show ?thesis by (simp add: triple_def)
    next
      case (Inr x)
      with a triple_returned [OF assms w] show ?thesis by simp
    qed
  qed
qed (simp add: triple_def)

section \<open>The directories of the state root\<close>

text \<open>
  No fault of its own is \<open>ENOENT\<close> (\<open>honest_faults\<close>), and the other processes leave the nodes of \<open>D\<close> as they
  are (\<open>leaves_alone\<close>).
\<close>

definition honest_faults :: "fs_host \<Rightarrow> bool" where
  "honest_faults host \<longleftrightarrow> (\<forall>n. fs_fault host n \<noteq> Some ''ENOENT'')"

definition leaves_alone :: "fs_host \<Rightarrow> string list set \<Rightarrow> bool" where
  "leaves_alone host D \<longleftrightarrow> (\<forall>n t. \<forall>d\<in>D. fs_others host n t d = t d)"

definition private_folders :: "string list set \<Rightarrow> fs_tree \<Rightarrow> bool" where
  "private_folders S t \<longleftrightarrow> (\<forall>d\<in>S. t d = Some (Folder 0x1C0))"

lemma follow_here: "t p \<noteq> None \<Longrightarrow> \<nexists>q. t p = Some (Link q) \<Longrightarrow> follow LINK_LIMIT t p = Some p"
  by (cases "t p") (auto simp: LINK_LIMIT_def numeral_eq_Suc split: fs_node.splits)

lemma sys_mkdir_adds: "t q = Some n \<Longrightarrow> snd (sys_mkdir mode p t) q = Some n"
  by (induction mode p t rule: sys_mkdir.induct) (auto split: option.splits fs_node.splits prod.splits sum.splits)

lemma sys_mkdir_made:
  assumes "sys_mkdir mode p t = (Inr x, u)" "p \<noteq> []"
  shows "(\<exists>m. u p = Some (Folder m)) \<or> (\<exists>q. u p = Some (Link q))"
  using assms by (cases p) (auto split: option.splits fs_node.splits prod.splits sum.splits)

lemma refuse_link_triple:
  assumes "stable host P" "honest_faults host"
  shows "triple P (refuse_link host what p) (\<lambda>t. P t \<and> (\<nexists>q. t p = Some (Link q))) P"
proof (rule tripleI)
  fix w :: fs_world
  assume "P (fs_nodes w)"
  with assms(1) have t: "P (fs_others host (fs_calls w) (fs_nodes w))" by (simp add: stable_def)
  note honest = assms(2) [unfolded honest_faults_def, THEN spec [of _ "fs_calls w"]]
  show "P (fs_nodes v)" if "refuse_link host what p w = (Inl e, v)" for e v
    using that t by (auto simp: refuse_link_def syscall_def sys_lstat_def Let_def split: option.splits fs_node.splits if_splits)
  show "P (fs_nodes v) \<and> (\<nexists>q. fs_nodes v p = Some (Link q))" if "refuse_link host what p w = (Inr x, v)" for x v
    using that t honest by (auto simp: refuse_link_def syscall_def sys_lstat_def Let_def split: option.splits fs_node.splits if_splits)
qed

lemma private_directory_triple:
  assumes "honest_faults host" "leaves_alone host D" "S \<subseteq> D" "d \<in> D" "d \<noteq> []" "fs_platform host \<noteq> ''win32''"
  shows "triple (private_folders S) (ensurePrivateDirectory host d) (private_folders (insert d S)) (\<lambda>_. True)"
proof -
  let ?F = "private_folders S"
  have st: "stable host (\<lambda>t. ?F t \<and> R (t d))" for R :: "fs_node option \<Rightarrow> bool"
    using assms(2-4) unfolding stable_def leaves_alone_def private_folders_def by (metis subsetD)
  have refuse: "triple (\<lambda>t. ?F t \<and> R (t d)) (rejectDirectorySymbolicLink host d)
      (\<lambda>t. ?F t \<and> R (t d) \<and> (\<nexists>q. t d = Some (Link q))) (\<lambda>_. True)" for R
    unfolding rejectDirectorySymbolicLink_def by (rule triple_weaken [OF refuse_link_triple [OF st assms(1)]]) auto
  let ?M = "\<lambda>n. (\<exists>m. n = Some (Folder m)) \<or> (\<exists>q. n = Some (Link q))"
  have make: "triple (\<lambda>t. ?F t \<and> True) (plain_call host (sys_mkdir 0x1C0 d)) (\<lambda>t. ?F t \<and> ?M (t d)) (\<lambda>_. True)"
  proof (rule triple_syscall [OF st])
    fix t :: fs_tree and x u
    assume t: "?F t \<and> True" and made: "sys_mkdir 0x1C0 d t = (Inr x, u)"
    have "u q = Some n" if "t q = Some n" for q n using made that by (metis snd_conv sys_mkdir_adds)
    with t sys_mkdir_made [OF made assms(5)] show "?F u \<and> ?M (u d)" by (simp add: private_folders_def)
  qed simp_all
  let ?G = "\<lambda>n. ?M n \<and> (\<nexists>q. n = Some (Link q))"
  have mode: "triple (\<lambda>t. ?F t \<and> ?G (t d)) (plain_call host (sys_chmod 0x1C0 d)) (private_folders (insert d S)) (\<lambda>_. True)"
  proof (rule triple_syscall [OF st])
    fix t :: fs_tree and x u
    assume t: "?F t \<and> ?G (t d)" and "sys_chmod 0x1C0 d t = (Inr x, u)"
    moreover from t have "follow LINK_LIMIT t d = Some d" by (intro follow_here) auto
    ultimately show "private_folders (insert d S) u" by (auto simp: sys_chmod_def private_folders_def)
  qed simp_all
  show ?thesis
    unfolding ensurePrivateDirectory_def using assms(6)
    by (simp only: not_False_eq_True if_True,
      intro triple_then [OF triple_weaken [OF refuse [of "\<lambda>_. True"]] triple_then [OF make triple_then [OF refuse mode]]]) auto
qed

text \<open>The directories that \<open>initializeStateRoot\<close> makes.\<close>

definition state_directories :: "string list \<Rightarrow> string list set" where
  "state_directories homeDirectory =
     (let stateRoot = resolveStateRoot homeDirectory
      in {stateRoot, ''ready'' # stateRoot, ''sessions'' # stateRoot, ''tmp'' # stateRoot})"

lemma state_directory_triple:
  assumes "honest_faults host" "leaves_alone host D" "S \<subseteq> D" "d \<in> D" "d \<noteq> []" "fs_platform host \<noteq> ''win32''"
  shows "triple (private_folders S)
    (fs_then (rejectSymbolicLink host d label) (fs_then (ensurePrivateDirectory host d) (rejectSymbolicLink host d label)))
    (private_folders (insert d S)) (\<lambda>_. True)"
proof -
  have st: "stable host (private_folders X)" if "X \<subseteq> D" for X
    using that assms(2) unfolding stable_def leaves_alone_def private_folders_def by (metis subsetD)
  have refuse: "triple (private_folders X) (rejectSymbolicLink host d label) (private_folders X) (\<lambda>_. True)" if "X \<subseteq> D" for X
    unfolding rejectSymbolicLink_def by (rule triple_weaken [OF refuse_link_triple [OF st [OF that] assms(1)]]) auto
  from assms(3,4) show ?thesis
    by (intro triple_then [OF refuse triple_then [OF private_directory_triple [OF assms] refuse]]) auto
qed

lemma fs_then_assoc: "fs_then a (fs_then b c) = fs_then (fs_then a b) c"
  by (auto simp: fs_then_def fun_eq_iff split: prod.splits sum.splits)

lemma triple_then3:
  assumes "triple P (fs_then a (fs_then b c)) Q E" "triple Q k R E"
  shows "triple P (fs_then a (fs_then b (fs_then c k))) R E"
  using triple_then [OF assms] by (simp only: fs_then_assoc)

lemma initializeStateRoot_triple:
  assumes "honest_faults host" "leaves_alone host (state_directories homeDirectory)" "fs_platform host \<noteq> ''win32''"
  shows "triple (\<lambda>_. True) (initializeStateRoot host homeDirectory) (private_folders (state_directories homeDirectory)) (\<lambda>_. True)"
proof -
  define r where "r = resolveStateRoot homeDirectory"
  have dirs: "state_directories homeDirectory = {r, ''ready'' # r, ''sessions'' # r, ''tmp'' # r}"
    by (simp add: state_directories_def Let_def r_def)
  note step = state_directory_triple [OF assms(1,2) _ _ _ assms(3), unfolded dirs]
  have root: "triple (private_folders {}) (fs_then (rejectSymbolicLink host r l)
      (fs_then (ensurePrivateDirectory host r) (rejectSymbolicLink host r l))) (private_folders {r}) (\<lambda>_. True)" for l
    by (rule step) (simp_all add: r_def resolveStateRoot_def)
  have sub: "triple (private_folders S) (fs_then (rejectSymbolicLink host (n # r) l)
      (fs_then (ensurePrivateDirectory host (n # r)) (rejectSymbolicLink host (n # r) l))) (private_folders (insert (n # r) S)) (\<lambda>_. True)"
    if "S \<subseteq> {r, ''ready'' # r, ''sessions'' # r, ''tmp'' # r}" "n \<in> {''ready'', ''sessions'', ''tmp''}" for S n l
    by (rule step) (use that in auto)
  have all: "triple (private_folders {}) (initializeStateRoot host homeDirectory)
      (private_folders (insert (''tmp'' # r) (insert (''sessions'' # r) (insert (''ready'' # r) {r})))) (\<lambda>_. True)"
    unfolding initializeStateRoot_def Let_def r_def [symmetric] fs_each.simps
    by (intro triple_then [OF triple_then [OF sub triple_then [OF sub triple_then [OF sub triple_return]]] triple_return, THEN triple_then3 [OF root]]) auto
  have same: "insert (''tmp'' # r) (insert (''sessions'' # r) (insert (''ready'' # r) {r})) = state_directories homeDirectory"
    unfolding dirs by blast
  from all [unfolded same] show ?thesis by (rule triple_weaken) (simp_all add: private_folders_def)
qed

lemma fs_then_last: "fs_then m k w = (Inr x, v) \<Longrightarrow> \<exists>u. k u = (Inr x, v)"
  by (auto simp: fs_then_def split: prod.splits sum.splits)

lemma initializeStateRoot_result: "initializeStateRoot host homeDirectory w = (Inr root, v) \<Longrightarrow> root = resolveStateRoot homeDirectory"
  unfolding initializeStateRoot_def Let_def by (drule fs_then_last, elim exE)+ (simp add: fs_return_def)

section \<open>A write is all or nothing\<close>

lemma temporary_path_differs: "p \<noteq> [] \<Longrightarrow> temporary_path pid uuid p \<noteq> p"
proof
  assume "p \<noteq> []" "temporary_path pid uuid p = p"
  then have "length (hd (temporary_path pid uuid p)) = length (hd p)" by simp
  then show False by (simp add: temporary_path_def)
qed

lemma writeTextAtomic_triple:
  fixes old :: "fs_node option"
  assumes "p \<noteq> []" "\<nexists>m. old = Some (Folder m)" "tmp = temporary_path pid uuid p"
    and "\<And>n t. fs_others host n t p = t p" "\<And>n t. fs_others host n t tmp = t tmp"
  shows "triple (\<lambda>t. t p = old \<and> t tmp = None) (writeTextAtomic host jitter pid uuid p s)
    (\<lambda>t. t p = Some (Plainfile 0x180 s) \<and> t tmp = None) (\<lambda>t. t p = old \<or> t p = Some (Plainfile 0x180 s))"
proof -
  have ne: "tmp \<noteq> p" using temporary_path_differs [OF assms(1)] assms(3) by simp
  have st: "stable host (\<lambda>t. R (t p) (t tmp))" for R :: "fs_node option \<Rightarrow> fs_node option \<Rightarrow> bool"
    by (simp add: stable_def assms(4,5))
  let ?N = "\<lambda>t. t p = old \<and> t tmp = None" and ?T = "\<lambda>c t. t p = old \<and> t tmp = Some (Plainfile 0x180 c)"
  let ?D = "\<lambda>t. t p = Some (Plainfile 0x180 s) \<and> t tmp = None" and ?E = "\<lambda>t. t p = old \<or> t p = Some (Plainfile 0x180 s)"
  have create: "triple ?N (plain_call host (sys_create 0x180 tmp)) (?T []) ?E"
    by (rule triple_syscall [OF st [where R = "\<lambda>a b. a = old \<and> b = None"]]) (auto simp: sys_create_def ne ne [symmetric] split: if_splits)
  have fill: "triple (?T []) (syscall host (\<lambda>n t. put_content tmp (take (fs_cut host n) s) t)
      (\<lambda>t. (Inr (), put_content tmp s t))) (?T s) ?E"
    by (rule triple_syscall [OF st [where R = "\<lambda>a b. a = old \<and> b = Some (Plainfile 0x180 [])"]]) (auto simp: put_content_def ne ne [symmetric])
  have same: "triple (?T s) (plain_call host (\<lambda>t. (Inr (), t))) (?T s) ?E"
    by (rule triple_weaken [OF triple_same [OF st [where R = "\<lambda>a b. a = old \<and> b = Some (Plainfile 0x180 s)"]]]) auto
  have move: "triple (?T s) (rename_with_retry host jitter tmp p) ?D ?E"
  proof (rule triple_weaken)
    show "triple (?T s) (rename_with_retry host jitter tmp p) ?D (?T s)"
      unfolding rename_with_retry_def renameWithRetry_def retryOnWindowsLock_def
      by (intro triple_retry triple_syscall [OF st [where R = "\<lambda>a b. a = old \<and> b = Some (Plainfile 0x180 s)"]])
        (auto simp: sys_rename_def assms(2) ne split: option.splits fs_node.splits)
  qed auto
  have d: "stable host ?D" by (rule st [where R = "\<lambda>a b. a = Some (Plainfile 0x180 s) \<and> b = None"])
  have sync: "triple ?D (syncDirectory host (tl p)) ?D ?E"
  proof (rule triple_weaken)
    have "triple ?D (plain_call host (sys_open_read (tl p))) ?D ?D"
      by (rule triple_syscall [OF d]) (auto simp: sys_open_read_def split: option.splits)
    then show "triple ?D (syncDirectory host (tl p)) ?D ?D"
      by (auto simp: syncDirectory_def intro!: triple_then triple_finally triple_same [OF d] triple_return)
  qed auto
  have e: "stable host ?E" by (rule st [where R = "\<lambda>a b. a = old \<or> a = Some (Plainfile 0x180 s)"])
  have close: "triple ?E (fs_catch (plain_call host (\<lambda>t. (Inr (), t))) (\<lambda>_. fs_return ())) ?E ?E"
    by (rule triple_catch [OF triple_same [OF e] triple_return])
  have remove: "triple ?E (fs_catch (plain_call host (sys_rm tmp)) (\<lambda>_. fs_return ())) ?E ?E"
    by (rule triple_catch [OF triple_syscall [OF e] triple_return])
      (auto simp: sys_rm_def ne ne [symmetric] split: option.splits fs_node.splits)
  show ?thesis
    unfolding writeTextAtomic_def Let_def assms(3) [symmetric]
    by (rule triple_then [OF create triple_catch [OF triple_then [OF fill triple_then [OF same triple_then [OF same
      triple_then [OF move sync]]]]]]) (rule triple_weaken [OF triple_then [OF close triple_then [OF remove triple_throw]]]; simp)
qed

section \<open>When nothing interferes\<close>

definition quiet_host :: "fs_host \<Rightarrow> bool" where
  "quiet_host host \<longleftrightarrow> fs_fault host = (\<lambda>_. None) \<and> fs_others host = (\<lambda>_ t. t)"

lemma quiet_call:
  "quiet_host host \<Longrightarrow> syscall host spoil f w =
    (case f (fs_nodes w) of
       (Inl c, u) \<Rightarrow> (Inl (Errno c), \<lparr>fs_nodes = u, fs_calls = fs_calls w + 1\<rparr>)
     | (Inr x, u) \<Rightarrow> (Inr x, \<lparr>fs_nodes = u, fs_calls = fs_calls w + 1\<rparr>))"
  by (simp add: quiet_host_def syscall_def Let_def)

lemma quiet_directory:
  fixes w :: fs_world
  assumes "quiet_host host" "fs_nodes w q = Some (Folder m)" "fs_nodes w (n # q) = None"
  shows "\<exists>k. fs_then (rejectSymbolicLink host (n # q) label)
      (fs_then (ensurePrivateDirectory host (n # q)) (rejectSymbolicLink host (n # q) label)) w =
    (Inr (), \<lparr>fs_nodes = (fs_nodes w)(n # q \<mapsto> Folder 0x1C0), fs_calls = k\<rparr>)"
proof -
  note call = quiet_call [OF assms(1)]
  have absent: "refuse_link host l (n # q) w = (Inr (), \<lparr>fs_nodes = fs_nodes w, fs_calls = fs_calls w + 1\<rparr>)"
    if "fs_nodes w (n # q) = None" for l and w :: fs_world
    using that by (simp add: refuse_link_def call sys_lstat_def)
  have present: "refuse_link host l (n # q) w = (Inr (), \<lparr>fs_nodes = fs_nodes w, fs_calls = fs_calls w + 1\<rparr>)"
    if "fs_nodes w (n # q) = Some (Folder k)" for l k and w :: fs_world
    using that by (simp add: refuse_link_def call sys_lstat_def)
  have up: "sys_mkdir 0x1C0 q (fs_nodes w) = (Inr (), fs_nodes w)" using assms(2) by (cases q) simp_all
  have make: "sys_mkdir 0x1C0 (n # q) (fs_nodes w) = (Inr (), (fs_nodes w)(n # q \<mapsto> Folder 0x1C0))"
    using assms(3) up by simp
  have mode: "sys_chmod 0x1C0 (n # q) ((fs_nodes w)(n # q \<mapsto> Folder 0x1C0)) = (Inr (), (fs_nodes w)(n # q \<mapsto> Folder 0x1C0))"
    by (simp add: sys_chmod_def follow_here)
  show ?thesis
    by (simp add: rejectSymbolicLink_def ensurePrivateDirectory_def rejectDirectorySymbolicLink_def fs_then_def fs_return_def
      absent [OF assms(3)] absent assms(3) call make mode present del: sys_mkdir.simps)
qed

lemma fs_then_returns: "m w = (Inr x, v) \<Longrightarrow> fs_then m k w = k v"
  by (simp add: fs_then_def)

lemma state_root_made:
  fixes w :: fs_world
  assumes "quiet_host host" "fs_nodes w homeDirectory = Some (Folder m)"
    and "\<And>d. d \<in> state_directories homeDirectory \<Longrightarrow> fs_nodes w d = None"
  shows "\<exists>v. initializeStateRoot host homeDirectory w = (Inr (resolveStateRoot homeDirectory), v)"
proof -
  define r where "r = resolveStateRoot homeDirectory"
  have absent: "fs_nodes w r = None" "fs_nodes w (n # r) = None" if "n \<in> {''ready'', ''sessions'', ''tmp''}" for n
    using assms(3) that by (auto simp: state_directories_def Let_def r_def)
  let ?dir = "\<lambda>l p. fs_then (rejectSymbolicLink host p l) (fs_then (ensurePrivateDirectory host p) (rejectSymbolicLink host p l))"
  obtain k1 where 1: "?dir ''State root'' r w = (Inr (), \<lparr>fs_nodes = (fs_nodes w)(r \<mapsto> Folder 0x1C0), fs_calls = k1\<rparr>)"
    using quiet_directory [OF assms(1,2)] absent(1) by (fastforce simp: r_def resolveStateRoot_def)
  have sub: "\<exists>k. ?dir ''State directory'' (n # r) u = (Inr (), \<lparr>fs_nodes = (fs_nodes u)(n # r \<mapsto> Folder 0x1C0), fs_calls = k\<rparr>)"
    if "fs_nodes u r = Some (Folder 0x1C0)" "fs_nodes u (n # r) = None" for n and u :: fs_world
    by (rule quiet_directory [OF assms(1) that])
  let ?t = "(fs_nodes w)(r \<mapsto> Folder 0x1C0)"
  obtain k2 where 2: "?dir ''State directory'' (''ready'' # r) \<lparr>fs_nodes = ?t, fs_calls = k1\<rparr> =
      (Inr (), \<lparr>fs_nodes = ?t(''ready'' # r \<mapsto> Folder 0x1C0), fs_calls = k2\<rparr>)"
    using sub [of "\<lparr>fs_nodes = ?t, fs_calls = k1\<rparr>" "''ready''"] absent(2) by auto
  let ?u = "?t(''ready'' # r \<mapsto> Folder 0x1C0)"
  obtain k3 where 3: "?dir ''State directory'' (''sessions'' # r) \<lparr>fs_nodes = ?u, fs_calls = k2\<rparr> =
      (Inr (), \<lparr>fs_nodes = ?u(''sessions'' # r \<mapsto> Folder 0x1C0), fs_calls = k3\<rparr>)"
    using sub [of "\<lparr>fs_nodes = ?u, fs_calls = k2\<rparr>" "''sessions''"] absent(2) by auto
  let ?v = "?u(''sessions'' # r \<mapsto> Folder 0x1C0)"
  obtain k4 where 4: "?dir ''State directory'' (''tmp'' # r) \<lparr>fs_nodes = ?v, fs_calls = k3\<rparr> =
      (Inr (), \<lparr>fs_nodes = ?v(''tmp'' # r \<mapsto> Folder 0x1C0), fs_calls = k4\<rparr>)"
    using sub [of "\<lparr>fs_nodes = ?v, fs_calls = k3\<rparr>" "''tmp''"] absent(2) by auto
  have split: "fs_then (rejectSymbolicLink host r l) (fs_then (ensurePrivateDirectory host r) (fs_then (rejectSymbolicLink host r l) k)) =
      fs_then (?dir l r) k" for l and k :: "'b fs_op"
    by (simp only: fs_then_assoc)
  let ?each = "fs_each (\<lambda>n. ?dir ''State directory'' (n # r)) [''ready'', ''sessions'', ''tmp'']"
  have each: "?each \<lparr>fs_nodes = ?t, fs_calls = k1\<rparr> = (Inr (), \<lparr>fs_nodes = ?v(''tmp'' # r \<mapsto> Folder 0x1C0), fs_calls = k4\<rparr>)"
    by (simp only: fs_each.simps Let_def fs_then_returns [where m = "?dir ''State directory'' (''ready'' # r)", OF 2]
      fs_then_returns [where m = "?dir ''State directory'' (''sessions'' # r)", OF 3]
      fs_then_returns [where m = "?dir ''State directory'' (''tmp'' # r)", OF 4] fs_return_def)
  have "initializeStateRoot host homeDirectory = fs_then (?dir ''State root'' r) (fs_then ?each (fs_return r))"
    by (simp only: initializeStateRoot_def Let_def r_def [symmetric] split)
  then have "initializeStateRoot host homeDirectory w = fs_return r \<lparr>fs_nodes = ?v(''tmp'' # r \<mapsto> Folder 0x1C0), fs_calls = k4\<rparr>"
    by (simp only: fs_then_returns [where m = "?dir ''State root'' r", OF 1] fs_then_returns [where m = "?each", OF each])
  then show ?thesis by (simp add: fs_return_def r_def)
qed

lemma retry_at_once: "0 < k \<Longrightarrow> action w = (Inr x, v) \<Longrightarrow> retry_from retryable pause e action n k w = (Inr x, v)"
  by (cases k) simp_all

lemma writeTextAtomic_succeeds:
  assumes "quiet_host host" "fs_nodes w (tl p) = Some (Folder m)" "p \<noteq> []" "tl p \<noteq> []"
    and "fs_nodes w (temporary_path pid uuid p) = None" "\<nexists>m. fs_nodes w p = Some (Folder m)"
  obtains n where "writeTextAtomic host jitter pid uuid p s w =
    (Inr (), \<lparr>fs_nodes = (fs_nodes w)(p \<mapsto> Plainfile 0x180 s), fs_calls = n\<rparr>)"
proof -
  let ?tmp = "temporary_path pid uuid p"
  have ne: "?tmp \<noteq> p" using temporary_path_differs [OF assms(3)] .
  have up: "tl p \<noteq> p" "tl p \<noteq> ?tmp" using assms(3) by (cases p; simp add: temporary_path_def)+
  have "in_folder ?tmp (fs_nodes w)" using assms(2,4) by (auto simp: in_folder_def temporary_path_def split: list.split)
  then have create: "sys_create 0x180 ?tmp (fs_nodes w) = (Inr (), (fs_nodes w)(?tmp \<mapsto> Plainfile 0x180 []))"
    by (simp add: sys_create_def assms(5))
  have move: "rename_with_retry host jitter ?tmp p v =
      (Inr (), \<lparr>fs_nodes = (fs_nodes w)(p \<mapsto> Plainfile 0x180 s), fs_calls = fs_calls v + 1\<rparr>)"
    if "fs_nodes v = (fs_nodes w)(?tmp \<mapsto> Plainfile 0x180 s)" for v
    unfolding rename_with_retry_def renameWithRetry_def retryOnWindowsLock_def
    by (rule retry_at_once)
      (use that ne assms(5,6) in \<open>auto simp: quiet_call [OF assms(1)] sys_rename_def fun_eq_iff split: option.split fs_node.split\<close>)
  have sync: "\<exists>n. syncDirectory host (tl p) v = (Inr (), \<lparr>fs_nodes = fs_nodes v, fs_calls = n\<rparr>)"
    if "fs_nodes v (tl p) = Some (Folder m)" for v :: fs_world
    using that by (cases v) (simp add: syncDirectory_def fs_return_def fs_then_def fs_finally_def quiet_call [OF assms(1)] sys_open_read_def
      LINK_LIMIT_def numeral_eq_Suc)
  let ?t = "(fs_nodes w)(?tmp \<mapsto> Plainfile 0x180 s)" and ?n = "fs_calls w"
  obtain v where moved: "rename_with_retry host jitter ?tmp p \<lparr>fs_nodes = ?t, fs_calls = ?n + 1 + 1 + 1 + 1\<rparr> = (Inr (), v)"
    "fs_nodes v = (fs_nodes w)(p \<mapsto> Plainfile 0x180 s)"
    using move [of "\<lparr>fs_nodes = ?t, fs_calls = ?n + 1 + 1 + 1 + 1\<rparr>"] by simp
  have "fs_nodes v (tl p) = Some (Folder m)" using moved(2) up assms(2) by simp
  from sync [OF this] obtain n where synced: "syncDirectory host (tl p) v = (Inr (), \<lparr>fs_nodes = fs_nodes v, fs_calls = n\<rparr>)" ..
  show thesis
  proof (rule that)
    show "writeTextAtomic host jitter pid uuid p s w = (Inr (), \<lparr>fs_nodes = (fs_nodes w)(p \<mapsto> Plainfile 0x180 s), fs_calls = n\<rparr>)"
      using moved synced
      by (simp add: writeTextAtomic_def Let_def fs_then_def fs_catch_def create quiet_call [OF assms(1)] put_content_def)
  qed
qed

text \<open>A document that was written is read back.\<close>

lemma parse_json_line: "storable v \<Longrightarrow> parse_json (json_text v @ [CHR 0x0A]) = Some v"
proof -
  assume "storable v"
  then have "parses (json_text v @ [CHR 0x0A]) v [CHR 0x0A]" by (intro parses_json_text) (simp_all add: delim_def is_digit_def)
  from parses_enough [OF this order_refl] show ?thesis by (simp add: parse_json_def skip_ws_def is_ws_def)
qed

lemma readJsonFile_written:
  assumes "quiet_host host" "fs_nodes w p = Some (Plainfile m (json_text v @ [CHR 0x0A]))" "utf8_json v" "numbers_ok v"
  shows "fst (readJsonFile host p w) = Inr (Some v)"
proof -
  have "utf8_text (json_text v @ [CHR 0x0A])" using assms(3) by (intro utf8_append utf8_json_text) (auto intro!: utf8_ascii)
  then have "parse_json (utf8_decode (json_text v @ [CHR 0x0A])) = Some v"
    by (simp only: utf8_decode_id parse_json_line [OF storable_utf8 [OF assms(3,4)]])
  then show ?thesis
    using assms(2) by (simp add: readJsonFile_def fs_finally_def quiet_call [OF assms(1)] sys_open_read_def sys_read_def
      LINK_LIMIT_def numeral_eq_Suc)
qed

end
