(* ===== verification/Streaming.thy ===== *)
theory Streaming
  imports Activity Json Js_Number
begin

text \<open>
  How the server writes a response to its connection: \<open>writeWebResponse\<close> and
  \<open>waitForDrainOrDisconnect\<close> of \<open>src/daemon/server.ts\<close>, with the lease that an event stream holds on the
  daemon. At every wait other requests act on the tracker and events of the connection happen. The
  reads of the body are given in their order; a list that ends is a read that is not answered yet.
\<close>

section \<open>The connection\<close>

text \<open>\<open>signal_aborted\<close> is the state of the signal of the request, \<open>sent\<close> has the chunks that were written.\<close>

record connection =
  out_destroyed :: bool
  signal_aborted :: bool
  out_status :: nat
  out_headers :: "(string \<times> string) list"
  headers_sent :: bool
  sent :: "string list"
  out_ended :: bool
  readers_cancelled :: nat
  con_tracker :: tracker

datatype out_event = OutDrain | OutClose | OutError | SignalAbort

text \<open>The closing of the response aborts the signal.\<close>

fun happen :: "out_event \<Rightarrow> connection \<Rightarrow> connection" where
  "happen OutDrain c = c"
| "happen OutClose c = c\<lparr>out_destroyed := True, signal_aborted := True\<rparr>"
| "happen OutError c = c\<lparr>out_destroyed := True\<rparr>"
| "happen SignalAbort c = c\<lparr>signal_aborted := True\<rparr>"

record drain_wait =
  wait_settled :: "bool option"
  wait_listening :: bool

definition settle_wait :: "bool \<Rightarrow> drain_wait \<Rightarrow> drain_wait" where
  "settle_wait drained s =
     (if wait_settled s \<noteq> None then s else s\<lparr>wait_settled := Some drained, wait_listening := False\<rparr>)"

definition on_event :: "out_event \<Rightarrow> drain_wait \<Rightarrow> drain_wait" where
  "on_event e s = (if wait_listening s then settle_wait (e = OutDrain) s else s)"

fun wait_events :: "out_event list \<Rightarrow> drain_wait \<Rightarrow> connection \<Rightarrow> drain_wait \<times> connection" where
  "wait_events [] s c = (s, c)"
| "wait_events (e # es) s c = wait_events es (on_event e s) (happen e c)"

text \<open>The promise is pending, \<open>None\<close>, as long as none of the events has happened.\<close>

definition waitForDrainOrDisconnect :: "out_event list \<Rightarrow> connection \<Rightarrow> bool option \<times> connection" where
  "waitForDrainOrDisconnect events c =
     (if out_destroyed c \<or> signal_aborted c then (Some False, c)
      else let s = \<lparr>wait_settled = None, wait_listening = True\<rparr>;
               s = (if out_destroyed c \<or> signal_aborted c then settle_wait False s else s)
        in case wait_events events s c of (s, d) \<Rightarrow> (wait_settled s, d))"

section \<open>The loop over the body\<close>

datatype read_result = Chunk string | BodyDone | ReadFailed

record stream_round =
  round_events :: "out_event list"
  round_others :: "tracker \<Rightarrow> tracker"
  round_read :: read_result
  round_ready :: bool
  round_drain :: "out_event list"
  round_others_drain :: "tracker \<Rightarrow> tracker"

definition meanwhile :: "out_event list \<Rightarrow> (tracker \<Rightarrow> tracker) \<Rightarrow> connection \<Rightarrow> connection" where
  "meanwhile events others c = fold happen events (c\<lparr>con_tracker := others (con_tracker c)\<rparr>)"

text \<open>\<open>write\<close> of a response that is destroyed sends nothing.\<close>

definition outgoing_write :: "string \<Rightarrow> bool \<Rightarrow> connection \<Rightarrow> bool \<times> connection" where
  "outgoing_write b ready c =
     (if out_destroyed c then (False, c) else (ready, c\<lparr>sent := sent c @ [b], headers_sent := True\<rparr>))"

datatype stream_end = StillWaiting | LoopLeft | LoopThrew

fun pump :: "stream_round list \<Rightarrow> connection \<Rightarrow> stream_end \<times> connection" where
  "pump rounds c =
     (if out_destroyed c then (LoopLeft, c)
      else case rounds of
          [] \<Rightarrow> (StillWaiting, c)
        | r # rs \<Rightarrow>
            (let d = meanwhile (round_events r) (round_others r) c
             in case round_read r of
                 BodyDone \<Rightarrow> (LoopLeft, d)
               | ReadFailed \<Rightarrow> (LoopThrew, d)
               | Chunk b \<Rightarrow>
                   (case outgoing_write b (round_ready r) d of
                      (True, d) \<Rightarrow> pump rs d
                    | (False, d) \<Rightarrow>
                        (case waitForDrainOrDisconnect (round_drain r) (d\<lparr>con_tracker := round_others_drain r (con_tracker d)\<rparr>) of
                           (None, d) \<Rightarrow> (StillWaiting, d)
                         | (Some True, d) \<Rightarrow> pump rs d
                         | (Some False, d) \<Rightarrow> (LoopLeft, d)))))"

declare pump.simps [simp del]

text \<open>\<open>cancel_events\<close> and \<open>cancel_others\<close> are what happens while the reader is cancelled.\<close>

record stream_body =
  body_rounds :: "stream_round list"
  cancel_events :: "out_event list"
  cancel_others :: "tracker \<Rightarrow> tracker"

record web_response =
  web_status :: nat
  web_headers :: "(string \<times> string) list"
  web_body :: "stream_body option"

definition is_event_stream :: "web_response \<Rightarrow> bool" where
  "is_event_stream response =
     (case map_of (web_headers response) ''content-type'' of None \<Rightarrow> False | Some t \<Rightarrow> starts_with t ''text/event-stream'')"

definition on_tracker :: "(tracker \<Rightarrow> tracker) \<Rightarrow> connection \<Rightarrow> connection" where
  "on_tracker f c = c\<lparr>con_tracker := f (con_tracker c)\<rparr>"

text \<open>\<open>outgoing.end()\<close> sends the headers if nothing did.\<close>

definition outgoing_end :: "connection \<Rightarrow> connection" where
  "outgoing_end c = c\<lparr>out_ended := True, headers_sent := True\<rparr>"

definition writeWebResponse :: "web_response \<Rightarrow> connection \<Rightarrow> stream_end \<times> connection" where
  "writeWebResponse response c =
     (let lease = length (closures (con_tracker c));
          releaseLease = (if is_event_stream response then on_tracker (releaseLease lease) else (\<lambda>c. c));
          c = (if is_event_stream response then on_tracker acquireLease c else c);
          c = c\<lparr>out_status := web_status response, out_headers := out_headers c @ web_headers response\<rparr>
      in case web_body response of
          None \<Rightarrow> (LoopLeft, releaseLease (outgoing_end c))
        | Some body \<Rightarrow>
            (case pump (body_rounds body) c of
               (StillWaiting, d) \<Rightarrow> (StillWaiting, d)
             | (outcome, d) \<Rightarrow>
                 (let d = meanwhile (cancel_events body) (cancel_others body) (d\<lparr>readers_cancelled := readers_cancelled d + 1\<rparr>);
                      d = (if outcome = LoopLeft \<and> \<not> out_destroyed d then outgoing_end d else d)
                  in (outcome, releaseLease d))))"

definition writeJson :: "nat \<Rightarrow> string \<Rightarrow> connection \<Rightarrow> connection" where
  "writeJson status body c =
     outgoing_end (snd (outgoing_write body True (c\<lparr>out_status := status, out_headers := out_headers c
       @ [(''content-length'', nat_text (length body)), (''content-type'', ''application/json'')]\<rparr>)))"

text \<open>The handler of the server around it: an error after the headers destroys the connection.\<close>

definition respond :: "web_response \<Rightarrow> connection \<Rightarrow> stream_end \<times> connection" where
  "respond response c =
     (case writeWebResponse response c of
        (LoopThrew, d) \<Rightarrow>
          (LoopThrew, if \<not> headers_sent d then writeJson 500 (json_text (JObj [(''error'', JStr ''internal-server-error'')])) d
                      else happen OutError d)
      | (outcome, d) \<Rightarrow> (outcome, d))"

section \<open>Waiting\<close>

lemma wait_events_settled:
  "wait_settled s = Some b \<Longrightarrow> \<not> wait_listening s \<Longrightarrow> fst (wait_events es s c) = s"
  by (induction es arbitrary: c) (simp_all add: on_event_def)

lemma wait_events_world: "snd (wait_events es s c) = fold happen es c"
  by (induction es arbitrary: s c) simp_all

text \<open>The wait settles with its first event, once, and then no longer listens.\<close>

lemma wait_events_first:
  assumes "wait_settled s = None" "wait_listening s"
  shows "fst (wait_events es s c) = (case es of [] \<Rightarrow> s | e # _ \<Rightarrow> \<lparr>wait_settled = Some (e = OutDrain), wait_listening = False\<rparr>)"
  using assms by (cases es; cases s) (simp_all add: wait_events_settled on_event_def settle_wait_def)

lemma waitForDrain_result:
  "waitForDrainOrDisconnect events c =
     (if out_destroyed c \<or> signal_aborted c then (Some False, c)
      else ((case events of [] \<Rightarrow> None | e # _ \<Rightarrow> Some (e = OutDrain)), fold happen events c))"
  using wait_events_world [of events "\<lparr>wait_settled = None, wait_listening = True\<rparr>" c]
  by (auto simp: waitForDrainOrDisconnect_def Let_def split_beta wait_events_first split: list.split)

lemma happen_keeps [simp]:
  "sent (happen e c) = sent c" "readers_cancelled (happen e c) = readers_cancelled c" "con_tracker (happen e c) = con_tracker c"
  "out_ended (happen e c) = out_ended c"
  "out_destroyed c \<Longrightarrow> out_destroyed (happen e c)" "signal_aborted c \<Longrightarrow> signal_aborted (happen e c)"
  by (cases e; simp)+

lemma fold_happen_keeps [simp]:
  "sent (fold happen es c) = sent c" "readers_cancelled (fold happen es c) = readers_cancelled c"
  "con_tracker (fold happen es c) = con_tracker c" "out_ended (fold happen es c) = out_ended c"
  "out_destroyed c \<Longrightarrow> out_destroyed (fold happen es c)" "signal_aborted c \<Longrightarrow> signal_aborted (fold happen es c)"
  by (induction es arbitrary: c) simp_all

lemma meanwhile_keeps [simp]:
  "sent (meanwhile es f c) = sent c" "readers_cancelled (meanwhile es f c) = readers_cancelled c"
  "con_tracker (meanwhile es f c) = f (con_tracker c)" "out_ended (meanwhile es f c) = out_ended c"
  "out_destroyed c \<Longrightarrow> out_destroyed (meanwhile es f c)" "signal_aborted c \<Longrightarrow> signal_aborted (meanwhile es f c)"
  by (simp_all add: meanwhile_def)

section \<open>The lease of a stream\<close>

definition holds_lease :: "nat \<Rightarrow> tracker \<Rightarrow> bool" where
  "holds_lease i t \<longleftrightarrow> activity_inv t \<and> i < length (closures t) \<and> closures t ! i = Some False"

text \<open>What other requests do: they do not have the closure with the number \<open>i\<close>.\<close>

definition others_work :: "nat \<Rightarrow> (tracker \<Rightarrow> tracker) \<Rightarrow> bool" where
  "others_work i f \<longleftrightarrow> (\<forall>t. holds_lease i t \<longrightarrow> holds_lease i (f t))"

lemma closures_steps [simp]:
  "closures (touch t) = closures t" "closures (stopTracker t) = closures t" "closures (runTimeout h t) = closures t"
  by (simp_all add: touch_def stopTracker_def runTimeout_def timeoutCallback_def Let_def split: option.split)

lemma closures_acquire: "closures (acquireLease t) = closures t @ [if stopped t then None else Some False]"
  by (simp add: acquireLease_def)

lemma closures_release:
  "closures (releaseLease j t) = (if closures t ! j = Some False \<and> \<not> stopped t then (closures t)[j := Some True] else closures t)"
  by (auto simp: releaseLease_def Let_def split: option.split)

lemma holds_lease_step:
  assumes "holds_lease i t" "activity_step t u"
  shows "holds_lease i u \<or> u = releaseLease i t"
proof -
  have inv: "activity_inv u" using assms by (auto simp: holds_lease_def intro: activity_system.step_inv)
  from assms(2) show ?thesis
  proof cases
    case (release j)
    with assms(1) inv show ?thesis by (cases "j = i") (auto simp: holds_lease_def closures_release)
  qed (use assms(1) inv in \<open>auto simp: holds_lease_def closures_acquire nth_append\<close>)
qed

lemma holds_lease_quiet:
  assumes "holds_lease i t"
  shows "pending t = (\<lambda>_. None)" "timer t = None" "0 < leases t"
proof -
  from assms have "0 < open_leases t" by (auto simp: holds_lease_def intro: open_closure)
  with assms show "0 < leases t" by (auto simp: holds_lease_def dest: activity_invD(1))
  with assms show "pending t = (\<lambda>_. None)" "timer t = None" by (auto simp: holds_lease_def dest: activity_invD(3,5))
qed

section \<open>What the loop does\<close>

fun chunks_read :: "stream_round list \<Rightarrow> string list" where
  "chunks_read [] = []"
| "chunks_read (r # rs) = (case round_read r of Chunk b \<Rightarrow> b # chunks_read rs | _ \<Rightarrow> [])"

definition rounds_work :: "nat \<Rightarrow> stream_round list \<Rightarrow> bool" where
  "rounds_work i rounds \<longleftrightarrow> (\<forall>r\<in>set rounds. others_work i (round_others r) \<and> others_work i (round_others_drain r))"

text \<open>What holds of the connection \<open>d\<close> after a loop that started in \<open>c\<close>.\<close>

definition pumped :: "nat \<Rightarrow> stream_round list \<Rightarrow> connection \<Rightarrow> stream_end \<Rightarrow> connection \<Rightarrow> bool" where
  "pumped i rounds c outcome d \<longleftrightarrow>
     holds_lease i (con_tracker d) \<and> readers_cancelled d = readers_cancelled c \<and> out_ended d = out_ended c
     \<and> (\<exists>n. sent d = sent c @ take n (chunks_read rounds))
     \<and> (out_destroyed c \<longrightarrow> out_destroyed d) \<and> (signal_aborted c \<longrightarrow> signal_aborted d)
     \<and> (outcome = LoopLeft \<and> \<not> out_destroyed d \<and> \<not> signal_aborted d \<longrightarrow> sent d = sent c @ chunks_read rounds)"

lemma pump_left: "out_destroyed c \<Longrightarrow> pump rounds c = (LoopLeft, c)"
  by (simp add: pump.simps)

lemma pump_waits: "\<not> out_destroyed c \<Longrightarrow> pump [] c = (StillWaiting, c)"
  by (simp add: pump.simps)

lemma pumped_destroyed: "holds_lease i (con_tracker c) \<Longrightarrow> out_destroyed c \<Longrightarrow> pumped i rounds c outcome c"
  by (auto simp: pumped_def intro: exI [of _ 0])

text \<open>A round that wrote a chunk, followed by the rest of the loop.\<close>

lemma pumped_chunk:
  assumes "pumped i rs d outcome e" "round_read r = Chunk b" "sent d = sent c @ [b]"
    and "readers_cancelled d = readers_cancelled c" "out_ended d = out_ended c" "out_destroyed c \<Longrightarrow> out_destroyed d"
    and "signal_aborted c \<Longrightarrow> signal_aborted d"
  shows "pumped i (r # rs) c outcome e"
proof -
  from assms(1) obtain n where n: "sent e = sent d @ take n (chunks_read rs)" by (auto simp: pumped_def)
  then have "sent e = sent c @ take (Suc n) (chunks_read (r # rs))" by (simp add: assms(2,3))
  then have "\<exists>n. sent e = sent c @ take n (chunks_read (r # rs))" by blast
  then show ?thesis using assms by (auto simp: pumped_def)
qed

text \<open>A round after which the loop waits or has ended.\<close>

lemma pumped_here:
  assumes "holds_lease i (con_tracker d)" "readers_cancelled d = readers_cancelled c" "out_ended d = out_ended c"
    and "sent d = sent c \<or> (\<exists>b. round_read r = Chunk b \<and> sent d = sent c @ [b])"
    and "out_destroyed c \<Longrightarrow> out_destroyed d" "signal_aborted c \<Longrightarrow> signal_aborted d"
    and "outcome = LoopLeft \<Longrightarrow> out_destroyed d \<or> signal_aborted d \<or> (round_read r = BodyDone \<and> sent d = sent c)"
  shows "pumped i (r # rs) c outcome d"
proof -
  from assms(4) have "\<exists>n. sent d = sent c @ take n (chunks_read (r # rs))"
    by (auto intro: exI [of _ 0] exI [of _ "Suc 0"])
  with assms show ?thesis by (auto simp: pumped_def)
qed

lemma wait_false:
  "waitForDrainOrDisconnect events c = (Some False, d) \<Longrightarrow> out_destroyed d \<or> signal_aborted d"
proof -
  have "out_destroyed (fold happen (e # es) c) \<or> signal_aborted (fold happen (e # es) c)" if "e \<noteq> OutDrain" for e es
    using that by (cases e) simp_all
  then show "waitForDrainOrDisconnect events c = (Some False, d) \<Longrightarrow> out_destroyed d \<or> signal_aborted d"
    by (auto simp: waitForDrain_result split: if_splits list.splits)
qed

lemma wait_keeps:
  assumes "waitForDrainOrDisconnect events c = (q, d)"
  shows "sent d = sent c" "readers_cancelled d = readers_cancelled c" "con_tracker d = con_tracker c" "out_ended d = out_ended c"
    "out_destroyed c \<Longrightarrow> out_destroyed d" "signal_aborted c \<Longrightarrow> signal_aborted d"
  using assms by (auto simp: waitForDrain_result split: if_splits)

lemma pump_pumped:
  assumes "pump rounds c = (outcome, e)" "holds_lease i (con_tracker c)" "rounds_work i rounds"
  shows "pumped i rounds c outcome e"
  using assms
proof (induction rounds arbitrary: c)
  case Nil
  then show ?case
    by (cases "out_destroyed c") (auto simp: pump_left pump_waits pumped_destroyed, simp add: pumped_def)
next
  case (Cons r rs)
  show ?case
  proof (cases "out_destroyed c")
    case True
    with Cons.prems show ?thesis by (auto simp: pump_left pumped_destroyed)
  next
    case False
    define d where "d = meanwhile (round_events r) (round_others r) c"
    from Cons.prems(3) have work: "others_work i (round_others r)" "others_work i (round_others_drain r)" "rounds_work i rs"
      by (auto simp: rounds_work_def)
    have holds: "holds_lease i (con_tracker d)" using work(1) Cons.prems(2) by (simp add: d_def others_work_def)
    note run = Cons.prems(1) [unfolded pump.simps [of "r # rs"], simplified False Let_def, simplified, folded d_def]
    show ?thesis
    proof (cases "round_read r")
      case (Chunk b)
      obtain ready u where u: "outgoing_write b (round_ready r) d = (ready, u)" by fastforce
      then have keep: "con_tracker u = con_tracker d" "readers_cancelled u = readers_cancelled c" "out_ended u = out_ended c"
        "out_destroyed u = out_destroyed d" "signal_aborted c \<Longrightarrow> signal_aborted u"
        by (auto simp: outgoing_write_def d_def split: if_splits)
      have wrote: "if out_destroyed d then sent u = sent c \<and> \<not> ready else sent u = sent c @ [b]"
        using u by (auto simp: outgoing_write_def d_def split: if_splits)
      show ?thesis
      proof (cases ready)
        case True
        with wrote have "\<not> out_destroyed d" "sent u = sent c @ [b]" by (auto split: if_splits)
        moreover from run Chunk u True have "pump rs u = (outcome, e)" by simp
        ultimately show ?thesis
          using Cons.IH [of u] holds keep work(3) Chunk False by (intro pumped_chunk [of i rs u]) simp_all
      next
        case blocked: False
        let ?v = "u\<lparr>con_tracker := round_others_drain r (con_tracker u)\<rparr>"
        obtain q w where w: "waitForDrainOrDisconnect (round_drain r) ?v = (q, w)" by fastforce
        note kept = wait_keeps [OF w]
        have held: "holds_lease i (con_tracker w)" using holds work(2) kept(3) keep(1) by (simp add: others_work_def)
        from wrote kept(1) have content: "sent w = sent c \<or> sent w = sent c @ [b]" by (auto split: if_splits)
        show ?thesis
        proof (cases "q = Some True")
          case True
          with w have "\<not> out_destroyed d" using keep(4) by (auto simp: waitForDrain_result split: if_splits)
          with wrote kept(1) have "sent w = sent c @ [b]" by simp
          moreover from run Chunk u blocked w True have "pump rs w = (outcome, e)" by simp
          ultimately show ?thesis
            using Cons.IH [of w] held keep kept work(3) Chunk False by (intro pumped_chunk [of i rs w]) simp_all
        next
          case other: False
          with run Chunk u blocked w have stop: "e = w" "outcome = LoopLeft \<Longrightarrow> q = Some False"
            by (auto split: option.splits bool.splits)
          have "out_destroyed w \<or> signal_aborted w" if "outcome = LoopLeft"
            using wait_false [of "round_drain r" ?v w] w stop(2) [OF that] by simp
          then show ?thesis
            unfolding stop(1) using held keep kept content Chunk False by (intro pumped_here) auto
        qed
      qed
    next
      case BodyDone
      with run holds show ?thesis by (intro pumped_here) (auto simp: d_def)
    next
      case ReadFailed
      with run holds show ?thesis by (intro pumped_here) (auto simp: d_def)
    qed
  qed
qed

section \<open>The whole response\<close>

lemma acquired_lease:
  assumes "activity_inv t" "\<not> stopped t"
  shows "holds_lease (length (closures t)) (acquireLease t)"
  using assms by (simp add: holds_lease_def acquireLease_inv closures_acquire)

lemma released_lease:
  assumes "holds_lease i t"
  shows "activity_inv (releaseLease i t)" "stopped t \<or> closures (releaseLease i t) ! i = Some True"
  using assms by (auto simp: holds_lease_def releaseLease_inv closures_release)

text \<open>\<open>before\<close> is the tracker when the lease is given back.\<close>

lemma stream_written:
  assumes "activity_inv (con_tracker c)" "\<not> stopped (con_tracker c)" "is_event_stream response"
    and "web_body response = Some body" "i = length (closures (con_tracker c))"
    and "rounds_work i (body_rounds body)" "others_work i (cancel_others body)"
    and "writeWebResponse response c = (outcome, d)"
  shows "(outcome = StillWaiting \<and> holds_lease i (con_tracker d)
      \<or> outcome \<noteq> StillWaiting \<and> readers_cancelled d = readers_cancelled c + 1
        \<and> (\<exists>before. holds_lease i before \<and> con_tracker d = releaseLease i before))
    \<and> (\<exists>n. sent d = sent c @ take n (chunks_read (body_rounds body)))
    \<and> (outcome = LoopLeft \<and> \<not> out_destroyed d \<and> \<not> signal_aborted d \<longrightarrow>
        sent d = sent c @ chunks_read (body_rounds body) \<and> out_ended d)"
proof -
  let ?c = "on_tracker acquireLease c\<lparr>out_status := web_status response, out_headers := out_headers c @ web_headers response\<rparr>"
  have start: "holds_lease i (con_tracker ?c)" using acquired_lease [OF assms(1,2)] by (simp add: on_tracker_def assms(5))
  have same: "sent ?c = sent c" "readers_cancelled ?c = readers_cancelled c" by (simp_all add: on_tracker_def)
  have head: "out_headers (on_tracker acquireLease c) = out_headers c" by (simp add: on_tracker_def)
  obtain q u where u: "pump (body_rounds body) ?c = (q, u)" by fastforce
  have p: "pumped i (body_rounds body) ?c q u" by (rule pump_pumped [OF u start assms(6)])
  from p have sent: "\<exists>n. sent u = sent c @ take n (chunks_read (body_rounds body))" and held: "holds_lease i (con_tracker u)"
    and count: "readers_cancelled u = readers_cancelled c"
    and all: "q = LoopLeft \<Longrightarrow> \<not> out_destroyed u \<Longrightarrow> \<not> signal_aborted u \<Longrightarrow> sent u = sent c @ chunks_read (body_rounds body)"
    unfolding pumped_def same by auto
  note run = assms(8) [unfolded writeWebResponse_def Let_def assms(4), simplified assms(3) if_True option.case head, unfolded u]
  show ?thesis
  proof (cases "q = StillWaiting")
    case True
    with run have "outcome = StillWaiting" "d = u" by auto
    with held sent show ?thesis by simp
  next
    case False
    define v where "v = meanwhile (cancel_events body) (cancel_others body) (u\<lparr>readers_cancelled := readers_cancelled u + 1\<rparr>)"
    define e where "e = (if q = LoopLeft \<and> \<not> out_destroyed v then outgoing_end v else v)"
    from run False have d: "outcome = q" "d = on_tracker (releaseLease i) e"
      by (auto simp: v_def e_def assms(5) split: stream_end.splits)
    have e: "sent e = sent u" "readers_cancelled e = readers_cancelled c + 1" "con_tracker e = cancel_others body (con_tracker u)"
      "out_destroyed e = out_destroyed v" "signal_aborted e = signal_aborted v"
      "q = LoopLeft \<Longrightarrow> \<not> out_destroyed v \<Longrightarrow> out_ended e"
      by (simp_all add: e_def v_def outgoing_end_def count)
    have "out_destroyed u \<Longrightarrow> out_destroyed v" "signal_aborted u \<Longrightarrow> signal_aborted v" by (simp_all add: v_def)
    moreover have "holds_lease i (con_tracker e)" using held assms(7) e(3) by (simp add: others_work_def)
    ultimately show ?thesis using False d e all sent by (auto simp: on_tracker_def)
  qed
qed

end
