(* ===== verification/Lifecycle.thy ===== *)
theory Lifecycle
  imports Activity Startup
begin

text \<open>
  The life of a daemon process, from its start to its end: \<open>stop\<close> of \<open>startDaemonServer\<close>
  (\<open>src/daemon/server.ts\<close>), \<open>src/daemon/shutdown.ts\<close>, \<open>start\<close> and \<open>stop\<close> of the \<open>DirectAppendObserver\<close>, and
  \<open>runDaemon\<close> (\<open>src/daemon/main.ts\<close>). Connections, timers, signals and the other processes act between any
  two parts of the code that run at once, as the step relation says. What a tick does to the evidence is in the
  theory Observer.
\<close>

section \<open>The state of the process\<close>

text \<open>The points at which \<open>stop\<close> waits, and its ends; \<open>StopIdle\<close> before it is called.\<close>

datatype stop_phase = StopIdle | StopClosing | StopRemovingState | StopRemovingCandidate | StopDone | StopThrown

datatype main_phase = MainWaits | MainStopsObserver | MainReturned

record process =
  pr_tracker :: tracker
  pr_listening :: bool
  pr_connections :: nat
  pr_stopTimers :: nat
  pr_stopping :: bool
  pr_phase :: stop_phase
  pr_shutdown :: bool
  pr_files :: machine
  pr_interval :: bool
  pr_tickPromise :: bool
  pr_lastError :: bool
  pr_main :: main_phase

definition daemonMetadata :: "nat \<Rightarrow> string \<Rightarrow> string \<Rightarrow> nat \<Rightarrow> nat \<Rightarrow> process_identity \<Rightarrow> int \<Rightarrow> daemon_metadata" where
  "daemonMetadata activeSessions version nonce pid port identity now =
     \<lparr>meta_activeSessions = Some activeSessions, meta_binaryVersion = version, meta_host = DAEMON_HOST, meta_nonce = nonce,
      meta_pid = pid, meta_port = port, meta_processIdentity = identity, meta_protocolVersion = DAEMON_PROTOCOL_VERSION,
      meta_startedAt = now\<rparr>"

text \<open>\<open>ShutdownController.begin\<close>; a promise is resolved once.\<close>

definition beginShutdown :: "process \<Rightarrow> process" where
  "beginShutdown p = p\<lparr>pr_shutdown := True\<rparr>"

text \<open>
  A call of \<open>stop\<close> up to its first wait. \<open>server.close\<close> fails when the server does not listen; open
  connections are destroyed, and their ends follow.
\<close>

definition stopServer :: "process \<Rightarrow> process" where
  "stopServer p =
     (if pr_stopping p then p
      else p\<lparr>pr_stopping := True, pr_tracker := stopTracker (pr_tracker p),
             pr_phase := if pr_listening p then StopClosing else StopThrown, pr_listening := False\<rparr>)"

text \<open>The tracker calls \<open>onIdle\<close>, which is \<open>stop\<close>, when its count of calls grows.\<close>

definition track :: "(tracker \<Rightarrow> tracker) \<Rightarrow> process \<Rightarrow> process" where
  "track f p =
     (let t = f (pr_tracker p); q = p\<lparr>pr_tracker := t\<rparr>
      in if idle_calls t = idle_calls (pr_tracker p) then q else stopServer q)"

section \<open>The observer and the main function\<close>

definition observerStart :: "process \<Rightarrow> process" where
  "observerStart p = (if pr_interval p then p else p\<lparr>pr_interval := True\<rparr>)"

text \<open>The callback of the interval: the tick before must have ended.\<close>

definition observerInterval :: "process \<Rightarrow> process" where
  "observerInterval p = (if pr_tickPromise p then p else p\<lparr>pr_tickPromise := True\<rparr>)"

definition tickEnds :: "bool \<Rightarrow> process \<Rightarrow> process" where
  "tickEnds failed p = p\<lparr>pr_tickPromise := False, pr_lastError := pr_lastError p \<or> failed\<rparr>"

definition observerStop :: "process \<Rightarrow> process" where
  "observerStop p = (if pr_interval p then p\<lparr>pr_interval := False\<rparr> else p)"

text \<open>
  The daemon serves as soon as it listens; then the ready candidate is published and the observer started.
  \<open>None\<close> when the candidate could not be written.
\<close>

definition runDaemon :: "host_env \<Rightarrow> int \<Rightarrow> int \<Rightarrow> daemon_metadata \<Rightarrow> machine \<Rightarrow> process option" where
  "runDaemon env now steady metadata m =
     (case publishReadyCandidate env metadata m of
        Some (Inr _, t) \<Rightarrow>
          Some (observerStart
            \<lparr>pr_tracker = startTracker now steady, pr_listening = True, pr_connections = 0, pr_stopTimers = 0,
             pr_stopping = False, pr_phase = StopIdle, pr_shutdown = False, pr_files = t, pr_interval = False,
             pr_tickPromise = False, pr_lastError = False, pr_main = MainWaits\<rparr>)
      | _ \<Rightarrow> None)"

inductive life_step :: "host_env \<Rightarrow> string \<Rightarrow> process \<Rightarrow> process \<Rightarrow> bool" for env nonce where
  time_goes: "0 \<le> d \<Longrightarrow> life_step env nonce p (track (\<lambda>t. t\<lparr>elapsed := elapsed t + d, clock_now := now\<rparr>) p)"
| accepted: "pr_listening p \<Longrightarrow> life_step env nonce p (p\<lparr>pr_connections := pr_connections p + 1\<rparr>)"
| request: "0 < pr_connections p \<Longrightarrow> life_step env nonce p (track touch p)"
| streams: "0 < pr_connections p \<Longrightarrow> life_step env nonce p (track acquireLease p)"
| streamed: "i < length (closures (pr_tracker p)) \<Longrightarrow> life_step env nonce p (track (releaseLease i) p)"
| closes: "0 < pr_connections p \<Longrightarrow> life_step env nonce p (p\<lparr>pr_connections := pr_connections p - 1\<rparr>)"
| timeout: "pending (pr_tracker p) h = Some (due, g) \<Longrightarrow> due \<le> elapsed (pr_tracker p) \<Longrightarrow>
    life_step env nonce p (track (runTimeout h) p)"
| shutdown_asked: "0 < pr_connections p \<Longrightarrow> life_step env nonce p (p\<lparr>pr_stopTimers := pr_stopTimers p + 1\<rparr>)"
| stop_timer: "0 < pr_stopTimers p \<Longrightarrow> life_step env nonce p (stopServer (p\<lparr>pr_stopTimers := pr_stopTimers p - 1\<rparr>))"
| signalled: "life_step env nonce p (stopServer p)"
| closed: "pr_phase p = StopClosing \<Longrightarrow> pr_connections p = 0 \<Longrightarrow> life_step env nonce p (p\<lparr>pr_phase := StopRemovingState\<rparr>)"
| state_removed: "pr_phase p = StopRemovingState \<Longrightarrow> removeOwnedDaemonState env nonce (pr_files p) = Some (r, m) \<Longrightarrow>
    life_step env nonce p (p\<lparr>pr_files := m, pr_phase := case r of Inl e \<Rightarrow> StopThrown | Inr _ \<Rightarrow> StopRemovingCandidate\<rparr>)"
| candidate_removed: "pr_phase p = StopRemovingCandidate \<Longrightarrow> removeReadyCandidate env nonce (pr_files p) = Some (r, m) \<Longrightarrow>
    life_step env nonce p (case r of Inl e \<Rightarrow> p\<lparr>pr_files := m, pr_phase := StopThrown\<rparr>
      | Inr _ \<Rightarrow> beginShutdown (p\<lparr>pr_files := m, pr_phase := StopDone\<rparr>))"
| others_act: "life_step env nonce p (p\<lparr>pr_files := act env (pr_files p)\<rparr>)"
| interval_fires: "pr_interval p \<Longrightarrow> life_step env nonce p (observerInterval p)"
| tick_ended: "pr_tickPromise p \<Longrightarrow> life_step env nonce p (tickEnds failed p)"
| main_resumes: "pr_main p = MainWaits \<Longrightarrow> pr_shutdown p \<Longrightarrow> life_step env nonce p (observerStop (p\<lparr>pr_main := MainStopsObserver\<rparr>))"
| main_returns: "pr_main p = MainStopsObserver \<Longrightarrow> \<not> pr_tickPromise p \<Longrightarrow> life_step env nonce p (p\<lparr>pr_main := MainReturned\<rparr>)"

section \<open>Invariant\<close>

definition life_inv :: "process \<Rightarrow> bool" where
  "life_inv p \<longleftrightarrow>
     activity_inv (pr_tracker p)
     \<and> (pr_stopping p \<longleftrightarrow> pr_phase p \<noteq> StopIdle) \<and> (pr_stopping p \<longleftrightarrow> stopped (pr_tracker p)) \<and> (pr_stopping p \<longleftrightarrow> \<not> pr_listening p)
     \<and> (pr_phase p \<in> {StopRemovingState, StopRemovingCandidate, StopDone} \<longrightarrow> pr_connections p = 0)
     \<and> (pr_shutdown p \<longleftrightarrow> pr_phase p = StopDone)
     \<and> (pr_main p \<noteq> MainWaits \<longrightarrow> pr_shutdown p)
     \<and> (pr_interval p \<longleftrightarrow> pr_main p = MainWaits)
     \<and> (pr_main p = MainReturned \<longrightarrow> \<not> pr_tickPromise p)"

text \<open>A step of the tracker stops it exactly when it calls \<open>onIdle\<close>.\<close>

definition idles_to_stop :: "tracker \<Rightarrow> tracker \<Rightarrow> bool" where
  "idles_to_stop t u \<longleftrightarrow> activity_inv u \<and> (stopped u \<longleftrightarrow> stopped t \<or> idle_calls u \<noteq> idle_calls t)
     \<and> (stopped t \<longrightarrow> idle_calls u = idle_calls t)"

lemma stopped_steps [simp]:
  "stopped (touch t) = stopped t" "stopped (acquireLease t) = stopped t" "stopped (releaseLease i t) = stopped t"
  by (simp_all add: touch_def acquireLease_def releaseLease_def Let_def split: option.split)

lemma tracker_steps:
  assumes "activity_inv t"
  shows "idles_to_stop t (t\<lparr>elapsed := e, clock_now := n\<rparr>)" "idles_to_stop t (touch t)" "idles_to_stop t (acquireLease t)"
    "i < length (closures t) \<Longrightarrow> idles_to_stop t (releaseLease i t)"
    "pending t h = Some (due, g) \<Longrightarrow> idles_to_stop t (runTimeout h t)"
proof -
  show "idles_to_stop t (t\<lparr>elapsed := e, clock_now := n\<rparr>)"
    using assms by (simp add: idles_to_stop_def activity_inv_def open_leases_def)
  show "idles_to_stop t (runTimeout h t)" if "pending t h = Some (due, g)"
    using assms that
  proof (cases rule: runTimeout_effect)
    case (rearmed u)
    with runTimeout_inv [OF assms that] show ?thesis by (simp add: idles_to_stop_def)
  next
    case idle
    with runTimeout_inv [OF assms that] assms show ?thesis by (simp add: idles_to_stop_def activity_inv_def)
  qed
qed (simp_all add: idles_to_stop_def assms touch_keeps_inv acquireLease_inv releaseLease_inv)

lemma track_inv:
  assumes "life_inv p" "idles_to_stop (pr_tracker p) (f (pr_tracker p))"
  shows "life_inv (track f p)"
proof (cases "idle_calls (f (pr_tracker p)) = idle_calls (pr_tracker p)")
  case True
  with assms show ?thesis by (auto simp: track_def Let_def life_inv_def idles_to_stop_def)
next
  case False
  with assms have "stopped (f (pr_tracker p))" "\<not> stopped (pr_tracker p)" "activity_inv (f (pr_tracker p))"
    by (auto simp: idles_to_stop_def)
  with assms(1) False show ?thesis by (auto simp: track_def Let_def life_inv_def stopServer_def stopTracker_def)
qed

lemma stopServer_inv: "life_inv p \<Longrightarrow> life_inv (stopServer p)"
  by (auto simp: stopServer_def life_inv_def stopTracker_inv) (auto simp: stopTracker_def clearTimer_def split: option.splits)

lemma life_step_inv:
  assumes "life_inv p" "life_step env nonce p q"
  shows "life_inv q"
proof -
  note tracked = track_inv [OF assms(1)] tracker_steps [of "pr_tracker p"]
  from assms(1) have inv: "activity_inv (pr_tracker p)" by (simp add: life_inv_def)
  from assms(2) show ?thesis
  proof cases
    case (time_goes d now)
    then show ?thesis by (simp add: tracked inv)
  next
    case (timeout h due g)
    then show ?thesis by (simp add: tracked(1) tracked(6) [OF inv])
  next
    case stop_timer
    from assms(1) have "life_inv (p\<lparr>pr_stopTimers := pr_stopTimers p - 1\<rparr>)" by (auto simp: life_inv_def)
    with stop_timer show ?thesis by (simp add: stopServer_inv)
  next
    case signalled
    with assms(1) show ?thesis by (simp add: stopServer_inv)
  next
    case (state_removed r m)
    with assms(1) show ?thesis by (auto simp: life_inv_def split: sum.splits)
  next
    case (candidate_removed r m)
    with assms(1) show ?thesis by (auto simp: life_inv_def beginShutdown_def split: sum.splits)
  next
    case request
    then show ?thesis by (simp add: tracked(1) tracked(3) [OF inv])
  next
    case streams
    then show ?thesis by (simp add: tracked(1) tracked(4) [OF inv])
  next
    case (streamed i)
    then show ?thesis by (simp add: tracked(1) tracked(5) [OF inv])
  qed (use assms(1) in \<open>auto simp: life_inv_def observerInterval_def tickEnds_def observerStop_def\<close>)
qed

lemma runDaemon_inv: "runDaemon env now steady metadata m = Some p \<Longrightarrow> life_inv p"
  by (auto simp: runDaemon_def life_inv_def observerStart_def startTracker_inv split: option.splits sum.splits)
    (simp_all add: startTracker_def armTimer_def setTimeout_def clearTimer_def)

interpretation life_system:
  transition_system "\<lambda>p. \<exists>now steady metadata m. runDaemon env now steady metadata m = Some p" "life_step env nonce" life_inv
  for env nonce
  by unfold_locales (auto intro: runDaemon_inv life_step_inv)

section \<open>The end of the process\<close>

lemma life_ended:
  assumes "life_inv p" "pr_main p = MainReturned"
  shows "pr_phase p = StopDone" "pr_shutdown p" "stopped (pr_tracker p)" "\<not> pr_listening p" "pr_connections p = 0"
    "\<not> pr_interval p" "\<not> pr_tickPromise p"
  using assms by (auto simp: life_inv_def)

text \<open>What \<open>stop\<close> removed is gone when it goes on.\<close>

lemma state_gone:
  assumes "removeOwnedDaemonState env nonce m = Some (Inr x, t)"
  shows "\<nexists>y. daemon_file t = FileOf y \<and> meta_nonce y = nonce"
  using assms by (auto simp: removeOwnedDaemonState_def chain_def Let_def split: state_document.splits if_splits)

lemma candidate_gone:
  "removeReadyCandidate env nonce m = Some (r, t) \<Longrightarrow> candidates t nonce = NoFile \<and> r = Inr ()"
  by (auto simp: removeReadyCandidate_def Let_def)

lemma stopServer_phase: "pr_stopping p \<Longrightarrow> stopServer p = p"
  by (simp add: stopServer_def)

lemma fields_track [simp]:
  "pr_files (track f p) = pr_files p" "pr_shutdown (track f p) = pr_shutdown p" "pr_main (track f p) = pr_main p"
  "pr_stopping p \<Longrightarrow> pr_phase (track f p) = pr_phase p"
  by (simp_all add: track_def Let_def stopServer_def)

lemma fields_stopServer [simp]:
  "pr_files (stopServer p) = pr_files p" "pr_shutdown (stopServer p) = pr_shutdown p" "pr_main (stopServer p) = pr_main p"
  "pr_stopping p \<Longrightarrow> pr_phase (stopServer p) = pr_phase p"
  by (simp_all add: stopServer_def)

lemma stop_removes:
  assumes "life_step env nonce p q"
  shows "pr_shutdown q \<Longrightarrow> \<not> pr_shutdown p \<Longrightarrow> candidates (pr_files q) nonce = NoFile"
    "pr_phase q = StopRemovingCandidate \<Longrightarrow> pr_phase p \<noteq> StopRemovingCandidate \<Longrightarrow>
      \<nexists>y. daemon_file (pr_files q) = FileOf y \<and> meta_nonce y = nonce"
proof -
  have other: "pr_phase (stopServer r) = StopRemovingCandidate \<Longrightarrow> pr_phase r = StopRemovingCandidate" for r
    by (auto simp: stopServer_def split: if_splits)
  then have track: "pr_phase (track f r) = StopRemovingCandidate \<Longrightarrow> pr_phase r = StopRemovingCandidate" for f r
    by (auto simp: track_def Let_def split: if_splits dest: other)
  show "candidates (pr_files q) nonce = NoFile" if "pr_shutdown q" "\<not> pr_shutdown p"
    using assms that
    by cases (auto simp: beginShutdown_def observerInterval_def tickEnds_def observerStop_def dest: candidate_gone split: sum.splits if_splits)
  show "\<nexists>y. daemon_file (pr_files q) = FileOf y \<and> meta_nonce y = nonce"
    if "pr_phase q = StopRemovingCandidate" "pr_phase p \<noteq> StopRemovingCandidate"
    using assms that
    by cases (auto simp: beginShutdown_def observerInterval_def tickEnds_def observerStop_def
      dest: candidate_gone state_gone other track split: sum.splits if_splits)
qed

text \<open>Once \<open>stop\<close> has thrown, nothing resolves the promise: a later call of \<open>stop\<close> does nothing.\<close>

lemma stop_thrown_stays:
  assumes "life_step env nonce p q" "life_inv p" "pr_phase p = StopThrown"
  shows "pr_phase q = StopThrown \<and> \<not> pr_shutdown q \<and> pr_main q = MainWaits"
proof -
  from assms(2,3) have "pr_stopping p" "\<not> pr_shutdown p" "pr_main p = MainWaits" by (auto simp: life_inv_def)
  with assms(1,3) show ?thesis
    by cases (auto simp: observerInterval_def tickEnds_def)
qed

section \<open>A stop can be brought to its end\<close>

text \<open>The other processes do not leave a file of the daemon that does not parse.\<close>

definition readable_state :: "host_env \<Rightarrow> bool" where
  "readable_state env \<longleftrightarrow> (\<forall>m. daemon_file m \<noteq> BadFile \<longrightarrow> daemon_file (he_world env m) \<noteq> BadFile)"

lemma readable_act: "readable_state env \<Longrightarrow> daemon_file m \<noteq> BadFile \<Longrightarrow> daemon_file (act env m) \<noteq> BadFile"
  by (simp add: readable_state_def act_def)

lemma removal_works:
  assumes "readable_state env" "daemon_file m \<noteq> BadFile"
  shows "\<exists>t. removeOwnedDaemonState env nonce m = Some (Inr (), t) \<and> daemon_file t \<noteq> BadFile"
  using readable_act [OF assms] by (auto simp: removeOwnedDaemonState_def chain_def Let_def split: state_document.split)

lemma candidate_readable:
  "readable_state env \<Longrightarrow> daemon_file m \<noteq> BadFile \<Longrightarrow> removeReadyCandidate env nonce m = Some (r, t) \<Longrightarrow> daemon_file t \<noteq> BadFile"
  using readable_act [of env m] by (auto simp: removeReadyCandidate_def Let_def)

abbreviation life_steps :: "host_env \<Rightarrow> string \<Rightarrow> process \<Rightarrow> process \<Rightarrow> bool" where
  "life_steps env nonce \<equiv> (life_step env nonce)\<^sup>*\<^sup>*"

lemma reaches_after: "life_step env nonce p q \<Longrightarrow> \<exists>r. life_steps env nonce q r \<and> P r \<Longrightarrow> \<exists>r. life_steps env nonce p r \<and> P r"
  by (blast intro: converse_rtranclp_into_rtranclp)

lemma reaches_next: "life_step env nonce p q \<Longrightarrow> P q \<Longrightarrow> \<exists>r. life_steps env nonce p r \<and> P r"
  by (blast intro: r_into_rtranclp)

lemma end_observed:
  assumes "pr_main p = MainStopsObserver"
  shows "\<exists>q. life_steps env nonce p q \<and> pr_main q = MainReturned"
proof (cases "pr_tickPromise p")
  case False
  show ?thesis by (rule reaches_next [OF main_returns [OF assms False]]) simp
next
  case True
  let ?q = "tickEnds False p"
  have "\<not> pr_tickPromise ?q" "pr_main ?q = MainStopsObserver" using assms by (simp_all add: tickEnds_def)
  note last_step = main_returns [OF this(2,1)]
  show ?thesis by (rule reaches_after [OF tick_ended [OF True] reaches_next [OF last_step]]) simp
qed

lemma end_resolved:
  assumes "life_inv p" "pr_shutdown p"
  shows "\<exists>q. life_steps env nonce p q \<and> pr_main q = MainReturned"
proof (cases "pr_main p")
  case MainWaits
  have "pr_main (observerStop (p\<lparr>pr_main := MainStopsObserver\<rparr>)) = MainStopsObserver" by (simp add: observerStop_def)
  from reaches_after [OF main_resumes [OF MainWaits assms(2)] end_observed [OF this]] show ?thesis .
qed (use end_observed in blast)+

lemma end_candidate:
  assumes "life_inv p" "pr_phase p = StopRemovingCandidate"
  shows "\<exists>q. life_steps env nonce p q \<and> pr_main q = MainReturned"
proof -
  obtain r m where removed: "removeReadyCandidate env nonce (pr_files p) = Some (r, m)" by (simp add: removeReadyCandidate_def Let_def)
  note step = candidate_removed [OF assms(2) removed]
  have "r = Inr ()" using candidate_gone [OF removed] by simp
  with life_step_inv [OF assms(1) step] have "\<exists>q. life_steps env nonce (case r of Inl e \<Rightarrow> p\<lparr>pr_files := m, pr_phase := StopThrown\<rparr>
      | Inr _ \<Rightarrow> beginShutdown (p\<lparr>pr_files := m, pr_phase := StopDone\<rparr>)) q \<and> pr_main q = MainReturned"
    by (intro end_resolved) (simp_all add: beginShutdown_def)
  from reaches_after [OF step this] show ?thesis .
qed

lemma end_state:
  assumes "life_inv p" "pr_phase p = StopRemovingState" "readable_state env" "daemon_file (pr_files p) \<noteq> BadFile"
  shows "\<exists>q. life_steps env nonce p q \<and> pr_main q = MainReturned"
proof -
  obtain m where removed: "removeOwnedDaemonState env nonce (pr_files p) = Some (Inr (), m)" using removal_works [OF assms(3,4)] by blast
  note step = state_removed [OF assms(2) removed]
  show ?thesis
    by (rule reaches_after [OF step end_candidate]) (use life_step_inv [OF assms(1) step] in simp_all)
qed

lemma end_closing:
  assumes "life_inv p" "pr_phase p = StopClosing" "readable_state env" "daemon_file (pr_files p) \<noteq> BadFile"
  shows "\<exists>q. life_steps env nonce p q \<and> pr_main q = MainReturned"
  using assms(1,2,4)
proof (induction "pr_connections p" arbitrary: p)
  case 0
  note step = closed [OF 0(3) 0(1) [symmetric]]
  show ?case by (rule reaches_after [OF step end_state]) (use life_step_inv [OF 0(2) step] 0(4) assms(3) in simp_all)
next
  case (Suc n)
  then have "0 < pr_connections p" by simp
  note step = closes [OF this, of env nonce]
  show ?case by (rule reaches_after [OF step Suc(1)]) (use life_step_inv [OF Suc(3) step] Suc in simp_all)
qed

lemma life_can_end:
  assumes "life_inv p" "pr_stopping p" "pr_phase p \<noteq> StopThrown" "readable_state env" "daemon_file (pr_files p) \<noteq> BadFile"
  shows "\<exists>q. life_steps env nonce p q \<and> pr_main q = MainReturned"
proof (cases "pr_phase p")
  case StopDone
  with assms(1) have "pr_shutdown p" by (simp add: life_inv_def)
  from end_resolved [OF assms(1) this] show ?thesis .
qed (use assms end_closing end_state end_candidate in \<open>auto simp: life_inv_def\<close>)

text \<open>With a file that parses \<open>stop\<close> does not throw.\<close>

lemma stop_does_not_throw:
  assumes "life_step env nonce p q" "life_inv p" "pr_phase p \<noteq> StopThrown" "readable_state env" "daemon_file (pr_files p) \<noteq> BadFile"
  shows "pr_phase q \<noteq> StopThrown \<and> daemon_file (pr_files q) \<noteq> BadFile"
proof -
  have stop: "pr_phase (stopServer r) \<noteq> StopThrown" if "pr_phase r \<noteq> StopThrown" "\<not> pr_stopping r \<longrightarrow> pr_listening r" for r
    using that by (simp add: stopServer_def)
  have listen: "\<not> pr_stopping p \<longrightarrow> pr_listening p" using assms(2) by (auto simp: life_inv_def)
  then have track: "pr_phase (track f p) \<noteq> StopThrown" for f
    using assms(3) stop by (simp add: track_def Let_def)
  from assms(1) show ?thesis
  proof cases
    case (state_removed r m)
    with removal_works [OF assms(4,5), of nonce] show ?thesis by auto
  next
    case (candidate_removed r m)
    then show ?thesis
      using candidate_gone [of env nonce "pr_files p"] candidate_readable [OF assms(4,5)] by (auto simp: beginShutdown_def)
  qed (use assms(3,5) listen track stop readable_act [OF assms(4,5)] in \<open>simp_all add: observerInterval_def tickEnds_def observerStop_def\<close>)
qed

lemma stop_never_throws:
  assumes "life_steps env nonce p q" "life_inv p" "pr_phase p \<noteq> StopThrown" "readable_state env" "daemon_file (pr_files p) \<noteq> BadFile"
  shows "life_inv q \<and> pr_phase q \<noteq> StopThrown \<and> daemon_file (pr_files q) \<noteq> BadFile"
  using assms(1)
proof (induction rule: rtranclp_induct)
  case (step q r)
  with stop_does_not_throw [OF step(2) _ _ assms(4)] life_step_inv [OF _ step(2)] show ?case by blast
qed (use assms in blast)

lemma started_process:
  assumes "runDaemon env now steady metadata m = Some p"
  shows "pr_phase p = StopIdle" "pr_main p = MainWaits" "candidates (pr_files p) (meta_nonce metadata) = FileOf metadata"
    "daemon_file (pr_files p) = daemon_file (act env m)"
  using assms by (auto simp: runDaemon_def observerStart_def publishReadyCandidate_def Let_def split: option.splits sum.splits)

end
