(* ===== verification/Template.thy ===== *)
theory Template
  imports Js_Text
begin

text \<open>
  What a probe template consists of (\<open>ProbeTemplates\<close> in \<open>src/probes/render.ts\<close>), and the placeholders that
  occur in a text. The texts themselves are in the theories \<open>Template_Native\<close>, \<open>Template_Jvm\<close>,
  \<open>Template_Script\<close> and \<open>Template_Typed\<close>.
\<close>

text \<open>\<open>tpl_members\<close> has the names of the members in the order in which the object is written.\<close>

record probe_templates =
  tpl_language :: string
  tpl_ingest :: string
  tpl_encoding :: string
  tpl_helper :: string
  tpl_call :: string
  tpl_placeholders :: "(string \<times> string) list"
  tpl_place_helper :: string
  tpl_place_call :: string
  tpl_members :: "string list"

text \<open>
  A run of capital letters and underscores that starts with an underscore is a placeholder when two
  underscores open it and close it. \<open>cur\<close> has the run so far, backwards.
\<close>

definition placeholder_run :: "string \<Rightarrow> string list" where
  "placeholder_run cur = (if take 2 cur = ''__'' \<and> take 2 (rev cur) = ''__'' \<and> 4 < length cur then [rev cur] else [])"

definition capital :: "char \<Rightarrow> bool" where
  "capital c \<longleftrightarrow> c \<in> set ''ABCDEFGHIJKLMNOPQRSTUVWXYZ''"

fun placeholders_from :: "string \<Rightarrow> string \<Rightarrow> string list" where
  "placeholders_from cur [] = placeholder_run cur"
| "placeholders_from cur (c # cs) =
     (if c = CHR ''_'' \<or> cur \<noteq> [] \<and> capital c then placeholders_from (c # cur) cs
      else placeholder_run cur @ placeholders_from [] cs)"

lemma capital_newline [simp]: "\<not> capital CHR 0x0A"
  by (simp add: capital_def)

lemma placeholders_line:
  "placeholders_from cur (xs @ CHR 0x0A # ys) = placeholders_from cur xs @ placeholders_from [] ys"
  by (induction cur xs rule: placeholders_from.induct) simp_all

lemma placeholders_joined:
  "ls \<noteq> [] \<Longrightarrow> placeholders_from [] (join_with [CHR 0x0A] ls) = concat (map (placeholders_from []) ls)"
  by (induction "[CHR 0x0A]" ls rule: join_with.induct) (simp_all add: placeholders_line)

lemma split_joined:
  "ls \<noteq> [] \<Longrightarrow> list_all (list_all (\<lambda>c. c \<noteq> CHR 0x0A)) ls \<Longrightarrow> split_on CHR 0x0A (join_with [CHR 0x0A] ls) = ls"
  by (intro split_join_lines) (auto simp: list_all_iff)

section \<open>The templates are complete\<close>

definition template_texts :: "probe_templates \<Rightarrow> string" where
  "template_texts t = tpl_helper t @ [CHR 0x0A] @ tpl_call t"

text \<open>
  The table of placeholders has those of the texts and no other, and the one for the place where events
  go is the one for the way of ingestion.
\<close>

definition template_complete :: "probe_templates \<Rightarrow> bool" where
  "template_complete t \<longleftrightarrow>
     set (map fst (tpl_placeholders t)) = set (placeholders_from [] (template_texts t))
     \<and> distinct (map fst (tpl_placeholders t))
     \<and> (if tpl_ingest t = ''http'' then ''__INGEST_URL__'' else ''__APPEND_PATH__'') \<in> set (placeholders_from [] (tpl_helper t))
     \<and> distinct (tpl_members t) \<and> set (tpl_members t) =
         {''language'', ''ingest'', ''dataEncoding'', ''helperTemplate'', ''callTemplate'', ''placeholders'', ''placement''}"

lemma texts_scanned:
  "hs \<noteq> [] \<Longrightarrow> cs \<noteq> [] \<Longrightarrow> placeholders_from [] (join_with [CHR 0x0A] hs @ CHR 0x0A # join_with [CHR 0x0A] cs) =
     concat (map (placeholders_from []) hs) @ concat (map (placeholders_from []) cs)"
  by (simp add: placeholders_line placeholders_joined)

end
