(* ===== verification/Template_Native.thy ===== *)
theory Template_Native
  imports Template
begin

text \<open>
  The templates for C, C++ and Rust: the functions that render them and the lines of their texts.
  Backslashes, tabs, single quotes and a few pairs of characters are written as characters of their own.
\<close>

definition c_helper :: "string list" where
  "c_helper = [
    ''// #region agent log'',
    ''#ifndef _POSIX_C_SOURCE'',
    ''#define _POSIX_C_SOURCE 200809L'',
    ''#endif'',
    ''#include <stdio.h>'',
    ''#include <string.h>'',
    ''#include <time.h>'',
    ''#ifndef _WIN32'',
    ''#include <fcntl.h>'',
    ''#include <unistd.h>'',
    ''#endif'',
    [],
    ''typedef struct {'',
    ''    char *buffer;'',
    ''    size_t length;'',
    ''    size_t capacity;'',
    ''    int overflow;'',
    ''} AgentDebugBuffer;'',
    [],
    ''static void agent_debug_append(AgentDebugBuffer *buf, const char *text, size_t n) {'',
    ''    if (buf->overflow) {'',
    ''        return;'',
    ''    }'',
    ''    if (n > buf->capacity - buf->length) {'',
    ''        buf->overflow = 1;'',
    ''        return;'',
    ''    }'',
    ''    memcpy(buf->buffer + buf->length, text, n);'',
    ''    buf->length += n;'',
    ''}'',
    [],
    ''static void agent_debug_append_char(AgentDebugBuffer *buf, char c) {'',
    ''    agent_debug_append(buf, &c, 1);'',
    ''}'',
    [],
    ''static void agent_debug_write_string(AgentDebugBuffer *buf, const char *text) {'',
    ''    char backslash = (char)0x5C;'',
    ''    char quote = (char)0x22;'',
    ''    agent_debug_append_char(buf, quote);'',
    ''    if (text != NULL) {'',
    ''        for (const unsigned char *p = (const unsigned char '' @ [CHR 0x2A] @ '')text; *p != 0; p += 1) {'',
    ''            unsigned int code = (unsigned int)'' @ [CHR 0x28] @ ''*p);'',
    ''            char c = (char)'' @ [CHR 0x28] @ ''*p);'',
    ''            if (c == quote) {'',
    ''                agent_debug_append_char(buf, backslash);'',
    ''                agent_debug_append_char(buf, quote);'',
    ''            } else if (c == backslash) {'',
    ''                agent_debug_append_char(buf, backslash);'',
    ''                agent_debug_append_char(buf, backslash);'',
    ''            } else if (code == 8 || code == 9 || code == 10 || code == 12 || code == 13) {'',
    ''                const char *escapes = \"btn'' @ [CHR 0x5C] @ ''0fr\";'',
    ''                agent_debug_append_char(buf, backslash);'',
    ''                agent_debug_append_char(buf, escapes[code - 8]);'',
    ''            } else if (code < 32) {'',
    ''                const char *digits = \"0123456789abcdef\";'',
    ''                agent_debug_append_char(buf, backslash);'',
    ''                agent_debug_append_char(buf, '' @ [CHR 0x27] @ ''u'' @ [CHR 0x27] @ '');'',
    ''                agent_debug_append_char(buf, '' @ [CHR 0x27] @ ''0'' @ [CHR 0x27] @ '');'',
    ''                agent_debug_append_char(buf, '' @ [CHR 0x27] @ ''0'' @ [CHR 0x27] @ '');'',
    ''                agent_debug_append_char(buf, digits[(code >> 4) & 15]);'',
    ''                agent_debug_append_char(buf, digits[code & 15]);'',
    ''            } else {'',
    ''                agent_debug_append_char(buf, c);'',
    ''            }'',
    ''        }'',
    ''    }'',
    ''    agent_debug_append_char(buf, quote);'',
    ''}'',
    [],
    ''// Returns a pointer to a shared static buffer; not thread-safe.'',
    ''static const char *agent_debug_json_string(const char *text) {'',
    ''    static char storage[65536 + 4096];'',
    ''    AgentDebugBuffer buf;'',
    ''    buf.buffer = storage;'',
    ''    buf.length = 0;'',
    ''    buf.capacity = sizeof(storage) - 1;'',
    ''    buf.overflow = 0;'',
    ''    agent_debug_write_string(&buf, text);'',
    ''    storage[buf.length] = 0;'',
    ''    return storage;'',
    ''}'',
    [],
    ''// Feature-test macros defined above only take effect when this helper'',
    ''// precedes every system header. Real files often include <time.h> first,'',
    ''// which locks glibc'' @ [CHR 0x27] @ ''s <features.h> and hides clock_gettime/CLOCK_REALTIME'',
    ''// under strict -std=c99. Gate on CLOCK_REALTIME'' @ [CHR 0x27] @ ''s visibility (it shares the'',
    ''// __USE_POSIX199309 guard with clock_gettime and struct timespec) and fall'',
    ''// back to ISO C time() so the code compiles regardless of header ordering.'',
    ''static long long agent_debug_timestamp_ms(void) {'',
    ''#if !defined(_WIN32) && defined(CLOCK_REALTIME)'',
    ''    struct timespec ts;'',
    ''    if (clock_gettime(CLOCK_REALTIME, &ts) == 0) {'',
    ''        return (long long)ts.tv_sec * 1000 + (long long)ts.tv_nsec / 1000000;'',
    ''    }'',
    ''#endif'',
    ''    return (long long)time(NULL) * 1000;'',
    ''}'',
    [],
    ''static void agent_debug_emit(const char *hypothesis_id, const char *location,'',
    ''                             const char *message, const char *data_json) {'',
    ''    if (data_json == NULL || data_json[0] == 0) {'',
    ''        return;'',
    ''    }'',
    ''    for (const unsigned char *scan = (const unsigned char '' @ [CHR 0x2A] @ '')data_json; *scan != 0; scan += 1) {'',
    ''        if '' @ [CHR 0x28] @ ''*scan < 0x20) {'',
    ''            return;'',
    ''        }'',
    ''    }'',
    ''    char storage[65536 + 4096];'',
    ''    AgentDebugBuffer buf;'',
    ''    buf.buffer = storage;'',
    ''    buf.length = 0;'',
    ''    buf.capacity = sizeof(storage);'',
    ''    buf.overflow = 0;'',
    ''    char timestamp[32];'',
    ''    int stamped = snprintf(timestamp, sizeof(timestamp), \"%lld\", agent_debug_timestamp_ms());'',
    ''    if (stamped < 0) {'',
    ''        return;'',
    ''    }'',
    ''    agent_debug_append_char(&buf, '' @ [CHR 0x27] @ ''{'' @ [CHR 0x27] @ '');'',
    ''    agent_debug_write_string(&buf, \"hypothesisId\");'',
    ''    agent_debug_append_char(&buf, '' @ [CHR 0x27] @ '':'' @ [CHR 0x27] @ '');'',
    ''    agent_debug_write_string(&buf, hypothesis_id);'',
    ''    agent_debug_append_char(&buf, '' @ [CHR 0x27] @ '','' @ [CHR 0x27] @ '');'',
    ''    agent_debug_write_string(&buf, \"location\");'',
    ''    agent_debug_append_char(&buf, '' @ [CHR 0x27] @ '':'' @ [CHR 0x27] @ '');'',
    ''    agent_debug_write_string(&buf, location);'',
    ''    agent_debug_append_char(&buf, '' @ [CHR 0x27] @ '','' @ [CHR 0x27] @ '');'',
    ''    agent_debug_write_string(&buf, \"message\");'',
    ''    agent_debug_append_char(&buf, '' @ [CHR 0x27] @ '':'' @ [CHR 0x27] @ '');'',
    ''    agent_debug_write_string(&buf, message);'',
    ''    agent_debug_append_char(&buf, '' @ [CHR 0x27] @ '','' @ [CHR 0x27] @ '');'',
    ''    agent_debug_write_string(&buf, \"data\");'',
    ''    agent_debug_append_char(&buf, '' @ [CHR 0x27] @ '':'' @ [CHR 0x27] @ '');'',
    ''    agent_debug_append(&buf, data_json, strlen(data_json));'',
    ''    agent_debug_append_char(&buf, '' @ [CHR 0x27] @ '','' @ [CHR 0x27] @ '');'',
    ''    agent_debug_write_string(&buf, \"timestamp\");'',
    ''    agent_debug_append_char(&buf, '' @ [CHR 0x27] @ '':'' @ [CHR 0x27] @ '');'',
    ''    agent_debug_append(&buf, timestamp, (size_t)stamped);'',
    ''    agent_debug_append_char(&buf, '' @ [CHR 0x27] @ ''}'' @ [CHR 0x27] @ '');'',
    ''    agent_debug_append_char(&buf, (char)0x0A);'',
    ''    if (buf.overflow || buf.length > 65536) {'',
    ''        return;'',
    ''    }'',
    ''#ifdef _WIN32'',
    ''    FILE *file = fopen(\"__APPEND_PATH__\", \"ab\");'',
    ''    if (file != NULL) {'',
    ''        size_t wrote = fwrite(storage, 1, buf.length, file);'',
    ''        (void)wrote;'',
    ''        fclose(file);'',
    ''    }'',
    ''#else'',
    ''    int fd = open(\"__APPEND_PATH__\", O_WRONLY | O_APPEND | O_CREAT, 0600);'',
    ''    if (fd >= 0) {'',
    ''        ssize_t wrote = write(fd, storage, buf.length);'',
    ''        (void)wrote;'',
    ''        close(fd);'',
    ''    }'',
    ''#endif'',
    ''}'',
    ''// #endregion'']"

definition c_call :: "string list" where
  "c_call = [
    ''// #region agent log'',
    ''agent_debug_emit(\"__HYPOTHESIS_ID__\", \"__LOCATION__\", \"__MESSAGE__\", __DATA_JSON_EXPRESSION__);'',
    ''// #endregion'']"

definition renderCTemplate :: probe_templates where
  "renderCTemplate =
    \<lparr>tpl_language = ''c'', tpl_ingest = ''file'', tpl_encoding = ''serialized-json'',
     tpl_helper = join_with [CHR 0x0A] c_helper, tpl_call = join_with [CHR 0x0A] c_call,
     tpl_placeholders = [
       (''__APPEND_PATH__'', ''Replace with the appendPath returned by debug-mode create.''),
       (''__DATA_JSON_EXPRESSION__'', ''Replace with an expression that returns one complete valid JSON value containing no secrets. Use the application'' @ [CHR 0x27] @ ''s serializer when available; otherwise pass agent_debug_json_string(text).''),
       (''__HYPOTHESIS_ID__'', ''Replace with the hypothesis label.''),
       (''__LOCATION__'', ''Replace with the observed source location.''),
       (''__MESSAGE__'', ''Replace with a constant observation message.'')],
     tpl_place_helper = ''file-start'', tpl_place_call = ''statement'',
     tpl_members = [''callTemplate'', ''dataEncoding'', ''helperTemplate'', ''ingest'', ''language'', ''placement'', ''placeholders'']\<rparr>"

definition cpp_helper :: "string list" where
  "cpp_helper = [
    ''// #region agent log'',
    ''#include <chrono>'',
    ''#include <string>'',
    ''#ifdef _WIN32'',
    ''#include <fstream>'',
    ''#include <ios>'',
    ''#else'',
    ''#include <fcntl.h>'',
    ''#include <unistd.h>'',
    ''#endif'',
    [],
    ''#define AGENT_DEBUG_STRINGIFY_IMPL(value) #value'',
    ''#define AGENT_DEBUG_STRINGIFY(value) AGENT_DEBUG_STRINGIFY_IMPL(value)'',
    [],
    ''namespace agent_debug_mode {'',
    [],
    ''inline std::string json_string(const std::string& text) {'',
    ''    const char backslash = static_cast<char>(0x5C);'',
    ''    const char quote = static_cast<char>(0x22);'',
    ''    std::string out;'',
    ''    out.push_back(quote);'',
    ''    for (unsigned char c : text) {'',
    ''        unsigned int code = static_cast<unsigned int>(c);'',
    ''        if (c == quote) {'',
    ''            out.push_back(backslash);'',
    ''            out.push_back(quote);'',
    ''        } else if (c == backslash) {'',
    ''            out.push_back(backslash);'',
    ''            out.push_back(backslash);'',
    ''        } else if (code == 8) {'',
    ''            out.push_back(backslash);'',
    ''            out.push_back('' @ [CHR 0x27] @ ''b'' @ [CHR 0x27] @ '');'',
    ''        } else if (code == 9) {'',
    ''            out.push_back(backslash);'',
    ''            out.push_back('' @ [CHR 0x27] @ ''t'' @ [CHR 0x27] @ '');'',
    ''        } else if (code == 10) {'',
    ''            out.push_back(backslash);'',
    ''            out.push_back('' @ [CHR 0x27] @ ''n'' @ [CHR 0x27] @ '');'',
    ''        } else if (code == 12) {'',
    ''            out.push_back(backslash);'',
    ''            out.push_back('' @ [CHR 0x27] @ ''f'' @ [CHR 0x27] @ '');'',
    ''        } else if (code == 13) {'',
    ''            out.push_back(backslash);'',
    ''            out.push_back('' @ [CHR 0x27] @ ''r'' @ [CHR 0x27] @ '');'',
    ''        } else if (code < 32) {'',
    ''            const char* digits = \"0123456789abcdef\";'',
    ''            out.push_back(backslash);'',
    ''            out.push_back('' @ [CHR 0x27] @ ''u'' @ [CHR 0x27] @ '');'',
    ''            out.push_back('' @ [CHR 0x27] @ ''0'' @ [CHR 0x27] @ '');'',
    ''            out.push_back('' @ [CHR 0x27] @ ''0'' @ [CHR 0x27] @ '');'',
    ''            out.push_back(digits[(code >> 4) & 15]);'',
    ''            out.push_back(digits[code & 15]);'',
    ''        } else {'',
    ''            out.push_back(static_cast<char>(c));'',
    ''        }'',
    ''    }'',
    ''    out.push_back(quote);'',
    ''    return out;'',
    ''}'',
    [],
    ''inline long long timestamp_ms() {'',
    ''    return std::chrono::duration_cast<std::chrono::milliseconds>('',
    ''               std::chrono::system_clock::now().time_since_epoch())'',
    ''        .count();'',
    ''}'',
    [],
    ''inline void emit(const std::string& hypothesis_id, const std::string& location,'',
    ''                 const std::string& message, const std::string& data_json) {'',
    ''    try {'',
    ''        if (data_json.empty()) {'',
    ''            return;'',
    ''        }'',
    ''        for (unsigned char c : data_json) {'',
    ''            if (c < 0x20) {'',
    ''                return;'',
    ''            }'',
    ''        }'',
    ''        std::string out;'',
    ''        out.push_back('' @ [CHR 0x27] @ ''{'' @ [CHR 0x27] @ '');'',
    ''        out += json_string(\"hypothesisId\");'',
    ''        out.push_back('' @ [CHR 0x27] @ '':'' @ [CHR 0x27] @ '');'',
    ''        out += json_string(hypothesis_id);'',
    ''        out.push_back('' @ [CHR 0x27] @ '','' @ [CHR 0x27] @ '');'',
    ''        out += json_string(\"location\");'',
    ''        out.push_back('' @ [CHR 0x27] @ '':'' @ [CHR 0x27] @ '');'',
    ''        out += json_string(location);'',
    ''        out.push_back('' @ [CHR 0x27] @ '','' @ [CHR 0x27] @ '');'',
    ''        out += json_string(\"message\");'',
    ''        out.push_back('' @ [CHR 0x27] @ '':'' @ [CHR 0x27] @ '');'',
    ''        out += json_string(message);'',
    ''        out.push_back('' @ [CHR 0x27] @ '','' @ [CHR 0x27] @ '');'',
    ''        out += json_string(\"data\");'',
    ''        out.push_back('' @ [CHR 0x27] @ '':'' @ [CHR 0x27] @ '');'',
    ''        out += data_json;'',
    ''        out.push_back('' @ [CHR 0x27] @ '','' @ [CHR 0x27] @ '');'',
    ''        out += json_string(\"timestamp\");'',
    ''        out.push_back('' @ [CHR 0x27] @ '':'' @ [CHR 0x27] @ '');'',
    ''        out += std::to_string(timestamp_ms());'',
    ''        out.push_back('' @ [CHR 0x27] @ ''}'' @ [CHR 0x27] @ '');'',
    ''        out.push_back(static_cast<char>(0x0A));'',
    ''        if (out.size() > 65536) {'',
    ''            return;'',
    ''        }'',
    ''#ifdef _WIN32'',
    ''        std::ofstream file(\"__APPEND_PATH__\", std::ios::out | std::ios::app | std::ios::binary);'',
    ''        if (!file.is_open()) {'',
    ''            return;'',
    ''        }'',
    ''        file << out;'',
    ''#else'',
    ''        int fd = open(\"__APPEND_PATH__\", O_WRONLY | O_APPEND | O_CREAT, 0600);'',
    ''        if (fd >= 0) {'',
    ''            ssize_t wrote = write(fd, out.data(), out.size());'',
    ''            (void)wrote;'',
    ''            close(fd);'',
    ''        }'',
    ''#endif'',
    ''    } catch (...) {'',
    ''        return;'',
    ''    }'',
    ''}'',
    [],
    ''}  // namespace agent_debug_mode'',
    ''// #endregion'']"

definition cpp_call :: "string list" where
  "cpp_call = [
    ''// #region agent log'',
    ''agent_debug_mode::emit(\"__HYPOTHESIS_ID__\", \"__LOCATION__\", \"__MESSAGE__\", __DATA_JSON_EXPRESSION__);'',
    ''// #endregion'']"

definition renderCppTemplate :: probe_templates where
  "renderCppTemplate =
    \<lparr>tpl_language = ''cpp'', tpl_ingest = ''file'', tpl_encoding = ''serialized-json'',
     tpl_helper = join_with [CHR 0x0A] cpp_helper, tpl_call = join_with [CHR 0x0A] cpp_call,
     tpl_placeholders = [
       (''__APPEND_PATH__'', ''Replace with the appendPath returned by debug-mode create.''),
       (''__DATA_JSON_EXPRESSION__'', ''Replace with an expression that returns one complete valid JSON value containing no secrets. Use the application'' @ [CHR 0x27] @ ''s serializer when available; otherwise pass agent_debug_mode::json_string(text).''),
       (''__HYPOTHESIS_ID__'', ''Replace with the hypothesis label.''),
       (''__LOCATION__'', ''Replace with the observed source location.''),
       (''__MESSAGE__'', ''Replace with a constant observation message.'')],
     tpl_place_helper = ''file-start'', tpl_place_call = ''statement'',
     tpl_members = [''callTemplate'', ''dataEncoding'', ''helperTemplate'', ''ingest'', ''language'', ''placement'', ''placeholders'']\<rparr>"

definition rust_helper :: "string list" where
  "rust_helper = [
    ''// #region agent log'',
    ''#[allow(dead_code)]'',
    ''mod agent_debug_mode {'',
    ''    pub fn json_string(text: &str) -> String {'',
    ''        let backslash = char::from(92u8);'',
    ''        let quote = char::from(34u8);'',
    ''        let mut out = String::new();'',
    ''        out.push(quote);'',
    ''        for c in text.chars() {'',
    ''            let code = c as u32;'',
    ''            if c == quote {'',
    ''                out.push(backslash);'',
    ''                out.push(quote);'',
    ''            } else if c == backslash {'',
    ''                out.push(backslash);'',
    ''                out.push(backslash);'',
    ''            } else if code == 8 {'',
    ''                out.push(backslash);'',
    ''                out.push(char::from(98u8));'',
    ''            } else if code == 9 {'',
    ''                out.push(backslash);'',
    ''                out.push(char::from(116u8));'',
    ''            } else if code == 10 {'',
    ''                out.push(backslash);'',
    ''                out.push(char::from(110u8));'',
    ''            } else if code == 12 {'',
    ''                out.push(backslash);'',
    ''                out.push(char::from(102u8));'',
    ''            } else if code == 13 {'',
    ''                out.push(backslash);'',
    ''                out.push(char::from(114u8));'',
    ''            } else if code < 32 {'',
    ''                let digits = \"0123456789abcdef\".as_bytes();'',
    ''                out.push(backslash);'',
    ''                out.push(char::from(117u8));'',
    ''                out.push(char::from(48u8));'',
    ''                out.push(char::from(48u8));'',
    ''                out.push(char::from(digits[((code >> 4) & 15) as usize]));'',
    ''                out.push(char::from(digits[(code & 15) as usize]));'',
    ''            } else {'',
    ''                out.push(c);'',
    ''            }'',
    ''        }'',
    ''        out.push(quote);'',
    ''        out'',
    ''    }'',
    [],
    ''    fn timestamp_ms() -> i64 {'',
    ''        match std::time::SystemTime::now().duration_since(std::time::UNIX_EPOCH) {'',
    ''            Ok(elapsed) => elapsed.as_millis() as i64,'',
    ''            Err(_) => 0,'',
    ''        }'',
    ''    }'',
    [],
    ''    pub fn emit(hypothesis_id: &str, location: &str, message: &str, data_json: &str) {'',
    ''        if data_json.is_empty() {'',
    ''            return;'',
    ''        }'',
    ''        if data_json.bytes().any(|byte| byte < 32) {'',
    ''            return;'',
    ''        }'',
    ''        let mut out = String::new();'',
    ''        out.push('' @ [CHR 0x27] @ ''{'' @ [CHR 0x27] @ '');'',
    ''        out.push_str(&json_string(\"hypothesisId\"));'',
    ''        out.push('' @ [CHR 0x27] @ '':'' @ [CHR 0x27] @ '');'',
    ''        out.push_str(&json_string(hypothesis_id));'',
    ''        out.push('' @ [CHR 0x27] @ '','' @ [CHR 0x27] @ '');'',
    ''        out.push_str(&json_string(\"location\"));'',
    ''        out.push('' @ [CHR 0x27] @ '':'' @ [CHR 0x27] @ '');'',
    ''        out.push_str(&json_string(location));'',
    ''        out.push('' @ [CHR 0x27] @ '','' @ [CHR 0x27] @ '');'',
    ''        out.push_str(&json_string(\"message\"));'',
    ''        out.push('' @ [CHR 0x27] @ '':'' @ [CHR 0x27] @ '');'',
    ''        out.push_str(&json_string(message));'',
    ''        out.push('' @ [CHR 0x27] @ '','' @ [CHR 0x27] @ '');'',
    ''        out.push_str(&json_string(\"data\"));'',
    ''        out.push('' @ [CHR 0x27] @ '':'' @ [CHR 0x27] @ '');'',
    ''        out.push_str(data_json);'',
    ''        out.push('' @ [CHR 0x27] @ '','' @ [CHR 0x27] @ '');'',
    ''        out.push_str(&json_string(\"timestamp\"));'',
    ''        out.push('' @ [CHR 0x27] @ '':'' @ [CHR 0x27] @ '');'',
    ''        out.push_str(&timestamp_ms().to_string());'',
    ''        out.push('' @ [CHR 0x27] @ ''}'' @ [CHR 0x27] @ '');'',
    ''        out.push(char::from(10u8));'',
    ''        if out.len() > 65536 {'',
    ''            return;'',
    ''        }'',
    ''        let mut options = std::fs::OpenOptions::new();'',
    ''        options.create(true).append(true);'',
    ''        #[cfg(unix)]'',
    ''        {'',
    ''            use std::os::unix::fs::OpenOptionsExt;'',
    ''            options.mode(0o600);'',
    ''        }'',
    ''        if let Ok(mut file) = options.open(\"__APPEND_PATH__\") {'',
    ''            use std::io::Write;'',
    ''            let _ = file.write_all(out.as_bytes());'',
    ''        }'',
    ''    }'',
    ''}'',
    ''// #endregion'']"

definition rust_call :: "string list" where
  "rust_call = [
    ''// #region agent log'',
    ''agent_debug_mode::emit(\"__HYPOTHESIS_ID__\", \"__LOCATION__\", \"__MESSAGE__\", __DATA_JSON_EXPRESSION__);'',
    ''// #endregion'']"

definition renderRustTemplate :: probe_templates where
  "renderRustTemplate =
    \<lparr>tpl_language = ''rust'', tpl_ingest = ''file'', tpl_encoding = ''serialized-json'',
     tpl_helper = join_with [CHR 0x0A] rust_helper, tpl_call = join_with [CHR 0x0A] rust_call,
     tpl_placeholders = [
       (''__APPEND_PATH__'', ''Replace with the appendPath returned by debug-mode create.''),
       (''__DATA_JSON_EXPRESSION__'', ''Replace with an expression that returns one complete valid JSON value containing no secrets. Use the application'' @ [CHR 0x27] @ ''s serializer when available; otherwise pass agent_debug_mode::json_string(text).''),
       (''__HYPOTHESIS_ID__'', ''Replace with the hypothesis label.''),
       (''__LOCATION__'', ''Replace with the observed source location.''),
       (''__MESSAGE__'', ''Replace with a constant observation message.'')],
     tpl_place_helper = ''top-level'', tpl_place_call = ''statement'',
     tpl_members = [''callTemplate'', ''dataEncoding'', ''helperTemplate'', ''ingest'', ''language'', ''placement'', ''placeholders'']\<rparr>"

section \<open>The placeholders in the texts\<close>

lemma c_scanned:
  "concat (map (placeholders_from []) c_helper) = [''__APPEND_PATH__'', ''__APPEND_PATH__'']"
  "concat (map (placeholders_from []) c_call) = [''__HYPOTHESIS_ID__'', ''__LOCATION__'', ''__MESSAGE__'', ''__DATA_JSON_EXPRESSION__'']"
  "list_all (list_all (\<lambda>c. c \<noteq> CHR 0x0A)) c_helper" "list_all (list_all (\<lambda>c. c \<noteq> CHR 0x0A)) c_call"
  "c_helper \<noteq> []" "c_call \<noteq> []"
  by code_simp+

lemma c_complete: "template_complete renderCTemplate"
  by (auto simp: template_complete_def template_texts_def renderCTemplate_def texts_scanned placeholders_joined c_scanned)

lemma cpp_scanned:
  "concat (map (placeholders_from []) cpp_helper) = [''__APPEND_PATH__'', ''__APPEND_PATH__'']"
  "concat (map (placeholders_from []) cpp_call) = [''__HYPOTHESIS_ID__'', ''__LOCATION__'', ''__MESSAGE__'', ''__DATA_JSON_EXPRESSION__'']"
  "list_all (list_all (\<lambda>c. c \<noteq> CHR 0x0A)) cpp_helper" "list_all (list_all (\<lambda>c. c \<noteq> CHR 0x0A)) cpp_call"
  "cpp_helper \<noteq> []" "cpp_call \<noteq> []"
  by code_simp+

lemma cpp_complete: "template_complete renderCppTemplate"
  by (auto simp: template_complete_def template_texts_def renderCppTemplate_def texts_scanned placeholders_joined cpp_scanned)

lemma rust_scanned:
  "concat (map (placeholders_from []) rust_helper) = [''__APPEND_PATH__'']"
  "concat (map (placeholders_from []) rust_call) = [''__HYPOTHESIS_ID__'', ''__LOCATION__'', ''__MESSAGE__'', ''__DATA_JSON_EXPRESSION__'']"
  "list_all (list_all (\<lambda>c. c \<noteq> CHR 0x0A)) rust_helper" "list_all (list_all (\<lambda>c. c \<noteq> CHR 0x0A)) rust_call"
  "rust_helper \<noteq> []" "rust_call \<noteq> []"
  by code_simp+

lemma rust_complete: "template_complete renderRustTemplate"
  by (auto simp: template_complete_def template_texts_def renderRustTemplate_def texts_scanned placeholders_joined rust_scanned)

end
