(* ===== verification/Template_Jvm.thy ===== *)
theory Template_Jvm
  imports Template
begin

text \<open>
  The templates for Java and Kotlin: the functions that render them and the lines of their texts.
  Backslashes, tabs, single quotes and a few pairs of characters are written as characters of their own.
\<close>

definition java_helper :: "string list" where
  "java_helper = [
    ''// #region agent log'',
    ''class AgentDebugLog {'',
    ''    private static final java.util.Set<String> SECRET_KEYS = new java.util.HashSet<>(java.util.Arrays.asList('',
    ''        \"authorization\", \"authorization_header\", \"cookie\", \"set_cookie\",'',
    ''        \"password\", \"passwd\", \"pwd\", \"private_key\", \"secret\", \"token\",'',
    ''        \"credential\", \"credentials\"));'',
    [],
    ''    private static final java.util.regex.Pattern SECRET_SUFFIX = java.util.regex.Pattern.compile('',
    ''        \"(^|_)(api_key|api_token|oauth_token|o_auth_token|private_key|client_secret|access_token|refresh_token|id_token|auth_token|bearer_token)$\");'',
    [],
    ''    private static boolean isSecretKey(String key) {'',
    ''        String normalized = key.replaceAll(\"([A-Z]+)([A-Z][a-z])\", \"$1_$2\");'',
    ''        normalized = normalized.replaceAll(\"([a-z0-9])([A-Z])\", \"$1_$2\");'',
    ''        normalized = normalized.replaceAll(\"[^a-zA-Z0-9]+\", \"_\").toLowerCase(java.util.Locale.ROOT);'',
    ''        normalized = normalized.replaceAll(\"^_+\", \"\").replaceAll(\"_+$\", \"\");'',
    ''        return SECRET_KEYS.contains(normalized) || SECRET_SUFFIX.matcher(normalized).find();'',
    ''    }'',
    [],
    ''    private static String decapitalize(String name) {'',
    ''        if (name.isEmpty()) {'',
    ''            return name;'',
    ''        }'',
    ''        if (name.length() > 1 && Character.isUpperCase(name.charAt(0)) && Character.isUpperCase(name.charAt(1))) {'',
    ''            return name;'',
    ''        }'',
    ''        char[] letters = name.toCharArray();'',
    ''        letters[0] = Character.toLowerCase(letters[0]);'',
    ''        return new String(letters);'',
    ''    }'',
    [],
    ''    private static Object redact(Object value, java.util.IdentityHashMap<Object, Boolean> active, int depth) {'',
    ''        if (depth > 64) {'',
    ''            throw new IllegalStateException(\"Observation graph is too deep\");'',
    ''        }'',
    ''        if (value == null) {'',
    ''            return null;'',
    ''        }'',
    ''        if (value instanceof CharSequence || value instanceof Character) {'',
    ''            return value.toString();'',
    ''        }'',
    ''        if (value instanceof Number || value instanceof Boolean) {'',
    ''            return value;'',
    ''        }'',
    ''        if (value instanceof Enum) {'',
    ''            return ((Enum<?>) value).name();'',
    ''        }'',
    ''        if (active.put(value, Boolean.TRUE) != null) {'',
    ''            throw new IllegalStateException(\"Cyclic observation graph\");'',
    ''        }'',
    ''        try {'',
    ''            if (value instanceof java.util.Map) {'',
    ''                java.util.LinkedHashMap<String, Object> redacted = new java.util.LinkedHashMap<>();'',
    ''                for (java.util.Map.Entry<?, ?> entry : ((java.util.Map<?, ?>) value).entrySet()) {'',
    ''                    String key = String.valueOf(entry.getKey());'',
    ''                    redacted.put(key, isSecretKey(key) ? \"[REDACTED]\" : redact(entry.getValue(), active, depth + 1));'',
    ''                }'',
    ''                return redacted;'',
    ''            }'',
    ''            if (value instanceof Iterable) {'',
    ''                java.util.ArrayList<Object> redacted = new java.util.ArrayList<>();'',
    ''                for (Object item : (Iterable<?>) value) {'',
    ''                    redacted.add(redact(item, active, depth + 1));'',
    ''                }'',
    ''                return redacted;'',
    ''            }'',
    ''            if (value.getClass().isArray()) {'',
    ''                java.util.ArrayList<Object> redacted = new java.util.ArrayList<>();'',
    ''                int length = java.lang.reflect.Array.getLength(value);'',
    ''                for (int index = 0; index < length; index += 1) {'',
    ''                    redacted.add(redact(java.lang.reflect.Array.get(value, index), active, depth + 1));'',
    ''                }'',
    ''                return redacted;'',
    ''            }'',
    ''            java.util.LinkedHashMap<String, Object> members = new java.util.LinkedHashMap<>();'',
    ''            Class<?> type = value.getClass();'',
    ''            for (java.lang.reflect.Method method : type.getMethods()) {'',
    ''                if (method.getParameterCount() != 0 || method.getReturnType() == void.class) {'',
    ''                    continue;'',
    ''                }'',
    ''                if (java.lang.reflect.Modifier.isStatic(method.getModifiers()) || method.getDeclaringClass() == Object.class) {'',
    ''                    continue;'',
    ''                }'',
    ''                String name = method.getName();'',
    ''                String property;'',
    ''                if (name.startsWith(\"get\") && name.length() > 3) {'',
    ''                    property = decapitalize(name.substring(3));'',
    ''                } else if (name.startsWith(\"is\") && name.length() > 2 && (method.getReturnType() == boolean.class || method.getReturnType() == Boolean.class)) {'',
    ''                    property = decapitalize(name.substring(2));'',
    ''                } else {'',
    ''                    continue;'',
    ''                }'',
    ''                Object raw;'',
    ''                try {'',
    ''                    method.setAccessible(true);'',
    ''                    raw = method.invoke(value);'',
    ''                } catch (Throwable failure) {'',
    ''                    continue;'',
    ''                }'',
    ''                members.put(property, isSecretKey(property) ? \"[REDACTED]\" : redact(raw, active, depth + 1));'',
    ''            }'',
    ''            for (java.lang.reflect.Field field : type.getFields()) {'',
    ''                if (java.lang.reflect.Modifier.isStatic(field.getModifiers())) {'',
    ''                    continue;'',
    ''                }'',
    ''                Object raw;'',
    ''                try {'',
    ''                    field.setAccessible(true);'',
    ''                    raw = field.get(value);'',
    ''                } catch (Throwable failure) {'',
    ''                    continue;'',
    ''                }'',
    ''                members.put(field.getName(), isSecretKey(field.getName()) ? \"[REDACTED]\" : redact(raw, active, depth + 1));'',
    ''            }'',
    ''            return members;'',
    ''        } finally {'',
    ''            active.remove(value);'',
    ''        }'',
    ''    }'',
    [],
    ''    private static void writeString(StringBuilder out, String text) {'',
    ''        char backslash = (char) 92;'',
    ''        char quote = (char) 34;'',
    ''        out.append(quote);'',
    ''        for (int index = 0; index < text.length(); index += 1) {'',
    ''            char symbol = text.charAt(index);'',
    ''            if (symbol == quote) {'',
    ''                out.append(backslash).append(quote);'',
    ''            } else if (symbol == backslash) {'',
    ''                out.append(backslash).append(backslash);'',
    ''            } else if (symbol == (char) 8) {'',
    ''                out.append(backslash).append('' @ [CHR 0x27] @ ''b'' @ [CHR 0x27] @ '');'',
    ''            } else if (symbol == (char) 9) {'',
    ''                out.append(backslash).append('' @ [CHR 0x27] @ ''t'' @ [CHR 0x27] @ '');'',
    ''            } else if (symbol == (char) 10) {'',
    ''                out.append(backslash).append('' @ [CHR 0x27] @ ''n'' @ [CHR 0x27] @ '');'',
    ''            } else if (symbol == (char) 12) {'',
    ''                out.append(backslash).append('' @ [CHR 0x27] @ ''f'' @ [CHR 0x27] @ '');'',
    ''            } else if (symbol == (char) 13) {'',
    ''                out.append(backslash).append('' @ [CHR 0x27] @ ''r'' @ [CHR 0x27] @ '');'',
    ''            } else if (symbol < (char) 32) {'',
    ''                String digits = \"0123456789abcdef\";'',
    ''                out.append(backslash).append('' @ [CHR 0x27] @ ''u'' @ [CHR 0x27] @ '').append('' @ [CHR 0x27] @ ''0'' @ [CHR 0x27] @ '').append('' @ [CHR 0x27] @ ''0'' @ [CHR 0x27] @ '');'',
    ''                out.append(digits.charAt((symbol >> 4) & 15)).append(digits.charAt(symbol & 15));'',
    ''            } else {'',
    ''                out.append(symbol);'',
    ''            }'',
    ''        }'',
    ''        out.append(quote);'',
    ''    }'',
    [],
    ''    private static void writeValue(StringBuilder out, Object value) {'',
    ''        if (value == null) {'',
    ''            out.append(\"null\");'',
    ''            return;'',
    ''        }'',
    ''        if (value instanceof String) {'',
    ''            writeString(out, (String) value);'',
    ''            return;'',
    ''        }'',
    ''        if (value instanceof Boolean) {'',
    ''            out.append(((Boolean) value).booleanValue() ? \"true\" : \"false\");'',
    ''            return;'',
    ''        }'',
    ''        if (value instanceof Double || value instanceof Float) {'',
    ''            double number = ((Number) value).doubleValue();'',
    ''            if (Double.isNaN(number) || Double.isInfinite(number)) {'',
    ''                throw new IllegalStateException(\"Non-finite number\");'',
    ''            }'',
    ''            out.append(Double.toString(number));'',
    ''            return;'',
    ''        }'',
    ''        if (value instanceof Number) {'',
    ''            out.append(value.toString());'',
    ''            return;'',
    ''        }'',
    ''        if (value instanceof java.util.Map) {'',
    ''            out.append('' @ [CHR 0x27] @ ''{'' @ [CHR 0x27] @ '');'',
    ''            boolean first = true;'',
    ''            for (java.util.Map.Entry<?, ?> entry : ((java.util.Map<?, ?>) value).entrySet()) {'',
    ''                if (!first) {'',
    ''                    out.append('' @ [CHR 0x27] @ '','' @ [CHR 0x27] @ '');'',
    ''                }'',
    ''                first = false;'',
    ''                writeString(out, String.valueOf(entry.getKey()));'',
    ''                out.append('' @ [CHR 0x27] @ '':'' @ [CHR 0x27] @ '');'',
    ''                writeValue(out, entry.getValue());'',
    ''            }'',
    ''            out.append('' @ [CHR 0x27] @ ''}'' @ [CHR 0x27] @ '');'',
    ''            return;'',
    ''        }'',
    ''        if (value instanceof java.util.List) {'',
    ''            out.append('' @ [CHR 0x27] @ ''['' @ [CHR 0x27] @ '');'',
    ''            boolean first = true;'',
    ''            for (Object item : (java.util.List<?>) value) {'',
    ''                if (!first) {'',
    ''                    out.append('' @ [CHR 0x27] @ '','' @ [CHR 0x27] @ '');'',
    ''                }'',
    ''                first = false;'',
    ''                writeValue(out, item);'',
    ''            }'',
    ''            out.append('' @ [CHR 0x27] @ '']'' @ [CHR 0x27] @ '');'',
    ''            return;'',
    ''        }'',
    ''        writeString(out, String.valueOf(value));'',
    ''    }'',
    [],
    ''    static void Emit(String hypothesisId, String location, String message, Object data) {'',
    ''        try {'',
    ''            StringBuilder out = new StringBuilder();'',
    ''            out.append('' @ [CHR 0x27] @ ''{'' @ [CHR 0x27] @ '');'',
    ''            writeString(out, \"hypothesisId\");'',
    ''            out.append('' @ [CHR 0x27] @ '':'' @ [CHR 0x27] @ '');'',
    ''            writeString(out, hypothesisId);'',
    ''            out.append('' @ [CHR 0x27] @ '','' @ [CHR 0x27] @ '');'',
    ''            writeString(out, \"location\");'',
    ''            out.append('' @ [CHR 0x27] @ '':'' @ [CHR 0x27] @ '');'',
    ''            writeString(out, location);'',
    ''            out.append('' @ [CHR 0x27] @ '','' @ [CHR 0x27] @ '');'',
    ''            writeString(out, \"message\");'',
    ''            out.append('' @ [CHR 0x27] @ '':'' @ [CHR 0x27] @ '');'',
    ''            writeString(out, message);'',
    ''            out.append('' @ [CHR 0x27] @ '','' @ [CHR 0x27] @ '');'',
    ''            writeString(out, \"data\");'',
    ''            out.append('' @ [CHR 0x27] @ '':'' @ [CHR 0x27] @ '');'',
    ''            writeValue(out, redact(data, new java.util.IdentityHashMap<Object, Boolean>(), 0));'',
    ''            out.append('' @ [CHR 0x27] @ '','' @ [CHR 0x27] @ '');'',
    ''            writeString(out, \"timestamp\");'',
    ''            out.append('' @ [CHR 0x27] @ '':'' @ [CHR 0x27] @ '');'',
    ''            out.append(System.currentTimeMillis());'',
    ''            out.append('' @ [CHR 0x27] @ ''}'' @ [CHR 0x27] @ '');'',
    ''            out.append((char) 10);'',
    ''            byte[] payload = out.toString().getBytes(java.nio.charset.StandardCharsets.UTF_8);'',
    ''            if (payload.length > 65536) {'',
    ''                return;'',
    ''            }'',
    ''            java.nio.file.Path path = java.nio.file.Paths.get(\"__APPEND_PATH__\");'',
    ''            try {'',
    ''                java.nio.file.Files.createFile(path, java.nio.file.attribute.PosixFilePermissions.asFileAttribute(java.nio.file.attribute.PosixFilePermissions.fromString(\"rw-------\")));'',
    ''            } catch (UnsupportedOperationException nonPosix) {'',
    ''                try {'',
    ''                    java.nio.file.Files.createFile(path);'',
    ''                } catch (Throwable ignored) {'',
    ''                }'',
    ''            } catch (Throwable ignored) {'',
    ''            }'',
    ''            java.nio.file.Files.write(path, payload, java.nio.file.StandardOpenOption.CREATE, java.nio.file.StandardOpenOption.APPEND);'',
    ''        } catch (Throwable failure) {'',
    ''            // Observations must never change application behavior.'',
    ''        }'',
    ''    }'',
    ''}'',
    ''// #endregion'']"

definition java_call :: "string list" where
  "java_call = [
    ''// #region agent log'',
    ''AgentDebugLog.Emit(\"__HYPOTHESIS_ID__\", \"__LOCATION__\", \"__MESSAGE__\", __DATA_EXPRESSION__);'',
    ''// #endregion'']"

definition renderJavaTemplate :: probe_templates where
  "renderJavaTemplate =
    \<lparr>tpl_language = ''java'', tpl_ingest = ''file'', tpl_encoding = ''native-json-value'',
     tpl_helper = join_with [CHR 0x0A] java_helper, tpl_call = join_with [CHR 0x0A] java_call,
     tpl_placeholders = [
       (''__APPEND_PATH__'', ''Replace with the appendPath returned by debug-mode create.''),
       (''__DATA_EXPRESSION__'', ''Replace with a JSON-compatible Java value that has no secrets.''),
       (''__HYPOTHESIS_ID__'', ''Replace with the hypothesis label.''),
       (''__LOCATION__'', ''Replace with the observed source location.''),
       (''__MESSAGE__'', ''Replace with a constant observation message.'')],
     tpl_place_helper = ''top-level'', tpl_place_call = ''statement'',
     tpl_members = [''callTemplate'', ''helperTemplate'', ''ingest'', ''language'', ''dataEncoding'', ''placement'', ''placeholders'']\<rparr>"

definition kotlin_helper :: "string list" where
  "kotlin_helper = [
    ''// #region agent log'',
    ''object AgentDebugLog {'',
    ''    private val SECRET_KEYS = java.util.HashSet(java.util.Arrays.asList('',
    ''        \"authorization\", \"authorization_header\", \"cookie\", \"set_cookie\",'',
    ''        \"password\", \"passwd\", \"pwd\", \"private_key\", \"secret\", \"token\",'',
    ''        \"credential\", \"credentials\"))'',
    [],
    ''    private val SECRET_BOUNDARY_ONE = java.util.regex.Pattern.compile(\"([A-Z]+)([A-Z][a-z])\")'',
    ''    private val SECRET_BOUNDARY_TWO = java.util.regex.Pattern.compile(\"([a-z0-9])([A-Z])\")'',
    ''    private val SECRET_NON_ALNUM = java.util.regex.Pattern.compile(\"[^a-zA-Z0-9]+\")'',
    ''    private val SECRET_TRIM_LEADING = java.util.regex.Pattern.compile(\"^_+\")'',
    ''    private val SECRET_TRIM_TRAILING = java.util.regex.Pattern.compile(\"_+'' @ [CHR 0x5C] @ ''$\")'',
    ''    private val SECRET_SUFFIX = java.util.regex.Pattern.compile('',
    ''        \"(^|_)(api_key|api_token|oauth_token|o_auth_token|private_key|client_secret|access_token|refresh_token|id_token|auth_token|bearer_token)'' @ [CHR 0x5C] @ ''$\")'',
    [],
    ''    private fun isSecretKey(key: String): Boolean {'',
    ''        var normalized = SECRET_BOUNDARY_ONE.matcher(key).replaceAll(\"'' @ [CHR 0x5C] @ ''$1_'' @ [CHR 0x5C] @ ''$2\")'',
    ''        normalized = SECRET_BOUNDARY_TWO.matcher(normalized).replaceAll(\"'' @ [CHR 0x5C] @ ''$1_'' @ [CHR 0x5C] @ ''$2\")'',
    ''        normalized = SECRET_NON_ALNUM.matcher(normalized).replaceAll(\"_\").lowercase()'',
    ''        normalized = SECRET_TRIM_LEADING.matcher(normalized).replaceAll(\"\")'',
    ''        normalized = SECRET_TRIM_TRAILING.matcher(normalized).replaceAll(\"\")'',
    ''        return SECRET_KEYS.contains(normalized) || SECRET_SUFFIX.matcher(normalized).find()'',
    ''    }'',
    [],
    ''    private fun decapitalize(name: String): String {'',
    ''        if (name.isEmpty()) {'',
    ''            return name'',
    ''        }'',
    ''        if (name.length > 1 && name[0].isUpperCase() && name[1].isUpperCase()) {'',
    ''            return name'',
    ''        }'',
    ''        val letters = name.toCharArray()'',
    ''        letters[0] = letters[0].lowercaseChar()'',
    ''        return String(letters)'',
    ''    }'',
    [],
    ''    private fun redact(value: Any?, active: java.util.IdentityHashMap<Any, Boolean>, depth: Int): Any? {'',
    ''        if (depth > 64) {'',
    ''            throw IllegalStateException(\"Observation graph is too deep\")'',
    ''        }'',
    ''        if (value == null) {'',
    ''            return null'',
    ''        }'',
    ''        if (value is CharSequence || value is Char) {'',
    ''            return value.toString()'',
    ''        }'',
    ''        if (value is Number || value is Boolean) {'',
    ''            return value'',
    ''        }'',
    ''        if (value is Enum<*>) {'',
    ''            return value.name'',
    ''        }'',
    ''        if (active.put(value, true) != null) {'',
    ''            throw IllegalStateException(\"Cyclic observation graph\")'',
    ''        }'',
    ''        try {'',
    ''            if (value is Map<*, *>) {'',
    ''                val redacted = java.util.LinkedHashMap<String, Any?>()'',
    ''                for (entry in value.entries) {'',
    ''                    val key = entry.key?.toString() ?: \"null\"'',
    ''                    redacted[key] = if (isSecretKey(key)) \"[REDACTED]\" else redact(entry.value, active, depth + 1)'',
    ''                }'',
    ''                return redacted'',
    ''            }'',
    ''            if (value is Iterable<*>) {'',
    ''                val redacted = java.util.ArrayList<Any?>()'',
    ''                for (item in value) {'',
    ''                    redacted.add(redact(item, active, depth + 1))'',
    ''                }'',
    ''                return redacted'',
    ''            }'',
    ''            if (value.javaClass.isArray) {'',
    ''                val redacted = java.util.ArrayList<Any?>()'',
    ''                val length = java.lang.reflect.Array.getLength(value)'',
    ''                for (index in 0 until length) {'',
    ''                    redacted.add(redact(java.lang.reflect.Array.get(value, index), active, depth + 1))'',
    ''                }'',
    ''                return redacted'',
    ''            }'',
    ''            val members = java.util.LinkedHashMap<String, Any?>()'',
    ''            val type = value.javaClass'',
    ''            for (method in type.methods) {'',
    ''                if (method.parameterCount != 0 || method.returnType == java.lang.Void.TYPE) {'',
    ''                    continue'',
    ''                }'',
    ''                if (java.lang.reflect.Modifier.isStatic(method.modifiers) || method.declaringClass == java.lang.Object::class.java) {'',
    ''                    continue'',
    ''                }'',
    ''                val name = method.name'',
    ''                val property: String'',
    ''                if (name.startsWith(\"get\") && name.length > 3) {'',
    ''                    property = decapitalize(name.substring(3))'',
    ''                } else if (name.startsWith(\"is\") && name.length > 2 && (method.returnType == java.lang.Boolean.TYPE || method.returnType == java.lang.Boolean::class.java)) {'',
    ''                    property = decapitalize(name.substring(2))'',
    ''                } else {'',
    ''                    continue'',
    ''                }'',
    ''                val raw: Any?'',
    ''                try {'',
    ''                    method.isAccessible = true'',
    ''                    raw = method.invoke(value)'',
    ''                } catch (methodFailure: Throwable) {'',
    ''                    continue'',
    ''                }'',
    ''                members[property] = if (isSecretKey(property)) \"[REDACTED]\" else redact(raw, active, depth + 1)'',
    ''            }'',
    ''            for (field in type.fields) {'',
    ''                if (java.lang.reflect.Modifier.isStatic(field.modifiers)) {'',
    ''                    continue'',
    ''                }'',
    ''                val raw: Any?'',
    ''                try {'',
    ''                    field.isAccessible = true'',
    ''                    raw = field.get(value)'',
    ''                } catch (fieldFailure: Throwable) {'',
    ''                    continue'',
    ''                }'',
    ''                members[field.name] = if (isSecretKey(field.name)) \"[REDACTED]\" else redact(raw, active, depth + 1)'',
    ''            }'',
    ''            return members'',
    ''        } finally {'',
    ''            active.remove(value)'',
    ''        }'',
    ''    }'',
    [],
    ''    private fun writeString(out: StringBuilder, text: String) {'',
    ''        val backslash = 92.toChar()'',
    ''        val quote = 34.toChar()'',
    ''        out.append(quote)'',
    ''        for (index in 0 until text.length) {'',
    ''            val symbol = text[index]'',
    ''            if (symbol == quote) {'',
    ''                out.append(backslash).append(quote)'',
    ''            } else if (symbol == backslash) {'',
    ''                out.append(backslash).append(backslash)'',
    ''            } else if (symbol == 8.toChar()) {'',
    ''                out.append(backslash).append('' @ [CHR 0x27] @ ''b'' @ [CHR 0x27] @ '')'',
    ''            } else if (symbol == 9.toChar()) {'',
    ''                out.append(backslash).append('' @ [CHR 0x27] @ ''t'' @ [CHR 0x27] @ '')'',
    ''            } else if (symbol == 10.toChar()) {'',
    ''                out.append(backslash).append('' @ [CHR 0x27] @ ''n'' @ [CHR 0x27] @ '')'',
    ''            } else if (symbol == 12.toChar()) {'',
    ''                out.append(backslash).append('' @ [CHR 0x27] @ ''f'' @ [CHR 0x27] @ '')'',
    ''            } else if (symbol == 13.toChar()) {'',
    ''                out.append(backslash).append('' @ [CHR 0x27] @ ''r'' @ [CHR 0x27] @ '')'',
    ''            } else if (symbol < 32.toChar()) {'',
    ''                val digits = \"0123456789abcdef\"'',
    ''                out.append(backslash).append('' @ [CHR 0x27] @ ''u'' @ [CHR 0x27] @ '').append('' @ [CHR 0x27] @ ''0'' @ [CHR 0x27] @ '').append('' @ [CHR 0x27] @ ''0'' @ [CHR 0x27] @ '')'',
    ''                out.append(digits[(symbol.code shr 4) and 15]).append(digits[symbol.code and 15])'',
    ''            } else {'',
    ''                out.append(symbol)'',
    ''            }'',
    ''        }'',
    ''        out.append(quote)'',
    ''    }'',
    [],
    ''    private fun writeValue(out: StringBuilder, value: Any?) {'',
    ''        if (value == null) {'',
    ''            out.append(\"null\")'',
    ''            return'',
    ''        }'',
    ''        if (value is String) {'',
    ''            writeString(out, value)'',
    ''            return'',
    ''        }'',
    ''        if (value is Boolean) {'',
    ''            out.append(if (value) \"true\" else \"false\")'',
    ''            return'',
    ''        }'',
    ''        if (value is Double || value is Float) {'',
    ''            val number = (value as Number).toDouble()'',
    ''            if (number.isNaN() || number.isInfinite()) {'',
    ''                throw IllegalStateException(\"Non-finite number\")'',
    ''            }'',
    ''            out.append(number.toString())'',
    ''            return'',
    ''        }'',
    ''        if (value is Number) {'',
    ''            out.append(value.toString())'',
    ''            return'',
    ''        }'',
    ''        if (value is Map<*, *>) {'',
    ''            out.append('' @ [CHR 0x27] @ ''{'' @ [CHR 0x27] @ '')'',
    ''            var first = true'',
    ''            for (entry in value.entries) {'',
    ''                if (!first) {'',
    ''                    out.append('' @ [CHR 0x27] @ '','' @ [CHR 0x27] @ '')'',
    ''                }'',
    ''                first = false'',
    ''                writeString(out, entry.key?.toString() ?: \"null\")'',
    ''                out.append('' @ [CHR 0x27] @ '':'' @ [CHR 0x27] @ '')'',
    ''                writeValue(out, entry.value)'',
    ''            }'',
    ''            out.append('' @ [CHR 0x27] @ ''}'' @ [CHR 0x27] @ '')'',
    ''            return'',
    ''        }'',
    ''        if (value is List<*>) {'',
    ''            out.append('' @ [CHR 0x27] @ ''['' @ [CHR 0x27] @ '')'',
    ''            var first = true'',
    ''            for (item in value) {'',
    ''                if (!first) {'',
    ''                    out.append('' @ [CHR 0x27] @ '','' @ [CHR 0x27] @ '')'',
    ''                }'',
    ''                first = false'',
    ''                writeValue(out, item)'',
    ''            }'',
    ''            out.append('' @ [CHR 0x27] @ '']'' @ [CHR 0x27] @ '')'',
    ''            return'',
    ''        }'',
    ''        writeString(out, value.toString())'',
    ''    }'',
    [],
    ''    fun emit(hypothesisId: String, location: String, message: String, data: Any?) {'',
    ''        try {'',
    ''            val out = StringBuilder()'',
    ''            out.append('' @ [CHR 0x27] @ ''{'' @ [CHR 0x27] @ '')'',
    ''            writeString(out, \"hypothesisId\")'',
    ''            out.append('' @ [CHR 0x27] @ '':'' @ [CHR 0x27] @ '')'',
    ''            writeString(out, hypothesisId)'',
    ''            out.append('' @ [CHR 0x27] @ '','' @ [CHR 0x27] @ '')'',
    ''            writeString(out, \"location\")'',
    ''            out.append('' @ [CHR 0x27] @ '':'' @ [CHR 0x27] @ '')'',
    ''            writeString(out, location)'',
    ''            out.append('' @ [CHR 0x27] @ '','' @ [CHR 0x27] @ '')'',
    ''            writeString(out, \"message\")'',
    ''            out.append('' @ [CHR 0x27] @ '':'' @ [CHR 0x27] @ '')'',
    ''            writeString(out, message)'',
    ''            out.append('' @ [CHR 0x27] @ '','' @ [CHR 0x27] @ '')'',
    ''            writeString(out, \"data\")'',
    ''            out.append('' @ [CHR 0x27] @ '':'' @ [CHR 0x27] @ '')'',
    ''            writeValue(out, redact(data, java.util.IdentityHashMap<Any, Boolean>(), 0))'',
    ''            out.append('' @ [CHR 0x27] @ '','' @ [CHR 0x27] @ '')'',
    ''            writeString(out, \"timestamp\")'',
    ''            out.append('' @ [CHR 0x27] @ '':'' @ [CHR 0x27] @ '')'',
    ''            out.append(System.currentTimeMillis())'',
    ''            out.append('' @ [CHR 0x27] @ ''}'' @ [CHR 0x27] @ '')'',
    ''            out.append(10.toChar())'',
    ''            val payload = out.toString().toByteArray(java.nio.charset.StandardCharsets.UTF_8)'',
    ''            if (payload.size > 65536) {'',
    ''                return'',
    ''            }'',
    ''            val path = java.nio.file.Paths.get(\"__APPEND_PATH__\")'',
    ''            try {'',
    ''                java.nio.file.Files.createFile(path, java.nio.file.attribute.PosixFilePermissions.asFileAttribute(java.nio.file.attribute.PosixFilePermissions.fromString(\"rw-------\")))'',
    ''            } catch (nonPosix: UnsupportedOperationException) {'',
    ''                try {'',
    ''                    java.nio.file.Files.createFile(path)'',
    ''                } catch (ignored: Throwable) {'',
    ''                }'',
    ''            } catch (ignored: Throwable) {'',
    ''            }'',
    ''            java.nio.file.Files.write(path, payload, java.nio.file.StandardOpenOption.CREATE, java.nio.file.StandardOpenOption.APPEND)'',
    ''        } catch (failure: Throwable) {'',
    ''            // Observations must never change application behavior.'',
    ''        }'',
    ''    }'',
    ''}'',
    ''// #endregion'']"

definition kotlin_call :: "string list" where
  "kotlin_call = [
    ''// #region agent log'',
    ''AgentDebugLog.emit(\"__HYPOTHESIS_ID__\", \"__LOCATION__\", \"__MESSAGE__\", __DATA_EXPRESSION__)'',
    ''// #endregion'']"

definition renderKotlinTemplate :: probe_templates where
  "renderKotlinTemplate =
    \<lparr>tpl_language = ''kotlin'', tpl_ingest = ''file'', tpl_encoding = ''native-json-value'',
     tpl_helper = join_with [CHR 0x0A] kotlin_helper, tpl_call = join_with [CHR 0x0A] kotlin_call,
     tpl_placeholders = [
       (''__APPEND_PATH__'', ''Replace with the appendPath returned by debug-mode create.''),
       (''__DATA_EXPRESSION__'', ''Replace with a JSON-compatible Kotlin value that has no secrets.''),
       (''__HYPOTHESIS_ID__'', ''Replace with the hypothesis label.''),
       (''__LOCATION__'', ''Replace with the observed source location.''),
       (''__MESSAGE__'', ''Replace with a constant observation message.'')],
     tpl_place_helper = ''top-level'', tpl_place_call = ''statement'',
     tpl_members = [''callTemplate'', ''helperTemplate'', ''ingest'', ''language'', ''dataEncoding'', ''placement'', ''placeholders'']\<rparr>"

section \<open>The placeholders in the texts\<close>

lemma java_scanned:
  "concat (map (placeholders_from []) java_helper) = [''__APPEND_PATH__'']"
  "concat (map (placeholders_from []) java_call) = [''__HYPOTHESIS_ID__'', ''__LOCATION__'', ''__MESSAGE__'', ''__DATA_EXPRESSION__'']"
  "list_all (list_all (\<lambda>c. c \<noteq> CHR 0x0A)) java_helper" "list_all (list_all (\<lambda>c. c \<noteq> CHR 0x0A)) java_call"
  "java_helper \<noteq> []" "java_call \<noteq> []"
  by code_simp+

lemma java_complete: "template_complete renderJavaTemplate"
  by (auto simp: template_complete_def template_texts_def renderJavaTemplate_def texts_scanned placeholders_joined java_scanned)

lemma kotlin_scanned:
  "concat (map (placeholders_from []) kotlin_helper) = [''__APPEND_PATH__'']"
  "concat (map (placeholders_from []) kotlin_call) = [''__HYPOTHESIS_ID__'', ''__LOCATION__'', ''__MESSAGE__'', ''__DATA_EXPRESSION__'']"
  "list_all (list_all (\<lambda>c. c \<noteq> CHR 0x0A)) kotlin_helper" "list_all (list_all (\<lambda>c. c \<noteq> CHR 0x0A)) kotlin_call"
  "kotlin_helper \<noteq> []" "kotlin_call \<noteq> []"
  by code_simp+

lemma kotlin_complete: "template_complete renderKotlinTemplate"
  by (auto simp: template_complete_def template_texts_def renderKotlinTemplate_def texts_scanned placeholders_joined kotlin_scanned)

end
