(* ===== verification/Template_Script.thy ===== *)
theory Template_Script
  imports Template
begin

text \<open>
  The templates for JavaScript, TypeScript, Python, Ruby and PHP: the functions that render them and the lines of their texts.
  Backslashes, tabs, single quotes and a few pairs of characters are written as characters of their own.
\<close>

definition javascript_helper :: "string list" where
  "javascript_helper = [
    ''// #region agent log'',
    ''const __agentDebugIsSecretKey = (key) => {'',
    ''  const normalized = key'',
    ''    .replace(/([A-Z]+)([A-Z][a-z])/g, \"$1_$2\")'',
    ''    .replace(/([a-z0-9])([A-Z])/g, \"$1_$2\")'',
    ''    .replace(/[^a-zA-Z0-9]+/g, \"_\")'',
    ''    .toLowerCase()'',
    ''    .replace(/^_+|_+$/g, \"\");'',
    ''  return new Set(['',
    ''    \"authorization\", \"authorization_header\", \"cookie\", \"set_cookie\",'',
    ''    \"password\", \"passwd\", \"pwd\", \"private_key\", \"secret\", \"token\",'',
    ''    \"credential\", \"credentials\",'',
    ''  ]).has(normalized) ||'',
    ''    /(^|_)(api_key|api_token|oauth_token|o_auth_token|private_key|client_secret|access_token|refresh_token|id_token|auth_token|bearer_token)$/.test(normalized);'',
    ''};'',
    [],
    ''const __agentDebugRedact = (value, active = new WeakSet(), depth = 0) => {'',
    ''  if (depth > 64) throw new Error(\"Observation graph is too deep\");'',
    ''  if (value === null || typeof value !== \"object\") return value;'',
    ''  if (active.has(value)) throw new Error(\"Cyclic observation graph\");'',
    ''  active.add(value);'',
    ''  try {'',
    ''    if (Array.isArray(value)) {'',
    ''      return value.map((item) => __agentDebugRedact(item, active, depth + 1));'',
    ''    }'',
    ''    return Object.fromEntries('',
    ''      Object.entries(value).map(([key, item]) => ['',
    ''        key,'',
    ''        __agentDebugIsSecretKey(key) ? \"[REDACTED]\" : __agentDebugRedact(item, active, depth + 1),'',
    ''      ]),'',
    ''    );'',
    ''  } finally {'',
    ''    active.delete(value);'',
    ''  }'',
    ''};'',
    [],
    ''const __agentDebugEmit = (event) => {'',
    ''  try {'',
    ''    const payload = JSON.stringify({'',
    ''      ...event,'',
    ''      data: __agentDebugRedact(event.data),'',
    ''      timestamp: Date.now(),'',
    ''    }) + \"'' @ [CHR 0x5C] @ ''n\";'',
    ''    if (new TextEncoder().encode(payload).byteLength > 65_536) return;'',
    ''    void fetch(\"__INGEST_URL__\", {'',
    ''      method: \"POST\",'',
    ''      headers: { \"Content-Type\": \"application/x-ndjson\" },'',
    ''      body: payload,'',
    ''    })'',
    ''      .then('',
    ''        (response) => {'',
    ''          try {'',
    ''            void response.body?.cancel().catch(() => undefined);'',
    ''          } catch {'',
    ''            // Response cleanup must never change application behavior.'',
    ''          }'',
    ''        },'',
    ''        () => undefined,'',
    ''      )'',
    ''      .catch(() => undefined);'',
    ''  } catch {'',
    ''    // Observations must never change application behavior.'',
    ''  }'',
    ''};'',
    ''// #endregion'']"

definition javascript_call :: "string list" where
  "javascript_call = [
    ''// #region agent log'',
    ''__agentDebugEmit({'',
    ''  hypothesisId: \"__HYPOTHESIS_ID__\",'',
    ''  location: \"__LOCATION__\",'',
    ''  message: \"__MESSAGE__\",'',
    ''  data: __DATA_EXPRESSION__,'',
    ''});'',
    ''// #endregion'']"

definition renderJavaScriptTemplate :: probe_templates where
  "renderJavaScriptTemplate =
    \<lparr>tpl_language = ''javascript'', tpl_ingest = ''http'', tpl_encoding = ''native-json-value'',
     tpl_helper = join_with [CHR 0x0A] javascript_helper, tpl_call = join_with [CHR 0x0A] javascript_call,
     tpl_placeholders = [
       (''__DATA_EXPRESSION__'', ''Replace with a JSON-compatible JavaScript expression that has no secrets.''),
       (''__HYPOTHESIS_ID__'', ''Replace with the hypothesis label.''),
       (''__INGEST_URL__'', ''Replace with the ingestUrl returned by debug-mode create.''),
       (''__LOCATION__'', ''Replace with the observed source location.''),
       (''__MESSAGE__'', ''Replace with a constant observation message.'')],
     tpl_place_helper = ''top-level'', tpl_place_call = ''statement'',
     tpl_members = [''callTemplate'', ''helperTemplate'', ''ingest'', ''language'', ''dataEncoding'', ''placement'', ''placeholders'']\<rparr>"

definition typescript_helper :: "string list" where
  "typescript_helper = [
    ''// #region agent log'',
    ''const __agentDebugIsSecretKey = (key: string): boolean => {'',
    ''  const normalized = key'',
    ''    .replace(/([A-Z]+)([A-Z][a-z])/g, \"$1_$2\")'',
    ''    .replace(/([a-z0-9])([A-Z])/g, \"$1_$2\")'',
    ''    .replace(/[^a-zA-Z0-9]+/g, \"_\")'',
    ''    .toLowerCase()'',
    ''    .replace(/^_+|_+$/g, \"\");'',
    ''  return new Set(['',
    ''    \"authorization\", \"authorization_header\", \"cookie\", \"set_cookie\",'',
    ''    \"password\", \"passwd\", \"pwd\", \"private_key\", \"secret\", \"token\",'',
    ''    \"credential\", \"credentials\",'',
    ''  ]).has(normalized) ||'',
    ''    /(^|_)(api_key|api_token|oauth_token|o_auth_token|private_key|client_secret|access_token|refresh_token|id_token|auth_token|bearer_token)$/.test(normalized);'',
    ''};'',
    [],
    ''const __agentDebugRedact = ('',
    ''  value: unknown,'',
    ''  active = new WeakSet<object>(),'',
    ''  depth = 0,'',
    ''): unknown => {'',
    ''  if (depth > 64) throw new Error(\"Observation graph is too deep\");'',
    ''  if (value === null || typeof value !== \"object\") return value;'',
    ''  if (active.has(value)) throw new Error(\"Cyclic observation graph\");'',
    ''  active.add(value);'',
    ''  try {'',
    ''    if (Array.isArray(value)) {'',
    ''      return value.map((item) => __agentDebugRedact(item, active, depth + 1));'',
    ''    }'',
    ''    return Object.fromEntries('',
    ''      Object.entries(value).map(([key, item]) => ['',
    ''        key,'',
    ''        __agentDebugIsSecretKey(key) ? \"[REDACTED]\" : __agentDebugRedact(item, active, depth + 1),'',
    ''      ]),'',
    ''    );'',
    ''  } finally {'',
    ''    active.delete(value);'',
    ''  }'',
    ''};'',
    [],
    ''const __agentDebugEmit = (event: {'',
    ''  hypothesisId: string;'',
    ''  location: string;'',
    ''  message: string;'',
    ''  data: unknown;'',
    ''}): void => {'',
    ''  try {'',
    ''    const payload = JSON.stringify({'',
    ''      ...event,'',
    ''      data: __agentDebugRedact(event.data),'',
    ''      timestamp: Date.now(),'',
    ''    }) + \"'' @ [CHR 0x5C] @ ''n\";'',
    ''    if (new TextEncoder().encode(payload).byteLength > 65_536) return;'',
    ''    void fetch(\"__INGEST_URL__\", {'',
    ''      method: \"POST\",'',
    ''      headers: { \"Content-Type\": \"application/x-ndjson\" },'',
    ''      body: payload,'',
    ''    })'',
    ''      .then('',
    ''        (response) => {'',
    ''          try {'',
    ''            void response.body?.cancel().catch(() => undefined);'',
    ''          } catch {'',
    ''            // Response cleanup must never change application behavior.'',
    ''          }'',
    ''        },'',
    ''        () => undefined,'',
    ''      )'',
    ''      .catch(() => undefined);'',
    ''  } catch {'',
    ''    // Observations must never change application behavior.'',
    ''  }'',
    ''};'',
    ''// #endregion'']"

definition typescript_call :: "string list" where
  "typescript_call = [
    ''// #region agent log'',
    ''__agentDebugEmit({'',
    ''  hypothesisId: \"__HYPOTHESIS_ID__\",'',
    ''  location: \"__LOCATION__\",'',
    ''  message: \"__MESSAGE__\",'',
    ''  data: __DATA_EXPRESSION__,'',
    ''});'',
    ''// #endregion'']"

definition renderTypeScriptTemplate :: probe_templates where
  "renderTypeScriptTemplate =
    \<lparr>tpl_language = ''typescript'', tpl_ingest = ''http'', tpl_encoding = ''native-json-value'',
     tpl_helper = join_with [CHR 0x0A] typescript_helper, tpl_call = join_with [CHR 0x0A] typescript_call,
     tpl_placeholders = [
       (''__DATA_EXPRESSION__'', ''Replace with a JSON-compatible TypeScript expression that has no secrets.''),
       (''__HYPOTHESIS_ID__'', ''Replace with the hypothesis label.''),
       (''__INGEST_URL__'', ''Replace with the ingestUrl returned by debug-mode create.''),
       (''__LOCATION__'', ''Replace with the observed source location.''),
       (''__MESSAGE__'', ''Replace with a constant observation message.'')],
     tpl_place_helper = ''top-level'', tpl_place_call = ''statement'',
     tpl_members = [''callTemplate'', ''helperTemplate'', ''ingest'', ''language'', ''dataEncoding'', ''placement'', ''placeholders'']\<rparr>"

definition python_helper :: "string list" where
  "python_helper = [
    ''# region agent log'',
    ''import json'',
    ''import os'',
    ''import re'',
    ''import time'',
    [],
    ''__agent_debug_secret_keys = frozenset({'',
    ''    \"authorization\", \"authorization_header\", \"cookie\", \"set_cookie\",'',
    ''    \"password\", \"passwd\", \"pwd\", \"private_key\", \"secret\", \"token\",'',
    ''    \"credential\", \"credentials\",'',
    ''})'',
    [],
    ''def __agent_debug_is_secret_key(key):'',
    ''    normalized = re.sub(r\"([A-Z]+)([A-Z][a-z])\", r\"'' @ [CHR 0x5C] @ ''1_'' @ [CHR 0x5C] @ ''2\", str(key))'',
    ''    normalized = re.sub(r\"([a-z0-9])([A-Z])\", r\"'' @ [CHR 0x5C] @ ''1_'' @ [CHR 0x5C] @ ''2\", normalized)'',
    ''    normalized = re.sub(r\"[^a-zA-Z0-9]+\", \"_\", normalized).lower().strip(\"_\")'',
    ''    return normalized in __agent_debug_secret_keys or re.search('',
    ''        r\"(^|_)(api_key|api_token|oauth_token|o_auth_token|private_key|client_secret|access_token|refresh_token|id_token|auth_token|bearer_token)$\",'',
    ''        normalized,'',
    ''    ) is not None'',
    [],
    ''def __agent_debug_redact(value, active=None, depth=0):'',
    ''    if depth > 64:'',
    ''        raise ValueError(\"Observation graph is too deep\")'',
    ''    if not isinstance(value, (list, tuple, dict)):'',
    ''        return value'',
    ''    if active is None:'',
    ''        active = set()'',
    ''    identity = id(value)'',
    ''    if identity in active:'',
    ''        raise ValueError(\"Cyclic observation graph\")'',
    ''    active.add(identity)'',
    ''    try:'',
    ''        if isinstance(value, (list, tuple)):'',
    ''            return [__agent_debug_redact(item, active, depth + 1) for item in value]'',
    ''        return {'',
    ''            key: \"[REDACTED]\"'',
    ''            if __agent_debug_is_secret_key(key)'',
    ''            else __agent_debug_redact(item, active, depth + 1)'',
    ''            for key, item in value.items()'',
    ''        }'',
    ''    finally:'',
    ''        active.remove(identity)'',
    [],
    ''def __agent_debug_emit(hypothesis_id, location, message, data):'',
    ''    try:'',
    ''        payload = json.dumps('',
    ''            {'',
    ''                \"hypothesisId\": hypothesis_id,'',
    ''                \"location\": location,'',
    ''                \"message\": message,'',
    ''                \"data\": __agent_debug_redact(data),'',
    ''                \"timestamp\": int(time.time() * 1000),'',
    ''            },'',
    ''            allow_nan=False,'',
    ''            separators=(\",\", \":\"),'',
    ''        ).encode(\"utf-8\") + b\"'' @ [CHR 0x5C] @ ''n\"'',
    ''        if len(payload) > 65_536:'',
    ''            return'',
    ''        descriptor = os.open(\"__APPEND_PATH__\", os.O_APPEND | os.O_CREAT | os.O_WRONLY, 0o600)'',
    ''        try:'',
    ''            os.write(descriptor, payload)'',
    ''        finally:'',
    ''            os.close(descriptor)'',
    ''    except Exception:'',
    ''        pass'',
    ''# endregion'']"

definition python_call :: "string list" where
  "python_call = [
    ''# region agent log'',
    ''__agent_debug_emit('',
    ''    \"__HYPOTHESIS_ID__\",'',
    ''    \"__LOCATION__\",'',
    ''    \"__MESSAGE__\",'',
    ''    __DATA_EXPRESSION__,'',
    '')'',
    ''# endregion'']"

definition renderPythonTemplate :: probe_templates where
  "renderPythonTemplate =
    \<lparr>tpl_language = ''python'', tpl_ingest = ''file'', tpl_encoding = ''native-json-value'',
     tpl_helper = join_with [CHR 0x0A] python_helper, tpl_call = join_with [CHR 0x0A] python_call,
     tpl_placeholders = [
       (''__APPEND_PATH__'', ''Replace with the appendPath returned by debug-mode create.''),
       (''__DATA_EXPRESSION__'', ''Replace with a JSON-compatible Python expression that has no secrets.''),
       (''__HYPOTHESIS_ID__'', ''Replace with the hypothesis label.''),
       (''__LOCATION__'', ''Replace with the observed source location.''),
       (''__MESSAGE__'', ''Replace with a constant observation message.'')],
     tpl_place_helper = ''top-level'', tpl_place_call = ''statement'',
     tpl_members = [''callTemplate'', ''helperTemplate'', ''ingest'', ''language'', ''dataEncoding'', ''placement'', ''placeholders'']\<rparr>"

definition ruby_helper :: "string list" where
  "ruby_helper = [
    ''# region agent log'',
    ''require \"json\"'',
    [],
    ''AGENT_DEBUG_SECRET_KEYS = ['',
    ''  \"authorization\", \"authorization_header\", \"cookie\", \"set_cookie\",'',
    ''  \"password\", \"passwd\", \"pwd\", \"private_key\", \"secret\", \"token\",'',
    ''  \"credential\", \"credentials\"'',
    ''].freeze'',
    [],
    ''def __agent_debug_secret_key?(key)'',
    ''  normalized = key.to_s.gsub(/([A-Z]+)([A-Z][a-z])/, \"'' @ [CHR 0x5C, CHR 0x5C] @ ''1_'' @ [CHR 0x5C, CHR 0x5C] @ ''2\")'',
    ''  normalized = normalized.gsub(/([a-z0-9])([A-Z])/, \"'' @ [CHR 0x5C, CHR 0x5C] @ ''1_'' @ [CHR 0x5C, CHR 0x5C] @ ''2\")'',
    ''  normalized = normalized.gsub(/[^a-zA-Z0-9]+/, \"_\").downcase.gsub(/^_+|_+$/, \"\")'',
    ''  AGENT_DEBUG_SECRET_KEYS.include?(normalized) ||'',
    ''    /(^|_)(api_key|api_token|oauth_token|o_auth_token|private_key|client_secret|access_token|refresh_token|id_token|auth_token|bearer_token)$/.match?(normalized)'',
    ''end'',
    [],
    ''def __agent_debug_redact(value, active = {}, depth = 0)'',
    ''  raise ArgumentError, \"Observation graph is too deep\" if depth > 64'',
    ''  return value unless value.is_a?(Array) || value.is_a?(Hash)'',
    ''  identity = value.object_id'',
    ''  raise ArgumentError, \"Cyclic observation graph\" if active.key?(identity)'',
    ''  active[identity] = true'',
    ''  begin'',
    ''    case value'',
    ''    when Array'',
    ''      value.map { |item| __agent_debug_redact(item, active, depth + 1) }'',
    ''    when Hash'',
    ''      value.to_h { |key, item| [key, __agent_debug_secret_key?(key) ? \"[REDACTED]\" : __agent_debug_redact(item, active, depth + 1)] }'',
    ''    end'',
    ''  ensure'',
    ''    active.delete(identity)'',
    ''  end'',
    ''end'',
    [],
    ''def __agent_debug_emit(hypothesis_id, location, message, data)'',
    ''  payload = JSON.generate('',
    ''    hypothesisId: hypothesis_id,'',
    ''    location: location,'',
    ''    message: message,'',
    ''    data: __agent_debug_redact(data),'',
    ''    timestamp: (Time.now.to_f * 1000).to_i'',
    ''  ).encode(\"UTF-8\") + \"'' @ [CHR 0x5C] @ ''n\"'',
    ''  return if payload.bytesize > 65_536'',
    ''  File.open(\"__APPEND_PATH__\", \"ab\", 0o600) { |file| file.write(payload) }'',
    ''rescue StandardError'',
    ''  nil'',
    ''end'',
    ''# endregion'']"

definition ruby_call :: "string list" where
  "ruby_call = [
    ''# region agent log'',
    ''__agent_debug_emit(\"__HYPOTHESIS_ID__\", \"__LOCATION__\", \"__MESSAGE__\", __DATA_EXPRESSION__)'',
    ''# endregion'']"

definition renderRubyTemplate :: probe_templates where
  "renderRubyTemplate =
    \<lparr>tpl_language = ''ruby'', tpl_ingest = ''file'', tpl_encoding = ''native-json-value'',
     tpl_helper = join_with [CHR 0x0A] ruby_helper, tpl_call = join_with [CHR 0x0A] ruby_call,
     tpl_placeholders = [
       (''__APPEND_PATH__'', ''Replace with the appendPath returned by debug-mode create.''),
       (''__DATA_EXPRESSION__'', ''Replace with a JSON-compatible Ruby expression that has no secrets.''),
       (''__HYPOTHESIS_ID__'', ''Replace with the hypothesis label.''),
       (''__LOCATION__'', ''Replace with the observed source location.''),
       (''__MESSAGE__'', ''Replace with a constant observation message.'')],
     tpl_place_helper = ''top-level'', tpl_place_call = ''statement'',
     tpl_members = [''callTemplate'', ''helperTemplate'', ''ingest'', ''language'', ''dataEncoding'', ''placement'', ''placeholders'']\<rparr>"

definition php_helper :: "string list" where
  "php_helper = [
    ''// #region agent log'',
    ''function __agentDebugIsSecretKey(string $key): bool'',
    ''{'',
    ''    $normalized = preg_replace('' @ [CHR 0x27] @ ''/([A-Z]+)([A-Z][a-z])/'' @ [CHR 0x27] @ '', '' @ [CHR 0x27] @ ''$1_$2'' @ [CHR 0x27] @ '', $key);'',
    ''    $normalized = preg_replace('' @ [CHR 0x27] @ ''/([a-z0-9])([A-Z])/'' @ [CHR 0x27] @ '', '' @ [CHR 0x27] @ ''$1_$2'' @ [CHR 0x27] @ '', $normalized ?? '' @ [CHR 0x27, CHR 0x27] @ '');'',
    ''    $normalized = preg_replace(\"/[^a-zA-Z0-9]+/\", \"_\", $normalized ?? \"\");'',
    ''    $normalized = trim(strtolower($normalized ?? \"\"), \"_\");'',
    ''    return in_array($normalized, ['',
    ''        \"authorization\", \"authorization_header\", \"cookie\", \"set_cookie\",'',
    ''        \"password\", \"passwd\", \"pwd\", \"private_key\", \"secret\", \"token\",'',
    ''        \"credential\", \"credentials\",'',
    ''    ], true) || preg_match('',
    ''        \"/(^|_)(api_key|api_token|oauth_token|o_auth_token|private_key|client_secret|access_token|refresh_token|id_token|auth_token|bearer_token)$/\",'',
    ''        $normalized,'',
    ''    ) === 1;'',
    ''}'',
    [],
    ''function __agentDebugRedact(mixed $value, ?SplObjectStorage $active = null, int $depth = 0): mixed'',
    ''{'',
    ''    if ($depth > 64) {'',
    ''        throw new RuntimeException(\"Observation graph is too deep\");'',
    ''    }'',
    ''    $active ??= new SplObjectStorage();'',
    ''    if (is_object($value)) {'',
    ''        if ($active->contains($value)) {'',
    ''            throw new RuntimeException(\"Cyclic observation graph\");'',
    ''        }'',
    ''        $active->attach($value);'',
    ''        try {'',
    ''            return __agentDebugRedact(get_object_vars($value), $active, $depth + 1);'',
    ''        } finally {'',
    ''            $active->detach($value);'',
    ''        }'',
    ''    }'',
    ''    if (!is_array($value)) {'',
    ''        return $value;'',
    ''    }'',
    ''    $redacted = [];'',
    ''    foreach ($value as $key => $item) {'',
    ''        $redacted[$key] = is_string($key) && __agentDebugIsSecretKey($key)'',
    ''            ? \"[REDACTED]\"'',
    ''            : __agentDebugRedact($item, $active, $depth + 1);'',
    ''    }'',
    ''    return $redacted;'',
    ''}'',
    [],
    ''function __agentDebugEmit(string $hypothesisId, string $location, string $message, mixed $data): void'',
    ''{'',
    ''    try {'',
    ''        $payload = json_encode(['',
    ''            \"hypothesisId\" => $hypothesisId,'',
    ''            \"location\" => $location,'',
    ''            \"message\" => $message,'',
    ''            \"data\" => __agentDebugRedact($data),'',
    ''            \"timestamp\" => (int) floor(microtime(true) * 1000),'',
    ''        ], JSON_THROW_ON_ERROR) . \"'' @ [CHR 0x5C] @ ''n\";'',
    ''        if (strlen($payload) > 65_536) {'',
    ''            return;'',
    ''        }'',
    ''        @file_put_contents(\"__APPEND_PATH__\", $payload, FILE_APPEND | LOCK_EX);'',
    ''    } catch (Throwable) {'',
    ''        // Observations must never change application behavior.'',
    ''    }'',
    ''}'',
    ''// #endregion'']"

definition php_call :: "string list" where
  "php_call = [
    ''// #region agent log'',
    ''__agentDebugEmit(\"__HYPOTHESIS_ID__\", \"__LOCATION__\", \"__MESSAGE__\", __DATA_EXPRESSION__);'',
    ''// #endregion'']"

definition renderPhpTemplate :: probe_templates where
  "renderPhpTemplate =
    \<lparr>tpl_language = ''php'', tpl_ingest = ''file'', tpl_encoding = ''native-json-value'',
     tpl_helper = join_with [CHR 0x0A] php_helper, tpl_call = join_with [CHR 0x0A] php_call,
     tpl_placeholders = [
       (''__APPEND_PATH__'', ''Replace with the appendPath returned by debug-mode create.''),
       (''__DATA_EXPRESSION__'', ''Replace with a JSON-compatible PHP expression that has no secrets.''),
       (''__HYPOTHESIS_ID__'', ''Replace with the hypothesis label.''),
       (''__LOCATION__'', ''Replace with the observed source location.''),
       (''__MESSAGE__'', ''Replace with a constant observation message.'')],
     tpl_place_helper = ''top-level'', tpl_place_call = ''statement'',
     tpl_members = [''callTemplate'', ''helperTemplate'', ''ingest'', ''language'', ''dataEncoding'', ''placement'', ''placeholders'']\<rparr>"

section \<open>The placeholders in the texts\<close>

lemma javascript_scanned:
  "concat (map (placeholders_from []) javascript_helper) = [''__INGEST_URL__'']"
  "concat (map (placeholders_from []) javascript_call) = [''__HYPOTHESIS_ID__'', ''__LOCATION__'', ''__MESSAGE__'', ''__DATA_EXPRESSION__'']"
  "list_all (list_all (\<lambda>c. c \<noteq> CHR 0x0A)) javascript_helper" "list_all (list_all (\<lambda>c. c \<noteq> CHR 0x0A)) javascript_call"
  "javascript_helper \<noteq> []" "javascript_call \<noteq> []"
  by code_simp+

lemma javascript_complete: "template_complete renderJavaScriptTemplate"
  by (auto simp: template_complete_def template_texts_def renderJavaScriptTemplate_def texts_scanned placeholders_joined javascript_scanned)

lemma typescript_scanned:
  "concat (map (placeholders_from []) typescript_helper) = [''__INGEST_URL__'']"
  "concat (map (placeholders_from []) typescript_call) = [''__HYPOTHESIS_ID__'', ''__LOCATION__'', ''__MESSAGE__'', ''__DATA_EXPRESSION__'']"
  "list_all (list_all (\<lambda>c. c \<noteq> CHR 0x0A)) typescript_helper" "list_all (list_all (\<lambda>c. c \<noteq> CHR 0x0A)) typescript_call"
  "typescript_helper \<noteq> []" "typescript_call \<noteq> []"
  by code_simp+

lemma typescript_complete: "template_complete renderTypeScriptTemplate"
  by (auto simp: template_complete_def template_texts_def renderTypeScriptTemplate_def texts_scanned placeholders_joined typescript_scanned)

lemma python_scanned:
  "concat (map (placeholders_from []) python_helper) = [''__APPEND_PATH__'']"
  "concat (map (placeholders_from []) python_call) = [''__HYPOTHESIS_ID__'', ''__LOCATION__'', ''__MESSAGE__'', ''__DATA_EXPRESSION__'']"
  "list_all (list_all (\<lambda>c. c \<noteq> CHR 0x0A)) python_helper" "list_all (list_all (\<lambda>c. c \<noteq> CHR 0x0A)) python_call"
  "python_helper \<noteq> []" "python_call \<noteq> []"
  by code_simp+

lemma python_complete: "template_complete renderPythonTemplate"
  by (auto simp: template_complete_def template_texts_def renderPythonTemplate_def texts_scanned placeholders_joined python_scanned)

lemma ruby_scanned:
  "concat (map (placeholders_from []) ruby_helper) = [''__APPEND_PATH__'']"
  "concat (map (placeholders_from []) ruby_call) = [''__HYPOTHESIS_ID__'', ''__LOCATION__'', ''__MESSAGE__'', ''__DATA_EXPRESSION__'']"
  "list_all (list_all (\<lambda>c. c \<noteq> CHR 0x0A)) ruby_helper" "list_all (list_all (\<lambda>c. c \<noteq> CHR 0x0A)) ruby_call"
  "ruby_helper \<noteq> []" "ruby_call \<noteq> []"
  by code_simp+

lemma ruby_complete: "template_complete renderRubyTemplate"
  by (auto simp: template_complete_def template_texts_def renderRubyTemplate_def texts_scanned placeholders_joined ruby_scanned)

lemma php_scanned:
  "concat (map (placeholders_from []) php_helper) = [''__APPEND_PATH__'']"
  "concat (map (placeholders_from []) php_call) = [''__HYPOTHESIS_ID__'', ''__LOCATION__'', ''__MESSAGE__'', ''__DATA_EXPRESSION__'']"
  "list_all (list_all (\<lambda>c. c \<noteq> CHR 0x0A)) php_helper" "list_all (list_all (\<lambda>c. c \<noteq> CHR 0x0A)) php_call"
  "php_helper \<noteq> []" "php_call \<noteq> []"
  by code_simp+

lemma php_complete: "template_complete renderPhpTemplate"
  by (auto simp: template_complete_def template_texts_def renderPhpTemplate_def texts_scanned placeholders_joined php_scanned)

end
