(* ===== verification/Template_Typed.thy ===== *)
theory Template_Typed
  imports Template
begin

text \<open>
  The templates for Go, C sharp, Swift and PowerShell: the functions that render them and the lines of their texts.
  Backslashes, tabs, single quotes and a few pairs of characters are written as characters of their own.
\<close>

definition go_helper :: "string list" where
  "go_helper = [
    ''// #region agent log'',
    ''import \"encoding/json\"'',
    ''import \"os\"'',
    ''import \"reflect\"'',
    ''import \"regexp\"'',
    ''import \"strings\"'',
    ''import \"time\"'',
    [],
    ''var __agentDebugAcronymBoundary = regexp.MustCompile(\"([A-Z]+)([A-Z][a-z])\")'',
    ''var __agentDebugCamelBoundary = regexp.MustCompile(\"([a-z0-9])([A-Z])\")'',
    ''var __agentDebugSeparators = regexp.MustCompile(\"[^a-zA-Z0-9]+\")'',
    ''var __agentDebugSecretSuffix = regexp.MustCompile(\"(^|_)(api_key|api_token|oauth_token|o_auth_token|private_key|client_secret|access_token|refresh_token|id_token|auth_token|bearer_token)$\")'',
    ''var __agentDebugSecretKeys = map[string]bool{'',
    [CHR 0x09] @ ''\"authorization\": true, \"authorization_header\": true, \"cookie\": true, \"set_cookie\": true,'',
    [CHR 0x09] @ ''\"password\": true, \"passwd\": true, \"pwd\": true, \"private_key\": true, \"secret\": true, \"token\": true,'',
    [CHR 0x09] @ ''\"credential\": true, \"credentials\": true,'',
    ''}'',
    [],
    ''func __agentDebugIsSecretKey(key string) bool {'',
    [CHR 0x09] @ ''normalized := __agentDebugAcronymBoundary.ReplaceAllString(key, \"${1}_${2}\")'',
    [CHR 0x09] @ ''normalized = __agentDebugCamelBoundary.ReplaceAllString(normalized, \"${1}_${2}\")'',
    [CHR 0x09] @ ''normalized = strings.Trim(__agentDebugSeparators.ReplaceAllString(strings.ToLower(normalized), \"_\"), \"_\")'',
    [CHR 0x09] @ ''return __agentDebugSecretKeys[normalized] || __agentDebugSecretSuffix.MatchString(normalized)'',
    ''}'',
    [],
    ''type __agentDebugVisit struct {'',
    [CHR 0x09] @ ''kind reflect.Kind'',
    [CHR 0x09] @ ''typeName string'',
    [CHR 0x09] @ ''pointer uintptr'',
    ''}'',
    [],
    ''func __agentDebugIdentity(value reflect.Value) (__agentDebugVisit, bool) {'',
    [CHR 0x09] @ ''switch value.Kind() {'',
    [CHR 0x09] @ ''case reflect.Map, reflect.Pointer, reflect.Slice:'',
    [CHR 0x09, CHR 0x09] @ ''if value.IsNil() { return __agentDebugVisit{}, false }'',
    [CHR 0x09, CHR 0x09] @ ''return __agentDebugVisit{value.Kind(), value.Type().String(), value.Pointer()}, true'',
    [CHR 0x09] @ ''default:'',
    [CHR 0x09, CHR 0x09] @ ''return __agentDebugVisit{}, false'',
    [CHR 0x09] @ ''}'',
    ''}'',
    [],
    ''func __agentDebugRedact(value any) (any, bool) {'',
    [CHR 0x09] @ ''return __agentDebugRedactValue(reflect.ValueOf(value), make(map[__agentDebugVisit]bool), 0)'',
    ''}'',
    [],
    ''func __agentDebugRedactValue(value reflect.Value, active map[__agentDebugVisit]bool, depth int) (any, bool) {'',
    [CHR 0x09] @ ''if depth > 64 { return nil, false }'',
    [CHR 0x09] @ ''if !value.IsValid() { return nil, true }'',
    [CHR 0x09] @ ''if value.Kind() == reflect.Interface {'',
    [CHR 0x09, CHR 0x09] @ ''if value.IsNil() { return nil, true }'',
    [CHR 0x09, CHR 0x09] @ ''return __agentDebugRedactValue(value.Elem(), active, depth + 1)'',
    [CHR 0x09] @ ''}'',
    [CHR 0x09] @ ''if identity, tracked := __agentDebugIdentity(value); tracked {'',
    [CHR 0x09, CHR 0x09] @ ''if active[identity] { return nil, false }'',
    [CHR 0x09, CHR 0x09] @ ''active[identity] = true'',
    [CHR 0x09, CHR 0x09] @ ''defer delete(active, identity)'',
    [CHR 0x09] @ ''}'',
    [CHR 0x09] @ ''if value.Kind() == reflect.Pointer {'',
    [CHR 0x09, CHR 0x09] @ ''return __agentDebugRedactValue(value.Elem(), active, depth + 1)'',
    [CHR 0x09] @ ''}'',
    [CHR 0x09] @ ''switch value.Kind() {'',
    [CHR 0x09] @ ''case reflect.Map:'',
    [CHR 0x09, CHR 0x09] @ ''redacted := make(map[string]any, value.Len())'',
    [CHR 0x09, CHR 0x09] @ ''iterator := value.MapRange()'',
    [CHR 0x09, CHR 0x09] @ ''for iterator.Next() {'',
    [CHR 0x09, CHR 0x09, CHR 0x09] @ ''key := iterator.Key()'',
    [CHR 0x09, CHR 0x09, CHR 0x09] @ ''if key.Kind() != reflect.String { return nil, false }'',
    [CHR 0x09, CHR 0x09, CHR 0x09] @ ''keyText := key.String()'',
    [CHR 0x09, CHR 0x09, CHR 0x09] @ ''if __agentDebugIsSecretKey(keyText) { redacted[keyText] = \"[REDACTED]\"; continue }'',
    [CHR 0x09, CHR 0x09, CHR 0x09] @ ''child, ok := __agentDebugRedactValue(iterator.Value(), active, depth + 1)'',
    [CHR 0x09, CHR 0x09, CHR 0x09] @ ''if !ok { return nil, false }'',
    [CHR 0x09, CHR 0x09, CHR 0x09] @ ''redacted[keyText] = child'',
    [CHR 0x09, CHR 0x09] @ ''}'',
    [CHR 0x09, CHR 0x09] @ ''return redacted, true'',
    [CHR 0x09] @ ''case reflect.Array, reflect.Slice:'',
    [CHR 0x09, CHR 0x09] @ ''if value.Kind() == reflect.Slice && value.IsNil() { return nil, true }'',
    [CHR 0x09, CHR 0x09] @ ''redacted := make([]any, value.Len())'',
    [CHR 0x09, CHR 0x09] @ ''for index := 0; index < value.Len(); index++ {'',
    [CHR 0x09, CHR 0x09, CHR 0x09] @ ''child, ok := __agentDebugRedactValue(value.Index(index), active, depth + 1)'',
    [CHR 0x09, CHR 0x09, CHR 0x09] @ ''if !ok { return nil, false }'',
    [CHR 0x09, CHR 0x09, CHR 0x09] @ ''redacted[index] = child'',
    [CHR 0x09, CHR 0x09] @ ''}'',
    [CHR 0x09, CHR 0x09] @ ''return redacted, true'',
    [CHR 0x09] @ ''case reflect.Struct:'',
    [CHR 0x09, CHR 0x09] @ ''redacted := make(map[string]any)'',
    [CHR 0x09, CHR 0x09] @ ''valueType := value.Type()'',
    [CHR 0x09, CHR 0x09] @ ''for index := 0; index < value.NumField(); index++ {'',
    [CHR 0x09, CHR 0x09, CHR 0x09] @ ''fieldType := valueType.Field(index)'',
    [CHR 0x09, CHR 0x09, CHR 0x09] @ ''if fieldType.PkgPath != \"\" { continue }'',
    [CHR 0x09, CHR 0x09, CHR 0x09] @ ''key := fieldType.Name'',
    [CHR 0x09, CHR 0x09, CHR 0x09] @ ''tag := strings.Split(fieldType.Tag.Get(\"json\"), \",\")[0]'',
    [CHR 0x09, CHR 0x09, CHR 0x09] @ ''if tag == \"-\" { continue } else if tag != \"\" { key = tag }'',
    [CHR 0x09, CHR 0x09, CHR 0x09] @ ''if __agentDebugIsSecretKey(key) { redacted[key] = \"[REDACTED]\"; continue }'',
    [CHR 0x09, CHR 0x09, CHR 0x09] @ ''child, ok := __agentDebugRedactValue(value.Field(index), active, depth + 1)'',
    [CHR 0x09, CHR 0x09, CHR 0x09] @ ''if !ok { return nil, false }'',
    [CHR 0x09, CHR 0x09, CHR 0x09] @ ''redacted[key] = child'',
    [CHR 0x09, CHR 0x09] @ ''}'',
    [CHR 0x09, CHR 0x09] @ ''return redacted, true'',
    [CHR 0x09] @ ''default:'',
    [CHR 0x09, CHR 0x09] @ ''if value.CanInterface() { return value.Interface(), true }'',
    [CHR 0x09, CHR 0x09] @ ''return nil, false'',
    [CHR 0x09] @ ''}'',
    ''}'',
    [],
    ''func __agentDebugEmit(hypothesisID string, location string, message string, data any) {'',
    [CHR 0x09] @ ''defer func() { _ = recover() }()'',
    [CHR 0x09] @ ''redacted, ok := __agentDebugRedact(data)'',
    [CHR 0x09] @ ''if !ok { return }'',
    [CHR 0x09] @ ''payload, err := json.Marshal(map[string]any{'',
    [CHR 0x09, CHR 0x09] @ ''\"hypothesisId\": hypothesisID,'',
    [CHR 0x09, CHR 0x09] @ ''\"location\": location,'',
    [CHR 0x09, CHR 0x09] @ ''\"message\": message,'',
    [CHR 0x09, CHR 0x09] @ ''\"data\": redacted,'',
    [CHR 0x09, CHR 0x09] @ ''\"timestamp\": time.Now().UnixMilli(),'',
    [CHR 0x09] @ ''})'',
    [CHR 0x09] @ ''if err != nil || len(payload)+1 > 65_536 { return }'',
    [CHR 0x09] @ ''payload = append(payload, '' @ [CHR 0x27, CHR 0x5C] @ ''n'' @ [CHR 0x27] @ '')'',
    [CHR 0x09] @ ''file, err := os.OpenFile(\"__APPEND_PATH__\", os.O_APPEND|os.O_CREATE|os.O_WRONLY, 0o600)'',
    [CHR 0x09] @ ''if err != nil { return }'',
    [CHR 0x09] @ ''defer func() { _ = file.Close() }()'',
    [CHR 0x09] @ ''_, _ = file.Write(payload)'',
    ''}'',
    ''// #endregion'']"

definition go_call :: "string list" where
  "go_call = [
    ''// #region agent log'',
    ''__agentDebugEmit(\"__HYPOTHESIS_ID__\", \"__LOCATION__\", \"__MESSAGE__\", __DATA_EXPRESSION__)'',
    ''// #endregion'']"

definition renderGoTemplate :: probe_templates where
  "renderGoTemplate =
    \<lparr>tpl_language = ''go'', tpl_ingest = ''file'', tpl_encoding = ''native-json-value'',
     tpl_helper = join_with [CHR 0x0A] go_helper, tpl_call = join_with [CHR 0x0A] go_call,
     tpl_placeholders = [
       (''__APPEND_PATH__'', ''Replace with the appendPath returned by debug-mode create.''),
       (''__DATA_EXPRESSION__'', ''Replace with a JSON-compatible Go expression that has no secrets.''),
       (''__HYPOTHESIS_ID__'', ''Replace with the hypothesis label.''),
       (''__LOCATION__'', ''Replace with the observed source location.''),
       (''__MESSAGE__'', ''Replace with a constant observation message.'')],
     tpl_place_helper = ''top-level'', tpl_place_call = ''statement'',
     tpl_members = [''callTemplate'', ''helperTemplate'', ''ingest'', ''language'', ''dataEncoding'', ''placement'', ''placeholders'']\<rparr>"

definition csharp_helper :: "string list" where
  "csharp_helper = [
    ''// #region agent log'',
    ''using System;'',
    ''using System.Collections;'',
    ''using System.Collections.Generic;'',
    ''using System.IO;'',
    ''using System.Reflection;'',
    ''using System.Text;'',
    ''using System.Text.Json;'',
    ''using System.Text.RegularExpressions;'',
    [],
    ''internal static class AgentDebugLog'',
    ''{'',
    ''    private static readonly HashSet<string> SecretKeys = new(StringComparer.Ordinal)'',
    ''    {'',
    ''        \"authorization\", \"authorization_header\", \"cookie\", \"set_cookie\",'',
    ''        \"password\", \"passwd\", \"pwd\", \"private_key\", \"secret\", \"token\",'',
    ''        \"credential\", \"credentials\",'',
    ''    };'',
    [],
    ''    private static bool IsSecretKey(string key)'',
    ''    {'',
    ''        var normalized = Regex.Replace(key, \"([A-Z]+)([A-Z][a-z])\", \"$1_$2\");'',
    ''        normalized = Regex.Replace(normalized, \"([a-z0-9])([A-Z])\", \"$1_$2\");'',
    ''        normalized = Regex.Replace(normalized, \"[^a-zA-Z0-9]+\", \"_\").ToLowerInvariant().Trim('' @ [CHR 0x27] @ ''_'' @ [CHR 0x27] @ '');'',
    ''        return SecretKeys.Contains(normalized) || Regex.IsMatch('',
    ''            normalized,'',
    ''            \"(^|_)(api_key|api_token|oauth_token|o_auth_token|private_key|client_secret|access_token|refresh_token|id_token|auth_token|bearer_token)$\");'',
    ''    }'',
    [],
    ''    private static object? Redact(object? value)'',
    ''    {'',
    ''        return Redact(value, new HashSet<object>(ReferenceEqualityComparer.Instance), 0);'',
    ''    }'',
    [],
    ''    private static object? Redact(object? value, HashSet<object> active, int depth)'',
    ''    {'',
    ''        if (depth > 64) throw new InvalidOperationException(\"Observation graph is too deep\");'',
    ''        if (value is null || value is string)'',
    ''            return value;'',
    ''        var type = value.GetType();'',
    ''        if (type.IsPrimitive || type.IsEnum || value is decimal || value is Guid ||'',
    ''            value is DateTime || value is DateTimeOffset || value is TimeSpan ||'',
    ''            value is DateOnly || value is TimeOnly)'',
    ''            return value;'',
    ''        var trackReference = !type.IsValueType;'',
    ''        if (trackReference && !active.Add(value)) throw new InvalidOperationException(\"Cyclic observation graph\");'',
    ''        try'',
    ''        {'',
    ''            if (value is IDictionary dictionary)'',
    ''            {'',
    ''                var redacted = new Dictionary<string, object?>();'',
    ''                foreach (DictionaryEntry entry in dictionary)'',
    ''                {'',
    ''                    var key = Convert.ToString(entry.Key) ?? string.Empty;'',
    ''                    redacted[key] = IsSecretKey(key) ? \"[REDACTED]\" : Redact(entry.Value, active, depth + 1);'',
    ''                }'',
    ''                return redacted;'',
    ''            }'',
    ''            if (value is IEnumerable enumerable)'',
    ''            {'',
    ''                var redacted = new List<object?>();'',
    ''                foreach (var item in enumerable) redacted.Add(Redact(item, active, depth + 1));'',
    ''                return redacted;'',
    ''            }'',
    ''            var properties = new Dictionary<string, object?>();'',
    ''            foreach (var property in type.GetProperties(BindingFlags.Instance | BindingFlags.Public))'',
    ''            {'',
    ''                if (!property.CanRead || property.GetIndexParameters().Length != 0) continue;'',
    ''                properties[property.Name] = IsSecretKey(property.Name)'',
    ''                    ? \"[REDACTED]\"'',
    ''                    : Redact(property.GetValue(value), active, depth + 1);'',
    ''            }'',
    ''            foreach (var field in type.GetFields(BindingFlags.Instance | BindingFlags.Public))'',
    ''            {'',
    ''                properties[field.Name] = IsSecretKey(field.Name)'',
    ''                    ? \"[REDACTED]\"'',
    ''                    : Redact(field.GetValue(value), active, depth + 1);'',
    ''            }'',
    ''            return properties;'',
    ''        }'',
    ''        finally'',
    ''        {'',
    ''            if (trackReference) active.Remove(value);'',
    ''        }'',
    ''    }'',
    [],
    ''    internal static void Emit(string hypothesisId, string location, string message, object? data)'',
    ''    {'',
    ''        try'',
    ''        {'',
    ''            var json = JsonSerializer.Serialize(new'',
    ''            {'',
    ''                hypothesisId,'',
    ''                location,'',
    ''                message,'',
    ''                data = Redact(data),'',
    ''                timestamp = DateTimeOffset.UtcNow.ToUnixTimeMilliseconds(),'',
    ''            }) + \"'' @ [CHR 0x5C] @ ''n\";'',
    ''            var payload = new UTF8Encoding(false).GetBytes(json);'',
    ''            if (payload.Length > 65_536) return;'',
    ''            using var stream = new FileStream(\"__APPEND_PATH__\", FileMode.Append, FileAccess.Write, FileShare.ReadWrite);'',
    ''            stream.Write(payload, 0, payload.Length);'',
    ''        }'',
    ''        catch'',
    ''        {'',
    ''            // Observations must never change application behavior.'',
    ''        }'',
    ''    }'',
    ''}'',
    ''// #endregion'']"

definition csharp_call :: "string list" where
  "csharp_call = [
    ''// #region agent log'',
    ''AgentDebugLog.Emit(\"__HYPOTHESIS_ID__\", \"__LOCATION__\", \"__MESSAGE__\", __DATA_EXPRESSION__);'',
    ''// #endregion'']"

definition renderCSharpTemplate :: probe_templates where
  "renderCSharpTemplate =
    \<lparr>tpl_language = ''csharp'', tpl_ingest = ''file'', tpl_encoding = ''native-json-value'',
     tpl_helper = join_with [CHR 0x0A] csharp_helper, tpl_call = join_with [CHR 0x0A] csharp_call,
     tpl_placeholders = [
       (''__APPEND_PATH__'', ''Replace with the appendPath returned by debug-mode create.''),
       (''__DATA_EXPRESSION__'', ''Replace with a JSON-compatible C# expression that has no secrets.''),
       (''__HYPOTHESIS_ID__'', ''Replace with the hypothesis label.''),
       (''__LOCATION__'', ''Replace with the observed source location.''),
       (''__MESSAGE__'', ''Replace with a constant observation message.'')],
     tpl_place_helper = ''top-level'', tpl_place_call = ''statement'',
     tpl_members = [''callTemplate'', ''helperTemplate'', ''ingest'', ''language'', ''dataEncoding'', ''placement'', ''placeholders'']\<rparr>"

definition swift_helper :: "string list" where
  "swift_helper = [
    ''// #region agent log'',
    ''import Foundation'',
    ''#if canImport(Darwin)'',
    ''import Darwin'',
    ''#elseif canImport(Glibc)'',
    ''import Glibc'',
    ''#endif'',
    [],
    ''let __agentDebugSecretKeys: Set<String> = ['',
    ''    \"authorization\", \"authorization_header\", \"cookie\", \"set_cookie\",'',
    ''    \"password\", \"passwd\", \"pwd\", \"private_key\", \"secret\", \"token\",'',
    ''    \"credential\", \"credentials\",'',
    '']'',
    [],
    ''func __agentDebugIsSecretKey(_ key: String) -> Bool {'',
    ''    var normalized = key.replacingOccurrences(of: \"([A-Z]+)([A-Z][a-z])\", with: \"$1_$2\", options: .regularExpression)'',
    ''    normalized = normalized.replacingOccurrences(of: \"([a-z0-9])([A-Z])\", with: \"$1_$2\", options: .regularExpression)'',
    ''    normalized = normalized.replacingOccurrences(of: \"[^a-zA-Z0-9]+\", with: \"_\", options: .regularExpression)'',
    ''        .lowercased().trimmingCharacters(in: CharacterSet(charactersIn: \"_\"))'',
    ''    if __agentDebugSecretKeys.contains(normalized) { return true }'',
    ''    return normalized.range(of: \"(^|_)(api_key|api_token|oauth_token|o_auth_token|private_key|client_secret|access_token|refresh_token|id_token|auth_token|bearer_token)$\", options: .regularExpression) != nil'',
    ''}'',
    [],
    ''func __agentDebugRedact(_ value: Any) throws -> Any {'',
    ''    var active = Set<ObjectIdentifier>()'',
    ''    return try __agentDebugRedactValue(value, active: &active, depth: 0)'',
    ''}'',
    [],
    ''func __agentDebugRedactValue(_ value: Any, active: inout Set<ObjectIdentifier>, depth: Int) throws -> Any {'',
    ''    guard depth <= 64 else { throw NSError(domain: \"AgentDebug\", code: 1) }'',
    ''    let mirror = Mirror(reflecting: value)'',
    ''    var identity: ObjectIdentifier?'',
    ''    if mirror.displayStyle == .class {'',
    ''        let candidate = ObjectIdentifier(value as AnyObject)'',
    ''        guard !active.contains(candidate) else { throw NSError(domain: \"AgentDebug\", code: 2) }'',
    ''        active.insert(candidate)'',
    ''        identity = candidate'',
    ''    }'',
    ''    defer { if let identity { active.remove(identity) } }'',
    ''    if let array = value as? [Any] {'',
    ''        return try array.map { try __agentDebugRedactValue($0, active: &active, depth: depth + 1) }'',
    ''    }'',
    ''    if let dictionary = value as? [String: Any] {'',
    ''        var redacted: [String: Any] = [:]'',
    ''        for (key, item) in dictionary {'',
    ''            redacted[key] = __agentDebugIsSecretKey(key) ? \"[REDACTED]\" : try __agentDebugRedactValue(item, active: &active, depth: depth + 1)'',
    ''        }'',
    ''        return redacted'',
    ''    }'',
    ''    return value'',
    ''}'',
    [],
    ''func __agentDebugEmit(_ hypothesisId: String, _ location: String, _ message: String, _ data: Any) {'',
    ''    do {'',
    ''        let event: [String: Any] = ['',
    ''            \"hypothesisId\": hypothesisId,'',
    ''            \"location\": location,'',
    ''            \"message\": message,'',
    ''            \"data\": try __agentDebugRedact(data),'',
    ''            \"timestamp\": Int64(Date().timeIntervalSince1970 * 1000),'',
    ''        ]'',
    ''        var payload = try JSONSerialization.data(withJSONObject: event)'',
    ''        payload.append(0x0A)'',
    ''        guard payload.count <= 65_536 else { return }'',
    ''        let descriptor = open(\"__APPEND_PATH__\", O_WRONLY | O_APPEND | O_CREAT, mode_t(0o600))'',
    ''        guard descriptor >= 0 else { return }'',
    ''        defer { _ = close(descriptor) }'',
    ''        payload.withUnsafeBytes { buffer in'',
    ''            guard let baseAddress = buffer.baseAddress else { return }'',
    ''            let written = write(descriptor, baseAddress, buffer.count)'',
    ''            guard written == buffer.count else { return }'',
    ''        }'',
    ''    } catch {'',
    ''        // Observations must never change application behavior.'',
    ''    }'',
    ''}'',
    ''// #endregion'']"

definition swift_call :: "string list" where
  "swift_call = [
    ''// #region agent log'',
    ''__agentDebugEmit(\"__HYPOTHESIS_ID__\", \"__LOCATION__\", \"__MESSAGE__\", __DATA_EXPRESSION__)'',
    ''// #endregion'']"

definition renderSwiftTemplate :: probe_templates where
  "renderSwiftTemplate =
    \<lparr>tpl_language = ''swift'', tpl_ingest = ''file'', tpl_encoding = ''native-json-value'',
     tpl_helper = join_with [CHR 0x0A] swift_helper, tpl_call = join_with [CHR 0x0A] swift_call,
     tpl_placeholders = [
       (''__APPEND_PATH__'', ''Replace with the appendPath returned by debug-mode create.''),
       (''__DATA_EXPRESSION__'', ''Replace with a JSON-compatible Swift expression that has no secrets.''),
       (''__HYPOTHESIS_ID__'', ''Replace with the hypothesis label.''),
       (''__LOCATION__'', ''Replace with the observed source location.''),
       (''__MESSAGE__'', ''Replace with a constant observation message.'')],
     tpl_place_helper = ''top-level'', tpl_place_call = ''statement'',
     tpl_members = [''callTemplate'', ''helperTemplate'', ''ingest'', ''language'', ''dataEncoding'', ''placement'', ''placeholders'']\<rparr>"

definition powershell_helper :: "string list" where
  "powershell_helper = [
    ''# region agent log'',
    ''function Test-AgentDebugSecretKey {'',
    ''    param([string] $Key)'',
    ''    $normalized = $Key -creplace '' @ [CHR 0x27] @ ''([A-Z]+)([A-Z][a-z])'' @ [CHR 0x27] @ '', '' @ [CHR 0x27] @ ''$1_$2'' @ [CHR 0x27],
    ''    $normalized = $normalized -creplace '' @ [CHR 0x27] @ ''([a-z0-9])([A-Z])'' @ [CHR 0x27] @ '', '' @ [CHR 0x27] @ ''$1_$2'' @ [CHR 0x27],
    ''    $normalized = (($normalized -replace '' @ [CHR 0x27] @ ''[^a-zA-Z0-9]+'' @ [CHR 0x27] @ '', '' @ [CHR 0x27] @ ''_'' @ [CHR 0x27] @ '').ToLower()).Trim('' @ [CHR 0x27] @ ''_'' @ [CHR 0x27] @ '')'',
    ''    $secretKeys = @('',
    ''        '' @ [CHR 0x27] @ ''authorization'' @ [CHR 0x27] @ '', '' @ [CHR 0x27] @ ''authorization_header'' @ [CHR 0x27] @ '', '' @ [CHR 0x27] @ ''cookie'' @ [CHR 0x27] @ '', '' @ [CHR 0x27] @ ''set_cookie'' @ [CHR 0x27] @ '','',
    ''        '' @ [CHR 0x27] @ ''password'' @ [CHR 0x27] @ '', '' @ [CHR 0x27] @ ''passwd'' @ [CHR 0x27] @ '', '' @ [CHR 0x27] @ ''pwd'' @ [CHR 0x27] @ '', '' @ [CHR 0x27] @ ''private_key'' @ [CHR 0x27] @ '', '' @ [CHR 0x27] @ ''secret'' @ [CHR 0x27] @ '', '' @ [CHR 0x27] @ ''token'' @ [CHR 0x27] @ '','',
    ''        '' @ [CHR 0x27] @ ''credential'' @ [CHR 0x27] @ '', '' @ [CHR 0x27] @ ''credentials'' @ [CHR 0x27],
    ''    )'',
    ''    return $secretKeys -contains $normalized -or'',
    ''        $normalized -match '' @ [CHR 0x27] @ ''(^|_)(api_key|api_token|oauth_token|o_auth_token|private_key|client_secret|access_token|refresh_token|id_token|auth_token|bearer_token)$'' @ [CHR 0x27],
    ''}'',
    [],
    ''function Protect-AgentDebugValue {'',
    ''    param('',
    ''        [object] $Value,'',
    ''        [Collections.Generic.HashSet[object'' @ [CHR 0x5D] @ ''] $Active = [Collections.Generic.HashSet[object'' @ [CHR 0x5D] @ '']::new([Collections.Generic.ReferenceEqualityComparer]::Instance),'',
    ''        [int] $Depth = 0'',
    ''    )'',
    ''    if ($Depth -gt 64) { throw '' @ [CHR 0x27] @ ''Observation graph is too deep'' @ [CHR 0x27] @ '' }'',
    ''    if ($null -eq $Value -or $Value -is [string]) {'',
    ''        return $Value'',
    ''    }'',
    ''    $type = $Value.GetType()'',
    ''    if ($type.IsPrimitive -or $type.IsEnum -or $Value -is [decimal] -or'',
    ''        $Value -is [Guid] -or $Value -is [DateTime] -or'',
    ''        $Value -is [DateTimeOffset] -or $Value -is [TimeSpan] -or'',
    ''        $Value -is [DateOnly] -or $Value -is [TimeOnly]) {'',
    ''        return $Value'',
    ''    }'',
    ''    $trackReference = -not $type.IsValueType'',
    ''    if ($trackReference -and -not $Active.Add($Value)) { throw '' @ [CHR 0x27] @ ''Cyclic observation graph'' @ [CHR 0x27] @ '' }'',
    ''    try {'',
    ''        if ($Value -is [Collections.IDictionary]) {'',
    ''            $redacted = [ordered]'' @ [CHR 0x40] @ ''{}'',
    ''            foreach ($key in $Value.Keys) {'',
    ''                $redacted[$key] = if (Test-AgentDebugSecretKey ([string] $key)) {'',
    ''                    '' @ [CHR 0x27] @ ''[REDACTED]'' @ [CHR 0x27],
    ''                } else {'',
    ''                    Protect-AgentDebugValue ($Value[$key]) $Active ($Depth + 1)'',
    ''                }'',
    ''            }'',
    ''            return $redacted'',
    ''        }'',
    ''        if ($Value -is [Collections.IEnumerable]) {'',
    ''            $redacted = @($Value | ForEach-Object {'',
    ''                Protect-AgentDebugValue $_ $Active ($Depth + 1)'',
    ''            })'',
    ''            return ,$redacted'',
    ''        }'',
    ''        $redacted = [ordered]'' @ [CHR 0x40] @ ''{}'',
    ''        if ($type.IsValueType) {'',
    ''            $flags = [Reflection.BindingFlags]::Instance -bor [Reflection.BindingFlags]::Public'',
    ''            foreach ($property in $type.GetProperties($flags)) {'',
    ''                if (-not $property.CanRead -or $property.GetIndexParameters().Count -ne 0) { continue }'',
    ''                $redacted[$property.Name] = if (Test-AgentDebugSecretKey $property.Name) {'',
    ''                    '' @ [CHR 0x27] @ ''[REDACTED]'' @ [CHR 0x27],
    ''                } else {'',
    ''                    Protect-AgentDebugValue ($property.GetValue($Value)) $Active ($Depth + 1)'',
    ''                }'',
    ''            }'',
    ''            foreach ($field in $type.GetFields($flags)) {'',
    ''                $redacted[$field.Name] = if (Test-AgentDebugSecretKey $field.Name) {'',
    ''                    '' @ [CHR 0x27] @ ''[REDACTED]'' @ [CHR 0x27],
    ''                } else {'',
    ''                    Protect-AgentDebugValue ($field.GetValue($Value)) $Active ($Depth + 1)'',
    ''                }'',
    ''            }'',
    ''        } else {'',
    ''            foreach ($property in $Value.PSObject.Properties) {'',
    ''                $redacted[$property.Name] = if (Test-AgentDebugSecretKey $property.Name) {'',
    ''                    '' @ [CHR 0x27] @ ''[REDACTED]'' @ [CHR 0x27],
    ''                } else {'',
    ''                    Protect-AgentDebugValue $property.Value $Active ($Depth + 1)'',
    ''                }'',
    ''            }'',
    ''        }'',
    ''        return $redacted'',
    ''    } finally {'',
    ''        if ($trackReference) { [void] $Active.Remove($Value) }'',
    ''    }'',
    ''}'',
    [],
    ''function Write-AgentDebugEvent {'',
    ''    param('',
    ''        [string] $HypothesisId,'',
    ''        [string] $Location,'',
    ''        [string] $Message,'',
    ''        [object] $Data'',
    ''    )'',
    ''    try {'',
    ''        $eventData = [ordered]'' @ [CHR 0x40] @ ''{'',
    ''            hypothesisId = $HypothesisId'',
    ''            location = $Location'',
    ''            message = $Message'',
    ''            data = (Protect-AgentDebugValue $Data)'',
    ''            timestamp = [DateTimeOffset]::UtcNow.ToUnixTimeMilliseconds()'',
    ''        }'',
    ''        $json = ($eventData | ConvertTo-Json -Compress -Depth 8 -ErrorAction Stop -WarningAction SilentlyContinue) + \"`n\"'',
    ''        $bytes = [Text.UTF8Encoding]::new($false).GetBytes($json)'',
    ''        if ($bytes.Length -gt 65536) { return }'',
    ''        $stream = [IO.File]::Open(\"__APPEND_PATH__\", [IO.FileMode]::Append, [IO.FileAccess]::Write, [IO.FileShare]::ReadWrite)'',
    ''        try {'',
    ''            $stream.Write($bytes, 0, $bytes.Length)'',
    ''        } finally {'',
    ''            $stream.Dispose()'',
    ''        }'',
    ''    } catch {'',
    ''        # Observations must never change application behavior.'',
    ''    }'',
    ''}'',
    ''# endregion'']"

definition powershell_call :: "string list" where
  "powershell_call = [
    ''# region agent log'',
    ''Write-AgentDebugEvent \"__HYPOTHESIS_ID__\" \"__LOCATION__\" \"__MESSAGE__\" (__DATA_EXPRESSION__)'',
    ''# endregion'']"

definition renderPowerShellTemplate :: probe_templates where
  "renderPowerShellTemplate =
    \<lparr>tpl_language = ''powershell'', tpl_ingest = ''file'', tpl_encoding = ''native-json-value'',
     tpl_helper = join_with [CHR 0x0A] powershell_helper, tpl_call = join_with [CHR 0x0A] powershell_call,
     tpl_placeholders = [
       (''__APPEND_PATH__'', ''Replace with the appendPath returned by debug-mode create.''),
       (''__DATA_EXPRESSION__'', ''Replace with a JSON-compatible PowerShell expression that has no secrets.''),
       (''__HYPOTHESIS_ID__'', ''Replace with the hypothesis label.''),
       (''__LOCATION__'', ''Replace with the observed source location.''),
       (''__MESSAGE__'', ''Replace with a constant observation message.'')],
     tpl_place_helper = ''top-level'', tpl_place_call = ''statement'',
     tpl_members = [''callTemplate'', ''helperTemplate'', ''ingest'', ''language'', ''dataEncoding'', ''placement'', ''placeholders'']\<rparr>"

section \<open>The placeholders in the texts\<close>

lemma go_scanned:
  "concat (map (placeholders_from []) go_helper) = [''__APPEND_PATH__'']"
  "concat (map (placeholders_from []) go_call) = [''__HYPOTHESIS_ID__'', ''__LOCATION__'', ''__MESSAGE__'', ''__DATA_EXPRESSION__'']"
  "list_all (list_all (\<lambda>c. c \<noteq> CHR 0x0A)) go_helper" "list_all (list_all (\<lambda>c. c \<noteq> CHR 0x0A)) go_call"
  "go_helper \<noteq> []" "go_call \<noteq> []"
  by code_simp+

lemma go_complete: "template_complete renderGoTemplate"
  by (auto simp: template_complete_def template_texts_def renderGoTemplate_def texts_scanned placeholders_joined go_scanned)

lemma csharp_scanned:
  "concat (map (placeholders_from []) csharp_helper) = [''__APPEND_PATH__'']"
  "concat (map (placeholders_from []) csharp_call) = [''__HYPOTHESIS_ID__'', ''__LOCATION__'', ''__MESSAGE__'', ''__DATA_EXPRESSION__'']"
  "list_all (list_all (\<lambda>c. c \<noteq> CHR 0x0A)) csharp_helper" "list_all (list_all (\<lambda>c. c \<noteq> CHR 0x0A)) csharp_call"
  "csharp_helper \<noteq> []" "csharp_call \<noteq> []"
  by code_simp+

lemma csharp_complete: "template_complete renderCSharpTemplate"
  by (auto simp: template_complete_def template_texts_def renderCSharpTemplate_def texts_scanned placeholders_joined csharp_scanned)

lemma swift_scanned:
  "concat (map (placeholders_from []) swift_helper) = [''__APPEND_PATH__'']"
  "concat (map (placeholders_from []) swift_call) = [''__HYPOTHESIS_ID__'', ''__LOCATION__'', ''__MESSAGE__'', ''__DATA_EXPRESSION__'']"
  "list_all (list_all (\<lambda>c. c \<noteq> CHR 0x0A)) swift_helper" "list_all (list_all (\<lambda>c. c \<noteq> CHR 0x0A)) swift_call"
  "swift_helper \<noteq> []" "swift_call \<noteq> []"
  by code_simp+

lemma swift_complete: "template_complete renderSwiftTemplate"
  by (auto simp: template_complete_def template_texts_def renderSwiftTemplate_def texts_scanned placeholders_joined swift_scanned)

lemma powershell_scanned:
  "concat (map (placeholders_from []) powershell_helper) = [''__APPEND_PATH__'']"
  "concat (map (placeholders_from []) powershell_call) = [''__HYPOTHESIS_ID__'', ''__LOCATION__'', ''__MESSAGE__'', ''__DATA_EXPRESSION__'']"
  "list_all (list_all (\<lambda>c. c \<noteq> CHR 0x0A)) powershell_helper" "list_all (list_all (\<lambda>c. c \<noteq> CHR 0x0A)) powershell_call"
  "powershell_helper \<noteq> []" "powershell_call \<noteq> []"
  by code_simp+

lemma powershell_complete: "template_complete renderPowerShellTemplate"
  by (auto simp: template_complete_def template_texts_def renderPowerShellTemplate_def texts_scanned placeholders_joined powershell_scanned)

end
