(* ===== verification/Templates.thy ===== *)
theory Templates
  imports Template_Native Template_Jvm Template_Script Template_Typed Render Probe_Keys
begin

text \<open>
  Which template is rendered for a language and a way of ingestion (\<open>src/probes/render.ts\<close>), and the command
  that gives it to the user (\<open>src/commands/template.ts\<close>). \<open>toLowerCase\<close> is an argument, \<open>lower\<close>.
\<close>

section \<open>Rendering\<close>

definition normalizeLanguage :: "(string \<Rightarrow> string) \<Rightarrow> string \<Rightarrow> string option" where
  "normalizeLanguage lower language =
     (let l = lower language
      in if l = ''javascript'' \<or> l = ''js'' then Some ''javascript''
         else if l = ''typescript'' \<or> l = ''ts'' then Some ''typescript''
         else if l = ''python'' \<or> l = ''py'' then Some ''python''
         else if l = ''go'' \<or> l = ''golang'' then Some ''go''
         else if l = ''ruby'' \<or> l = ''rb'' then Some ''ruby''
         else if l = ''php'' then Some ''php''
         else if l = ''powershell'' \<or> l = ''pwsh'' then Some ''powershell''
         else if l = ''csharp'' \<or> l = ''c#'' \<or> l = ''cs'' then Some ''csharp''
         else if l = ''swift'' then Some ''swift''
         else if l = ''rust'' \<or> l = ''rs'' then Some ''rust''
         else if l = ''cpp'' \<or> l = ''c++'' \<or> l = ''cxx'' then Some ''cpp''
         else if l = ''c'' then Some ''c''
         else if l = ''java'' then Some ''java''
         else if l = ''kotlin'' \<or> l = ''kt'' then Some ''kotlin''
         else None)"

datatype template_error = UnsupportedTemplate string string

definition unsupported_message :: "template_error \<Rightarrow> string" where
  "unsupported_message e =
     (case e of UnsupportedTemplate language ingest \<Rightarrow>
        ''Unsupported template: language '' @ [CHR 0x22] @ language @ [CHR 0x22] @ '' with ingest '' @ [CHR 0x22] @ ingest
          @ [CHR 0x22] @ ''.'')"

text \<open>The cases of the switch over the requested pair.\<close>

definition template_table :: "(string \<times> probe_templates) list" where
  "template_table = [(''javascript:http'', renderJavaScriptTemplate), (''typescript:http'', renderTypeScriptTemplate),
     (''python:file'', renderPythonTemplate), (''go:file'', renderGoTemplate), (''ruby:file'', renderRubyTemplate),
     (''php:file'', renderPhpTemplate), (''powershell:file'', renderPowerShellTemplate), (''csharp:file'', renderCSharpTemplate),
     (''swift:file'', renderSwiftTemplate), (''rust:file'', renderRustTemplate), (''cpp:file'', renderCppTemplate),
     (''c:file'', renderCTemplate), (''java:file'', renderJavaTemplate), (''kotlin:file'', renderKotlinTemplate)]"

definition renderTemplate :: "(string \<Rightarrow> string) \<Rightarrow> string \<Rightarrow> string \<Rightarrow> template_error + probe_templates" where
  "renderTemplate lower language ingest =
     (case normalizeLanguage lower language of
        None \<Rightarrow> Inl (UnsupportedTemplate language ingest)
      | Some normalized \<Rightarrow>
          (let way = lower ingest
           in if way \<noteq> ''http'' \<and> way \<noteq> ''file'' then Inl (UnsupportedTemplate language ingest)
              else case map_of template_table (normalized @ '':'' @ way) of
                  Some t \<Rightarrow> Inr t
                | None \<Rightarrow> Inl (UnsupportedTemplate language ingest)))"

definition TEMPLATE_EVENT_SCHEMA :: "(string \<times> string) list" where
  "TEMPLATE_EVENT_SCHEMA = [(''data'', ''bounded JSON value''), (''hypothesisId'', ''string''), (''location'', ''string''),
     (''message'', ''string''), (''timestamp'', ''Unix epoch milliseconds'')]"

section \<open>The command\<close>

definition string_members :: "(string \<times> string) list \<Rightarrow> json" where
  "string_members es = JObj (map (\<lambda>(k, s). (k, JStr s)) es)"

definition template_member :: "probe_templates \<Rightarrow> string \<Rightarrow> json" where
  "template_member t k =
     (if k = ''language'' then JStr (tpl_language t)
      else if k = ''ingest'' then JStr (tpl_ingest t)
      else if k = ''dataEncoding'' then JStr (tpl_encoding t)
      else if k = ''helperTemplate'' then JStr (tpl_helper t)
      else if k = ''callTemplate'' then JStr (tpl_call t)
      else if k = ''placeholders'' then string_members (tpl_placeholders t)
      else string_members [(''call'', tpl_place_call t), (''helper'', tpl_place_helper t)])"

definition template_data :: "probe_templates \<Rightarrow> (string \<times> json) list" where
  "template_data t = map (\<lambda>k. (k, template_member t k)) (tpl_members t) @ [(''eventSchema'', string_members TEMPLATE_EVENT_SCHEMA)]"

definition templateCommand :: "(string \<Rightarrow> string) \<Rightarrow> string \<Rightarrow> string \<Rightarrow> command_output" where
  "templateCommand lower language ingest =
     (case renderTemplate lower language ingest of
        Inr t \<Rightarrow> Succeeded \<lparr>cr_command = ''template'', cr_data = JObj (template_data t), cr_hints = [], cr_session = None,
          cr_statistics = [], cr_warnings = []\<rparr>
      | Inl e \<Rightarrow> Failed \<lparr>oe_code = ''UNSUPPORTED_TEMPLATE'', oe_hint = None, oe_message = unsupported_message e\<rparr>)"

lemmas template_renders = renderJavaScriptTemplate_def renderTypeScriptTemplate_def renderPythonTemplate_def renderGoTemplate_def
  renderRubyTemplate_def renderPhpTemplate_def renderPowerShellTemplate_def renderCSharpTemplate_def renderSwiftTemplate_def
  renderRustTemplate_def renderCppTemplate_def renderCTemplate_def renderJavaTemplate_def renderKotlinTemplate_def

lemma templates_complete: "\<forall>t \<in> snd ` set template_table. template_complete t"
  by (simp add: template_table_def javascript_complete typescript_complete python_complete go_complete ruby_complete php_complete powershell_complete csharp_complete swift_complete rust_complete cpp_complete c_complete java_complete kotlin_complete)

section \<open>Which template is rendered\<close>

text \<open>The keys of the table are the languages and ways of the templates.\<close>

lemma template_keys: "\<forall>p \<in> set template_table. fst p = tpl_language (snd p) @ '':'' @ tpl_ingest (snd p)"
  by (simp add: template_table_def template_renders)

lemma template_ways: "\<forall>p \<in> set template_table. tpl_ingest (snd p) = ''http'' \<or> tpl_ingest (snd p) = ''file''"
  by (simp add: template_table_def template_renders)

lemma template_distinct: "distinct (map fst template_table)"
  by (simp add: template_table_def)

lemma template_entry:
  assumes "(k, t) \<in> set template_table"
  shows "k = tpl_language t @ '':'' @ tpl_ingest t" "tpl_ingest t = ''http'' \<or> tpl_ingest t = ''file''"
  using bspec [OF template_keys assms] bspec [OF template_ways assms] by simp_all

lemma renderTemplate_iff:
  "renderTemplate lower language ingest = Inr t \<longleftrightarrow>
     t \<in> snd ` set template_table \<and> normalizeLanguage lower language = Some (tpl_language t) \<and> lower ingest = tpl_ingest t"
proof
  assume "renderTemplate lower language ingest = Inr t"
  then obtain l where l: "normalizeLanguage lower language = Some l" "map_of template_table (l @ '':'' @ lower ingest) = Some t"
    "lower ingest = ''http'' \<or> lower ingest = ''file''"
    by (auto simp: renderTemplate_def Let_def split: option.splits if_splits)
  from map_of_SomeD [OF l(2)] have t: "(l @ '':'' @ lower ingest, t) \<in> set template_table" .
  from template_entry [OF t] l(3) have "length (lower ingest) = length (tpl_ingest t)" by auto
  with template_entry(1) [OF t] have "l = tpl_language t \<and> lower ingest = tpl_ingest t" by simp
  with l(1) t show "t \<in> snd ` set template_table \<and> normalizeLanguage lower language = Some (tpl_language t) \<and> lower ingest = tpl_ingest t"
    by force
next
  assume t: "t \<in> snd ` set template_table \<and> normalizeLanguage lower language = Some (tpl_language t) \<and> lower ingest = tpl_ingest t"
  then obtain k where k: "(k, t) \<in> set template_table" by auto
  have "map_of template_table (tpl_language t @ '':'' @ tpl_ingest t) = Some t"
    using map_of_is_SomeI [OF template_distinct k] template_entry(1) [OF k] by simp
  with template_entry(2) [OF k] t show "renderTemplate lower language ingest = Inr t" by (auto simp: renderTemplate_def Let_def)
qed

lemma renderTemplate_error: "renderTemplate lower language ingest = Inl e \<Longrightarrow> e = UnsupportedTemplate language ingest"
  by (auto simp: renderTemplate_def Let_def split: option.splits if_splits)

lemma ascii_names: "ascii_case lower \<Longrightarrow> list_all (\<lambda>c. code c < 128) s \<Longrightarrow> lower s = map ascii_lower s"
  by (simp add: ascii_case_def)

text \<open>The language and the way in a template are names for it.\<close>

lemma template_names:
  assumes "ascii_case lower" "t \<in> snd ` set template_table"
  shows "normalizeLanguage lower (tpl_language t) = Some (tpl_language t)" "lower (tpl_ingest t) = tpl_ingest t"
proof -
  have lower: "lower l = map ascii_lower l" if "list_all (\<lambda>c. code c < 128) l" for l using assms(1) that by (rule ascii_names)
  have "\<forall>t \<in> snd ` set template_table. normalizeLanguage lower (tpl_language t) = Some (tpl_language t) \<and> lower (tpl_ingest t) = tpl_ingest t"
    by (simp add: template_table_def template_renders normalizeLanguage_def lower)
  with assms(2) show "normalizeLanguage lower (tpl_language t) = Some (tpl_language t)" "lower (tpl_ingest t) = tpl_ingest t" by blast+
qed

section \<open>What is printed\<close>

lemma string_record_members: "string_record (Some (string_members es)) = Some es"
proof -
  have "those (map (string_entry \<circ> (\<lambda>(k, s). (k, JStr s))) es) = Some es"
    by (induction es) (auto simp: string_entry_def)
  then show ?thesis by (simp add: string_record_def string_members_def)
qed

lemma map_of_members: "map_of (map (\<lambda>k. (k, f k)) ks) k = (if k \<in> set ks then Some (f k) else None)"
  by (induction ks) auto

lemma field_of_template: "k \<in> set (tpl_members t) \<Longrightarrow> field k (template_data t) = Some (template_member t k)"
  by (simp add: field_def template_data_def map_add_def map_of_members split: option.split)

lemma schema_of_template: "''eventSchema'' \<notin> set (tpl_members t) \<Longrightarrow> field ''eventSchema'' (template_data t) = Some (string_members TEMPLATE_EVENT_SCHEMA)"
  by (simp add: field_def template_data_def map_add_def map_of_members split: option.split)

lemma template_printed:
  assumes "t \<in> snd ` set template_table"
  shows "renderTemplateData (template_data t) = Some ([''HELPER TEMPLATE''] @ split_on CHR 0x0A (tpl_helper t)
    @ [[], ''CALL TEMPLATE''] @ split_on CHR 0x0A (tpl_call t)
    @ [[], ''DATA ENCODING'', tpl_encoding t, [], ''PLACEMENT'', ''Helper  '' @ tpl_place_helper t, ''Call    '' @ tpl_place_call t,
       [], ''PLACEHOLDERS'']
    @ map (\<lambda>(name, meaning). pad_end name (name_width (tpl_placeholders t)) @ ''  '' @ meaning) (tpl_placeholders t)
    @ [[], ''EVENT SCHEMA''] @ map (\<lambda>(k, v). k @ ''  '' @ v) TEMPLATE_EVENT_SCHEMA)"
proof -
  have "set (tpl_members t) = {''language'', ''ingest'', ''dataEncoding'', ''helperTemplate'', ''callTemplate'',
      ''placeholders'', ''placement''}"
    using bspec [OF templates_complete assms] by (simp only: template_complete_def)
  then have members: "field ''helperTemplate'' (template_data t) = Some (JStr (tpl_helper t))"
    "field ''callTemplate'' (template_data t) = Some (JStr (tpl_call t))"
    "field ''dataEncoding'' (template_data t) = Some (JStr (tpl_encoding t))"
    "field ''placeholders'' (template_data t) = Some (string_members (tpl_placeholders t))"
    "field ''placement'' (template_data t) = Some (string_members [(''call'', tpl_place_call t), (''helper'', tpl_place_helper t)])"
    "field ''eventSchema'' (template_data t) = Some (string_members TEMPLATE_EVENT_SCHEMA)"
    by (simp_all add: field_of_template schema_of_template template_member_def)
  have "placement_of (Some (string_members [(''call'', c), (''helper'', h)])) = Some (h, c)" for c h
    by (simp add: placement_of_def string_members_def string_field_def field_def)
  then show ?thesis by (simp add: renderTemplateData_def string_field_def members string_record_members)
qed

end
