(* ===== verification/Spec2Isabelle.thy ===== *)
theory Spec2Isabelle
  imports Daemon Json_Codec Paging_Facts Session_Lock Activity Commands_Facts Query_Facts Server Manager_Facts Render_Facts Cli_Facts Probe_Facts Probe_Append Probe_Emitters Files Streaming Lifecycle Templates
begin

text \<open>
  Debug mode keeps structured evidence of a running program. Probes that an agent puts into the
  program send events to a hidden daemon, over HTTP or by appending lines to a file; the command
  \<open>debug-mode\<close> starts the daemon, reads the evidence in pages, runs queries on it and resets or
  removes sessions. This development models the daemon, the client and the files they share, as
  they are written under \<open>src/\<close> in TypeScript.

  The parts, the theories and the files under \<open>src/\<close> that they model:

  \<^item> Values and texts. Prelude, Js_Text, Utf8, Js_Number and Json hold what the code uses of the
    language: strings of bytes with the length of JavaScript, numbers as decimals, \<open>JSON.parse\<close> and
    \<open>JSON.stringify\<close>. Json_Codec shows that what is printed parses back, and that the fuel of the
    parser, twice the length of the text, is enough.
  \<^item> Domain, Redaction, Validation: \<open>domain/*.ts\<close>. Sessions, events, diagnostics, the recursive
    replacement of secrets and the bounded schema of an event.
  \<^item> Paths, Store, Store_Facts, Store_Invariant: \<open>daemon/event-store.ts\<close>, \<open>diagnostic-store.ts\<close>,
    \<open>sequence.ts\<close>, \<open>session-registry.ts\<close>, \<open>persistence.ts\<close>. The record \<open>daemon\<close> has the files of every
    session and the caches of the process; an operation is a function of it that returns or throws.
    The invariant says that the events are numbered from 1, have different identifiers and are
    bounded and redacted.
  \<^item> Ingest, Ingest_Facts, Observer, Observer_Facts: \<open>daemon/ingest-api.ts\<close>,
    \<open>daemon/direct-append-observer.ts\<close>. Daemon puts them together: the steps of the relation are the
    operations, crashes, restarts and the appending of bytes by the probes.
  \<^item> Paging, Paging_Facts: \<open>EventStore.readPage\<close>, an external merge sort, equal to a slice of the
    sorted list.
  \<^item> Session_Lock: \<open>Persistence.runSessionOperation\<close> as a step relation. Activity: \<open>daemon/activity.ts\<close>,
    with the clock and the pending timer as state.
  \<^item> Cursor: \<open>cli/snapshot-cursor.ts\<close>. The signature is an argument; what is proved of accepted
    cursors only needs it to be a function of key and text.
  \<^item> Control, Control_Facts: \<open>daemon/control-api.ts\<close>, with the live stream. Request_Target, Protocol,
    Server: \<open>daemon/raw-request-target.ts\<close>, \<open>protocol.ts\<close>, \<open>server.ts\<close>, \<open>auth.ts\<close>, from the raw request to
    the answer and the new state of the daemon.
  \<^item> Retry, Client, Commands, Commands_Facts: \<open>platform/windows-lock-retry.ts\<close>, \<open>cli/daemon-client.ts\<close>,
    \<open>commands/*.ts\<close>. A command runs against the model of the daemon, so pages of \<open>logs\<close> and their
    cursors are followed from the command to the files. Query, Query_Facts: \<open>commands/query.ts\<close> and
    \<open>native/query.ts\<close>; the query engine is an argument, and other clients may act at each wait.
  \<^item> Polling, Startup, Manager, Manager_Facts: \<open>daemon/state-file.ts\<close>, \<open>startup-lock.ts\<close>, \<open>auth.ts\<close>,
    \<open>cli/daemon-manager.ts\<close>, \<open>commands/stop.ts\<close>. Files that several processes share, the lock, the
    control token, and how a client finds, starts, retires and stops a daemon. Other processes act
    at every wait, as the environment says.

  Errors are values: an operation returns \<open>Inl\<close> of an error or \<open>Inr\<close> of a result, with the state it
  leaves in both cases. Interfaces between parts are locales: \<open>transition_system\<close> (the daemon,
  the session queue, the activity tracker), \<open>id_log\<close> (the files of events and of diagnostics),
  \<open>strict_order_on\<close> (the order that the merge needs) and \<open>steady_loop\<close> (the polling loops); each is
  interpreted by the model's own definitions.

  Loops. Most recursions are structural or have a measure. The polling loops of the client are
  partial functions, \<open>None\<close> if they do not end; the locale \<open>steady_loop\<close> shows that they end when the
  clock is steady. The loop that makes the control token may start again for as long as others leave
  incomplete files, so nothing is proved about its end beyond a file that holds a token.

  Arguments of the model, because they are not code of the repository or of the language: SHA-256
  and HMAC, random identifiers, the URL parser, the query engine (written in Rust), the module that
  inspects and signals processes, the transport of HTTP, and whatever other processes do. What is
  assumed of them is a premise of the theorem that needs it.

  What the properties found in the code is stated as it behaves: the theorems
  \<open>page_counts\<close>, \<open>live_after_reset\<close>, \<open>stale_lock_break\<close>, \<open>backslash_ingestion\<close> and \<open>slurp_brings_back_directory\<close> describe behaviour that its authors do not intend.

  Not modelled: \<open>Persistence.open\<close>, \<open>platform/permissions.ts\<close>, \<open>platform/state-root.ts\<close> (owners, modes and
  home directories), sockets and the wiring of objects in \<open>daemon/main.ts\<close>, the probe templates
  \<open>probes/*.ts\<close> (constant texts in other languages), and the native modules.
\<close>

section \<open>Sample data\<close>

text \<open>Identifiers and a session used where a theorem is applied to a concrete input.\<close>

definition sample_uuid :: "nat \<Rightarrow> string" where
  "sample_uuid n = ''a0000000-0000-4000-8000-00000000000'' @ [hex_char (n mod 16)]"

definition sample_id :: string where
  "sample_id = ''a0000000-0000-4000-8000-000000000001''"

definition sample_session :: session where
  "sample_session = \<lparr>session_id = sample_id, createdAt = 5, eventSchemaVersion = 1, evidenceEpoch = ''e''\<rparr>"

definition sample_directory :: "string \<Rightarrow> session_dir" where
  "sample_directory bytes = (initialize_files sample_session empty_directory)\<lparr>incoming_ndjson := Some bytes\<rparr>"

definition sample_daemon :: "string \<Rightarrow> daemon" where
  "sample_daemon bytes = initial_daemon\<lparr>directories := [(sample_id, sample_directory bytes)], draws := 2\<rparr>"

lemma sample_safe: "SAFE_ID sample_id"
  by (simp add: sample_id_def SAFE_ID_def safe_id_char_def char_class_defs)

lemma sample_uuid_1: "sample_uuid 1 = sample_id"
  by (simp add: sample_uuid_def sample_id_def hex_char_def)

lemma sample_dir: "directory_of (sample_daemon bytes) sample_id = Some (sample_directory bytes)"
  by (simp add: sample_daemon_def directory_of_def)

lemma sample_dir_fields:
  "incoming_ndjson (sample_directory bytes) = Some bytes"
  "cursor_json (sample_directory bytes) = Doc zero_cursor"
  "dir_events (sample_directory bytes) = []" "dir_diagnostics (sample_directory bytes) = []"
  by (simp_all add: sample_directory_def initialize_files_def empty_directory_def)

lemma sample_cursor: "cursor_value (cursor_json (sample_directory bytes)) = Inr 0"
  using cursor_value_document [of 0]
  by (simp add: sample_dir_fields zero_cursor_def cursor_document_def max_safe_integer_def)

lemma sample_inv: "store_inv sample_uuid (sample_daemon bytes)"
proof -
  have "dir_ok sample_id (sample_directory bytes)"
    by (simp add: dir_ok_def sample_directory_def initialize_files_def empty_directory_def or_empty_def
        sample_session_def)
  moreover have "sample_id \<in> sample_uuid ` {..<2}"
    using sample_uuid_1 by (auto intro!: image_eqI [of _ _ 1])
  ultimately show ?thesis
    by (auto simp: store_inv_def sample_daemon_def initial_daemon_def view_def directory_of_def sample_safe)
qed

section \<open>The evidence store\<close>











text \<open>
  C3: A poll of the incoming file that is interrupted after it stored its records and before
  it wrote the cursor - the process restarts with empty caches and the old cursor - is repeated
  without storing anything twice: the second poll leaves the same events, the same diagnostics
  and the cursor the first would have written.
\<close>

theorem observer_exactly_once:
  fixes digest uuid clock sid
  assumes "store_inv rnd s" "directory_of s sid = Some d" "incoming_ndjson d = Some bytes"
    and "cursor_value (cursor_json d) = Inr c"
  defines "t \<equiv> snd (processSession digest uuid clock sid s)"
  defines "crashed \<equiv> restarted (put_directory sid ((the (directory_of t sid))\<lparr>cursor_json := cursor_json d\<rparr>) t)"
  shows "directory_of (snd (processSession digest uuid' clock' sid crashed)) sid = directory_of t sid"
  unfolding t_def crashed_def by (rule replay_after_crash [OF assms(1-4)])

lemma observer_exactly_once_witness:
  "directory_of (snd (processSession id sample_uuid (\<lambda>_. 9) sample_id
      (restarted (put_directory sample_id
        ((the (directory_of (snd (processSession id sample_uuid (\<lambda>_. 8) sample_id (sample_daemon ''x''))) sample_id))
          \<lparr>cursor_json := Doc zero_cursor\<rparr>)
        (snd (processSession id sample_uuid (\<lambda>_. 8) sample_id (sample_daemon ''x''))))))) sample_id
    = directory_of (snd (processSession id sample_uuid (\<lambda>_. 8) sample_id (sample_daemon ''x''))) sample_id"
  using observer_exactly_once [OF sample_inv sample_dir sample_dir_fields(1) sample_cursor,
      where digest = id and uuid = sample_uuid and clock = "\<lambda>_. 8" and uuid' = sample_uuid
        and clock' = "\<lambda>_. 9"]
  by (simp add: sample_dir_fields)

text \<open>
  C2: Polling is complete. Whatever the sizes of the lines and of the reads, after as many
  polls as there are unread bytes (and one more) every complete line after the cursor has been
  ingested, once, in file order and under its own source offset; bytes after the last newline
  wait.
\<close>

theorem observer_drains:
  assumes "store_inv rnd s" "directory_of s sid = Some d" "incoming_ndjson d = Some bytes"
    and "cursor_value (cursor_json d) = Inr c" "length bytes \<le> max_safe_integer"
  defines "off \<equiv> effective_offset c bytes"
  shows "\<exists>j. directory_of ((poll_once sha256 uuid clock sid ^^ Suc (length bytes - off)) s) sid =
    Some ((fst (pure_lines sha256 uuid clock sid (records_at off (drop off bytes)) (draws s) d))\<lparr>cursor_json := j\<rparr>)"
  unfolding off_def by (rule polls_drain [OF assms(1-5)])

lemma observer_drains_witness:
  "\<exists>j. directory_of ((poll_once id sample_uuid (\<lambda>_. 8) sample_id ^^ 3) (sample_daemon ''x\<newline>'')) sample_id =
    Some ((fst (pure_lines id sample_uuid (\<lambda>_. 8) sample_id (records_at 0 ''x\<newline>'') 2 (sample_directory ''x\<newline>'')))
      \<lparr>cursor_json := j\<rparr>)"
  using observer_drains [OF sample_inv sample_dir sample_dir_fields(1) sample_cursor, of "''x\<newline>''" id sample_uuid "\<lambda>_. 8"]
  by (simp add: effective_offset_def max_safe_integer_def sample_daemon_def numeral_3_eq_3)

text \<open>
  C6: One poll never moves the cursor backwards or past the file, moves it whenever a complete
  line is unread, and only to the end of a line.
\<close>

theorem observer_reads_forward:
  assumes "store_inv rnd s" "directory_of s sid = Some d" "incoming_ndjson d = Some bytes"
    and "cursor_value (cursor_json d) = Inr c" "length bytes \<le> max_safe_integer"
  defines "off \<equiv> effective_offset c bytes"
  shows "\<exists>d' c'. directory_of (poll_once sha256 uuid clock sid s) sid = Some d'
    \<and> incoming_ndjson d' = Some bytes \<and> cursor_value (cursor_json d') = Inr c'
    \<and> off \<le> effective_offset c' bytes \<and> effective_offset c' bytes \<le> length bytes
    \<and> (newline \<in> set (drop off bytes) \<longrightarrow> off < effective_offset c' bytes
         \<and> bytes ! (effective_offset c' bytes - 1) = newline)"
  unfolding off_def by (rule poll_forward [OF assms(1-5)])

lemma observer_reads_forward_witness:
  "\<exists>d' c'. directory_of (poll_once id sample_uuid (\<lambda>_. 8) sample_id (sample_daemon ''x'')) sample_id = Some d'
    \<and> cursor_value (cursor_json d') = Inr c' \<and> effective_offset c' ''x'' \<le> 1"
  using observer_reads_forward [OF sample_inv sample_dir sample_dir_fields(1) sample_cursor, of "''x''" id sample_uuid "\<lambda>_. 8"]
  by (auto simp: effective_offset_def max_safe_integer_def)

section \<open>Pages of events\<close>

text \<open>
  C7: A page is a slice of the selected events in time order (sequence numbers break ties),
  and the total counts them all. The size of the chunks, the merge passes and the comparison
  of identifiers by locale have no influence; without a given watermark the page reports the
  number of events stored.
\<close>

theorem page_is_sorted_slice:
  assumes "store_inv rnd s" "directory_of s sid = Some d" "session_json d = Doc ses"
    and "\<not> stale_epoch opts ses" "SAFE_ID (uuid (draws s))"
  shows "\<exists>page xs. fst (readPage collate uuid chunkSize sid opts s) = Inr page
    \<and> sorted_wrt earlier xs \<and> mset xs = mset (filter (in_page opts) (dir_events d))
    \<and> epage_records page = take (page_limit opts) (drop (page_offset opts) xs)
    \<and> epage_totalRecords page = length xs \<and> epage_evidenceEpoch page = evidenceEpoch ses
    \<and> epage_watermark page = (case page_watermark opts of Some w \<Rightarrow> w | None \<Rightarrow> length (dir_events d))"
proof -
  have "dir_ok sid d" using store_inv_session(3) [OF assms(1,2)] by simp
  note files = dir_ok_pageable [OF this]
  note sorted = sorted_page_facts [OF files(1,2), of collate opts]
  have "length (sorted_page collate opts (dir_events d)) = length (filter (in_page opts) (dir_events d))"
    using sorted(2) by (metis size_mset)
  with readPage_at(1) [where uuid = uuid and s = s and collate = collate and n = chunkSize, OF assms] sorted show ?thesis
    by (intro exI [of _ "expected_page collate opts ses (dir_events d)"]
        exI [of _ "sorted_page collate opts (dir_events d)"]) (simp add: expected_page_def)
qed

definition sample_page :: page_options where
  "sample_page = \<lparr>page_evidenceEpoch = None, page_hypothesisIds = [], page_limit = 10, page_offset = 0,
     page_watermark = Some 0\<rparr>"

lemma sample_session_json: "session_json (sample_directory bytes) = Doc sample_session"
  by (simp add: sample_directory_def initialize_files_def)

lemma sample_fresh: "\<not> stale_epoch sample_page sample_session"
  by (simp add: stale_epoch_def sample_page_def)

lemma sample_uuid_safe: "SAFE_ID (sample_uuid n)"
proof -
  have "n mod 16 < 16" by simp
  from less_16_cases [OF this] less_10_cases [of "n mod 16"] have "safe_id_char (hex_char (n mod 16))"
    by (auto simp: hex_char_def safe_id_char_def char_class_defs)
  then show ?thesis by (simp add: sample_uuid_def SAFE_ID_def safe_id_char_def char_class_defs)
qed

lemma page_is_sorted_slice_witness:
  "\<exists>page. fst (readPage (\<lambda>_ _. 0) sample_uuid 512 sample_id sample_page (sample_daemon [])) = Inr page
    \<and> epage_totalRecords page = 0 \<and> epage_evidenceEpoch page = ''e''"
  using page_is_sorted_slice [OF sample_inv [of "[]"] sample_dir sample_session_json sample_fresh,
      where uuid = sample_uuid and collate = "\<lambda>_ _. 0" and chunkSize = 512] sample_uuid_safe
  by (auto simp: sample_dir_fields sample_session_def)

text \<open>
  C8: Pagination reads a snapshot. With the watermark of an earlier page, a page has the same
  records and the same total after further events were ingested.
\<close>

theorem snapshot_pages_stable:
  assumes "store_inv rnd s" "directory_of s sid = Some d" "session_json d = Doc ses"
    and "store_inv rnd t" "directory_of t sid = Some d'" "session_json d' = Doc ses"
    and "dir_events d' = dir_events d @ new" "page_watermark opts = Some (length (dir_events d))"
    and "\<not> stale_epoch opts ses" "SAFE_ID (uuid (draws s))" "SAFE_ID (uuid' (draws t))"
  shows "fst (readPage collate uuid' n' sid opts t) = fst (readPage collate uuid n sid opts s)"
proof -
  have ok: "map sequence (dir_events d') = [1..<length (dir_events d') + 1]"
    using store_inv_session(3) [OF assms(4,5)] by (simp add: dir_ok_def)
  have "length (dir_events d) < sequence ev" if "ev \<in> set new" for ev
    by (rule later_sequences [OF ok [unfolded assms(7)] that])
  from filter_watermark [OF assms(8) this]
  have eq: "filter (in_page opts) (dir_events d') = filter (in_page opts) (dir_events d)"
    unfolding assms(7) .
  show ?thesis
    using readPage_at(1) [where uuid = uuid and s = s and collate = collate and n = n, OF assms(1-3,9,10)] 
      readPage_at(1) [where uuid = uuid' and s = t and collate = collate and n = n', OF assms(4-6,9,11)] eq
    by (simp add: expected_page_def sorted_page_def assms(8))
qed

lemma snapshot_pages_stable_witness:
  "fst (readPage (\<lambda>_ _. 0) sample_uuid 1 sample_id sample_page (sample_daemon ''x'')) =
   fst (readPage (\<lambda>_ _. 0) sample_uuid 512 sample_id sample_page (sample_daemon []))"
  using snapshot_pages_stable [OF sample_inv sample_dir sample_session_json sample_inv sample_dir sample_session_json,
      where new = "[]" and opts = sample_page and uuid = sample_uuid and uuid' = sample_uuid
        and collate = "\<lambda>_ _. 0" and n' = 1 and n = 512] sample_uuid_safe
  by (simp add: sample_dir_fields sample_page_def stale_epoch_def)

text \<open>
  C9: A reset empties both files, the incoming bytes and the cursor, gives the session a new
  epoch and keeps its identity; a page requested with the old epoch is then refused.
\<close>

theorem reset_discards:
  assumes "store_inv uuid s" "directory_of s sid = Some d" "session_json d = Doc ses"
    and "resetSession uuid sid s = (Inr (Some ses'), t)"
    and "uuid (draws s) \<noteq> evidenceEpoch ses" "evidenceEpoch ses \<noteq> []"
    and "page_evidenceEpoch opts = Some (evidenceEpoch ses)"
  shows "ses' = ses\<lparr>evidenceEpoch := uuid (draws s)\<rparr>
    \<and> (\<exists>d'. directory_of t sid = Some d' \<and> session_json d' = Doc ses'
        \<and> events_ndjson d' = Some [] \<and> diagnostics_ndjson d' = Some []
        \<and> incoming_ndjson d' = Some [] \<and> cursor_json d' = Doc zero_cursor \<and> query_spools d' = [])
    \<and> fst (readPage collate uuid' n sid opts t) = Inl EpochMismatch"
proof -
  have t: "ses' = ses\<lparr>evidenceEpoch := uuid (draws s)\<rparr>"
    "directory_of t sid = Some (reset_directory ses (uuid (draws s)) d)"
    using assms(1)
    by (cases rule: resetSession_cases [of uuid s sid]; use assms(2-4) in auto)+
  have json: "session_json (reset_directory ses (uuid (draws s)) d) = Doc ses'"
    by (simp add: reset_directory_def t(1))
  have "stale_epoch opts ses'" using assms(5-7) t(1) by (simp add: stale_epoch_def)
  from readPage_stale [OF store_inv_session(1) [OF assms(1,2)] t(2) json this] t json show ?thesis
    by (simp add: reset_directory_def)
qed

lemma reset_discards_witness:
  "fst (readPage (\<lambda>_ _. 0) sample_uuid 512 sample_id (sample_page\<lparr>page_evidenceEpoch := Some ''e''\<rparr>)
     (snd (resetSession sample_uuid sample_id (sample_daemon ''x'')))) = Inl EpochMismatch"
proof -
  have "fst (rejectSessionSymbolicLinks sample_id (sample_daemon ''x'')) = Inr ()"
    using sample_safe by (simp add: rejectSessionSymbolicLinks_def sample_dir sample_directory_def
        initialize_files_def empty_directory_def OWNED_SESSION_FILES_def)
  then have links: "rejectSessionSymbolicLinks sample_id (sample_daemon ''x'') = (Inr (), sample_daemon ''x'')"
    using reject_state [of sample_id "sample_daemon ''x''"] by (metis prod.collapse)
  obtain ses' t where r: "resetSession sample_uuid sample_id (sample_daemon ''x'') = (Inr (Some ses'), t)"
    using sample_inv
  proof (cases rule: resetSession_cases [of sample_uuid "sample_daemon ''x''" sample_id])
    case (refused f)
    with links sample_safe sample_dir sample_session_json show ?thesis
      by (simp add: resetSession_def getSession_def document_value_def randomUUID_def clearEvents_def
          clearDiagnostics_def changeDirectory_def resetSequence_def)
  qed (use sample_dir in auto)
  from reset_discards [OF sample_inv sample_dir sample_session_json r, of "sample_page\<lparr>page_evidenceEpoch := Some ''e''\<rparr>"
      "\<lambda>_ _. 0" sample_uuid 512] r
  show ?thesis by (simp add: sample_session_def sample_uuid_def)
qed

text \<open>
  The counts by hypothesis agree with the selected events, except for identifiers that are
  keys of \<open>Object.prototype\<close>: for those the page has text instead of a number, or nothing.
\<close>

theorem page_counts:
  assumes "store_inv rnd s" "directory_of s sid = Some d" "session_json d = Doc ses"
    and "\<not> stale_epoch opts ses" "SAFE_ID (uuid (draws s))"
  shows "\<exists>page. fst (readPage collate uuid n sid opts s) = Inr page
    \<and> (let k = length (filter (\<lambda>ev. in_page opts ev \<and> hypothesisId ev = h) (dir_events d))
       in epage_recordsByHypothesis page h =
         (if k = 0 \<or> h = ''__proto__'' then None
          else if h \<in> set prototype_keys then Some TextTally else Some (Tally k)))"
proof -
  let ?f = "filter (in_page opts) (dir_events d)"
  have "count (mset (map hypothesisId ?f)) h = length (filter (\<lambda>ev. in_page opts ev \<and> hypothesisId ev = h) (dir_events d))"
    by (rule count_hypotheses)
  with recordsByHypothesis_count [of "map hypothesisId ?f" h] readPage_at(1) [where uuid = uuid and s = s and collate = collate and n = n, OF assms]
  show ?thesis by (simp add: expected_page_def tally_after_def Let_def)
qed

lemma page_counts_witness:
  "\<exists>page. fst (readPage (\<lambda>_ _. 0) sample_uuid 512 sample_id sample_page (sample_daemon [])) = Inr page
    \<and> epage_recordsByHypothesis page ''constructor'' = None"
  using page_counts [OF sample_inv [of "[]"] sample_dir sample_session_json sample_fresh,
      where uuid = sample_uuid and collate = "\<lambda>_ _. 0" and n = 512 and h = "''constructor''"] sample_uuid_safe
  by (auto simp: sample_dir_fields)

section \<open>Concurrency in the daemon\<close>

text \<open>
  C10: The operations of a session run one at a time and in the order of their calls. In every
  reachable state of the queue, two running operations of a session are the same one, and all
  earlier calls of the session of an operation that has started have settled.
\<close>

theorem session_operations_exclusive:
  assumes "queue_step\<^sup>*\<^sup>* initial_queue s" and "m < length (calls s)" "n < length (calls s)" "same_session s m n"
  shows "(call_status (calls s ! m) = Running \<and> call_status (calls s ! n) = Running \<longrightarrow> m = n)
    \<and> (call_status (calls s ! n) \<noteq> Queued \<and> m < n \<longrightarrow> settled (calls s ! m))"
proof -
  have inv: "queue_inv s" by (rule session_queue.reachable_inv [OF refl assms(1)])
  then have "in_turn s" by (simp add: queue_inv_def)
  from in_turnD [OF this assms(3), of m] mutual_exclusion [OF inv assms(2-4)] assms(4)
  show ?thesis by blast
qed

definition sample_queue :: queue_state where
  "sample_queue = set_status 0 Running (enqueue ''a'' (enqueue ''a'' initial_queue))"

lemma sample_queue_reach: "queue_step\<^sup>*\<^sup>* initial_queue sample_queue"
proof -
  have "queue_step\<^sup>*\<^sup>* initial_queue (enqueue ''a'' (enqueue ''a'' initial_queue))"
    by (blast intro: queue_step.call_made rtranclp.intros)
  moreover have "queue_step (enqueue ''a'' (enqueue ''a'' initial_queue)) sample_queue"
    unfolding sample_queue_def
    by (rule queue_step.operation_starts) (simp add: can_start_def enqueue_def initial_queue_def)
  ultimately show ?thesis by (rule rtranclp.rtrancl_into_rtrancl)
qed

lemma sample_queue_calls:
  "calls sample_queue = [\<lparr>call_session = ''a'', call_previous = None, call_status = Running\<rparr>,
     \<lparr>call_session = ''a'', call_previous = Some 0, call_status = Queued\<rparr>]"
  by (simp add: sample_queue_def set_status_def enqueue_def initial_queue_def)

lemma session_operations_exclusive_witness: "call_status (calls sample_queue ! 1) \<noteq> Running"
  using session_operations_exclusive [OF sample_queue_reach, of 0 1]
  by (auto simp: sample_queue_calls same_session_def)

text \<open>
  C11: No call of a session is stuck. A queued call can start, or an earlier call of its session
  can start or is running; and when every call of a session has left, the map of the running
  operations holds nothing for it.
\<close>

theorem session_queue_live:
  assumes "queue_step\<^sup>*\<^sup>* initial_queue s"
  shows "(\<forall>n < length (calls s). call_status (calls s ! n) = Queued \<longrightarrow>
      (\<exists>m \<le> n. same_session s m n \<and> (can_start s m \<or> call_status (calls s ! m) = Running)))
    \<and> (\<forall>sid. (\<forall>m < length (calls s). call_session (calls s ! m) = sid \<longrightarrow> call_status (calls s ! m) = Left)
        \<longrightarrow> operations s sid = None)"
proof -
  have inv: "queue_inv s" by (rule session_queue.reachable_inv [OF refl assms])
  show ?thesis using queue_progress [OF inv] queue_forgets [OF inv] by blast
qed

lemma session_queue_live_witness:
  "\<exists>m \<le> 1. same_session sample_queue m 1 \<and> (can_start sample_queue m \<or> call_status (calls sample_queue ! m) = Running)"
  using session_queue_live [OF sample_queue_reach] by (auto simp: sample_queue_calls)

text \<open>
  C12: The daemon shuts itself down for idleness at most once, and only when half an hour has passed
  since the last request, no event stream holds a lease, and it was not stopped before -
  whatever the clock does and in whatever order timeouts, requests and releases come.
\<close>

theorem idle_only_after_silence:
  assumes "activity_step\<^sup>*\<^sup>* (startTracker now steady) t"
  shows "idle_calls t \<le> 1 \<and> leases t = open_leases t
    \<and> (\<forall>u. activity_step t u \<and> idle_calls u \<noteq> idle_calls t \<longrightarrow>
         \<not> stopped t \<and> open_leases t = 0 \<and> IDLE_TIMEOUT_MILLISECONDS \<le> clock_now t - lastActivity t
         \<and> idle_calls u = 1 \<and> stopped u)"
proof -
  have inv: "activity_inv t"
    by (rule activity_system.reachable_inv [OF _ assms]) auto
  then have "idle_calls t \<le> 1" "leases t = open_leases t" by (auto simp: activity_inv_def split: if_splits)
  with idle_after_silence [OF inv] show ?thesis by blast
qed

lemma idle_only_after_silence_witness: "idle_calls (touch (startTracker 0 0)) \<le> 1"
proof -
  have "activity_step\<^sup>*\<^sup>* (startTracker 0 0) (touch (startTracker 0 0))"
    using activity_step.activity by (rule r_into_rtranclp)
  from idle_only_after_silence [OF this] show ?thesis by blast
qed

text \<open>
  C13: With a steady clock the daemon does not outlive its use: while it runs without a lease, a
  timeout is pending that is due half an hour after the last activity at the latest, and if it
  runs when that half hour has passed, it stops the daemon.
\<close>

theorem idle_in_time:
  assumes "steady_step\<^sup>*\<^sup>* (startTracker now steady) t" "\<not> stopped t" "open_leases t = 0"
  shows "\<exists>h due g. pending t h = Some (due, g)
    \<and> due - elapsed t \<le> IDLE_TIMEOUT_MILLISECONDS - (clock_now t - lastActivity t)
    \<and> (IDLE_TIMEOUT_MILLISECONDS \<le> clock_now t - lastActivity t \<longrightarrow>
         stopped (runTimeout h t) \<and> idle_calls (runTimeout h t) = 1)"
proof -
  have due: "due_in_time t"
    by (rule steady_activity.reachable_inv [OF _ assms(1)]) auto
  then have inv: "activity_inv t" by (simp add: due_in_time_def)
  from timeout_decides [OF inv assms(2,3)] obtain h d g where
    h: "pending t h = Some (d, g)" "IDLE_TIMEOUT_MILLISECONDS \<le> clock_now t - lastActivity t \<Longrightarrow>
       stopped (runTimeout h t) \<and> idle_calls (runTimeout h t) = 1"
    by metis
  with due show ?thesis unfolding due_in_time_def by blast
qed

lemma idle_in_time_witness:
  "\<exists>h due g. pending (startTracker 5 0) h = Some (due, g) \<and> due \<le> IDLE_TIMEOUT_MILLISECONDS"
proof -
  have "\<not> stopped (startTracker 5 0)" "open_leases (startTracker 5 0) = 0"
    "elapsed (startTracker 5 0) = 0" "clock_now (startTracker 5 0) = lastActivity (startTracker 5 0)"
    by (simp_all add: startTracker_def open_leases_def armTimer_def setTimeout_def clearTimer_def)
  with idle_in_time [OF rtranclp.rtrancl_refl this(1,2)] show ?thesis by auto
qed

section \<open>Cursors\<close>

text \<open>
  C14: A snapshot cursor can be used again: verification gives the payload it was made of when the
  session is the same, and refuses it for any other session.
\<close>

theorem snapshot_cursor_round_trip:
  assumes "snapshot_fits p" "[] \<notin> range (hmac secret)"
  shows "verifySnapshotCursor hmac secret (createSnapshotCursor hmac secret p) sid =
    (if sid = cursor_session p then Inr p else Inl SnapshotScope)"
proof -
  note same = snapshot_round_trip [where hmac = hmac and secret = secret, OF assms]
  obtain es where es: "opened hmac secret (createSnapshotCursor hmac secret p) = Some es"
    using same by (auto simp: verifySnapshotCursor_def split: option.splits)
  with same show ?thesis by (auto simp: verifySnapshotCursor_def split: if_splits)
qed

definition sample_hmac :: "string \<Rightarrow> string \<Rightarrow> string" where
  "sample_hmac key text = ''k''"

lemma sample_hmac_some: "[] \<notin> range (sample_hmac key)"
  by (auto simp: sample_hmac_def)

definition sample_snapshot :: snapshot_payload where
  "sample_snapshot = \<lparr>cursor_epoch = ''e'', cursor_issuedAt = num_arg 7, cursor_session = ''s'',
     cursor_watermark = num_arg 3\<rparr>"

lemma sample_snapshot_fits: "snapshot_fits sample_snapshot"
  by (simp add: snapshot_fits_def sample_snapshot_def max_safe_integer_def utf8_ascii)

lemma snapshot_cursor_round_trip_witness:
  "verifySnapshotCursor sample_hmac ''key'' (createSnapshotCursor sample_hmac ''key'' sample_snapshot) ''s'' = Inr sample_snapshot"
  using snapshot_cursor_round_trip [where hmac = sample_hmac and secret = "''key''" and sid = "''s''",
      OF sample_snapshot_fits sample_hmac_some]
  by (simp add: sample_snapshot_def)

text \<open>
  A query cursor gives back the query it continues - program, mode, hypotheses, limits and the
  point to continue at; it is refused for another session, and refused as stale when the
  session has another epoch.
\<close>

theorem query_cursor_round_trip:
  assumes "query_fits p" "[] \<notin> range (hmac secret)"
  shows "verifyQueryCursor hmac secret (createQueryCursor hmac secret p) epoch sid =
    (if sid \<noteq> cursor_session p then Inl QueryScope
     else if epoch \<noteq> cursor_epoch p then Inl QueryCursorStale else Inr p)"
  by (rule query_round_trip [where hmac = hmac and secret = secret, OF assms])

definition sample_query :: query_payload where
  "sample_query = \<lparr>cursor_epoch = ''e'', cursor_issuedAt = num_arg 7, cursor_session = ''s'',
     cursor_watermark = num_arg 3, cursor_continuation = Stream (num_arg 10) (num_arg 0),
     cursor_hypotheses = [''h''], cursor_asJson = True, cursor_limit = num_arg 5, cursor_program = ''.id'',
     cursor_slurp = False, cursor_timeout = num_arg 1000\<rparr>"

lemma sample_query_fits: "query_fits sample_query"
  by (simp add: query_fits_def sample_query_def max_safe_integer_def utf8_ascii
      program_ok_def)

lemma query_cursor_round_trip_witness:
  "verifyQueryCursor sample_hmac ''key'' (createQueryCursor sample_hmac ''key'' sample_query) ''f'' ''s'' = Inl QueryCursorStale"
  using query_cursor_round_trip [where hmac = sample_hmac and secret = "''key''" and sid = "''s''" and epoch = "''f''",
      OF sample_query_fits sample_hmac_some]
  by (simp add: sample_query_def)

text \<open>
  Only signed cursors are accepted: an accepted snapshot cursor consists of an encoded payload
  and its signature under the secret, is for the session asked for, and has a watermark that is a
  natural number below \<open>2^53\<close>.
\<close>

theorem snapshot_cursor_authentic:
  assumes "verifySnapshotCursor hmac secret cursor sid = Inr p"
  shows "\<exists>encoded es. cursor = encoded @ ''.'' @ signature hmac secret encoded
    \<and> parse_json (utf8_decode (from_base64url encoded)) = Some (JObj es)
    \<and> cursor_session p = sid \<and> is_safe_integer (cursor_watermark p) \<and> 0 \<le> int_of_num (cursor_watermark p)"
  by (rule snapshot_accepted [OF assms]) blast

lemma snapshot_cursor_authentic_witness:
  "\<exists>encoded. createSnapshotCursor sample_hmac ''key'' sample_snapshot = encoded @ ''.'' @ signature sample_hmac ''key'' encoded"
proof -
  have "verifySnapshotCursor sample_hmac ''key'' (createSnapshotCursor sample_hmac ''key'' sample_snapshot)
      (cursor_session sample_snapshot) = Inr sample_snapshot"
    by (rule snapshot_round_trip [where hmac = sample_hmac and secret = "''key''", OF sample_snapshot_fits sample_hmac_some])
  from snapshot_cursor_authentic [OF this] show ?thesis by blast
qed

section \<open>The control API\<close>

text \<open>
  C15: Reading never changes evidence. Whatever its path and arguments and whether it succeeds or
  fails, a \<open>GET\<close> request to the control API leaves every session with the same session document,
  events, diagnostics, incoming bytes, cursor and query spools.
\<close>

theorem get_requests_read_only:
  assumes "ctl_method req = ''GET''"
  shows "map_option evidence_part (directory_of (snd (handleControl env req s)) sid) =
    map_option evidence_part (directory_of s sid)"
proof -
  have "same_evidence s s" by (simp add: same_evidence_def)
  from keepsD [OF get_reads_only [OF assms] this] show ?thesis by (simp add: same_evidence_def)
qed

definition sample_env :: control_env where
  "sample_env = \<lparr>env_root = ''/state'', env_origin = ''http://127.0.0.1:80'', env_collate = (\<lambda>_ _. 0),
     env_uuid = sample_uuid, env_chunk = 512, env_day = (0, 10), env_now = 5\<rparr>"

lemma get_requests_read_only_witness:
  "map_option evidence_part (directory_of (snd (handleControl sample_env (get_request sessions_path [])
     (sample_daemon ''x''))) sample_id) = Some (evidence_part (sample_directory ''x''))"
  using get_requests_read_only [of "get_request sessions_path []" sample_env "sample_daemon ''x''" sample_id]
  by (simp add: get_request_def sample_dir)

text \<open>
  C16: The live stream writes every event exactly once and in order: over any number of reads of a
  file that only grows, the frames after the greeting are those of the events of the last read.
\<close>

theorem live_exactly_once:
  assumes "map sequence evs = [1..<length evs + 1]" "sorted ks" "\<forall>k \<in> set ks. k \<le> length evs"
  shows "live_events (map (\<lambda>k. take k evs) ks) =
    ('': connected'' @ [CHR 0x0A, CHR 0x0A]) # map live_frame (take (last (0 # ks)) evs)"
  using live_stream_growing [OF assms(1,2), of 0] assms(3) by (simp add: live_events_def)

definition sample_event :: "nat \<Rightarrow> event" where
  "sample_event n = \<lparr>event_id = [hex_char n], sequence = n, receivedAt = 5, hypothesisId = ''h'', location = ''l'', message = ''m'', data = JNull,
     timestamp = num_arg n\<rparr>"

lemma live_exactly_once_witness:
  "live_events (map (\<lambda>k. take k [sample_event 1, sample_event 2]) [1, 1, 2]) =
    [('': connected'' @ [CHR 0x0A, CHR 0x0A]), live_frame (sample_event 1), live_frame (sample_event 2)]"
  using live_exactly_once [of "[sample_event 1, sample_event 2]" "[1, 1, 2]"]
  by (simp add: sample_event_def upt_rec)

text \<open>
  The stream does not notice a reset. Sequence numbers start again at 1 after a reset, but the
  stream keeps the last number it wrote: of the events captured after the reset it leaves out as
  many as it wrote before.
\<close>

theorem live_after_reset:
  assumes "map sequence old = [1..<length old + 1]" "map sequence new = [1..<length new + 1]"
  shows "live_events [old, [], new] =
    ('': connected'' @ [CHR 0x0A, CHR 0x0A]) # map live_frame old @ map live_frame (drop (length old) new)"
  using live_round_numbered [OF assms(1), of 0] live_round_numbered [OF assms(2), of "length old"]
  by (simp add: live_events_def)

lemma live_after_reset_witness:
  "live_events [[sample_event 1], [], [sample_event 1]] =
    [('': connected'' @ [CHR 0x0A, CHR 0x0A]), live_frame (sample_event 1)]"
  using live_after_reset [of "[sample_event 1]" "[sample_event 1]"] by (simp add: sample_event_def)

section \<open>The logs command against the daemon\<close>

text \<open>
  C17: Reading all pages of \<open>logs\<close> gives the evidence of the moment of the first page, once and in
  time order. The first page is read at a state with events \<open>es\<close>; each later one is requested
  with the snapshot the first one returned, at some state where more events may have arrived and
  another process of the daemon may serve; the records of the first \<open>n\<close> pages are the first
  \<open>n * limit\<close> selected events of \<open>es\<close> in order of time and sequence.
\<close>

theorem logs_pages_chain:
  fixes hs :: "string list" and json :: bool
  assumes "isCanonicalSessionId sid" "1 \<le> limit" "limit \<le> max_safe_integer" "n * limit \<le> max_safe_integer"
    and "[] \<notin> range (hmac token)" "utf8_text (evidenceEpoch ses)" "integer_num (num_of_int (clock 0))"
      "length es \<le> max_safe_integer"
    and "\<And>k. k < n \<Longrightarrow> store_inv rnd (at k) \<and> SAFE_ID (env_uuid env (draws (at k)))
      \<and> (\<exists>d. directory_of (at k) sid = Some d \<and> session_json d = Doc ses \<and> dir_events d = es @ arrived k)"
    and "arrived 0 = []"
  defines "options k \<equiv> \<lparr>lo_session = sid, lo_hypotheses = hs, lo_offset = k * limit, lo_limit = limit,
      lo_snapshot = (if k = 0 then None
        else Some (snapshot_of hmac token (clock 0) sid (evidenceEpoch ses) (length es)))\<rparr>"
  defines "page k \<equiv> fst (logsCommand hmac (handleControl env) (give token) (clock k) (options k) json (at k))"
  shows "concat (map (\<lambda>k. case page k of Inr r \<Rightarrow> lr_records r | Inl _ \<Rightarrow> []) [0..<n]) =
      take (n * limit) (selected_events (env_collate env) hs es)
    \<and> (\<forall>k < n. \<exists>r. page k = Inr r
      \<and> lr_snapshot r = snapshot_of hmac token (clock 0) sid (evidenceEpoch ses) (length es)
      \<and> lr_validRecords r = length (selected_events (env_collate env) hs es)
      \<and> lr_hasNext r = (k * limit + limit < length (selected_events (env_collate env) hs es)))"
proof -
  let ?S = "selected_events (env_collate env) hs es"
  let ?snap = "snapshot_of hmac token (clock 0) sid (evidenceEpoch ses) (length es)"
  have page: "\<exists>r. page k = Inr r \<and> lr_records r = take limit (drop (k * limit) ?S) \<and> lr_snapshot r = ?snap
      \<and> lr_validRecords r = length ?S \<and> lr_hasNext r = (k * limit + limit < length ?S)"
    if k: "k < n" for k
  proof -
    from assms(9) [OF k] obtain d where at_k: "store_inv rnd (at k)" "SAFE_ID (env_uuid env (draws (at k)))"
      "directory_of (at k) sid = Some d" "session_json d = Doc ses" "dir_events d = es @ arrived k"
      by blast
    have "k * limit \<le> n * limit" using k by simp
    with assms(4) have offset: "k * limit \<le> max_safe_integer" by (rule le_trans [rotated])
    have fine: "options_ok (options k)" using assms(1-3) offset by (simp add: options_def options_ok_def)
    have last: "k * limit + length (take limit (drop (k * limit) ?S)) < length ?S \<longleftrightarrow> k * limit + limit < length ?S"
      by (auto simp: min_def)
    have numbered: "map sequence (es @ arrived k) = [1..<length (es @ arrived k) + 1]"
      using store_inv_session(3) [OF at_k(1,3)] at_k(5) by (simp add: dir_ok_def)
    show ?thesis
    proof (cases "k = 0")
      case True
      with assms(10) at_k(5) have es: "dir_events d = es" by simp
      from True logs_first_page [OF at_k(1,3,4) fine _ _ at_k(2), of hmac token "clock k" json]
        expected_first_page [of "env_collate env" "options k" ses es] es last
      show ?thesis by (simp add: page_def options_def logs_result_of_def Let_def)
    next
      case False
      from logs_later_page [where hmac = hmac and token = token and made = "clock 0" and n = "length es",
          OF at_k(1,3,4) fine _ _ at_k(2) assms(6,7,8,5), of "clock k" json]
        expected_snapshot_page [OF numbered, of "env_collate env" "options k" "evidenceEpoch ses" ses] at_k(5) last False
      show ?thesis by (simp add: page_def options_def logs_result_of_def Let_def)
    qed
  qed
  then have facts: "\<forall>k < n. \<exists>r. page k = Inr r \<and> lr_snapshot r = ?snap \<and> lr_validRecords r = length ?S
      \<and> lr_hasNext r = (k * limit + limit < length ?S)" by blast
  have "map (\<lambda>k. case page k of Inr r \<Rightarrow> lr_records r | Inl _ \<Rightarrow> []) [0..<n] =
      map (\<lambda>k. take limit (drop (k * limit) ?S)) [0..<n]"
  proof (rule map_cong [OF refl])
    fix k
    assume "k \<in> set [0..<n]"
    with page [of k] obtain r where "page k = Inr r" "lr_records r = take limit (drop (k * limit) ?S)" by auto
    then show "(case page k of Inr r \<Rightarrow> lr_records r | Inl _ \<Rightarrow> []) = take limit (drop (k * limit) ?S)" by simp
  qed
  then have "concat (map (\<lambda>k. case page k of Inr r \<Rightarrow> lr_records r | Inl _ \<Rightarrow> []) [0..<n]) = take (n * limit) ?S"
    by (simp only: concat_pages)
  with facts show ?thesis by blast
qed

lemma sample_canonical: "isCanonicalSessionId sample_id"
  by (simp add: sample_id_def isCanonicalSessionId_def hex_group_def is_hex_lower_def is_digit_def)

lemma logs_pages_chain_witness:
  "case fst (logsCommand sample_hmac (handleControl sample_env) (give ''t'') 7
      \<lparr>lo_session = sample_id, lo_hypotheses = [], lo_offset = 0, lo_limit = 2, lo_snapshot = None\<rparr> True
      (sample_daemon [])) of Inr r \<Rightarrow> lr_records r = [] | Inl _ \<Rightarrow> True"
proof -
  have state: "store_inv sample_uuid (sample_daemon []) \<and> SAFE_ID (env_uuid sample_env (draws (sample_daemon [])))
      \<and> (\<exists>d. directory_of (sample_daemon []) sample_id = Some d \<and> session_json d = Doc sample_session
           \<and> dir_events d = [] @ [])"
    using sample_inv [of "[]"] sample_uuid_safe sample_dir sample_session_json sample_dir_fields(3)
    by (auto simp: sample_env_def)
  have whole: "integer_num (num_of_int ((\<lambda>_. 7) (0::nat)))"
    using num_of_int_integer(1) [of 7] by (simp add: max_safe_integer_def)
  have "selected_events (env_collate sample_env) [] [] = []"
    using length_selected [of "env_collate sample_env" "[]" "[]"] by simp
  with logs_pages_chain [where sid = sample_id and limit = 2 and n = 1 and hmac = sample_hmac and token = "''t''"
      and ses = sample_session and clock = "\<lambda>_. 7" and es = "[]" and at = "\<lambda>_. sample_daemon []"
      and arrived = "\<lambda>_. []" and rnd = sample_uuid and hs = "[]" and json = True,
      OF sample_canonical _ _ _ sample_hmac_some _ whole _ state refl]
  show ?thesis
    by (auto simp: max_safe_integer_def sample_session_def utf8_ascii)
qed

section \<open>Retries\<close>

text \<open>
  An operation on a locked file is tried at most \<open>attempts\<close> times and its outcome is that of one
  attempt: the first that succeeds or fails with an error that is not retried, or the last one.
  All attempts before that one failed with a lock error, and outside Windows there are none. The
  error for an exhausted budget is never thrown.
\<close>

theorem windows_lock_retry:
  fixes sleep :: "nat \<Rightarrow> 's \<Rightarrow> 's" and jitter :: "nat \<Rightarrow> nat"
  assumes "0 < attempts"
  defines "pause k \<equiv> sleep (lock_backoff k (jitter k))"
  shows "(\<exists>i < attempts. retryOnWindowsLock platform code_of sleep jitter exhausted attempts operation s =
        operation (before_attempt pause operation 0 i s)
      \<and> (\<forall>j < i. retried (windows_retryable platform code_of) (fst (operation (before_attempt pause operation 0 j s))))
      \<and> (Suc i = attempts \<or>
          \<not> retried (windows_retryable platform code_of) (fst (operation (before_attempt pause operation 0 i s)))))
    \<and> (platform \<noteq> ''win32'' \<longrightarrow>
        retryOnWindowsLock platform code_of sleep jitter exhausted attempts operation s = operation s)"
proof -
  have eq: "retryOnWindowsLock platform code_of sleep jitter exhausted attempts operation s =
      retry_from (windows_retryable platform code_of) pause exhausted operation 0 attempts s"
    by (simp add: retryOnWindowsLock_def pause_def [abs_def])
  from retry_from_decided [OF assms(1), of "windows_retryable platform code_of" pause exhausted operation 0 s]
  obtain i where "i < attempts"
    "retry_from (windows_retryable platform code_of) pause exhausted operation 0 attempts s =
        operation (before_attempt pause operation 0 i s)"
    "\<And>j. j < i \<Longrightarrow> retried (windows_retryable platform code_of) (fst (operation (before_attempt pause operation 0 j s)))"
    "Suc i = attempts \<or> \<not> retried (windows_retryable platform code_of) (fst (operation (before_attempt pause operation 0 i s)))"
    by metis
  then have decided: "\<exists>i < attempts. retryOnWindowsLock platform code_of sleep jitter exhausted attempts operation s =
        operation (before_attempt pause operation 0 i s)
      \<and> (\<forall>j < i. retried (windows_retryable platform code_of) (fst (operation (before_attempt pause operation 0 j s))))
      \<and> (Suc i = attempts \<or>
          \<not> retried (windows_retryable platform code_of) (fst (operation (before_attempt pause operation 0 i s))))"
    unfolding eq by blast
  have posix: "platform \<noteq> ''win32'' \<longrightarrow>
      retryOnWindowsLock platform code_of sleep jitter exhausted attempts operation s = operation s"
    by (rule impI, rule posix_never_retries [OF _ assms(1)])
  from decided posix show ?thesis by (rule conjI)
qed

lemma windows_lock_retry_witness:
  "retryOnWindowsLock ''linux'' Some (\<lambda>ms s. s) (\<lambda>_. 0) ''exhausted'' 25 (\<lambda>s. (Inl ''EBUSY'' :: string + nat, Suc s)) 0 =
     (Inl ''EBUSY'', 1)"
proof -
  have "''linux'' \<noteq> ''win32'' \<longrightarrow>
      retryOnWindowsLock ''linux'' Some (\<lambda>ms s. s) (\<lambda>_. 0) ''exhausted'' 25 (\<lambda>s. (Inl ''EBUSY'' :: string + nat, Suc s)) 0 =
        (Inl ''EBUSY'', Suc 0)"
    by (rule windows_lock_retry [THEN conjunct2]) simp
  then show ?thesis by simp
qed

section \<open>The server\<close>


definition sample_metadata :: daemon_metadata where
  "sample_metadata = \<lparr>meta_activeSessions = Some 0, meta_binaryVersion = ''1'', meta_host = DAEMON_HOST, meta_nonce = ''n'',
     meta_pid = 2, meta_port = 80, meta_processIdentity = \<lparr>id_executable = None, id_startTime = None\<rparr>,
     meta_protocolVersion = DAEMON_PROTOCOL_VERSION, meta_startedAt = 0\<rparr>"

text \<open>A URL parser for the samples, which knows one address.\<close>

definition sample_parse_url :: "string \<Rightarrow> string \<Rightarrow> url option" where
  "sample_parse_url path t = Some \<lparr>url_protocol = ''http:'', url_hostname = DAEMON_HOST, url_pathname = path, url_search = []\<rparr>"

definition sample_server :: "string \<Rightarrow> server_env" where
  "sample_server path = \<lparr>se_control = sample_env, se_token = ''t'', se_metadata = sample_metadata,
     se_parse_url = sample_parse_url path, se_clock = (\<lambda>_. 7)\<rparr>"

definition sample_request :: "string \<Rightarrow> string \<Rightarrow> (string \<times> string) list \<Rightarrow> string list \<Rightarrow> server_request" where
  "sample_request verb target hs chunks =
     \<lparr>raw_url = target, raw_method = Some verb, raw_headers = hs, raw_chunks = chunks\<rparr>"

definition sample_serving :: server_state where
  "sample_serving = \<lparr>srv_daemon = sample_daemon [], srv_activity = startTracker 0 0, srv_stops = 0\<rparr>"


text \<open>
  C19: A body of more than 128 KiB, by its length or by what its \<open>Content-Length\<close> declares, is never
  processed: the server answers 413, or 400 when the target is bad, and the state of the daemon
  is what it was.
\<close>

theorem oversized_bodies_refused:
  assumes "MAX_REQUEST_BODY_BYTES < length (concat (raw_chunks req))
    \<or> is_finite (declared_length req) \<and> \<not> num_le (declared_length req) (num_of_int (int MAX_REQUEST_BODY_BYTES))"
  shows "answer_status (fst (serve env req s)) \<in> {400, 413} \<and> srv_daemon (snd (serve env req s)) = srv_daemon s
    \<and> srv_stops (snd (serve env req s)) = srv_stops s"
proof -
  have "requestBody req = None"
    using assms by (auto simp: requestBody_def read_chunks_iff)
  then show ?thesis by (auto simp: serve_def Let_def bad_target_def split: option.split)
qed

lemma oversized_bodies_refused_witness:
  "srv_daemon (snd (serve (sample_server ''/'') (sample_request ''POST'' ''/'' [] [replicate 131073 CHR ''x'']) sample_serving)) =
     sample_daemon []"
  using oversized_bodies_refused [of "sample_request ''POST'' ''/'' [] [replicate 131073 CHR ''x'']" "sample_server ''/''" sample_serving]
  by (simp add: sample_request_def MAX_REQUEST_BODY_BYTES_def sample_serving_def del: replicate_numeral_unfold)

text \<open>
  C20: A target whose path starts with \<open>/ingest\<close>, in any case of its letters, is answered 400
  unless it is exactly \<open>/ingest/\<close> and a canonical session identifier; and every such target is let
  through.
\<close>

theorem ingestion_targets_checked:
  assumes "rawPath target = Some path" "starts_with (lower_text path) ''/ingest''"
  shows "parseRawIngestionTarget target =
    (if \<exists>sid. isCanonicalSessionId sid \<and> path = target_prefix @ sid then IngestionTarget path else InvalidTarget)"
proof (cases "\<exists>sid. isCanonicalSessionId sid \<and> path = target_prefix @ sid")
  case True
  then obtain sid where sid: "isCanonicalSessionId sid" "path = target_prefix @ sid" by blast
  from canonical_target [OF sid(1)] sid(2) have "parseRawIngestionTarget path = IngestionTarget path" by simp
  moreover have "rawPath path = Some path" by (simp add: sid(2) rawPath_def target_prefix_def)
  ultimately have "parseRawIngestionTarget target = IngestionTarget path"
    using assms(1) by (simp add: parseRawIngestionTarget_def)
  with True show ?thesis by simp
next
  case False
  from ingest_paths_judged [OF assms] show ?thesis
  proof
    assume t: "parseRawIngestionTarget target = IngestionTarget path"
    obtain sid where "isCanonicalSessionId sid" "path = target_prefix @ sid"
      using ingestion_target_path [OF t] by metis
    with False show ?thesis by blast
  qed (simp add: False)
qed

lemma ingestion_targets_checked_witness:
  "parseRawIngestionTarget ''/INGEST/x'' = InvalidTarget"
proof -
  have "rawPath ''/INGEST/x'' = Some ''/INGEST/x''" "starts_with (lower_text ''/INGEST/x'') ''/ingest''"
    by (simp_all add: rawPath_def lower_text_def is_upper_def)
  from ingestion_targets_checked [OF this] show ?thesis by (simp add: target_prefix_def)
qed

text \<open>
  One kind of target slips through that check. A URL parser takes a backslash for a slash and
  resolves dot segments, so \<open>/.\<close>, a backslash and \<open>ingest/<id>\<close> is the ingestion path of the session;
  the raw check takes it for a target of another kind, and the record is ingested.
\<close>

theorem backslash_ingestion:
  assumes "isCanonicalSessionId sid" "raw_url req = backslash_prefix @ sid"
    and "se_parse_url env (absolute_target req) = Some u" "url_pathname u = ingest_prefix @ sid"
    and "requestBody req = Some body" "raw_method req = Some ''POST''"
  shows "parseRawIngestionTarget (raw_url req) = OtherTarget
    \<and> serve env req s = serve_request env req u (ingest_prefix @ sid) ''POST'' body
        (s\<lparr>srv_activity := touch (srv_activity s)\<rparr>)"
proof -
  have "parseRawIngestionTarget (raw_url req) = OtherTarget"
    using backslash_target [OF assms(1)] assms(2) by simp
  moreover have "request_method ''POST'' = Some ''POST''"
    by (simp add: request_method_def upper_text_def is_lower_def)
  ultimately show ?thesis using assms(3-6) by (simp add: serve_def)
qed

lemma sample_length: "num_le (js_number ''0'') (num_of_int (int MAX_REQUEST_BODY_BYTES))"
proof -
  have "js_number ''0'' = num_of_int (int 0)"
    using js_number_nat [of 0] by (simp add: num_of_int_def norm_dec.simps dec_text_def)
  then show ?thesis by (simp add: MAX_REQUEST_BODY_BYTES_def num_of_int_def norm_dec.simps)
qed

lemma sample_body: "requestBody (sample_request verb target [] chunks) = read_chunks 0 chunks"
  by (simp add: requestBody_def declared_length_def first_header_def sample_request_def sample_length)

lemma backslash_ingestion_witness:
  "fst (serve (sample_server (ingest_prefix @ sample_id)) (sample_request ''POST'' (backslash_prefix @ sample_id) [] [])
     sample_serving) =
   fst (serve_request (sample_server (ingest_prefix @ sample_id))
     (sample_request ''POST'' (backslash_prefix @ sample_id) [] [])
     \<lparr>url_protocol = ''http:'', url_hostname = DAEMON_HOST, url_pathname = ingest_prefix @ sample_id, url_search = []\<rparr>
     (ingest_prefix @ sample_id) ''POST'' [] (sample_serving\<lparr>srv_activity := touch (srv_activity sample_serving)\<rparr>))"
  using backslash_ingestion [OF sample_canonical, of "sample_request ''POST'' (backslash_prefix @ sample_id) [] []"
      "sample_server (ingest_prefix @ sample_id)" _ "[]" sample_serving] sample_body [of "''POST''" "backslash_prefix @ sample_id" "[]"]
  by (simp add: sample_server_def sample_parse_url_def sample_request_def)



section \<open>The query command against the daemon\<close>

text \<open>
  C22: A query that runs while its session is reset or removed never returns rows. Whatever the
  engine answered, the command fails with \<open>CURSOR_STALE\<close>, and a slurping query leaves no spool of its own.
\<close>

theorem query_reset_while_running:
  fixes root :: string and native :: native_engine and hooks :: query_hooks
  assumes "store_inv rnd s" "directory_of s sid = Some d" "session_json d = Doc ses"
    and "isCanonicalSessionId sid" "qo_session options = sid" "query_arguments_ok options"
    and "query_plan_of hmac token options json (evidenceEpoch ses) (length (dir_events d)) = Inr plan"
    and "SAFE_ID (spool_of plan fresh)"
  defines "u \<equiv> afterNative hooks (snd (native (engine_call root sid plan (spool_of plan fresh))
      (prepared plan sid (afterPreflight hooks s))))"
  assumes "(case directory_of u sid of None \<Rightarrow> True | Some d' \<Rightarrow> session_json d' = Absent)
    \<or> (\<exists>rnd d' ses'. store_inv rnd u \<and> directory_of u sid = Some d' \<and> session_json d' = Doc ses'
        \<and> evidenceEpoch ses' \<noteq> evidenceEpoch ses)"
  shows "queryCommand hmac (handleControl env) (give token) native hooks root fresh now options json s =
      (Inl stale_query_error, if plan_slurp plan then removeSpool sid (spool_of plan fresh) u else u)
    \<and> (\<forall>d'. plan_slurp plan \<and> directory_of (removeSpool sid (spool_of plan fresh) u) sid = Some d'
        \<longrightarrow> spool_of plan fresh \<notin> fst ` set (query_spools d'))"
proof -
  let ?call = "engine_call root sid plan (spool_of plan fresh)" and ?s = "prepared plan sid (afterPreflight hooks s)"
  obtain answer t where n: "runNative native ?call ?s = (answer, t)" by fastforce
  then have "snd (native ?call ?s) = t" by (auto simp: runNative_def split: prod.splits sum.splits)
  with assms(9,10) postflight_stale [OF canonical_SAFE_ID [OF assms(4)], of u "evidenceEpoch ses" env answer]
  have p: "postflight (handleControl env) sid (evidenceEpoch ses) answer (afterNative hooks t) =
      (Inl (CursorFailure QueryCursorStale), u)" by (simp add: u_def)
  have "finish_query hmac (handleControl env) native hooks now sid (started token plan d ses)
        (evidence_path root sid) (spool_path root sid plan (spool_of plan fresh)) (spool_of plan fresh) ?s =
      (Inl (CursorFailure QueryCursorStale), if plan_slurp plan then removeSpool sid (spool_of plan fresh) u else u)"
    using finish_query_stale [where start = "started token plan d ses" and native = native and s = ?s and answer = answer
        and t = t and u = u and hooks = hooks and handle = "handleControl env"] n p
    by (simp add: engine_call_def)
  with queryCommand_at [where env = env and native = native and hooks = hooks and root = root and now = now, OF assms(1-8)]
  have "queryCommand hmac (handleControl env) (give token) native hooks root fresh now options json s =
      (Inl stale_query_error, if plan_slurp plan then removeSpool sid (spool_of plan fresh) u else u)"
    by (simp add: query_error_stale)
  with removeSpool_gone [of sid "spool_of plan fresh" u] show ?thesis by blast
qed

definition sample_query_options :: query_options where
  "sample_query_options = \<lparr>qo_program = Some ''.id'', qo_cursor = None, qo_session = sample_id, qo_slurp = True,
     qo_limit = 5, qo_timeoutMs = 1000\<rparr>"

definition sample_plan :: query_plan where
  "sample_plan = fresh_plan sample_query_options True 0"

lemma sample_query_ok: "qo_session sample_query_options = sample_id" "query_arguments_ok sample_query_options"
    "query_plan_of hmac token sample_query_options True epoch 0 = Inr sample_plan"
    "SAFE_ID (spool_of sample_plan sample_id)" "spool_of sample_plan sample_id = sample_id"
  using sample_safe
  by (simp_all add: sample_query_options_def query_arguments_ok_def text_or_empty_def query_plan_of_def sample_plan_def
      fresh_plan_def spool_of_def)

text \<open>An engine that answers with one page, and a session that is removed while it runs.\<close>

definition sample_engine :: "string \<Rightarrow> native_engine" where
  "sample_engine response c s = (Inr response, s)"

definition removing :: query_hooks where
  "removing = \<lparr>afterPreflight = id, afterNative = (\<lambda>s. s\<lparr>directories := []\<rparr>)\<rparr>"

lemma query_reset_while_running_witness:
  "fst (queryCommand sample_hmac (handleControl sample_env) (give ''t'') (sample_engine ''{}'') removing ''/state'' sample_id 7
     sample_query_options True (sample_daemon [])) = Inl stale_query_error"
proof -
  have none: "query_plan_of sample_hmac ''t'' sample_query_options True (evidenceEpoch sample_session)
      (length (dir_events (sample_directory []))) = Inr sample_plan"
    by (simp add: sample_dir_fields sample_query_ok)
  have gone: "case directory_of (afterNative removing (snd (sample_engine ''{}'' (engine_call ''/state'' sample_id sample_plan
        (spool_of sample_plan sample_id)) (prepared sample_plan sample_id (afterPreflight removing (sample_daemon [])))))) sample_id of
      None \<Rightarrow> True | Some d' \<Rightarrow> session_json d' = Absent"
    by (simp add: removing_def directory_of_def)
  from query_reset_while_running [where env = sample_env and now = 7 and fresh = sample_id and s = "sample_daemon []"
      and root = "''/state''" and native = "sample_engine ''{}''" and hooks = removing and hmac = sample_hmac and token = "''t''", OF sample_inv sample_dir sample_session_json
      sample_canonical sample_query_ok(1,2) none sample_query_ok(4) disjI1 [OF gone]]
  show ?thesis by simp
qed

text \<open>
  C23: When \<open>query\<close> returns rows, they are the engine's answer to the call the command made on the
  evidence file with the session's watermark, and the session had the same epoch before and
  after the engine ran.
\<close>

theorem query_result_consistent:
  assumes "store_inv rnd s" "directory_of s sid = Some d" "session_json d = Doc ses"
    and "isCanonicalSessionId sid" "qo_session options = sid" "query_arguments_ok options"
    and "query_plan_of hmac token options json (evidenceEpoch ses) (length (dir_events d)) = Inr plan"
    and "SAFE_ID (spool_of plan fresh)"
    and "fst (queryCommand hmac (handleControl env) (give token) native hooks root fresh now options json s) = Inr r"
  shows "\<exists>page t ds sm ses' v.
    runNative native (engine_call root sid plan (spool_of plan fresh)) (prepared plan sid (afterPreflight hooks s)) = (Inr page, t)
    \<and> status_of (handleControl env) sid (afterNative hooks t) = (Inr (ds, sm, ses'), v)
    \<and> evidenceEpoch ses' = evidenceEpoch ses
    \<and> qr_page r = qp_fields page \<and> qr_hasNext r = qp_hasNext page \<and> qr_slurp r = plan_slurp plan
    \<and> qr_nextCursor r = map_option (\<lambda>c. createQueryCursor hmac token (next_payload plan sid (evidenceEpoch ses) now c))
        (next_continuation plan (spool_of plan fresh) page)"
proof -
  let ?s = "prepared plan sid (afterPreflight hooks s)"
  obtain v where fin: "finish_query hmac (handleControl env) native hooks now sid (started token plan d ses)
        (evidence_path root sid) (spool_path root sid plan (spool_of plan fresh)) (spool_of plan fresh) ?s = (Inr r, v)"
    using assms(9) queryCommand_at [where env = env and native = native and hooks = hooks and root = root and now = now, OF assms(1-8)]
    by (auto split: prod.splits sum.splits)
  from finish_query_result [OF fin] obtain page t u where
    n: "runNative native (engine_call root sid plan (spool_of plan fresh)) ?s = (Inr page, t)"
    and p: "postflight (handleControl env) sid (evidenceEpoch ses) (Inr page) (afterNative hooks t) = (Inr page, u)"
    and r: "r = query_result_of sid plan (qs_diagnostics (started token plan d ses)) (qs_summary (started token plan d ses)) page
       (map_option (\<lambda>c. createQueryCursor hmac token (next_payload plan sid (evidenceEpoch ses) now c))
         (next_continuation plan (spool_of plan fresh) page))"
    by (metis engine_call_def started_fields)
  from postflight_same_epoch [OF p] obtain ds sm ses' where
    "status_of (handleControl env) sid (afterNative hooks t) = (Inr (ds, sm, ses'), u)" "evidenceEpoch ses' = evidenceEpoch ses"
    by metis
  with n r show ?thesis by (auto simp: query_result_of_def)
qed

text \<open>An answer of the engine with one more page to read.\<close>

definition quiet :: query_hooks where
  "quiet = \<lparr>afterPreflight = id, afterNative = id\<rparr>"

definition sample_response :: string where
  "sample_response = json_text (JObj [(''results'', JArr []), (''nextByteOffset'', JNum (num_arg 12))])"

definition sample_engine_page :: query_page where
  "sample_engine_page = \<lparr>qp_fields = [(''results'', JArr [])], qp_hasNext = True,
     qp_nextByteOffset = Some (JNum (num_arg 12)), qp_nextOutputOrdinal = None\<rparr>"

lemma sample_parse: "parsePage sample_response t = Inr sample_engine_page"
proof -
  have put: "foldl obj_put [] [(''results'', JArr []), (''nextByteOffset'', JNum (num_arg 12))] =
      [(''results'', JArr []), (''nextByteOffset'', JNum (num_arg 12))]"
    by (rule foldl_obj_put) (auto intro!: not_index_key simp: is_digit_def)
  have "storable (JObj [(''results'', JArr []), (''nextByteOffset'', JNum (num_arg 12))])"
    by (intro storable_utf8) (simp_all add: put utf8_ascii max_safe_integer_def del: foldl.simps integer_num.simps)
  from parse_json_text [OF this] show ?thesis
    by (simp add: parsePage_def sample_response_def failure_code_of_def field_def sample_engine_page_def not_null_def)
qed

lemma sample_run:
  "runNative (sample_engine sample_response) c s = (Inr sample_engine_page, s)"
  by (simp add: runNative_def sample_engine_def sample_parse)

lemma sample_prepared: "prepared plan sample_id (sample_daemon b) = sample_daemon b"
  by (simp add: prepared_def sample_dir)

lemma sample_postflight:
  "postflight (handleControl sample_env) sample_id (evidenceEpoch sample_session) (Inr page) (sample_daemon []) = (Inr page, sample_daemon [])"
  using status_of_at [OF sample_inv sample_dir sample_session_json, of sample_env "[]"] by (simp add: postflight_def)

lemma sample_query_plan:
  "query_plan_of sample_hmac ''t'' sample_query_options True (evidenceEpoch sample_session)
      (length (dir_events (sample_directory []))) = Inr sample_plan"
  by (simp add: sample_dir_fields sample_query_ok)

lemma sample_query_returns:
  "\<exists>r. fst (queryCommand sample_hmac (handleControl sample_env) (give ''t'') (sample_engine sample_response) quiet ''/state'' sample_id 7
     sample_query_options True (sample_daemon [])) = Inr r"
proof -
  have "\<exists>r v. finish_query sample_hmac (handleControl sample_env) (sample_engine sample_response) quiet 7 sample_id
      (started ''t'' sample_plan (sample_directory []) sample_session) (evidence_path ''/state'' sample_id)
      (spool_path ''/state'' sample_id sample_plan (spool_of sample_plan sample_id)) (spool_of sample_plan sample_id)
      (sample_daemon []) = (Inr r, v)"
    by (simp add: finish_query_def sample_run quiet_def sample_postflight Let_def)
  then show ?thesis
    using queryCommand_at [where hmac = sample_hmac and env = sample_env and token = "''t''" and native = "sample_engine sample_response"
        and hooks = quiet and root = "''/state''" and now = 7 and s = "sample_daemon []" and fresh = sample_id,
        OF sample_inv sample_dir sample_session_json sample_canonical sample_query_ok(1,2) sample_query_plan sample_query_ok(4)]
    by (auto simp: quiet_def sample_prepared)
qed

lemma query_result_consistent_witness:
  "\<exists>r. fst (queryCommand sample_hmac (handleControl sample_env) (give ''t'') (sample_engine sample_response) quiet ''/state'' sample_id 7
     sample_query_options True (sample_daemon [])) = Inr r \<and> qr_hasNext r"
proof -
  obtain r where r: "fst (queryCommand sample_hmac (handleControl sample_env) (give ''t'') (sample_engine sample_response) quiet ''/state''
      sample_id 7 sample_query_options True (sample_daemon [])) = Inr r"
    using sample_query_returns by blast
  from query_result_consistent [where s = "sample_daemon []" and hooks = quiet and hmac = sample_hmac and token = "''t''"
      and fresh = sample_id, OF sample_inv sample_dir sample_session_json sample_canonical sample_query_ok(1,2) sample_query_plan
      sample_query_ok(4) r]
  have "qr_hasNext r" by (auto simp: sample_run sample_engine_page_def)
  with r show ?thesis by blast
qed

text \<open>
  C24: A page that is not the last returns a cursor that continues the same query. Handed back
  without a program to a later \<open>query\<close> of the session in the same epoch, it selects the same
  program, mode, hypotheses, watermark, limit, timeout and output format, and the point where the page
  ended; a slurping query goes on with the same spool.
\<close>

theorem query_continues:
  assumes "store_inv rnd s" "directory_of s sid = Some d" "session_json d = Doc ses"
    and "isCanonicalSessionId sid" "qo_session options = sid" "query_arguments_ok options"
    and "query_plan_of hmac token options json (evidenceEpoch ses) (length (dir_events d)) = Inr plan"
    and "SAFE_ID (spool_of plan fresh)"
    and "runNative native (engine_call root sid plan (spool_of plan fresh)) (prepared plan sid (afterPreflight hooks s)) = (Inr page, t)"
    and "postflight (handleControl env) sid (evidenceEpoch ses) (Inr page) (afterNative hooks t) = (Inr page, v)"
    and "next_continuation plan (spool_of plan fresh) page = Some c"
    and "query_fits (next_payload plan sid (evidenceEpoch ses) now c)" "[] \<notin> range (hmac token)"
  shows "\<exists>r cursor. fst (queryCommand hmac (handleControl env) (give token) native hooks root fresh now options json s) = Inr r
    \<and> qr_nextCursor r = Some cursor
    \<and> (\<forall>later json' fresh' w. qo_session later = sid \<and> qo_program later = None \<and> qo_cursor later = Some cursor \<longrightarrow>
        query_plan_of hmac token later json' (evidenceEpoch ses) w = Inr (plan\<lparr>plan_continuation := c\<rparr>)
        \<and> (plan_slurp plan \<longrightarrow> spool_of (plan\<lparr>plan_continuation := c\<rparr>) fresh' = spool_of plan fresh))
    \<and> (\<exists>h \<in> set (qr_hints r). \<exists>later. hint_action h = ''next-page''
        \<and> parse_line (hint_command h) = Some (Inr \<lparr>inv_command = Run_query later, inv_json = plan_json plan\<rparr>)
        \<and> qo_session later = sid \<and> qo_program later = None \<and> qo_cursor later = Some cursor)"
proof -
  let ?cursor = "createQueryCursor hmac token (next_payload plan sid (evidenceEpoch ses) now c)"
  let ?r = "query_result_of sid plan (qs_diagnostics (started token plan d ses)) (qs_summary (started token plan d ses)) page (Some ?cursor)"
  have "finish_query hmac (handleControl env) native hooks now sid (started token plan d ses)
        (evidence_path root sid) (spool_path root sid plan (spool_of plan fresh)) (spool_of plan fresh)
        (prepared plan sid (afterPreflight hooks s)) = (Inr ?r, v)"
    using assms(9-11) by (simp add: finish_query_def engine_call_def Let_def)
  with queryCommand_at [where env = env and native = native and hooks = hooks and root = root and now = now, OF assms(1-8)]
  have "fst (queryCommand hmac (handleControl env) (give token) native hooks root fresh now options json s) = Inr ?r" by simp
  moreover have "query_plan_of hmac token later json' (evidenceEpoch ses) w = Inr (plan\<lparr>plan_continuation := c\<rparr>)"
    if "qo_session later = sid" "qo_program later = None" "qo_cursor later = Some ?cursor" for later json' w
    using that query_plan_continued [where hmac = hmac and token = token, OF assms(12,13)] by (simp add: text_or_empty_def)
  moreover have "spool_of (plan\<lparr>plan_continuation := c\<rparr>) fresh' = spool_of plan fresh" if "plan_slurp plan" for fresh'
    using assms(11) that by (auto simp: next_continuation_def spool_of_def split: option.splits)
  moreover have "parse_line (nextPageCommand sid ?cursor plan) = Some (Inr \<lparr>inv_command = Run_query \<lparr>qo_program = None,
      qo_cursor = Some ?cursor, qo_session = sid, qo_slurp = plan_slurp plan, qo_limit = nat (int_of_num (plan_limit plan)),
      qo_timeoutMs = nat (int_of_num (plan_timeout plan))\<rparr>, inv_json = plan_json plan\<rparr>)"
    using assms(4,12) by (intro query_hint) (simp_all add: canonical_word createQueryCursor_def sealed_plain query_fits_def next_payload_def)
  ultimately show ?thesis by (intro exI [of _ ?r] exI [of _ ?cursor]) (simp add: query_result_of_def)
qed

lemma query_continues_witness:
  "\<exists>r cursor. fst (queryCommand sample_hmac (handleControl sample_env) (give ''t'') (sample_engine sample_response) quiet ''/state'' sample_id 7
     sample_query_options True (sample_daemon [])) = Inr r \<and> qr_nextCursor r = Some cursor"
proof -
  have page: "runNative (sample_engine sample_response) (engine_call ''/state'' sample_id sample_plan (spool_of sample_plan sample_id))
      (prepared sample_plan sample_id (afterPreflight quiet (sample_daemon []))) = (Inr sample_engine_page, sample_daemon [])"
    by (simp add: sample_run quiet_def sample_prepared)
  have post: "postflight (handleControl sample_env) sample_id (evidenceEpoch sample_session) (Inr sample_engine_page)
      (afterNative quiet (sample_daemon [])) = (Inr sample_engine_page, sample_daemon [])"
    by (simp add: quiet_def sample_postflight)
  have more: "next_continuation sample_plan (spool_of sample_plan sample_id) sample_engine_page = Some (Spool (num_arg 12) sample_id)"
    using sample_query_ok(5)
    by (simp add: next_continuation_def sample_engine_page_def as_number_def) (simp add: sample_plan_def fresh_plan_def
        sample_query_options_def)
  have num: "num_of_int 5 = num_arg 5" "num_of_int 1000 = num_arg 1000" "num_of_int 0 = num_arg 0" "num_of_int 7 = num_arg 7"
    by (simp_all add: num_arg_def)
  have fits: "query_fits (next_payload sample_plan sample_id (evidenceEpoch sample_session) 7 (Spool (num_arg 12) sample_id))"
    using canonical_utf8 [OF sample_canonical]
    by (simp add: query_fits_def next_payload_def sample_plan_def fresh_plan_def sample_query_options_def num max_safe_integer_def
        utf8_ascii text_or_empty_def program_ok_def sample_session_def spool_id_ok_def sample_id_def is_hex_lower_def is_digit_def)
  from query_continues [where env = sample_env and now = 7 and s = "sample_daemon []" and hooks = quiet and hmac = sample_hmac
      and token = "''t''" and root = "''/state''" and native = "sample_engine sample_response" and fresh = sample_id, OF sample_inv sample_dir sample_session_json sample_canonical
      sample_query_ok(1,2) sample_query_plan sample_query_ok(4) page post more fits sample_hmac_some]
  show ?thesis by blast
qed

text \<open>
  A slurping query whose session is removed after its preflight makes the session's directory
  again, without a session document: the command reports the removal, but the directory stays and
  removing the session does not find it.
\<close>

theorem slurp_brings_back_directory:
  assumes "SAFE_ID sid" "directory_of s sid = None" "plan_slurp plan" "SAFE_ID i"
  shows "query_paths root sid plan i s = (Inr (evidence_path root sid, spool_path root sid plan i), put_directory sid empty_directory s)
    \<and> postflight (handleControl env) sid epoch answer (put_directory sid empty_directory s) =
        (Inl (CursorFailure QueryCursorStale), put_directory sid empty_directory s)
    \<and> removeSession sid (put_directory sid empty_directory s) = (Inr False, put_directory sid empty_directory s)"
proof -
  have p: "prepared plan sid s = put_directory sid empty_directory s"
    using assms(2,3) by (simp add: prepared_def)
  have "case directory_of (put_directory sid empty_directory s) sid of None \<Rightarrow> True | Some d \<Rightarrow> session_json d = Absent"
    by (simp add: empty_directory_def)
  from postflight_stale [OF assms(1) disjI1 [OF this]] query_paths_at [OF assms(1,4), of root plan s]
    ghost_directory(2) [OF assms(1-3)] p
  show ?thesis by simp
qed

lemma slurp_brings_back_directory_witness:
  "removeSession sample_id (put_directory sample_id empty_directory initial_daemon) =
     (Inr False, put_directory sample_id empty_directory initial_daemon)"
  using slurp_brings_back_directory [of sample_id initial_daemon sample_plan sample_id] sample_safe
  by (simp add: initial_daemon_def directory_of_def sample_plan_def fresh_plan_def sample_query_options_def)

section \<open>Starting, stopping and replacing the daemon\<close>

text \<open>
  C25: Whatever other processes do and whatever the daemons answer, each loop of the client ends: looking for or
  starting a daemon, retiring the recorded one and asking one to shut down. The clock only needs to be
  steady.
\<close>

theorem startup_ends:
  "(\<exists>r t. startup_loop env m = Some (r, t) \<and> mclock m \<le> mclock t)
   \<and> (\<exists>r t. retireVerifiedStaleProcess env m = Some (r, t) \<and> mclock m \<le> mclock t)
   \<and> (\<exists>r t. requestDaemonShutdown env x m = Some (r, t) \<and> mclock m \<le> mclock t)"
  using ends_startup ends_retire ends_shutdown unfolding ends_def by blast


text \<open>A machine on which nobody else acts, with a daemon on port 80 that may answer.\<close>

definition sample_host :: "daemon_metadata option \<Rightarrow> host_env" where
  "sample_host answer = \<lparr>he_world = id, he_delay = (\<lambda>_. 0),
     he_inspect = (\<lambda>_ m. \<lparr>proc_exists = \<not> list_ex (\<lambda>d. case d of Signalled _ _ _ \<Rightarrow> True | _ \<Rightarrow> False) (deeds m),
       proc_executable = None, proc_startTime = None, proc_zombie = False\<rparr>),
     he_signal = (\<lambda>_ _ _ _. True), he_answer = (\<lambda>port _. if port = 80 then answer else None), he_shutdown = (\<lambda>_ _. Some 202),
     he_launch = (\<lambda>_ _. Inl []), he_uuid = nat_text, he_token = (\<lambda>_. replicate 43 CHR ''5''), he_version = ''1'', he_pid = 9,
     he_windows = False\<rparr>"

definition sample_machine :: machine where
  "sample_machine = \<lparr>mclock = 0, daemon_file = FileOf sample_metadata, candidates = (\<lambda>_. NoFile), lock_dir = None,
     token_file = Some (0, replicate 43 CHR ''5''), inodes = 1, drawn = 0, deeds = []\<rparr>"

lemma sample_host_alone: "alone (sample_host answer)"
  by (simp add: alone_def act_def sample_host_def)

lemma sample_host_act [simp]: "act (sample_host answer) m = m"
  using sample_host_alone by (simp add: alone_def)



text \<open>
  C27: A client that retires the recorded daemon sends a signal only to the recorded process, by its
  recorded identity, and only after five health requests in a row without an answer and none with
  one. It asks for a shutdown only a daemon that answered, is incompatible and has no active
  session. A daemon it returns is compatible and has answered.
\<close>

theorem retire_spares_the_living:
  assumes "deeds m = []" "retireVerifiedStaleProcess env m = Some (r, t)"
  shows "(\<forall>pid identity force. Signalled pid identity force \<in> set (deeds t) \<longrightarrow>
      (\<exists>x. daemon_file (act env m) = FileOf x \<and> pid = meta_pid x \<and> identity = meta_processIdentity x
        \<and> take 5 (deeds t) = replicate 5 (NoAnswer (meta_port x)) \<and> (\<forall>port h. Answered port h \<notin> set (deeds t))))
    \<and> (\<forall>port. ShutdownAsked port \<in> set (deeds t) \<longrightarrow>
      (\<exists>x h. daemon_file (act env m) = FileOf x \<and> port = meta_port x \<and> Answered port h \<in> set (deeds t)
        \<and> \<not> isCompatible env h \<and> meta_activeSessions h \<in> {None, Some 0}))
    \<and> (\<forall>h. r = Inr (Some h) \<longrightarrow> isCompatible env h \<and> (\<exists>port. Answered port h \<in> set (deeds t)))"
proof -
  have vouch: "vouched env h t" if "r = Inr (Some h)" for h
    using vouches_probe_retire assms(2) that unfolding vouches_def by blast
  show ?thesis using assms(2)
  proof (cases rule: retire_deeds)
    case 1
    with assms(1) vouch show ?thesis by (auto simp: vouched_def)
  next
    case (2 x ds)
    then have ds: "deeds t = ds" using assms(1) by simp
    show ?thesis unfolding ds
    proof (intro conjI allI impI)
      fix pid identity force
      assume "Signalled pid identity force \<in> set ds"
      from fair_signal [OF 2(3) this] 2(1)
      show "\<exists>x. daemon_file (act env m) = FileOf x \<and> pid = meta_pid x \<and> identity = meta_processIdentity x
        \<and> take 5 ds = replicate 5 (NoAnswer (meta_port x)) \<and> (\<forall>port h. Answered port h \<notin> set ds)" by metis
    next
      fix port
      assume "ShutdownAsked port \<in> set ds"
      from fair_shutdown [OF 2(3) this] 2(1)
      show "\<exists>x h. daemon_file (act env m) = FileOf x \<and> port = meta_port x \<and> Answered port h \<in> set ds
        \<and> \<not> isCompatible env h \<and> meta_activeSessions h \<in> {None, Some 0}" unfolding idle_answer_def by metis
    next
      fix h assume "r = Inr (Some h)"
      from vouch [OF this] show "isCompatible env h" "\<exists>port. Answered port h \<in> set ds"
        by (auto simp: vouched_def ds)
    qed
  qed
qed

lemma sample_silence:
  assumes "mclock m = c" "deeds m = ds"
  shows "readDaemonHealth (sample_host None) sample_metadata m = Some (Inr None, m\<lparr>deeds := ds @ [NoAnswer 80]\<rparr>)"
  using assms by (simp add: readDaemonHealth_def Let_def)
    (simp add: sample_host_def record_deed_def sample_metadata_def)

text \<open>The silent daemon of the sample gets one signal.\<close>

lemma sample_retire:
  "\<exists>t. retireVerifiedStaleProcess (sample_host None) sample_machine = Some (Inr None, t)
     \<and> deeds t = replicate 5 (NoAnswer 80) @ [Signalled 2 (meta_processIdentity sample_metadata) False]"
proof -
  let ?env = "sample_host None"
  have silent: "readDaemonHealth ?env sample_metadata m = Some (Inr None, m\<lparr>deeds := deeds m @ [NoAnswer 80]\<rparr>)" for m
    using sample_silence by blast
  let ?t = "sample_machine\<lparr>mclock := 400, deeds := replicate 5 (NoAnswer 80)\<rparr>"
  let ?u = "sample_machine\<lparr>mclock := 400, deeds := replicate 5 (NoAnswer 80) @ [Signalled 2 (meta_processIdentity sample_metadata) False]\<rparr>"
  have probe: "probeDaemonHealth ?env sample_metadata 5 sample_machine = Some (Inr None, ?t)"
    by (simp add: eval_nat_numeral silent sleepFor_def Let_def) (simp add: sample_machine_def)
  have other: "\<not> other_process ?env sample_metadata ?t"
    by (simp add: other_process_def process_gone_def Let_def sample_host_def sample_metadata_def)
  have signal: "terminateIfIdentityMatches ?env (meta_pid sample_metadata) (meta_processIdentity sample_metadata) False ?t = Some (Inr True, ?u)"
    by (simp add: terminateIfIdentityMatches_def record_deed_def sample_host_def sample_metadata_def)
  have gone: "process_gone ?env (meta_pid sample_metadata) ?u"
    by (simp add: process_gone_def Let_def sample_host_def)
  have "poll_until mclock (sleepFor ?env 20) (mclock ?u + 2000) (wait_round (process_gone ?env (meta_pid sample_metadata))) ?u = Some (Some (), ?u)"
    by (rule poll_until_found) (simp_all add: wait_round_def gone del: replicate_numeral_unfold)
  then have wait: "wait_for ?env 2000 (process_gone ?env (meta_pid sample_metadata)) ?u = Some (Inr True, ?u)"
    by (simp add: wait_for_def wait_until_def del: replicate_numeral_unfold)
  have "ensureRecordedProcessGone ?env sample_metadata ?t = Some (Inr (), ?u)"
    unfolding ensureRecordedProcessGone_def using other signal wait by (simp del: replicate_numeral_unfold)
  moreover have "readDaemonState ?env sample_machine = Some (Inr (Some sample_metadata), sample_machine)"
    by (simp add: readDaemonState_def document_of_def sample_machine_def)
  ultimately have "retireVerifiedStaleProcess ?env sample_machine = Some (Inr None, ?u)"
    unfolding retireVerifiedStaleProcess_def using probe by (simp del: replicate_numeral_unfold)
  then show ?thesis by auto
qed

lemma retire_spares_the_living_witness:
  "\<exists>t. retireVerifiedStaleProcess (sample_host None) sample_machine = Some (Inr None, t)
     \<and> take 5 (deeds t) = replicate 5 (NoAnswer 80) \<and> (\<forall>port h. Answered port h \<notin> set (deeds t))"
proof -
  obtain t where t: "retireVerifiedStaleProcess (sample_host None) sample_machine = Some (Inr None, t)"
      "deeds t = replicate 5 (NoAnswer 80) @ [Signalled 2 (meta_processIdentity sample_metadata) False]"
    using sample_retire by blast
  have "deeds sample_machine = []" by (simp add: sample_machine_def)
  from retire_spares_the_living [OF this t(1), THEN conjunct1] t
  have "\<forall>port h. Answered port h \<notin> set (deeds t)" by (auto simp del: replicate_numeral_unfold)
  with t show ?thesis by auto
qed

text \<open>
  Breaking the startup lock of a dead owner is not atomic. When the lock is broken by another process
  and acquired by a new owner between the check of the owner and the removal, the removal takes away
  the lock of the new owner, who goes on to start a daemon without it, and reports success.
\<close>

theorem stale_lock_break:
  assumes "lock_dir (act env m) = Some (FileOf expected, mt)"
    and "lock_dir (act env (act env m)) = Some (FileOf fresh, mt')" "fresh \<noteq> expected"
  shows "breakIfOwnedBy env expected m = Some (Inr True, (act env (act env m))\<lparr>lock_dir := None\<rparr>)
    \<and> breakIfOwnedBy env expected (act env m) = Some (Inr False, act env (act env m))"
proof -
  from assms(1) have "document_of (FileOf expected) = Some expected" by (simp add: document_of_def)
  from break_removes_new_lock [OF this assms(1,2)]
  have "breakIfOwnedBy env expected m = Some (Inr True, (act env (act env m))\<lparr>lock_dir := None\<rparr>)" .
  moreover have "breakIfOwnedBy env expected (act env m) = Some (Inr False, act env (act env m))"
    using assms(2,3) by (simp add: breakIfOwnedBy_def readOwner_def document_of_def Let_def)
  ultimately show ?thesis by simp
qed

definition sample_owner :: "string \<Rightarrow> lock_owner" where
  "sample_owner nonce = \<lparr>owner_nonce = nonce, owner_pid = 5, owner_deadline = 0\<rparr>"

lemma stale_lock_break_witness:
  "lock_dir (snd (the (breakIfOwnedBy
       ((sample_host None)\<lparr>he_delay := (\<lambda>_. 1), he_world := (\<lambda>m. if mclock m = 1 then m\<lparr>lock_dir := Some (FileOf (sample_owner ''b''), 1)\<rparr> else m)\<rparr>)
       (sample_owner ''a'') (sample_machine\<lparr>lock_dir := Some (FileOf (sample_owner ''a''), 0)\<rparr>)))) = None"
proof -
  let ?env = "(sample_host None)\<lparr>he_delay := (\<lambda>_. 1), he_world := (\<lambda>m. if mclock m = 1 then m\<lparr>lock_dir := Some (FileOf (sample_owner ''b''), 1)\<rparr> else m)\<rparr>"
  let ?m = "sample_machine\<lparr>lock_dir := Some (FileOf (sample_owner ''a''), 0)\<rparr>"
  have "lock_dir (act ?env ?m) = Some (FileOf (sample_owner ''a''), 0)"
    "lock_dir (act ?env (act ?env ?m)) = Some (FileOf (sample_owner ''b''), 1)"
    "sample_owner ''b'' \<noteq> sample_owner ''a''"
    by (simp_all add: act_def sample_machine_def sample_owner_def)
  from stale_lock_break [OF this] show ?thesis by simp
qed

section \<open>The type of accepted events\<close>

text \<open>
  C28: Every event that validation lets through has the declared type and bounds: texts that are not empty and
  within their limits, a finite time, data of at most nine levels, 100 entries per level and 4096
  characters per text; under a sensitive key there is only the marker. Redacting it again changes
  nothing.
\<close>

theorem accepted_event_typed:
  assumes "result_event (validateAndNormalizeEvent u w v ctx) = Some ev"
  shows "0 < js_length (hypothesisId ev) \<and> js_length (hypothesisId ev) \<le> MAX_HYPOTHESIS_ID_LENGTH
    \<and> 0 < js_length (location ev) \<and> js_length (location ev) \<le> 1024
    \<and> 0 < js_length (message ev) \<and> js_length (message ev) \<le> 1024
    \<and> is_finite (timestamp ev) \<and> isJsonValue 0 (data ev) \<and> json_depth (data ev) \<le> 8
    \<and> leak_free (data ev) \<and> redacted_value (redactSecrets (data ev)) = data ev"
proof -
  have "event_ok ev" using assms by (rule validate_event_ok)
  then show ?thesis
    using isJsonValue_json_depth [of 0 "data ev"] redacted_id [of "data ev"]
    by (simp add: event_ok_def within_def)
qed

definition sample_raw_event :: json where
  "sample_raw_event = JObj [(''hypothesisId'', JStr ''h''), (''location'', JStr ''l''), (''message'', JStr ''m''),
     (''timestamp'', JNum (num_of_int 5)), (''data'', JObj [(''apiToken'', JStr ''x'')])]"

lemma accepted_event_typed_witness:
  "\<exists>ev. result_event (validateAndNormalizeEvent ''u'' ''w'' sample_raw_event
       \<lparr>ctx_diagnosticId = None, ctx_eventId = None, ctx_receivedAt = 7, ctx_sequence = 1\<rparr>) = Some ev
     \<and> data ev = JObj [(''apiToken'', JStr ''[REDACTED]'')] \<and> leak_free (data ev)"
proof -
  have "map_option data (result_event (validateAndNormalizeEvent ''u'' ''w'' sample_raw_event
       \<lparr>ctx_diagnosticId = None, ctx_eventId = None, ctx_receivedAt = 7, ctx_sequence = 1\<rparr>))
     = Some (JObj [(''apiToken'', JStr ''[REDACTED]'')])"
    by code_simp
  then obtain ev where ev: "result_event (validateAndNormalizeEvent ''u'' ''w'' sample_raw_event
       \<lparr>ctx_diagnosticId = None, ctx_eventId = None, ctx_receivedAt = 7, ctx_sequence = 1\<rparr>) = Some ev"
      "data ev = JObj [(''apiToken'', JStr ''[REDACTED]'')]" by auto
  from accepted_event_typed [OF ev(1)] ev show ?thesis by blast
qed

section \<open>The printed table of records\<close>

text \<open>
  C29: The table that \<open>logs\<close> prints for records whose texts have no line breaks is read back line by line from
  the printed text: a line for the date, a title, the headers, a line for each record and one for each
  change of the date. Each cell of each record stands in a line, and the cells of a column, the header
  included, start at the same place, counted in UTF-16 units. Times and dates of the years 0 to 9999
  are those of the calendar.
\<close>

theorem log_table_rendered:
  assumes "records \<noteq> []" "\<forall>r \<in> set records. one_line_record r"
  shows "split_on CHR 0x0A (join_with newline_text (renderLogTable records)) = renderLogTable records
    \<and> length (renderLogTable records) = 3 + length records + date_changes records
    \<and> (\<exists>start. \<forall>j < 6. (\<exists>a b. renderLogTable records ! 2 = a @ log_headers ! j @ b \<and> js_length a = start j)
        \<and> (\<forall>r \<in> set records. \<exists>a b. a @ log_row r ! j @ b \<in> set (renderLogTable records) \<and> js_length a = start j))
    \<and> (\<forall>r \<in> set records. \<forall>n. time_clip (lrec_timestamp r) = Some n \<longrightarrow> four_digit_year n \<longrightarrow>
        log_row r ! 1 = clock_text n \<and> formatUtcDate (lrec_timestamp r) = date_text n)"
proof (intro conjI)
  show "split_on CHR 0x0A (join_with newline_text (renderLogTable records)) = renderLogTable records"
    using assms(2) by (rule log_table_readable)
  obtain r rs where "records = r # rs" using assms(1) by (cases records) auto
  from renderLogTable_lines [OF this] this
  show "length (renderLogTable records) = 3 + length records + date_changes records"
    using length_log_lines [of "log_widths records" r rs] by simp
  show "\<exists>start. \<forall>j < 6. (\<exists>a b. renderLogTable records ! 2 = a @ log_headers ! j @ b \<and> js_length a = start j)
        \<and> (\<forall>r \<in> set records. \<exists>a b. a @ log_row r ! j @ b \<in> set (renderLogTable records) \<and> js_length a = start j)"
    using log_header_cell [OF assms(1)] log_cell [of _ records]
    by (intro exI [of _ "column_start (log_widths records)"]) blast
  show "\<forall>r \<in> set records. \<forall>n. time_clip (lrec_timestamp r) = Some n \<longrightarrow> four_digit_year n \<longrightarrow>
        log_row r ! 1 = clock_text n \<and> formatUtcDate (lrec_timestamp r) = date_text n"
    using time_of_four_digit_year by (simp add: log_row_def)
qed

definition sample_log_record :: "int \<Rightarrow> log_record" where
  "sample_log_record at = \<lparr>lrec_sequence = Dec 1 0, lrec_timestamp = Dec at 0, lrec_hypothesisId = ''h'',
     lrec_location = ''a.ts:1'', lrec_message = ''m'', lrec_data = JNull\<rparr>"

lemma log_table_rendered_witness:
  "length (renderLogTable [sample_log_record 1700000000123, sample_log_record 1700090000001]) = 6
   \<and> log_row (sample_log_record 1700000000123) ! 1 = ''22:13:20.123''"
proof -
  let ?rs = "[sample_log_record 1700000000123, sample_log_record 1700090000001]"
  have lines: "?rs \<noteq> []" "\<forall>r \<in> set ?rs. one_line_record r"
    by (simp_all add: sample_log_record_def one_line_record_def)
  have clip: "time_clip (Dec 1700000000123 0) = Some 1700000000123" "time_clip (Dec 1700090000001 0) = Some 1700090000001"
    by (simp_all add: time_clip_def)
  have year: "four_digit_year 1700000000123" "four_digit_year 1700090000001"
    by (simp_all add: four_digit_year_def MS_PER_DAY_def year_from_day_def day_from_year_def Let_def)
  have days: "date_text 1700000000123 = ''2023-11-14''" "date_text 1700090000001 = ''2023-11-15''"
    by (simp_all add: date_text_def civil_date_def year_text_def MS_PER_DAY_def year_from_day_def day_from_year_def
      month_lengths_def leap_year_def digits_eval)
  have clock: "clock_text 1700000000123 = ''22:13:20.123''"
    by (simp add: clock_text_def MS_PER_DAY_def digits_eval)
  have times: "log_row (sample_log_record 1700000000123) ! 1 = ''22:13:20.123''"
    "formatUtcDate (Dec 1700000000123 0) = ''2023-11-14''" "formatUtcDate (Dec 1700090000001 0) = ''2023-11-15''"
    using log_table_rendered [OF lines] clip year days clock by (simp_all add: sample_log_record_def)
  then have "date_changes ?rs = 1" by (simp add: sample_log_record_def)
  with log_table_rendered [OF lines] times(1) show ?thesis by simp
qed

section \<open>Probes\<close>

text \<open>
  C30: What a probe observes arrives. For a value whose references form a finite tree within the
  bounds of the schema, the helper sends one line; posted to the ingestion endpoint of an existing
  session, the line is accepted and stored as one event with the next sequence number, the texts and the
  time of the probe, and the tree with its sensitive members redacted.
\<close>

theorem probe_event_stored:
  assumes "denotes heap (obs_data ob) j" "json_depth j \<le> 64" "storable j" "observation_ok ob"
    and "isBoundedJsonValue (Some (redacted j))" "0 \<le> at" "at \<le> int max_safe_integer"
    and "byte_length (json_text (JObj (observed_event ob (redacted j) at))) < MAX_INGESTION_RECORD_BYTES"
    and "store_inv uuid s" "directory_of s sid = Some d" "isCanonicalSessionId sid"
    and "req_pathname req = ingest_prefix @ sid" "req_method req = ''POST''" "isAllowedOrigin parse_url (req_origin req)"
    and "req_contentType req = Some ''application/x-ndjson''"
    and "''evt_'' @ rnd (draws s) \<notin> event_id ` set (dir_events d)"
  shows "\<exists>payload t d'. agentDebugEmit heap ob at = Some payload
    \<and> handleIngest parse_url rnd clock (req\<lparr>req_body := payload\<rparr>) s =
        (Inr (Some (json_response 202 (corsHeaders (req_origin req))
           [(''accepted'', JNum (num_of_int 1)), (''invalid'', JNum (num_of_int 0))])), t)
    \<and> directory_of t sid = Some d'
    \<and> dir_events d' = dir_events d @
        [\<lparr>event_id = ''evt_'' @ rnd (draws s), sequence = length (dir_events d) + 1, receivedAt = clock 0,
          hypothesisId = obs_hypothesisId ob, location = obs_location ob, message = obs_message ob,
          data = redacted j, timestamp = num_of_int at\<rparr>]"
proof -
  let ?line = "json_text (JObj (observed_event ob (redacted j) at))"
  have line: "?line \<noteq> []" "CHR 0x0A \<notin> set ?line"
    using json_text_not_Nil [OF observed_storable [OF assms(4) storable_redacted [OF assms(3)] assms(6,7)]]
      json_text_one_line [of "JObj (observed_event ob (redacted j) at)"] by blast+
  obtain d' where d': "fst (ingestRecord rnd (clock 0) sid ?line Ingest.no_options s) = Inr Accepted"
    "directory_of (snd (ingestRecord rnd (clock 0) sid ?line Ingest.no_options s)) sid = Some d'"
    "dir_events d' = dir_events d @
        [\<lparr>event_id = ''evt_'' @ rnd (draws s), sequence = length (dir_events d) + 1, receivedAt = clock 0,
          hypothesisId = obs_hypothesisId ob, location = obs_location ob, message = obs_message ob,
          data = redacted j, timestamp = num_of_int at\<rparr>]"
    by (rule observed_ingested [where s = s and rnd = rnd, OF assms(9,10) storable_redacted [OF assms(3)] assms(4-7) redacted_idem [of j] less_imp_le [OF assms(8)] assms(16)])
  have "handleIngest parse_url rnd clock (req\<lparr>req_body := ?line @ [CHR 0x0A]\<rparr>) s =
    (Inr (Some (json_response 202 (corsHeaders (req_origin req))
       [(''accepted'', JNum (num_of_int 1)), (''invalid'', JNum (num_of_int 0))])),
     snd (ingestRecord rnd (clock 0) sid ?line Ingest.no_options s))"
    using ingest_one_record [OF assms(11,9,10), of "req\<lparr>req_body := ?line @ [CHR 0x0A]\<rparr>" parse_url ?line rnd clock]
      assms(12-15) line d'(1) by simp
  with agentDebugEmit_event [OF assms(1,2,8)] d'(2,3) show ?thesis by blast
qed

definition sample_heap :: "nat \<Rightarrow> js_node" where
  "sample_heap a = (if a = 0 then JsObject [(''n'', Prim (Number (Dec 1 0))), (''token'', Ref 1)] else JsArray [Prim (String ''x'')])"

definition sample_observation :: observation where
  "sample_observation = \<lparr>obs_hypothesisId = ''h'', obs_location = ''l'', obs_message = ''m'', obs_data = Ref 0\<rparr>"

definition sample_tree :: json where
  "sample_tree = JObj [(''n'', JNum (Dec 1 0)), (''token'', JArr [JStr ''x''])]"

lemma sample_keys: "isSensitiveKey ''token''" "\<not> isSensitiveKey ''n''"
  by code_simp+

lemma sample_redacted: "redacted sample_tree = JObj [(''n'', JNum (Dec 1 0)), (''token'', JStr REDACTED)]"
  by (simp add: sample_tree_def sample_keys)

lemma sample_denotes: "denotes sample_heap (obs_data sample_observation) sample_tree"
proof -
  have "denotes sample_heap (Ref 1) (JArr [scalar_json (String ''x'')])"
    by (rule denotes.array [of sample_heap 1 "[Prim (String ''x'')]"]) (simp_all add: sample_heap_def denotes.prim [of _ "String ''x''", simplified])
  moreover have "denotes sample_heap (Prim (Number (Dec 1 0))) (JNum (Dec 1 0))"
    using denotes.prim [of sample_heap "Number (Dec 1 0)"] by simp
  ultimately show ?thesis
    unfolding sample_observation_def sample_tree_def
    by (auto intro!: denotes.object [of sample_heap 0 "[(''n'', Prim (Number (Dec 1 0))), (''token'', Ref 1)]"] simp: sample_heap_def)
qed

lemma sample_tree_fits:
  "json_depth sample_tree \<le> 64" "storable sample_tree" "observation_ok sample_observation"
  "isBoundedJsonValue (Some (redacted sample_tree))"
proof -
  show "json_depth sample_tree \<le> 64" by (simp add: sample_tree_def)
  show "storable sample_tree"
    using version_num by (simp add: sample_tree_def obj_put_def is_index_key_def char_class_defs del: integer_num.simps)
  show "observation_ok sample_observation"
    by (simp add: observation_ok_def sample_observation_def clean_text_def within_def limit_defs)
  show "isBoundedJsonValue (Some (redacted sample_tree))"
    using length_quote_text [of "''n''"] length_quote_text [of "''token''"] length_quote_text [of REDACTED]
    by (simp add: sample_redacted isBoundedJsonValue_def byte_length_def dec_text_def nat_text.simps [of "Suc 0"] Let_def REDACTED_def)
qed

lemma sample_line_short:
  "byte_length (json_text (JObj (observed_event sample_observation (redacted sample_tree) 1))) < MAX_INGESTION_RECORD_BYTES"
  using length_quote_text [of "''hypothesisId''"] length_quote_text [of "''h''"] length_quote_text [of "''timestamp''"]
    length_quote_text [of "''location''"] length_quote_text [of "''l''"] length_quote_text [of "''message''"]
    length_quote_text [of "''m''"] length_quote_text [of "''data''"] length_quote_text [of "''token''"]
    length_quote_text [of "''n''"] length_quote_text [of REDACTED]
  by (simp add: sample_redacted observed_event_def sample_observation_def byte_length_def limit_defs dec_text_def
      nat_text.simps [of "Suc 0"] Let_def REDACTED_def num_of_int_def norm_dec.simps)

lemma probe_event_stored_witness:
  "\<exists>payload. agentDebugEmit sample_heap sample_observation 1 = Some payload"
  using probe_event_stored [OF sample_denotes sample_tree_fits _ _ sample_line_short sample_inv sample_dir sample_canonical,
      of "\<lparr>req_method = ''POST'', req_pathname = ingest_prefix @ sample_id, req_origin = None,
        req_contentType = Some ''application/x-ndjson'', req_body = []\<rparr>" "\<lambda>_. None" sample_uuid "[]" "\<lambda>_. 7"]
  by (auto simp: isAllowedOrigin_def sample_dir_fields max_safe_integer_def)

text \<open>
  Whatever the heap looks like, shared or cyclic, what a probe sends is one line of at most 64
  KiB, the text of an event whose data has no unredacted value under a sensitive key; and nothing is
  sent when a cycle can be reached without passing a sensitive key.
\<close>

theorem probe_sends_safely:
  assumes "agentDebugEmit heap ob at = Some payload"
  shows "(\<exists>v. leak_free v \<and> payload = json_text (JObj (observed_event ob v at)) @ [CHR 0x0A]
      \<and> CHR 0x0A \<notin> set (json_text (JObj (observed_event ob v at))) \<and> byte_length payload \<le> 65536)
    \<and> \<not> (\<exists>w. (visible heap)\<^sup>*\<^sup>* (obs_data ob) w \<and> (visible heap)\<^sup>+\<^sup>+ w w)"
proof -
  obtain v where v: "agentDebugRedact heap (obs_data ob) [] 0 = Some v" "leak_free v"
    "payload = json_text (JObj (observed_event ob v at)) @ [CHR 0x0A]" "byte_length payload \<le> 65536"
    by (rule agentDebugEmit_sent [OF assms])
  then have "\<exists>v. leak_free v \<and> payload = json_text (JObj (observed_event ob v at)) @ [CHR 0x0A]
      \<and> CHR 0x0A \<notin> set (json_text (JObj (observed_event ob v at))) \<and> byte_length payload \<le> 65536"
    using json_text_one_line by blast
  moreover from v(1) redact_acyclic have "\<not> (\<exists>w. (visible heap)\<^sup>*\<^sup>* (obs_data ob) w \<and> (visible heap)\<^sup>+\<^sup>+ w w)" by blast
  ultimately show ?thesis by blast
qed

lemma probe_sends_safely_witness:
  "\<not> (\<exists>w. (visible sample_heap)\<^sup>*\<^sup>* (Ref 0) w \<and> (visible sample_heap)\<^sup>+\<^sup>+ w w)"
  using probe_sends_safely [OF agentDebugEmit_event [OF sample_denotes sample_tree_fits(1) sample_line_short]]
  by (simp add: sample_observation_def)

section \<open>The command line\<close>

text \<open>
  C35: The hints that \<open>logs\<close> prints can be followed. If the hypotheses of the query are words of
  letters, digits, dots, dashes and underscores, each hint is a command line that parses, to the same
  query at the next or previous offset with the snapshot of this page, or to the status or the reset
  of the session.
\<close>

theorem hints_can_be_followed:
  assumes "fst (logsCommand hmac handle connect now options json s) = Inr r"
    and "lo_snapshot options = None \<or> lo_snapshot options = Some (createSnapshotCursor hmac token p)"
    and "\<forall>x \<in> set (lo_hypotheses options). plain_word x"
    and "0 < lo_limit options" "lo_offset options + lo_limit options \<le> max_safe_integer" "h \<in> set (lr_hints r)"
  shows "parse_line (hint_command h) = Some (Inr
    (if hint_action h = ''previous-page'' then \<lparr>inv_command = Logs (options\<lparr>lo_offset := lo_offset options - lo_limit options,
        lo_snapshot := Some (lr_snapshot r)\<rparr>), inv_json = json\<rparr>
     else if hint_action h = ''next-page'' then \<lparr>inv_command = Logs (options\<lparr>lo_offset := lo_offset options + lo_limit options,
        lo_snapshot := Some (lr_snapshot r)\<rparr>), inv_json = json\<rparr>
     else \<lparr>inv_command = (if hint_action h = ''status'' then Status (lo_session options) else Reset (lo_session options)),
        inv_json = False\<rparr>))"
proof -
  from logsCommand_result [OF assms(1)] obtain snapshot ds page where
    r: "r = logs_result_of options json snapshot ds page" and sid: "isCanonicalSessionId (lo_session options)"
    and snap: "lo_snapshot options = Some snapshot \<or> (\<exists>token p. snapshot = createSnapshotCursor hmac token p)" by blast
  from snap assms(2) have "plain_word snapshot" by (auto simp: createSnapshotCursor_def sealed_plain)
  from logs_hints_parse [OF canonical_word [OF sid] this assms(3-5)] assms(6) r show ?thesis by simp
qed

definition sample_logs_options :: logs_options where
  "sample_logs_options = \<lparr>lo_session = sample_id, lo_hypotheses = [''h1''], lo_offset = 2, lo_limit = 1, lo_snapshot = None\<rparr>"

lemma hints_can_be_followed_witness:
  "\<exists>r h. fst (logsCommand sample_hmac (handleControl sample_env) (give ''t'') 7 sample_logs_options True (sample_daemon [])) = Inr r
    \<and> h \<in> set (lr_hints r) \<and> parse_line (hint_command h) = Some (Inr \<lparr>inv_command = Logs (sample_logs_options
       \<lparr>lo_offset := 1, lo_snapshot := Some (lr_snapshot r)\<rparr>), inv_json = True\<rparr>)"
proof -
  have "options_ok sample_logs_options"
    by (simp add: options_ok_def sample_logs_options_def sample_canonical max_safe_integer_def)
  then obtain r where r: "fst (logsCommand sample_hmac (handleControl sample_env) (give ''t'') 7 sample_logs_options True (sample_daemon [])) = Inr r"
    using logs_first_page [OF sample_inv sample_dir sample_session_json, of sample_logs_options sample_env "[]"] sample_uuid_safe
    by (auto simp: sample_logs_options_def sample_env_def)
  have "\<exists>h \<in> set (logs_hints sample_logs_options True snapshot ds page). hint_action h = ''previous-page''" for snapshot ds page
    by (simp add: logs_hints_def Let_def sample_logs_options_def)
  with logsCommand_result(1) [OF r] obtain h where h: "h \<in> set (lr_hints r)" "hint_action h = ''previous-page''"
    by fastforce
  have plain: "\<forall>x \<in> set (lo_hypotheses sample_logs_options). plain_word x"
    by (simp add: sample_logs_options_def plain_word_def word_char_def char_class_defs)
  from hints_can_be_followed [OF r _ plain _ _ h(1)] h(2) have
    "parse_line (hint_command h) = Some (Inr \<lparr>inv_command = Logs (sample_logs_options
       \<lparr>lo_offset := 1, lo_snapshot := Some (lr_snapshot r)\<rparr>), inv_json = True\<rparr>)"
    by (simp add: sample_logs_options_def max_safe_integer_def)
  with r h(1) show ?thesis by blast
qed

section \<open>The helpers of the other languages\<close>



text \<open>
  C32: The helpers keep of a value what the daemon would keep of it. When a value is a finite
  tree of at most 65 levels whose maps have no key twice, the redactor of each language succeeds, and its
  result has the JSON of the tree with the sensitive members redacted. In Go no value may lie
  within one that has its identity, and keys are in ASCII.
\<close>

theorem helpers_redact_alike:
  assumes "h \<le> 65"
  shows "(full_tree (py_view py) h pv = Some t \<longrightarrow>
      map_option (printed_json scalar_json) (python_redact py pv [] 0) = Some (redacted (printed_json scalar_json t)))
    \<and> (full_tree (rb_view rb) h rv = Some t \<longrightarrow>
      map_option (printed_json scalar_json) (ruby_redact rb rv [] 0) = Some (redacted (printed_json scalar_json t)))
    \<and> (full_tree (php_view ph) h hv = Some t \<longrightarrow>
      map_option (\<lambda>r. printed_json scalar_json (php_encoded r)) (php_Redact ph hv [] 0) = Some (redacted (printed_json scalar_json t)))
    \<and> (full_tree (sw_view sw) h sv = Some t \<longrightarrow>
      map_option (printed_json scalar_json) (swift_RedactValue sw sv [] 0) = Some (redacted (printed_json scalar_json t)))
    \<and> (full_tree (cs_view cs) h (Some cv) = Some t \<longrightarrow>
      map_option (printed_json scalar_json) (csharp_Redact cs cv [] 0) = Some (redacted (printed_json scalar_json t)))
    \<and> (full_tree (java_view jv) h v = Some u \<longrightarrow>
      map_option (printed_json java_json) (java_redact jv v [] 0) = Some (redacted (printed_json java_json u))
      \<and> kotlin_redact jv v [] 0 = java_redact jv v [] 0)
    \<and> (full_tree (go_view go) h gv = Some t \<and> separate (go_IsSecretKey lower) (go_view go) go_Identity gv
        \<and> ascii_case lower \<and> ascii_keys t \<longrightarrow>
      map_option (printed_json scalar_json) (go_RedactValue lower go gv [] 0) = Some (redacted (printed_json scalar_json t)))"
  using redactors_daemon [OF assms] go_daemon [OF assms] by (simp_all add: same_redact)

definition sample_python :: "nat \<Rightarrow> py_node" where
  "sample_python a = (if a = 0 then PyDict [(''n'', PyRef 1), (''token'', PyRef 1)] else PyTuple [PyScalar (String ''x'')])"

lemma helpers_redact_alike_witness:
  "map_option (printed_json scalar_json) (python_redact sample_python (PyRef 0) [] 0) =
    Some (JObj [(''n'', JArr [JStr ''x'']), (''token'', JStr REDACTED)])"
  using helpers_redact_alike [where h = 3 and py = sample_python and pv = "PyRef 0"
    and t = "Keyed [(''n'', Listed [Plain (String ''x'')]), (''token'', Listed [Plain (String ''x'')])]", THEN conjunct1]
  by (simp add: sample_python_def py_view_def numeral_3_eq_3 sample_keys)



text \<open>
  C34: What a helper that writes its JSON by hand appends is captured. If the unread part of a
  session's file is a payload of the C, C++, Rust, Java or Kotlin helper for data within the bounds of the
  schema, then polling stores just one event, with the texts and the time of the observation and its
  data redacted.
\<close>

theorem appended_events_stored:
  assumes "helper_payload ob v at payload" "utf8_observation ob" "observation_ok ob"
    and "CHR 0x00 \<notin> set (obs_hypothesisId ob @ obs_location ob @ obs_message ob)"
    and "utf8_json v" "numbers_ok v" "isBoundedJsonValue (Some v)" "0 \<le> at" "at \<le> int max_safe_integer"
    and "store_inv rnd s" "directory_of s sid = Some d" "incoming_ndjson d = Some bytes" "length bytes \<le> max_safe_integer"
    and "cursor_value (cursor_json d) = Inr c" "drop (effective_offset c bytes) bytes = payload"
    and "i = directAppendEventId sha256 sid (effective_offset c bytes) (sha256 (butlast payload))" "i \<notin> dir_event_ids d"
  shows "\<exists>d'. directory_of ((poll_once sha256 uuid clock sid ^^ Suc (length payload)) s) sid = Some d'
    \<and> dir_events d' = dir_events d @ [stored_observation ob v at i (length (dir_events d) + 1) (clock (effective_offset c bytes))]"
proof -
  from helper_payload_line [OF assms(1,2,5,6,8,9,4)]
  have p: "payload = observed_line ob v at @ [newline]" "length (observed_line ob v at) \<le> MAX_INGESTION_RECORD_BYTES"
    by (simp_all add: MAX_INGESTION_RECORD_BYTES_def)
  from appended_line_stored [OF assms(10-12,14,13) assms(15) [unfolded p(1)] assms(2,5,6,8,9,3,7) p(2)] assms(17) [unfolded assms(16)]
  show ?thesis by (simp add: p(1) assms(16))
qed

definition sample_line :: string where
  "sample_line = observed_line sample_observation (JNum (Dec 1 0)) 1"

lemma sample_line_length: "length sample_line < 65536"
  using length_quote_text [of "''hypothesisId''"] length_quote_text [of "''h''"] length_quote_text [of "''timestamp''"]
    length_quote_text [of "''location''"] length_quote_text [of "''l''"] length_quote_text [of "''message''"]
    length_quote_text [of "''m''"] length_quote_text [of "''data''"]
  by (simp add: sample_line_def observed_line_def observed_event_def sample_observation_def dec_text_def
      nat_text.simps [of "Suc 0"] Let_def num_of_int_def norm_dec.simps)

lemma sample_payload: "helper_payload sample_observation (JNum (Dec 1 0)) 1 (sample_line @ [newline])"
proof -
  have "probe_text ''h''" "probe_text ''l''" "probe_text ''m''" by (simp_all add: probe_text_def)
  then show ?thesis
    using native_lines(1) [of sample_observation "JNum (Dec 1 0)" 1] sample_line_length
    by (simp add: helper_payload_def Let_def sample_observation_def sample_line_def dec_text_def nat_text.simps [of "Suc 0"]
        max_safe_integer_def)
qed

lemma appended_events_stored_witness:
  "\<exists>d'. directory_of ((poll_once id sample_uuid (\<lambda>_. 8) sample_id ^^ Suc (length (sample_line @ [newline])))
      (sample_daemon (sample_line @ [newline]))) sample_id = Some d' \<and> length (dir_events d') = 1"
proof -
  let ?p = "sample_line @ [newline]"
  have utf8: "utf8_observation sample_observation" by (simp add: utf8_observation_def sample_observation_def utf8_ascii)
  have plain: "CHR 0x00 \<notin> set (obs_hypothesisId sample_observation @ obs_location sample_observation @ obs_message sample_observation)"
    by (simp add: sample_observation_def)
  have bounded: "isBoundedJsonValue (Some (JNum (Dec 1 0)))"
    by (simp add: isBoundedJsonValue_def byte_length_def dec_text_def nat_text.simps [of "Suc 0"] Let_def)
  have number: "numbers_ok (JNum (Dec 1 0))" using version_num by simp
  have off: "effective_offset 0 ?p = 0" by (simp add: effective_offset_def)
  have short: "length ?p \<le> max_safe_integer" using sample_line_length by (simp add: max_safe_integer_def)
  have "\<exists>d'. directory_of ((poll_once id sample_uuid (\<lambda>_. 8) sample_id ^^ Suc (length ?p)) (sample_daemon ?p)) sample_id = Some d'
      \<and> dir_events d' = dir_events (sample_directory ?p) @ [stored_observation sample_observation (JNum (Dec 1 0)) 1
        (directAppendEventId id sample_id (effective_offset 0 ?p) (id (butlast ?p))) (length (dir_events (sample_directory ?p)) + 1) 8]"
    by (rule appended_events_stored [OF sample_payload utf8 sample_tree_fits(3) plain _ number bounded _ _ sample_inv sample_dir
        sample_dir_fields(1) short sample_cursor]) (simp_all add: off max_safe_integer_def sample_dir_fields)
  then show ?thesis by (auto simp: sample_dir_fields)
qed

section \<open>Files that are written whole\<close>

text \<open>
  C36: A write of a file is all or nothing. Whatever call of the system fails, at whatever byte, and
  also when all calls fail from some moment on, as after a crash, the file has its old content or the
  new one with mode 0600; when the write returns it has the new one and the temporary file is gone.
  Others may change all files but the two. When no call fails the write returns, and the document is
  read back.
\<close>

theorem atomic_write:
  assumes "p \<noteq> []" "\<nexists>m. fs_nodes w p = Some (Folder m)" "fs_nodes w (temporary_path pid uuid p) = None"
    and "leaves_alone host {p, temporary_path pid uuid p}" "writeJsonAtomic host jitter pid uuid p doc w = (r, v)"
  shows "(case r of
      Inl e \<Rightarrow> fs_nodes v p = fs_nodes w p \<or> fs_nodes v p = Some (Plainfile 0x180 (json_text doc @ [CHR 0x0A]))
    | Inr u \<Rightarrow> fs_nodes v p = Some (Plainfile 0x180 (json_text doc @ [CHR 0x0A])) \<and> fs_nodes v (temporary_path pid uuid p) = None)
    \<and> (quiet_host host \<longrightarrow> tl p \<noteq> [] \<longrightarrow> fs_nodes w (tl p) = Some (Folder m) \<longrightarrow> utf8_json doc \<longrightarrow> numbers_ok doc \<longrightarrow>
        r = Inr () \<and> fst (readJsonFile host p v) = Inr (Some doc))"
proof (intro conjI impI)
  let ?s = "json_text doc @ [CHR 0x0A]" and ?tmp = "temporary_path pid uuid p"
  have alone: "fs_others host n t p = t p" "fs_others host n t ?tmp = t ?tmp" for n t
    using assms(4) by (simp_all add: leaves_alone_def)
  note run = assms(5) [unfolded writeJsonAtomic_def]
  note written = writeTextAtomic_triple [OF assms(1,2) refl alone, where jitter = jitter and s = ?s]
  show "case r of Inl e \<Rightarrow> fs_nodes v p = fs_nodes w p \<or> fs_nodes v p = Some (Plainfile 0x180 ?s)
      | Inr u \<Rightarrow> fs_nodes v p = Some (Plainfile 0x180 ?s) \<and> fs_nodes v ?tmp = None"
  proof (cases r)
    case (Inl e)
    from triple_thrown [OF written _ run [unfolded Inl]] assms(3) Inl show ?thesis by simp
  next
    case (Inr u)
    from triple_returned [OF written _ run [unfolded Inr]] assms(3) Inr show ?thesis by simp
  qed
  assume quiet: "quiet_host host" "tl p \<noteq> []" "fs_nodes w (tl p) = Some (Folder m)"
  obtain n where "writeTextAtomic host jitter pid uuid p ?s w = (Inr (), \<lparr>fs_nodes = (fs_nodes w)(p \<mapsto> Plainfile 0x180 ?s), fs_calls = n\<rparr>)"
    by (rule writeTextAtomic_succeeds [OF quiet(1,3) assms(1) quiet(2) assms(3,2)])
  with run have "r = Inr ()" and v: "fs_nodes v p = Some (Plainfile 0x180 ?s)" by auto
  then show "r = Inr ()" by simp
  assume "utf8_json doc" "numbers_ok doc"
  then show "fst (readJsonFile host p v) = Inr (Some doc)" by (rule readJsonFile_written [OF quiet(1) v])
qed

definition sample_fs :: fs_host where
  "sample_fs = \<lparr>fs_platform = ''linux'', fs_fault = (\<lambda>_. None), fs_cut = (\<lambda>_. 0), fs_others = (\<lambda>_ t. t)\<rparr>"

definition sample_tree_fs :: fs_world where
  "sample_tree_fs = \<lparr>fs_nodes = [[''home''] \<mapsto> Folder 0x1ED], fs_calls = 0\<rparr>"

lemma atomic_write_witness:
  "\<exists>v. writeJsonAtomic sample_fs (\<lambda>_. 0) 7 ''u'' [''f'', ''home''] (JBool True) sample_tree_fs = (Inr (), v)
    \<and> fst (readJsonFile sample_fs [''f'', ''home''] v) = Inr (Some (JBool True))"
proof -
  obtain r v where run: "writeJsonAtomic sample_fs (\<lambda>_. 0) 7 ''u'' [''f'', ''home''] (JBool True) sample_tree_fs = (r, v)" by fastforce
  have "leaves_alone sample_fs D" "quiet_host sample_fs" for D
    by (simp_all add: sample_fs_def leaves_alone_def quiet_host_def)
  then show ?thesis
    using atomic_write [OF _ _ _ _ run, of "0x1ED"] run by (simp add: sample_tree_fs_def temporary_path_def)
qed

text \<open>
  C37: Under POSIX, when \<open>Persistence.open\<close> returns, the state root and the three directories in it
  are real directories with mode 0700, whatever was there before: nothing was reached through a link at
  one of these paths. Calls may fail, though not with a false \<open>ENOENT\<close>, and others leave the four paths alone.
\<close>

theorem private_state_root:
  assumes "fs_platform host \<noteq> ''win32''" "honest_faults host" "leaves_alone host (state_directories homeDirectory)"
    and "persistence_open host homeDirectory w = (Inr root, v)"
  shows "root = ''.agent-debug-mode'' # homeDirectory
    \<and> (\<forall>d\<in>state_directories homeDirectory. fs_nodes v d = Some (Folder 0x1C0))"
proof -
  from assms(4) have run: "initializeStateRoot host homeDirectory w = (Inr root, v)" by (simp add: persistence_open_def)
  have "private_folders (state_directories homeDirectory) (fs_nodes v)"
    by (rule triple_returned [OF initializeStateRoot_triple [OF assms(2,3,1)] _ run]) simp
  moreover from run have "root = resolveStateRoot homeDirectory"
    by (rule initializeStateRoot_result)
  ultimately show ?thesis by (simp add: private_folders_def resolveStateRoot_def)
qed

lemma sample_opened: "\<exists>root v. persistence_open sample_fs [''home''] sample_tree_fs = (Inr root, v)"
proof -
  have "quiet_host sample_fs" by (simp add: sample_fs_def quiet_host_def)
  moreover have "fs_nodes sample_tree_fs [''home''] = Some (Folder 0x1ED)" by (simp add: sample_tree_fs_def)
  moreover have "fs_nodes sample_tree_fs d = None" if "d \<in> state_directories [''home'']" for d
    using that by (auto simp: sample_tree_fs_def state_directories_def Let_def resolveStateRoot_def)
  ultimately have "\<exists>v. initializeStateRoot sample_fs [''home''] sample_tree_fs = (Inr (resolveStateRoot [''home'']), v)"
    by (rule state_root_made)
  then show ?thesis unfolding persistence_open_def by blast
qed

lemma private_state_root_witness:
  "\<exists>v. persistence_open sample_fs [''home''] sample_tree_fs = (Inr [''.agent-debug-mode'', ''home''], v)
    \<and> fs_nodes v [''tmp'', ''.agent-debug-mode'', ''home''] = Some (Folder 0x1C0)"
proof -
  have others: "honest_faults sample_fs" "leaves_alone sample_fs D" for D
    by (simp_all add: sample_fs_def honest_faults_def leaves_alone_def)
  obtain root v where run: "persistence_open sample_fs [''home''] sample_tree_fs = (Inr root, v)"
    using sample_opened by blast
  from private_state_root [OF _ others run] run show ?thesis
    by (auto simp: sample_fs_def state_directories_def Let_def resolveStateRoot_def)
qed

section \<open>Streams and the end of the daemon\<close>

text \<open>
  C38: While a response with an event stream is written the daemon holds a lease, so no idle timeout is
  pending, whatever other requests do. When the response ends, by its body, by an error or because
  the client has gone, the lease is given back once and the reader is cancelled. What was sent is a
  prefix of the chunks of the body, and all of it, with an end, if the client stayed.
\<close>

theorem stream_holds_lease:
  assumes "activity_inv (con_tracker c)" "\<not> stopped (con_tracker c)" "is_event_stream response"
    and "web_body response = Some body" "i = length (closures (con_tracker c))"
    and "rounds_work i (body_rounds body)" "others_work i (cancel_others body)"
    and "writeWebResponse response c = (how, d)"
  shows "(how = StillWaiting \<longrightarrow> 0 < leases (con_tracker d) \<and> pending (con_tracker d) = (\<lambda>_. None))
    \<and> (how \<noteq> StillWaiting \<longrightarrow> readers_cancelled d = readers_cancelled c + 1
        \<and> activity_inv (con_tracker d) \<and> (closures (con_tracker d) ! i = Some True \<or> stopped (con_tracker d)))
    \<and> (\<exists>n. sent d = sent c @ take n (chunks_read (body_rounds body)))
    \<and> (how = LoopLeft \<and> \<not> out_destroyed d \<and> \<not> signal_aborted d \<longrightarrow>
        sent d = sent c @ chunks_read (body_rounds body) \<and> out_ended d)"
proof -
  have "activity_inv (releaseLease i t)" "closures (releaseLease i t) ! i = Some True \<or> stopped (releaseLease i t)"
    if "holds_lease i t" for t
    using released_lease [OF that] by (auto simp: stopped_steps)
  then have "activity_inv (con_tracker d) \<and> (closures (con_tracker d) ! i = Some True \<or> stopped (con_tracker d))"
    if "how \<noteq> StillWaiting"
    using stream_written [OF assms] that by metis
  with stream_written [OF assms] holds_lease_quiet [of i "con_tracker d"] show ?thesis by blast
qed

definition sample_connection :: connection where
  "sample_connection = \<lparr>out_destroyed = False, signal_aborted = False, out_status = 0, out_headers = [], headers_sent = False,
     sent = [], out_ended = False, readers_cancelled = 0, con_tracker = startTracker 0 0\<rparr>"

definition sample_round :: "read_result \<Rightarrow> stream_round" where
  "sample_round r = \<lparr>round_events = [], round_others = touch, round_read = r, round_ready = False, round_drain = [OutDrain],
     round_others_drain = (\<lambda>t. t)\<rparr>"

definition sample_stream :: web_response where
  "sample_stream = \<lparr>web_status = 200, web_headers = [(''content-type'', ''text/event-stream'')],
     web_body = Some \<lparr>body_rounds = [sample_round (Chunk ''a''), sample_round BodyDone], cancel_events = [], cancel_others = (\<lambda>t. t)\<rparr>\<rparr>"

lemma stream_holds_lease_witness:
  "\<exists>d. writeWebResponse sample_stream sample_connection = (LoopLeft, d) \<and> sent d = [''a''] \<and> out_ended d
    \<and> (closures (con_tracker d) ! 0 = Some True \<or> stopped (con_tracker d))"
proof -
  obtain how d where run: "writeWebResponse sample_stream sample_connection = (how, d)" by fastforce
  have touch: "others_work i touch" for i
    by (simp add: others_work_def holds_lease_def touch_keeps_inv)
  let ?body = "\<lparr>body_rounds = [sample_round (Chunk ''a''), sample_round BodyDone], cancel_events = [], cancel_others = (\<lambda>t. t)\<rparr>"
  have start: "activity_inv (con_tracker sample_connection)" "\<not> stopped (con_tracker sample_connection)"
    "0 = length (closures (con_tracker sample_connection))"
    by (simp_all add: sample_connection_def startTracker_inv) (simp_all add: startTracker_def)
  have "how = LoopLeft \<and> \<not> out_destroyed d \<and> \<not> signal_aborted d"
    using run by (simp add: writeWebResponse_def is_event_stream_def sample_stream_def sample_connection_def sample_round_def pump.simps
      Let_def on_tracker_def meanwhile_def outgoing_write_def waitForDrain_result outgoing_end_def) auto
  moreover have "is_event_stream sample_stream" "web_body sample_stream = Some ?body"
    by (simp_all add: is_event_stream_def sample_stream_def)
  moreover have "rounds_work 0 (body_rounds ?body)" "others_work 0 (cancel_others ?body)"
    using touch by (simp_all add: rounds_work_def sample_round_def others_work_def)
  ultimately show ?thesis
    using stream_holds_lease [OF start(1,2) _ _ start(3) _ _ run, of ?body] run by (auto simp: sample_connection_def sample_round_def)
qed



section \<open>The templates that are given out\<close>

text \<open>
  C40: The command \<open>template\<close> gives a complete template or says that there is none. Its table of
  placeholders has exactly those that occur in the two texts, the place where events go is the one
  for the way of ingestion, the language and the way that it names are names for it, and the texts
  are printed line by line. It fails exactly when no template has the language and the way.
\<close>

theorem templates_rendered:
  assumes "ascii_case lower"
  shows "case templateCommand lower language way of
      Succeeded r \<Rightarrow> (\<exists>t rest. renderTemplate lower language way = Inr t
        \<and> renderTemplate lower (tpl_language t) (tpl_ingest t) = Inr t
        \<and> set (map fst (tpl_placeholders t)) = set (placeholders_from [] (template_texts t))
        \<and> (if lower way = ''http'' then ''__INGEST_URL__'' else ''__APPEND_PATH__'') \<in> set (placeholders_from [] (tpl_helper t))
        \<and> renderData env r = ''HELPER TEMPLATE'' # split_on CHR 0x0A (tpl_helper t)
            @ [[], ''CALL TEMPLATE''] @ split_on CHR 0x0A (tpl_call t) @ rest)
    | Failed e \<Rightarrow> oe_code e = ''UNSUPPORTED_TEMPLATE'' \<and> oe_message e = unsupported_message (UnsupportedTemplate language way)
        \<and> (\<nexists>t. t \<in> snd ` set template_table \<and> normalizeLanguage lower language = Some (tpl_language t) \<and> lower way = tpl_ingest t)"
proof (cases "renderTemplate lower language way")
  case (Inl e)
  with renderTemplate_error [OF Inl] renderTemplate_iff [of lower language way]
  show ?thesis by (auto simp: templateCommand_def)
next
  case (Inr t)
  then have t: "t \<in> snd ` set template_table" "lower way = tpl_ingest t" by (simp_all add: renderTemplate_iff)
  have "renderTemplate lower (tpl_language t) (tpl_ingest t) = Inr t"
    using template_names [OF assms t(1)] t(1) by (simp add: renderTemplate_iff)
  moreover have "template_complete t" using templates_complete t(1) by blast
  ultimately show ?thesis
    using Inr t(2) template_printed [OF t(1)]
    by (auto simp: templateCommand_def template_complete_def renderData_def command_data_def)
qed

lemma templates_rendered_witness:
  "\<exists>r. templateCommand (map ascii_lower) ''PY'' ''File'' = Succeeded r
    \<and> (\<forall>env. \<exists>rest. renderData env r = ''HELPER TEMPLATE'' # split_on CHR 0x0A (tpl_helper renderPythonTemplate) @ rest)"
proof -
  have python: "renderTemplate (map ascii_lower) ''PY'' ''File'' = Inr renderPythonTemplate"
    by (simp add: renderTemplate_def normalizeLanguage_def template_table_def is_upper_def)
  then obtain r where r: "templateCommand (map ascii_lower) ''PY'' ''File'' = Succeeded r" by (simp add: templateCommand_def)
  have lower: "ascii_case (map ascii_lower)" by (simp add: ascii_case_def)
  have "\<exists>rest. renderData env r = ''HELPER TEMPLATE'' # split_on CHR 0x0A (tpl_helper renderPythonTemplate) @ rest" for env
  proof -
    obtain rest where "renderData env r = ''HELPER TEMPLATE'' # split_on CHR 0x0A (tpl_helper renderPythonTemplate)
        @ [[], ''CALL TEMPLATE''] @ split_on CHR 0x0A (tpl_call renderPythonTemplate) @ rest"
      using templates_rendered [OF lower, of "''PY''" "''File''" env] unfolding r python by auto
    then show ?thesis by blast
  qed
  with r show ?thesis by blast
qed

end
